(* ===== verification/Rns_Prelude.thy ===== *)
theory Rns_Prelude
  imports
    Main
    "HOL-Library.Word"
    "HOL-Library.AList"
    "HOL-Library.List_Lexorder"
    "HOL-Library.Product_Lexorder"
begin

text \<open>
  Shared vocabulary of the development: the machine integers and byte strings of the Rust
  sources, the crate's error enumeration, the result type of fallible code that mutates a
  buffer, and the two map types of the standard library the tables are built on.

  Conventions used by every component theory:
  \<^item> \<^verbatim>\<open>u8\<close>, \<^verbatim>\<open>u16\<close>, \<^verbatim>\<open>u32\<close>, \<^verbatim>\<open>u64\<close> are words of that width, \<^verbatim>\<open>usize\<close> is \<open>nat\<close>;
  \<^item> \<^verbatim>\<open>Instant\<close> and \<^verbatim>\<open>Duration\<close> are natural numbers of nanoseconds; every clock reading of the
    code is an explicit argument of the definition that models it;
  \<^item> \<^verbatim>\<open>Result<T, RnsError>\<close> is \<open>rns_error + 'a\<close> with \<open>Inl\<close> the error; a function that takes
    \<^verbatim>\<open>&mut self\<close> returns the updated state beside its result;
  \<^item> a Rust panic is the value \<open>None\<close> of an \<open>option\<close> where the source can panic.
\<close>

unbundle bit_operations_syntax

declare Let_def [simp]

section \<open>Machine integers and bytes\<close>

type_synonym u8 = "8 word"
type_synonym u16 = "16 word"
type_synonym u32 = "32 word"
type_synonym u64 = "64 word"
type_synonym bytes = "u8 list"
type_synonym nanos = nat

abbreviation secs :: "nat \<Rightarrow> nanos" where
  "secs n \<equiv> n * 1000000000"

abbreviation millis :: "nat \<Rightarrow> nanos" where
  "millis n \<equiv> n * 1000000"

named_theorems wire_simps \<open>unfolding rules of the wire codecs\<close>
named_theorems table_simps \<open>unfolding rules of the routing tables\<close>

text \<open>\<^verbatim>\<open>u8::saturating_add(1)\<close>.\<close>

definition sat_inc8 :: "u8 \<Rightarrow> u8" where
  "sat_inc8 x = (if x = 255 then 255 else x + 1)"

lemma u8_255_conv: "x = (255 :: u8) \<longleftrightarrow> unat x = 255"
  by (simp add: word_unat_eq_iff)

lemma unat_u8_less: "unat (x :: u8) < 256"
  using unsigned_less [of x] by simp

lemma unat_sat_inc8: "unat (sat_inc8 x) = min 255 (unat x + 1)"
proof (cases "x = 255")
  case True
  then show ?thesis by (simp add: sat_inc8_def)
next
  case False
  then have "unat x < 255"
    using unat_u8_less [of x] by (simp add: u8_255_conv)
  then have "unat (x + 1) = unat x + 1"
    by (simp add: unat_word_ariths)
  with False \<open>unat x < 255\<close> show ?thesis
    by (simp add: sat_inc8_def)
qed

lemma sat_inc8_no_wrap: "(x :: u8) < 128 \<Longrightarrow> sat_inc8 x = x + 1"
  by (auto simp: sat_inc8_def word_less_nat_alt)

lemma unat_inc8: "(x :: u8) < 128 \<Longrightarrow> unat (x + 1) = unat x + 1"
  by (simp add: word_less_nat_alt unat_word_ariths)

text \<open>Big-endian integers, \<^verbatim>\<open>to_be_bytes\<close> and \<^verbatim>\<open>from_be_bytes\<close>, on natural numbers.\<close>

primrec be_encode :: "nat \<Rightarrow> nat \<Rightarrow> bytes" where
  "be_encode 0 n = []"
| "be_encode (Suc w) n = word_of_nat (n div 256 ^ w mod 256) # be_encode w n"

fun be_decode :: "bytes \<Rightarrow> nat" where
  "be_decode [] = 0"
| "be_decode (b # bs) = unat b * 256 ^ length bs + be_decode bs"

lemma length_be_encode [simp]: "length (be_encode w n) = w"
  by (induction w) auto

lemma be_decode_bound: "be_decode bs < 256 ^ length bs"
proof (induction bs)
  case (Cons b bs)
  have "unat b * 256 ^ length bs + be_decode bs < (unat b + 1) * 256 ^ length bs"
    using Cons.IH by simp
  also have "\<dots> \<le> 256 * 256 ^ length bs"
    using unat_u8_less [of b] by (intro mult_right_mono) auto
  finally show ?case by simp
qed simp

lemma be_encode_mod: "be_encode w (n mod 256 ^ w) = be_encode w n"
proof -
  have "be_encode v (n mod 256 ^ w) = be_encode v n" if "v \<le> w" for v
    using that
  proof (induction v)
    case (Suc v)
    then obtain k where k: "w = Suc v + k"
      using le_Suc_ex by blast
    have "n mod 256 ^ w div 256 ^ v mod 256 = n div 256 ^ v mod 256"
    proof -
      have "(256::nat) ^ w = 256 ^ v * (256 * 256 ^ k)"
        by (simp add: k power_add)
      then have "n mod 256 ^ w = n mod 256 ^ v + 256 ^ v * (n div 256 ^ v mod (256 * 256 ^ k))"
        by (simp only: mod_mult2_eq add.commute)
      then have "n mod 256 ^ w div 256 ^ v = n div 256 ^ v mod (256 * 256 ^ k)"
        by simp
      then show ?thesis by (simp add: mod_mod_cancel)
    qed
    with Suc show ?case by simp
  qed simp
  then show ?thesis by simp
qed

lemma be_decode_encode: "be_decode (be_encode w n) = n mod 256 ^ w"
proof (induction w)
  case (Suc w)
  have "unat (word_of_nat (n div 256 ^ w mod 256) :: u8) = n div 256 ^ w mod 256"
    by (simp add: unat_of_nat)
  moreover have "n mod 256 ^ Suc w = 256 ^ w * (n div 256 ^ w mod 256) + n mod 256 ^ w"
    using mod_mult2_eq [of n "256 ^ w" 256] by (simp add: mult.commute)
  ultimately show ?case
    using Suc by (simp add: mult.commute)
qed simp

lemma be_encode_decode: "be_encode (length bs) (be_decode bs) = bs"
proof (induction bs)
  case (Cons b bs)
  let ?p = "256 ^ length bs :: nat"
  have bnd: "be_decode bs < ?p" by (rule be_decode_bound)
  have "(unat b * ?p + be_decode bs) div ?p mod 256 = unat b"
    using bnd unat_u8_less [of b] by simp
  moreover have "be_encode (length bs) (unat b * ?p + be_decode bs) = bs"
  proof -
    have "(unat b * ?p + be_decode bs) mod ?p = be_decode bs"
      using bnd by simp
    then show ?thesis
      using be_encode_mod [of "length bs" "unat b * ?p + be_decode bs"] Cons.IH by simp
  qed
  ultimately show ?case by simp
qed simp

section \<open>Errors and fallible, state-changing code\<close>

text \<open>\<^verbatim>\<open>reticulum-core/src/error.rs\<close>: the error enumeration of the crate.\<close>

datatype rns_error =
    ResourceMsg string
  | OutOfMemory
  | InvalidArgument
  | IncorrectSignature
  | IncorrectHash
  | CryptoError
  | PacketError
  | ConnectionError
  | LinkClosed
  | LinkNotReady
  | ChannelError
  | ChannelMessageTooBig
  | ChannelUnknownMessageType
  | Resource
  | Storage
  | Request
  | Iface
  | Unsupported

type_synonym 'a result = "rns_error + 'a"

text \<open>
  A method with \<^verbatim>\<open>&mut self\<close> returning a \<^verbatim>\<open>Result\<close> keeps what it has written before an error.
  \<open>res_bind\<close> is the \<^verbatim>\<open>?\<close> operator: it stops at the first error and keeps the state reached.
\<close>

type_synonym ('s, 'a) res = "'s \<Rightarrow> 'a result \<times> 's"

definition res_return :: "'a \<Rightarrow> ('s, 'a) res" where
  "res_return a = (\<lambda>s. (Inr a, s))"

definition res_throw :: "rns_error \<Rightarrow> ('s, 'a) res" where
  "res_throw e = (\<lambda>s. (Inl e, s))"

definition res_bind :: "('s, 'a) res \<Rightarrow> ('a \<Rightarrow> ('s, 'b) res) \<Rightarrow> ('s, 'b) res" where
  "res_bind m f = (\<lambda>s. case m s of (Inl e, s') \<Rightarrow> (Inl e, s') | (Inr a, s') \<Rightarrow> f a s')"

lemma res_bind_assoc: "res_bind (res_bind m f) g = res_bind m (\<lambda>a. res_bind (f a) g)"
  by (auto simp: res_bind_def fun_eq_iff split: prod.splits sum.splits)

lemma res_bind_return [simp]:
  "res_bind (res_return a) f = f a" "res_bind m res_return = m"
  by (auto simp: res_bind_def res_return_def fun_eq_iff split: prod.splits sum.splits)

lemma res_bind_throw [simp]: "res_bind (res_throw e) f = res_throw e"
  by (simp add: res_bind_def res_throw_def)

lemma res_bind_Inr: "m s = (Inr a, s') \<Longrightarrow> res_bind m f s = f a s'"
  by (simp add: res_bind_def)

lemma res_bind_Inl: "m s = (Inl e, s') \<Longrightarrow> res_bind m f s = (Inl e, s')"
  by (simp add: res_bind_def)

section \<open>Runs of operations\<close>

text \<open>
  A component with a state and operations on it: an invariant that every admissible operation
  keeps holds after every run.
\<close>

locale step_system =
  fixes step :: "'op \<Rightarrow> 's \<Rightarrow> 's"
    and inv :: "'s \<Rightarrow> bool"
    and good :: "'op \<Rightarrow> bool"
  assumes step_inv: "inv s \<Longrightarrow> good x \<Longrightarrow> inv (step x s)"
begin

lemma run_inv: "inv s \<Longrightarrow> list_all good xs \<Longrightarrow> inv (fold step xs s)"
  by (induction xs arbitrary: s) (auto simp: step_inv)

lemma run_induct [consumes 2, case_names init step]:
  assumes "inv s" "list_all good xs" "P [] s"
    and "\<And>ys x. inv (fold step ys s) \<Longrightarrow> good x \<Longrightarrow> P ys (fold step ys s)
           \<Longrightarrow> P (ys @ [x]) (step x (fold step ys s))"
  shows "P xs (fold step xs s)"
  using assms(2)
proof (induction xs rule: rev_induct)
  case Nil
  then show ?case using assms(3) by simp
next
  case (snoc x xs)
  then show ?case
    using assms(4) [of xs x] run_inv [OF assms(1), of xs] by simp
qed

end

section \<open>Maps of the standard library\<close>

text \<open>
  The contract of a finite map, and the idioms the tables use on top of it. \<open>get\<close>, \<open>ins\<close>, \<open>rem\<close>
  and \<open>keep\<close> are \<^verbatim>\<open>get\<close>, \<^verbatim>\<open>insert\<close>, \<^verbatim>\<open>remove\<close> and \<^verbatim>\<open>retain\<close>.
\<close>

locale finite_table =
  fixes get :: "'m \<Rightarrow> 'k \<Rightarrow> 'v option"
    and ins :: "'k \<Rightarrow> 'v \<Rightarrow> 'm \<Rightarrow> 'm"
    and rem :: "'k \<Rightarrow> 'm \<Rightarrow> 'm"
    and keep :: "('k \<Rightarrow> 'v \<Rightarrow> bool) \<Rightarrow> 'm \<Rightarrow> 'm"
    and inv :: "'m \<Rightarrow> bool"
  assumes get_ins: "inv m \<Longrightarrow> get (ins k v m) k' = (if k' = k then Some v else get m k')"
    and get_rem: "inv m \<Longrightarrow> get (rem k m) k' = (if k' = k then None else get m k')"
    and get_keep: "inv m \<Longrightarrow>
          get (keep P m) k = (case get m k of None \<Rightarrow> None | Some v \<Rightarrow> if P k v then Some v else None)"
    and inv_ins: "inv m \<Longrightarrow> inv (ins k v m)"
    and inv_rem: "inv m \<Longrightarrow> inv (rem k m)"
    and inv_keep: "inv m \<Longrightarrow> inv (keep P m)"
begin

lemma inv_fold_rem: "inv m \<Longrightarrow> inv (fold rem ks m)"
  by (induction ks arbitrary: m) (auto simp: inv_rem)

lemma get_fold_rem: "inv m \<Longrightarrow> get (fold rem ks m) k = (if k \<in> set ks then None else get m k)"
  by (induction ks arbitrary: m) (auto simp: inv_rem get_rem)

lemma collect_then_remove:
  assumes "inv m" and "\<And>k v. get m k = Some v \<Longrightarrow> k \<in> set ks \<longleftrightarrow> \<not> P k v"
  shows "get (fold rem ks m) k = get (keep P m) k"
  using assms by (auto simp: get_fold_rem get_keep split: option.splits)

lemma keep_idem: "inv m \<Longrightarrow> get (keep P (keep P m)) k = get (keep P m) k"
  by (auto simp: get_keep inv_keep split: option.splits)

lemma ins_ins: "inv m \<Longrightarrow> get (ins k w (ins k v m)) k' = get (ins k w m) k'"
  by (simp add: get_ins inv_ins)

lemma rem_ins: "inv m \<Longrightarrow> get (rem k (ins k v m)) k' = get (rem k m) k'"
  by (simp add: get_ins get_rem inv_ins)

end

subsection \<open>HashMap\<close>

text \<open>
  \<^verbatim>\<open>HashMap<K, V>\<close>: an association list with distinct keys. The iteration order of a Rust hash
  map is unspecified; the list fixes one order, and theorems about iteration results speak about
  them as sets.
\<close>

type_synonym ('k, 'v) hash_map = "('k \<times> 'v) list"

abbreviation hm_get :: "('k, 'v) hash_map \<Rightarrow> 'k \<Rightarrow> 'v option" where
  "hm_get m k \<equiv> map_of m k"

abbreviation hm_insert :: "'k \<Rightarrow> 'v \<Rightarrow> ('k, 'v) hash_map \<Rightarrow> ('k, 'v) hash_map" where
  "hm_insert k v m \<equiv> AList.update k v m"

abbreviation hm_remove :: "'k \<Rightarrow> ('k, 'v) hash_map \<Rightarrow> ('k, 'v) hash_map" where
  "hm_remove k m \<equiv> AList.delete k m"

definition hm_retain :: "('k \<Rightarrow> 'v \<Rightarrow> bool) \<Rightarrow> ('k, 'v) hash_map \<Rightarrow> ('k, 'v) hash_map" where
  "hm_retain P m = filter (\<lambda>(k, v). P k v) m"

definition hm_ok :: "('k, 'v) hash_map \<Rightarrow> bool" where
  "hm_ok m = distinct (map fst m)"

lemma hm_ok_Nil [simp]: "hm_ok []"
  by (simp add: hm_ok_def)

lemma map_of_filter_distinct:
  "distinct (map fst m) \<Longrightarrow>
     map_of (filter (\<lambda>(k, v). P k v) m) k =
       (case map_of m k of None \<Rightarrow> None | Some v \<Rightarrow> if P k v then Some v else None)"
  by (induction m) (auto split: option.splits simp: rev_image_eqI map_of_eq_None_iff)

lemma distinct_filter_fst: "distinct (map fst m) \<Longrightarrow> distinct (map fst (filter P m))"
  by (induction m) auto

interpretation hm: finite_table map_of AList.update AList.delete hm_retain hm_ok
proof unfold_locales
  fix m :: "('a, 'b) hash_map" and k k' v
  show "map_of (AList.update k v m) k' = (if k' = k then Some v else map_of m k')"
    by (simp add: update_conv')
  show "map_of (AList.delete k m) k' = (if k' = k then None else map_of m k')"
    by (simp add: delete_conv')
next
  fix m :: "('a, 'b) hash_map" and P k
  assume "hm_ok m"
  then show "map_of (hm_retain P m) k =
      (case map_of m k of None \<Rightarrow> None | Some v \<Rightarrow> if P k v then Some v else None)"
    unfolding hm_retain_def hm_ok_def by (rule map_of_filter_distinct)
  from \<open>hm_ok m\<close> show "hm_ok (hm_retain P m)"
    unfolding hm_retain_def hm_ok_def by (rule distinct_filter_fst)
qed (auto simp: hm_ok_def distinct_update distinct_delete)

lemma mem_keys_filter:
  assumes "hm_ok m" and "map_of m k = Some v"
  shows "k \<in> set (map fst (filter (\<lambda>(k, v). P k v) m)) \<longleftrightarrow> P k v"
proof -
  have "k \<in> set (map fst (filter (\<lambda>(k, v). P k v) m)) \<longleftrightarrow>
      map_of (filter (\<lambda>(k, v). P k v) m) k \<noteq> None"
    by (simp add: map_of_eq_None_iff)
  also have "\<dots> \<longleftrightarrow> P k v"
    using assms by (simp add: map_of_filter_distinct hm_ok_def)
  finally show ?thesis .
qed

lemma length_hm_retain: "length (hm_retain P m) \<le> length m"
  by (simp add: hm_retain_def)

text \<open>\<^verbatim>\<open>if let Some(v) = map.get_mut(&k) { ... }\<close>: the value of a present key is rewritten in place.\<close>

definition hm_modify :: "'k \<Rightarrow> ('v \<Rightarrow> 'v) \<Rightarrow> ('k, 'v) hash_map \<Rightarrow> ('k, 'v) hash_map" where
  "hm_modify k f m = map (\<lambda>(k', v). (k', if k' = k then f v else v)) m"

lemma map_fst_hm_modify [simp]: "map fst (hm_modify k f m) = map fst m"
  by (simp add: hm_modify_def case_prod_beta comp_def)

lemma hm_ok_modify [simp]: "hm_ok (hm_modify k f m) = hm_ok m"
  by (simp add: hm_ok_def)

lemma length_hm_modify [simp]: "length (hm_modify k f m) = length m"
  by (simp add: hm_modify_def)

lemma map_of_hm_modify:
  "map_of (hm_modify k f m) k' = (if k' = k then map_option f (map_of m k) else map_of m k')"
  by (induction m) (auto simp: hm_modify_def)

subsection \<open>BTreeMap\<close>

text \<open>
  \<^verbatim>\<open>BTreeMap<K, V>\<close>: an association list whose keys are strictly increasing, which is the order
  in which the code iterates.
\<close>

type_synonym ('k, 'v) btree_map = "('k \<times> 'v) list"

fun bm_insert :: "'k::linorder \<Rightarrow> 'v \<Rightarrow> ('k, 'v) btree_map \<Rightarrow> ('k, 'v) btree_map" where
  "bm_insert k v [] = [(k, v)]"
| "bm_insert k v ((a, b) # m) =
     (if k < a then (k, v) # (a, b) # m
      else if k = a then (k, v) # m
      else (a, b) # bm_insert k v m)"

definition bm_ok :: "('k::linorder, 'v) btree_map \<Rightarrow> bool" where
  "bm_ok m = sorted_wrt (<) (map fst m)"

lemma bm_ok_Nil [simp]: "bm_ok []"
  by (simp add: bm_ok_def)

lemma bm_ok_modify [simp]: "bm_ok (hm_modify k f m) = bm_ok m"
  by (simp add: bm_ok_def)

lemma bm_ok_hm_ok: "bm_ok m \<Longrightarrow> hm_ok m"
  by (simp add: bm_ok_def hm_ok_def strict_sorted_iff)

lemma set_fst_bm_insert: "set (map fst (bm_insert k v m)) = insert k (set (map fst m))"
  by (induction k v m rule: bm_insert.induct) auto

lemma map_of_bm_insert: "map_of (bm_insert k v m) = (map_of m)(k \<mapsto> v)"
  by (induction k v m rule: bm_insert.induct) (auto simp: fun_eq_iff)

lemma bm_ok_insert: "bm_ok m \<Longrightarrow> bm_ok (bm_insert k v m)"
proof (induction k v m rule: bm_insert.induct)
  case (2 k v a b m)
  have "fst ` set (bm_insert k v m) = insert k (fst ` set m)"
    using set_fst_bm_insert [of k v m] by simp
  with 2 show ?case
    by (auto simp: bm_ok_def)
qed (simp add: bm_ok_def)

lemma sorted_wrt_filter_fst:
  "sorted_wrt R (map fst m) \<Longrightarrow> sorted_wrt R (map fst (filter P m))"
  by (induction m) auto

lemma delete_conv_filter: "AList.delete k m = filter (\<lambda>(k', _). k \<noteq> k') m"
  by (simp add: AList.delete_eq)

lemma length_bm_insert_le: "length (bm_insert k v m) \<le> length m + 1"
  by (induction k v m rule: bm_insert.induct) auto

lemma length_delete_present:
  "map_of m k = Some v \<Longrightarrow> length (AList.delete k m) < length m"
  unfolding delete_conv_filter by (rule length_filter_less [OF map_of_SomeD]) simp_all

lemma length_hm_remove: "length (hm_remove k m) \<le> length m"
  by (simp add: delete_conv_filter)

lemma list_all_hm_remove: "list_all P m \<Longrightarrow> list_all P (hm_remove k m)"
  by (auto simp: delete_conv_filter list_all_iff)

lemma list_all_bm_insert: "P (k, v) \<Longrightarrow> list_all P m \<Longrightarrow> list_all P (bm_insert k v m)"
  by (induction k v m rule: bm_insert.induct) auto

lemma list_all_hm_modify:
  "list_all P m \<Longrightarrow> (\<And>k v. P (k, v) \<Longrightarrow> k = k0 \<Longrightarrow> P (k, f v)) \<Longrightarrow> list_all P (hm_modify k0 f m)"
  by (auto simp: hm_modify_def list_all_iff)

interpretation bm: finite_table map_of bm_insert AList.delete hm_retain bm_ok
proof unfold_locales
  fix m :: "('a::linorder, 'b) btree_map" and k k' v
  show "map_of (bm_insert k v m) k' = (if k' = k then Some v else map_of m k')"
    by (simp add: map_of_bm_insert)
  show "map_of (AList.delete k m) k' = (if k' = k then None else map_of m k')"
    by (simp add: delete_conv')
next
  fix m :: "('a::linorder, 'b) btree_map" and P k
  assume ok: "bm_ok m"
  then show "map_of (hm_retain P m) k =
      (case map_of m k of None \<Rightarrow> None | Some v \<Rightarrow> if P k v then Some v else None)"
    by (intro hm.get_keep bm_ok_hm_ok)
  from ok show "bm_ok (hm_retain P m)"
    by (simp add: bm_ok_def hm_retain_def sorted_wrt_filter_fst)
  from ok show "bm_ok (AList.delete k m)"
    by (simp add: bm_ok_def delete_conv_filter sorted_wrt_filter_fst)
qed (rule bm_ok_insert)

subsection \<open>Properties of all entries\<close>

definition tbl_all :: "('k \<Rightarrow> 'v \<Rightarrow> bool) \<Rightarrow> ('k \<times> 'v) list \<Rightarrow> bool" where
  "tbl_all P m = list_all (\<lambda>(k, v). P k v) m"

lemma tbl_all_Nil [simp]: "tbl_all P []"
  by (simp add: tbl_all_def)

lemma tbl_all_get: "tbl_all P m \<Longrightarrow> map_of m k = Some v \<Longrightarrow> P k v"
  by (auto simp: tbl_all_def list_all_iff dest: map_of_SomeD)

lemma tbl_all_update: "tbl_all P m \<Longrightarrow> P k v \<Longrightarrow> tbl_all P (AList.update k v m)"
  by (induction m) (auto simp: tbl_all_def)

lemma tbl_all_bm_insert: "tbl_all P m \<Longrightarrow> P k v \<Longrightarrow> tbl_all P (bm_insert k v m)"
  by (induction k v m rule: bm_insert.induct) (auto simp: tbl_all_def)

lemma tbl_all_delete: "tbl_all P m \<Longrightarrow> tbl_all P (AList.delete k m)"
  by (auto simp: tbl_all_def delete_conv_filter list_all_iff)

lemma tbl_all_retain: "tbl_all P m \<Longrightarrow> tbl_all P (hm_retain Q m)"
  by (auto simp: tbl_all_def hm_retain_def list_all_iff)

lemma tbl_all_modify:
  "tbl_all P m \<Longrightarrow> (\<And>v. P k v \<Longrightarrow> P k (f v)) \<Longrightarrow> tbl_all P (hm_modify k f m)"
  by (induction m) (auto simp: tbl_all_def hm_modify_def)

lemmas tbl_all_intros = tbl_all_update tbl_all_bm_insert tbl_all_delete tbl_all_retain

section \<open>Lists\<close>

lemma take_append_length [simp]: "take (length xs) (xs @ ys) = xs"
  by simp

lemma drop_append_length [simp]: "drop (length xs) (xs @ ys) = ys"
  by simp

text \<open>\<^verbatim>\<open>VecDeque\<close> bounded from the front: the \<^verbatim>\<open>while len > cap { pop_front() }\<close> loop.\<close>

fun trim_front :: "nat \<Rightarrow> 'a list \<Rightarrow> 'a list" where
  "trim_front cap [] = []"
| "trim_front cap (x # xs) = (if cap < length (x # xs) then trim_front cap xs else x # xs)"

lemma trim_front_drop: "trim_front cap xs = drop (length xs - cap) xs"
proof (induction xs)
  case (Cons x xs)
  show ?case
  proof (cases "cap < length (x # xs)")
    case True
    then have "length (x # xs) - cap = Suc (length xs - cap)" by simp
    with True Cons.IH show ?thesis by simp
  next
    case False
    then show ?thesis by simp
  qed
qed simp

lemma length_trim_front: "length (trim_front cap xs) = min cap (length xs)"
  by (simp add: trim_front_drop)

text \<open>\<^verbatim>\<open>Iterator::min_by_key\<close>: the first element with the least key.\<close>

fun min_by_key :: "('a \<Rightarrow> 'k::linorder) \<Rightarrow> 'a list \<Rightarrow> 'a option" where
  "min_by_key f [] = None"
| "min_by_key f (x # xs) =
     (case min_by_key f xs of
        None \<Rightarrow> Some x
      | Some y \<Rightarrow> if f x \<le> f y then Some x else Some y)"

lemma min_by_key_None [simp]: "min_by_key f xs = None \<longleftrightarrow> xs = []"
  by (cases xs) (auto split: option.splits)

lemma min_by_key_Some:
  "min_by_key f xs = Some x \<Longrightarrow> x \<in> set xs \<and> (\<forall>y\<in>set xs. f x \<le> f y)"
  by (induction xs arbitrary: x) (fastforce split: option.splits if_splits)+

end
