(* ===== verification/Rns_Buffer.thy ===== *)
theory Rns_Buffer
  imports Rns_Prelude
begin

text \<open>
  The byte buffers of \<^verbatim>\<open>reticulum-core/src/buffer.rs\<close>: \<^verbatim>\<open>StaticBuffer<N>\<close> (the payload store of a
  packet), \<^verbatim>\<open>OutputBuffer\<close> and \<^verbatim>\<open>InputBuffer\<close> (the cursors of the wire codecs). Both writable
  buffers satisfy the contract \<open>byte_sink\<close>: a write appends the whole slice or fails with
  \<^verbatim>\<open>OutOfMemory\<close> and changes nothing. \<^verbatim>\<open>StaticBuffer\<close> is also shown to implement a plain bounded
  byte vector, operation by operation and over whole runs.
\<close>

section \<open>Definitions\<close>

text \<open>\<^verbatim>\<open>dst[off..off + src.len()].copy_from_slice(src)\<close> for a range inside the destination.\<close>

definition copy_at :: "nat \<Rightarrow> 'a list \<Rightarrow> 'a list \<Rightarrow> 'a list" where
  "copy_at off src dst = take off dst @ src @ drop (off + length src) dst"

subsection \<open>StaticBuffer\<close>

text \<open>The capacity \<^verbatim>\<open>N\<close> is the length of the backing array.\<close>

record static_buffer =
  sb_buffer :: bytes
  sb_len :: nat

definition static_buffer_new :: "nat \<Rightarrow> static_buffer" where
  "static_buffer_new N = \<lparr>sb_buffer = replicate N 0, sb_len = 0\<rparr>"

definition static_buffer_reset :: "static_buffer \<Rightarrow> static_buffer" where
  "static_buffer_reset b = b\<lparr>sb_len := 0\<rparr>"

definition static_buffer_resize :: "nat \<Rightarrow> static_buffer \<Rightarrow> static_buffer" where
  "static_buffer_resize n b = b\<lparr>sb_len := min n (length (sb_buffer b))\<rparr>"

definition static_buffer_is_empty :: "static_buffer \<Rightarrow> bool" where
  "static_buffer_is_empty b = (sb_len b = 0)"

definition static_buffer_write :: "bytes \<Rightarrow> (static_buffer, nat) res" where
  "static_buffer_write data b =
     (let data_size = length data in
      if data_size = 0 then (Inr 0, b)
      else if sb_len b + data_size > length (sb_buffer b) then (Inl OutOfMemory, b)
      else (Inr data_size,
            b\<lparr>sb_buffer := copy_at (sb_len b) data (sb_buffer b),
              sb_len := sb_len b + data_size\<rparr>))"

definition static_buffer_chain_write :: "bytes \<Rightarrow> (static_buffer, unit) res" where
  "static_buffer_chain_write data = res_bind (static_buffer_write data) (\<lambda>_. res_return ())"

definition static_buffer_safe_write :: "bytes \<Rightarrow> static_buffer \<Rightarrow> nat \<times> static_buffer" where
  "static_buffer_safe_write data b =
     (let max_size = min (length data) (length (sb_buffer b) - sb_len b) in
      case static_buffer_write (take max_size data) b of
        (Inr n, b') \<Rightarrow> (n, b')
      | (Inl e, b') \<Rightarrow> (0, b'))"

definition static_buffer_new_from_slice :: "nat \<Rightarrow> bytes \<Rightarrow> static_buffer" where
  "static_buffer_new_from_slice N data = snd (static_buffer_safe_write data (static_buffer_new N))"

text \<open>\<^verbatim>\<open>rotate_left(mid)\<close> of a slice moves its first \<open>mid\<close> elements to the end.\<close>

definition static_buffer_rotate_left :: "nat \<Rightarrow> (static_buffer, nat) res" where
  "static_buffer_rotate_left mid b =
     (if mid > sb_len b then (Inl InvalidArgument, b)
      else (Inr (sb_len b - mid),
            b\<lparr>sb_len := sb_len b - mid,
              sb_buffer := drop mid (sb_buffer b) @ take mid (sb_buffer b)\<rparr>))"

definition static_buffer_as_slice :: "static_buffer \<Rightarrow> bytes" where
  "static_buffer_as_slice b = take (sb_len b) (sb_buffer b)"

text \<open>
  \<^verbatim>\<open>accuire_buf(len)\<close> exposes the first \<open>len\<close> bytes for writing; slicing past the backing array
  panics. The second argument is what the caller stores through the returned slice.
\<close>

definition static_buffer_accuire_buf :: "nat \<Rightarrow> bytes \<Rightarrow> static_buffer \<Rightarrow> static_buffer option" where
  "static_buffer_accuire_buf n filled b =
     (if n > length (sb_buffer b) \<or> length filled \<noteq> n then None
      else Some (b\<lparr>sb_len := n, sb_buffer := copy_at 0 filled (sb_buffer b)\<rparr>))"

subsection \<open>OutputBuffer\<close>

record output_buffer =
  ob_buffer :: bytes
  ob_offset :: nat

definition output_buffer_new :: "bytes \<Rightarrow> output_buffer" where
  "output_buffer_new buffer = \<lparr>ob_buffer = buffer, ob_offset = 0\<rparr>"

definition output_buffer_write :: "bytes \<Rightarrow> (output_buffer, nat) res" where
  "output_buffer_write data b =
     (let data_size = length data in
      if data_size = 0 then (Inr 0, b)
      else if ob_offset b + data_size > length (ob_buffer b) then (Inl OutOfMemory, b)
      else (Inr data_size,
            b\<lparr>ob_buffer := copy_at (ob_offset b) data (ob_buffer b),
              ob_offset := ob_offset b + data_size\<rparr>))"

definition output_buffer_write_byte :: "u8 \<Rightarrow> (output_buffer, nat) res" where
  "output_buffer_write_byte byte = output_buffer_write [byte]"

definition output_buffer_reset :: "output_buffer \<Rightarrow> output_buffer" where
  "output_buffer_reset b = b\<lparr>ob_offset := 0\<rparr>"

definition output_buffer_is_full :: "output_buffer \<Rightarrow> bool" where
  "output_buffer_is_full b = (ob_offset b = length (ob_buffer b))"

definition output_buffer_as_slice :: "output_buffer \<Rightarrow> bytes" where
  "output_buffer_as_slice b = take (ob_offset b) (ob_buffer b)"

subsection \<open>InputBuffer\<close>

record input_buffer =
  ib_buffer :: bytes
  ib_offset :: nat

definition input_buffer_new :: "bytes \<Rightarrow> input_buffer" where
  "input_buffer_new buffer = \<lparr>ib_buffer = buffer, ib_offset = 0\<rparr>"

text \<open>
  \<^verbatim>\<open>read_slice(size)\<close>, and \<^verbatim>\<open>read(buf)\<close> for a buffer of \<open>size\<close> bytes: both return the next \<open>size\<close>
  bytes. \<^verbatim>\<open>read_size\<close> also refuses a destination that is too small.
\<close>

definition input_buffer_read :: "nat \<Rightarrow> (input_buffer, bytes) res" where
  "input_buffer_read n b =
     (if ib_offset b + n > length (ib_buffer b) then (Inl OutOfMemory, b)
      else (Inr (take n (drop (ib_offset b) (ib_buffer b))),
            b\<lparr>ib_offset := ib_offset b + n\<rparr>))"

definition input_buffer_read_size :: "bytes \<Rightarrow> nat \<Rightarrow> (input_buffer, bytes) res" where
  "input_buffer_read_size buf n b =
     (if ib_offset b + n > length (ib_buffer b) then (Inl OutOfMemory, b)
      else if length buf < n then (Inl OutOfMemory, b)
      else (Inr (copy_at 0 (take n (drop (ib_offset b) (ib_buffer b))) buf),
            b\<lparr>ib_offset := ib_offset b + n\<rparr>))"

definition input_buffer_read_byte :: "(input_buffer, u8) res" where
  "input_buffer_read_byte = res_bind (input_buffer_read 1) (\<lambda>buf. res_return (buf ! 0))"

definition input_buffer_bytes_left :: "input_buffer \<Rightarrow> nat" where
  "input_buffer_bytes_left b = length (ib_buffer b) - ib_offset b"

section \<open>The sink contract\<close>

text \<open>A sequence of writes, each followed by \<^verbatim>\<open>?\<close>.\<close>

primrec write_seq :: "(bytes \<Rightarrow> ('s, nat) res) \<Rightarrow> bytes list \<Rightarrow> ('s, unit) res" where
  "write_seq w [] = res_return ()"
| "write_seq w (d # ds) = res_bind (w d) (\<lambda>_. write_seq w ds)"

locale byte_sink =
  fixes put :: "bytes \<Rightarrow> ('s, nat) res"
    and content :: "'s \<Rightarrow> bytes"
    and cap :: "'s \<Rightarrow> nat"
    and ok :: "'s \<Rightarrow> bool"
  assumes content_bound: "ok s \<Longrightarrow> length (content s) \<le> cap s"
    and write_fits: "ok s \<Longrightarrow> length (content s) + length d \<le> cap s \<Longrightarrow>
          \<exists>s'. put d s = (Inr (length d), s') \<and> ok s' \<and> cap s' = cap s \<and>
               content s' = content s @ d"
    and write_full: "ok s \<Longrightarrow> cap s < length (content s) + length d \<Longrightarrow>
          put d s = (Inl OutOfMemory, s)"
begin

lemma write_iff:
  assumes "ok s"
  shows "fst (put d s) =
      (if length (content s) + length d \<le> cap s then Inr (length d) else Inl OutOfMemory)"
  using write_fits [OF assms, of d] write_full [OF assms, of d] by (auto simp: not_le)

lemma write_ok: "ok s \<Longrightarrow> ok (snd (put d s)) \<and> cap (snd (put d s)) = cap s"
  using write_fits [of s d] write_full [of s d] by (metis leI snd_conv)

lemma seq_fits:
  "ok s \<Longrightarrow> length (content s) + length (concat ds) \<le> cap s \<Longrightarrow>
     \<exists>s'. write_seq put ds s = (Inr (), s') \<and> ok s' \<and> cap s' = cap s \<and>
          content s' = content s @ concat ds"
proof (induction ds arbitrary: s)
  case Nil
  then show ?case by (simp add: res_return_def)
next
  case (Cons d ds)
  then obtain s1 where s1: "put d s = (Inr (length d), s1)" "ok s1" "cap s1 = cap s"
      "content s1 = content s @ d"
    using write_fits [of s d] by auto
  moreover have "length (content s1) + length (concat ds) \<le> cap s1"
    using Cons.prems(2) s1(3,4) by simp
  ultimately obtain s2 where "write_seq put ds s1 = (Inr (), s2)" "ok s2" "cap s2 = cap s1"
      "content s2 = content s1 @ concat ds"
    using Cons.IH [of s1] by blast
  with s1 show ?case by (auto simp: res_bind_def)
qed

lemma seq_overflow:
  "ok s \<Longrightarrow> cap s < length (content s) + length (concat ds) \<Longrightarrow>
     \<exists>s' k. write_seq put ds s = (Inl OutOfMemory, s') \<and> ok s' \<and> cap s' = cap s \<and>
            k < length ds \<and> content s' = content s @ concat (take k ds)"
proof (induction ds arbitrary: s)
  case Nil
  then show ?case using content_bound [of s] by simp
next
  case (Cons d ds)
  show ?case
  proof (cases "length (content s) + length d \<le> cap s")
    case False
    with Cons.prems have "write_seq put (d # ds) s = (Inl OutOfMemory, s)"
      by (simp add: write_full res_bind_def)
    with Cons.prems(1) show ?thesis by (intro exI [of _ s] exI [of _ 0]) simp
  next
    case True
    with Cons.prems(1) obtain s1 where s1: "put d s = (Inr (length d), s1)" "ok s1"
        "cap s1 = cap s" "content s1 = content s @ d"
      using write_fits [of s d] by auto
    moreover have "cap s1 < length (content s1) + length (concat ds)"
      using Cons.prems(2) s1(3,4) by simp
    ultimately obtain s2 k where "write_seq put ds s1 = (Inl OutOfMemory, s2)" "ok s2"
        "cap s2 = cap s1" "k < length ds" "content s2 = content s1 @ concat (take k ds)"
      using Cons.IH [of s1] by blast
    with s1 show ?thesis by (intro exI [of _ s2] exI [of _ "Suc k"]) (simp add: res_bind_def)
  qed
qed

end

section \<open>Both buffers are sinks\<close>

definition static_buffer_ok :: "static_buffer \<Rightarrow> bool" where
  "static_buffer_ok b = (sb_len b \<le> length (sb_buffer b))"

definition output_buffer_ok :: "output_buffer \<Rightarrow> bool" where
  "output_buffer_ok b = (ob_offset b \<le> length (ob_buffer b))"

lemma length_copy_at: "off + length src \<le> length dst \<Longrightarrow> length (copy_at off src dst) = length dst"
  by (simp add: copy_at_def)

lemma take_copy_at:
  "off + length src \<le> length dst \<Longrightarrow>
     take (off + length src) (copy_at off src dst) = take off dst @ src"
  by (simp add: copy_at_def)

interpretation sb: byte_sink static_buffer_write static_buffer_as_slice
  "\<lambda>b. length (sb_buffer b)" static_buffer_ok
proof unfold_locales
  fix s and d :: bytes
  assume ok: "static_buffer_ok s"
  then show "length (static_buffer_as_slice s) \<le> length (sb_buffer s)"
    by (simp add: static_buffer_as_slice_def)
  from ok have len: "length (static_buffer_as_slice s) = sb_len s"
    by (simp add: static_buffer_as_slice_def static_buffer_ok_def)
  {
    assume "length (static_buffer_as_slice s) + length d \<le> length (sb_buffer s)"
    with ok len show "\<exists>s'. static_buffer_write d s = (Inr (length d), s') \<and> static_buffer_ok s' \<and>
        length (sb_buffer s') = length (sb_buffer s) \<and>
        static_buffer_as_slice s' = static_buffer_as_slice s @ d"
      by (cases "d = []")
        (auto simp: static_buffer_write_def static_buffer_ok_def static_buffer_as_slice_def Let_def
          length_copy_at take_copy_at)
  next
    assume "length (sb_buffer s) < length (static_buffer_as_slice s) + length d"
    with ok len show "static_buffer_write d s = (Inl OutOfMemory, s)"
      by (auto simp: static_buffer_write_def static_buffer_ok_def Let_def)
  }
qed

interpretation ob: byte_sink output_buffer_write output_buffer_as_slice
  "\<lambda>b. length (ob_buffer b)" output_buffer_ok
proof unfold_locales
  fix s and d :: bytes
  assume ok: "output_buffer_ok s"
  then show "length (output_buffer_as_slice s) \<le> length (ob_buffer s)"
    by (simp add: output_buffer_as_slice_def)
  from ok have len: "length (output_buffer_as_slice s) = ob_offset s"
    by (simp add: output_buffer_as_slice_def output_buffer_ok_def)
  {
    assume "length (output_buffer_as_slice s) + length d \<le> length (ob_buffer s)"
    with ok len show "\<exists>s'. output_buffer_write d s = (Inr (length d), s') \<and> output_buffer_ok s' \<and>
        length (ob_buffer s') = length (ob_buffer s) \<and>
        output_buffer_as_slice s' = output_buffer_as_slice s @ d"
      by (cases "d = []")
        (auto simp: output_buffer_write_def output_buffer_ok_def output_buffer_as_slice_def Let_def
          length_copy_at take_copy_at)
  next
    assume "length (ob_buffer s) < length (output_buffer_as_slice s) + length d"
    with ok len show "output_buffer_write d s = (Inl OutOfMemory, s)"
      by (auto simp: output_buffer_write_def output_buffer_ok_def Let_def)
  }
qed

lemma output_buffer_new_ok [simp]:
  "output_buffer_ok (output_buffer_new buf)" "output_buffer_as_slice (output_buffer_new buf) = []"
  "length (ob_buffer (output_buffer_new buf)) = length buf"
  by (simp_all add: output_buffer_ok_def output_buffer_new_def output_buffer_as_slice_def)

lemma output_buffer_offset: "output_buffer_ok b \<Longrightarrow> ob_offset b = length (output_buffer_as_slice b)"
  by (simp add: output_buffer_ok_def output_buffer_as_slice_def)

section \<open>The bounded byte vector\<close>

text \<open>
  The abstract store: a byte list that never exceeds its capacity. A run of buffer operations on
  \<^verbatim>\<open>StaticBuffer\<close> gives the same results and the same contents as the run on the list.
\<close>

datatype vec_op = Write bytes | SafeWrite bytes | RotateLeft nat | Reset

fun vec_step :: "nat \<Rightarrow> vec_op \<Rightarrow> bytes \<Rightarrow> nat result \<times> bytes" where
  "vec_step N (Write d) v =
     (if length v + length d \<le> N then (Inr (length d), v @ d) else (Inl OutOfMemory, v))"
| "vec_step N (SafeWrite d) v = (let d' = take (N - length v) d in (Inr (length d'), v @ d'))"
| "vec_step N (RotateLeft n) v =
     (if n \<le> length v then (Inr (length v - n), drop n v) else (Inl InvalidArgument, v))"
| "vec_step N Reset v = (Inr 0, [])"

fun static_buffer_step :: "vec_op \<Rightarrow> static_buffer \<Rightarrow> nat result \<times> static_buffer" where
  "static_buffer_step (Write d) b = static_buffer_write d b"
| "static_buffer_step (SafeWrite d) b =
     (case static_buffer_safe_write d b of (n, b') \<Rightarrow> (Inr n, b'))"
| "static_buffer_step (RotateLeft n) b = static_buffer_rotate_left n b"
| "static_buffer_step Reset b = (Inr 0, static_buffer_reset b)"

fun run_ops :: "('o \<Rightarrow> 's \<Rightarrow> 'r \<times> 's) \<Rightarrow> 'o list \<Rightarrow> 's \<Rightarrow> 'r list \<times> 's" where
  "run_ops f [] s = ([], s)"
| "run_ops f (x # xs) s =
     (case f x s of (r, s') \<Rightarrow> (case run_ops f xs s' of (rs, s'') \<Rightarrow> (r # rs, s'')))"

lemma safe_write_take:
  assumes "static_buffer_ok b"
  shows "static_buffer_safe_write d b =
           (let d' = take (length (sb_buffer b) - sb_len b) d
            in (length d', snd (static_buffer_write d' b)))"
proof -
  let ?d' = "take (length (sb_buffer b) - sb_len b) d"
  have eq: "take (min (length d) (length (sb_buffer b) - sb_len b)) d = ?d'"
    by (simp add: min_def)
  have "length (static_buffer_as_slice b) + length ?d' \<le> length (sb_buffer b)"
    using assms by (simp add: static_buffer_ok_def static_buffer_as_slice_def)
  from sb.write_fits [OF assms this] obtain b'
    where w: "static_buffer_write ?d' b = (Inr (length ?d'), b')" by blast
  show ?thesis
    unfolding static_buffer_safe_write_def Let_def eq w by simp
qed

lemma static_buffer_step_refines:
  assumes ok: "static_buffer_ok b" and step: "static_buffer_step x b = (r, b')"
  shows "vec_step (length (sb_buffer b)) x (static_buffer_as_slice b) = (r, static_buffer_as_slice b')
    \<and> static_buffer_ok b' \<and> length (sb_buffer b') = length (sb_buffer b)"
proof -
  have len: "length (static_buffer_as_slice b) = sb_len b"
    using ok by (simp add: static_buffer_as_slice_def static_buffer_ok_def)
  show ?thesis
  proof (cases x)
    case (Write d)
    then show ?thesis
      using step sb.write_fits [OF ok, of d] sb.write_full [OF ok, of d] ok
      by (cases "length (static_buffer_as_slice b) + length d \<le> length (sb_buffer b)") auto
  next
    case (SafeWrite d)
    let ?d' = "take (length (sb_buffer b) - sb_len b) d"
    have "length (static_buffer_as_slice b) + length ?d' \<le> length (sb_buffer b)"
      using ok len by (simp add: static_buffer_ok_def)
    from sb.write_fits [OF ok this] obtain b'' where "static_buffer_write ?d' b = (Inr (length ?d'), b'')"
      "static_buffer_ok b''" "length (sb_buffer b'') = length (sb_buffer b)"
      "static_buffer_as_slice b'' = static_buffer_as_slice b @ ?d'" by blast
    with SafeWrite step len show ?thesis
      by (auto simp: safe_write_take [OF ok] Let_def)
  next
    case (RotateLeft n)
    then show ?thesis
      using step ok len
      by (auto simp: static_buffer_rotate_left_def static_buffer_ok_def static_buffer_as_slice_def
          take_drop split: if_splits)
  next
    case Reset
    then show ?thesis
      using step by (auto simp: static_buffer_reset_def static_buffer_ok_def static_buffer_as_slice_def)
  qed
qed

lemma static_buffer_run_refines:
  assumes "static_buffer_ok b" and "run_ops static_buffer_step xs b = (rs, b')"
  shows "run_ops (vec_step (length (sb_buffer b))) xs (static_buffer_as_slice b) =
           (rs, static_buffer_as_slice b')
         \<and> static_buffer_ok b' \<and> length (sb_buffer b') = length (sb_buffer b)"
  using assms
proof (induction xs arbitrary: b rs)
  case (Cons x xs)
  obtain r b1 where s1: "static_buffer_step x b = (r, b1)" by fastforce
  obtain rs1 b2 where s2: "run_ops static_buffer_step xs b1 = (rs1, b2)" by fastforce
  from Cons.prems(2) s1 s2 have "rs = r # rs1" "b' = b2" by auto
  with static_buffer_step_refines [OF Cons.prems(1) s1] Cons.IH [of b1 rs1] s2 show ?case
    by auto
qed simp



section \<open>Reading\<close>

text \<open>The unread part of an input buffer; every read takes its bytes from the front of it.\<close>

definition input_rest :: "input_buffer \<Rightarrow> bytes" where
  "input_rest b = drop (ib_offset b) (ib_buffer b)"

definition input_buffer_ok :: "input_buffer \<Rightarrow> bool" where
  "input_buffer_ok b = (ib_offset b \<le> length (ib_buffer b))"

lemma input_buffer_new_rest [simp]:
  "input_rest (input_buffer_new bs) = bs" "input_buffer_ok (input_buffer_new bs)"
  by (simp_all add: input_rest_def input_buffer_new_def input_buffer_ok_def)

lemma input_buffer_bytes_left_rest: "input_buffer_bytes_left b = length (input_rest b)"
  by (simp add: input_buffer_bytes_left_def input_rest_def)

lemma input_buffer_read_fits:
  assumes "input_buffer_ok b" "n \<le> length (input_rest b)"
  shows "\<exists>b'. input_buffer_read n b = (Inr (take n (input_rest b)), b') \<and>
              input_rest b' = drop n (input_rest b) \<and> input_buffer_ok b'"
  using assms by (auto simp: input_buffer_read_def input_rest_def input_buffer_ok_def add.commute)

lemma input_buffer_read_short:
  assumes "input_buffer_ok b" "length (input_rest b) < n"
  shows "input_buffer_read n b = (Inl OutOfMemory, b)"
  using assms by (auto simp: input_buffer_read_def input_rest_def input_buffer_ok_def)

lemma input_buffer_read_append:
  assumes "input_buffer_ok b" "input_rest b = xs @ ys"
  shows "\<exists>b'. input_buffer_read (length xs) b = (Inr xs, b') \<and> input_rest b' = ys \<and> input_buffer_ok b'"
  using input_buffer_read_fits [OF assms(1), of "length xs"] assms(2) by auto

lemma input_buffer_read_byte_Cons:
  assumes "input_buffer_ok b" "input_rest b = x # ys"
  shows "\<exists>b'. input_buffer_read_byte b = (Inr x, b') \<and> input_rest b' = ys \<and> input_buffer_ok b'"
  using input_buffer_read_append [OF assms(1), of "[x]" ys] assms(2)
  by (auto simp: input_buffer_read_byte_def res_bind_def res_return_def)

lemma input_buffer_read_byte_Nil:
  assumes "input_buffer_ok b" "input_rest b = []"
  shows "input_buffer_read_byte b = (Inl OutOfMemory, b)"
  using input_buffer_read_short [OF assms(1), of 1] assms(2)
  by (simp add: input_buffer_read_byte_def res_bind_def)

end
