(* ===== verification/Rns_Hash.thy ===== *)
theory Rns_Hash
  imports Rns_Prelude
begin

text \<open>
  \<^verbatim>\<open>reticulum-core/src/hash.rs\<close>: full hashes, truncated address hashes and their hexadecimal form.
  SHA-256 is the \<^verbatim>\<open>sha2\<close> crate's; it is an argument \<open>sha\<close> of every definition that hashes, and
  \<open>sha_ok\<close> is the one documented fact about it that the code relies on (a 32-byte digest).
\<close>

section \<open>Definitions\<close>

definition HASH_SIZE :: nat where
  "HASH_SIZE = 32"

definition ADDRESS_HASH_SIZE :: nat where
  "ADDRESS_HASH_SIZE = 16"

datatype rns_hash = Hash (hash_bytes: bytes)

datatype address_hash = AddressHash (addr_bytes: bytes)

type_synonym sha = "bytes \<Rightarrow> bytes"

definition sha_ok :: "sha \<Rightarrow> bool" where
  "sha_ok sha \<longleftrightarrow> (\<forall>d. length (sha d) = 32)"

text \<open>
  \<^verbatim>\<open>create_hash(data, out)\<close> for an output of \<open>n\<close> bytes; its callers pass 16 or 32 bytes, for which
  the lengths of \<^verbatim>\<open>copy_from_slice\<close> agree.
\<close>

definition create_hash :: "sha \<Rightarrow> bytes \<Rightarrow> nat \<Rightarrow> bytes" where
  "create_hash sha data n = take (min n HASH_SIZE) (sha data)"

definition hash_new_empty :: rns_hash where
  "hash_new_empty = Hash (replicate HASH_SIZE 0)"

definition hash_new_from_slice :: "sha \<Rightarrow> bytes \<Rightarrow> rns_hash" where
  "hash_new_from_slice sha data = Hash (create_hash sha data HASH_SIZE)"

definition address_hash_new_from_slice :: "sha \<Rightarrow> bytes \<Rightarrow> address_hash" where
  "address_hash_new_from_slice sha data = AddressHash (create_hash sha data ADDRESS_HASH_SIZE)"

definition address_hash_new_from_raw_slice :: "bytes \<Rightarrow> address_hash option" where
  "address_hash_new_from_raw_slice data =
     (if length data = ADDRESS_HASH_SIZE then Some (AddressHash data) else None)"

definition address_hash_new_from_hash :: "rns_hash \<Rightarrow> address_hash" where
  "address_hash_new_from_hash h = AddressHash (take ADDRESS_HASH_SIZE (hash_bytes h))"

definition address_hash_new_empty :: address_hash where
  "address_hash_new_empty = AddressHash (replicate ADDRESS_HASH_SIZE 0)"

text \<open>\<^verbatim>\<open>is_empty\<close> tests the length of the 16-byte array, not its contents.\<close>

definition address_hash_is_empty :: "address_hash \<Rightarrow> bool" where
  "address_hash_is_empty a = (length (addr_bytes a) = 0)"

text \<open>Hexadecimal digits, and \<^verbatim>\<open>u8::from_str_radix(s, 16)\<close> on a two-character string, which
  accepts a leading plus sign.\<close>

definition hex_char :: "nat \<Rightarrow> char" where
  "hex_char n = (if n < 10 then char_of (48 + n) else char_of (87 + n))"

definition hex_digit :: "char \<Rightarrow> nat option" where
  "hex_digit c =
     (let n = of_char c :: nat in
      if 48 \<le> n \<and> n \<le> 57 then Some (n - 48)
      else if 97 \<le> n \<and> n \<le> 102 then Some (n - 87)
      else if 65 \<le> n \<and> n \<le> 70 then Some (n - 55)
      else None)"

definition from_str_radix16 :: "char \<Rightarrow> char \<Rightarrow> u8 option" where
  "from_str_radix16 c d =
     (if c = CHR ''+'' then map_option word_of_nat (hex_digit d)
      else case (hex_digit c, hex_digit d) of
             (Some x, Some y) \<Rightarrow> Some (word_of_nat (16 * x + y))
           | _ \<Rightarrow> None)"

fun parse_hex_pairs :: "nat \<Rightarrow> string \<Rightarrow> bytes option" where
  "parse_hex_pairs 0 s = Some []"
| "parse_hex_pairs (Suc n) (c # d # s) =
     (case from_str_radix16 c d of
        None \<Rightarrow> None
      | Some b \<Rightarrow> map_option (\<lambda>bs. b # bs) (parse_hex_pairs n s))"
| "parse_hex_pairs (Suc n) s = None"

text \<open>\<^verbatim>\<open>new_from_hex_string\<close>: a short string is an error, a bad digit panics (\<open>None\<close>).\<close>

definition address_hash_new_from_hex_string :: "string \<Rightarrow> address_hash result option" where
  "address_hash_new_from_hex_string s =
     (if length s < ADDRESS_HASH_SIZE * 2 then Some (Inl IncorrectHash)
      else map_option (\<lambda>bs. Inr (AddressHash bs)) (parse_hex_pairs ADDRESS_HASH_SIZE s))"

definition hex_byte :: "u8 \<Rightarrow> string" where
  "hex_byte b = [hex_char (unat b div 16), hex_char (unat b mod 16)]"

definition address_hash_to_hex_string :: "address_hash \<Rightarrow> string" where
  "address_hash_to_hex_string a = concat (map hex_byte (addr_bytes a))"

definition address_hash_display :: "address_hash \<Rightarrow> string" where
  "address_hash_display a = ''/'' @ concat (map hex_byte (addr_bytes a)) @ ''/''"

definition hash_display :: "rns_hash \<Rightarrow> string" where
  "hash_display h = concat (map hex_byte (hash_bytes h))"

section \<open>Well-formed hashes and their order\<close>

definition addr_ok :: "address_hash \<Rightarrow> bool" where
  "addr_ok a \<longleftrightarrow> length (addr_bytes a) = ADDRESS_HASH_SIZE"

definition hash_ok :: "rns_hash \<Rightarrow> bool" where
  "hash_ok h \<longleftrightarrow> length (hash_bytes h) = HASH_SIZE"

lemmas hash_sizes = HASH_SIZE_def ADDRESS_HASH_SIZE_def

text \<open>The derived \<^verbatim>\<open>Ord\<close> compares the byte arrays lexicographically.\<close>

instantiation address_hash :: linorder
begin

definition less_eq_address_hash :: "address_hash \<Rightarrow> address_hash \<Rightarrow> bool" where
  "less_eq_address_hash a b \<longleftrightarrow> addr_bytes a \<le> addr_bytes b"

definition less_address_hash :: "address_hash \<Rightarrow> address_hash \<Rightarrow> bool" where
  "less_address_hash a b \<longleftrightarrow> addr_bytes a < addr_bytes b"

instance
  by standard
    (auto simp: less_eq_address_hash_def less_address_hash_def intro: address_hash.expand)

end

instantiation rns_hash :: linorder
begin

definition less_eq_rns_hash :: "rns_hash \<Rightarrow> rns_hash \<Rightarrow> bool" where
  "less_eq_rns_hash a b \<longleftrightarrow> hash_bytes a \<le> hash_bytes b"

definition less_rns_hash :: "rns_hash \<Rightarrow> rns_hash \<Rightarrow> bool" where
  "less_rns_hash a b \<longleftrightarrow> hash_bytes a < hash_bytes b"

instance
  by standard
    (auto simp: less_eq_rns_hash_def less_rns_hash_def intro: rns_hash.expand)

end

lemma hash_new_from_slice_ok: "sha_ok sha \<Longrightarrow> hash_ok (hash_new_from_slice sha d)"
  by (simp add: sha_ok_def hash_ok_def hash_new_from_slice_def create_hash_def hash_sizes)

lemma address_hash_new_from_slice_ok: "sha_ok sha \<Longrightarrow> addr_ok (address_hash_new_from_slice sha d)"
  by (simp add: sha_ok_def addr_ok_def address_hash_new_from_slice_def create_hash_def hash_sizes)

lemma address_hash_new_from_hash_ok: "hash_ok h \<Longrightarrow> addr_ok (address_hash_new_from_hash h)"
  by (simp add: hash_ok_def addr_ok_def address_hash_new_from_hash_def hash_sizes)

lemma address_hash_is_empty_never: "addr_ok a \<Longrightarrow> \<not> address_hash_is_empty a"
  by (auto simp: addr_ok_def address_hash_is_empty_def hash_sizes)

text \<open>An address is the truncation of the full hash of the same data.\<close>

lemma address_hash_truncates:
  "address_hash_new_from_hash (hash_new_from_slice sha d) = address_hash_new_from_slice sha d"
  by (simp add: address_hash_new_from_hash_def hash_new_from_slice_def
      address_hash_new_from_slice_def create_hash_def hash_sizes)

section \<open>Hexadecimal round trip\<close>

lemma hex_digit_hex_char: "n < 16 \<Longrightarrow> hex_digit (hex_char n) = Some n"
  by (auto simp: hex_digit_def hex_char_def)

lemma hex_char_not_plus: "n < 16 \<Longrightarrow> hex_char n \<noteq> CHR ''+''"
proof -
  assume n: "n < 16"
  have "(of_char (hex_char n) :: nat) \<noteq> of_char (CHR ''+'')"
    using n by (auto simp: hex_char_def)
  then show ?thesis by metis
qed

lemma from_str_radix16_hex_byte:
  "from_str_radix16 (hex_char (unat b div 16)) (hex_char (unat b mod 16)) = Some b"
proof -
  have "unat b div 16 < 16" using unat_u8_less [of b] by simp
  moreover have "16 * (unat b div 16) + unat b mod 16 = unat b" by simp
  ultimately show ?thesis
    by (simp add: from_str_radix16_def hex_char_not_plus hex_digit_hex_char)
qed

lemma parse_hex_pairs_hex_byte:
  "parse_hex_pairs (length bs) (concat (map hex_byte bs) @ s) = Some bs"
  by (induction bs) (auto simp: hex_byte_def from_str_radix16_hex_byte)

lemma length_hex_bytes: "length (concat (map hex_byte bs)) = 2 * length bs"
  by (induction bs) (auto simp: hex_byte_def)

text \<open>The hexadecimal form of an address parses back to the same address, also when
  other characters follow it.\<close>

theorem address_hash_hex_roundtrip:
  assumes "addr_ok a"
  shows "address_hash_new_from_hex_string (address_hash_to_hex_string a @ s) = Some (Inr a)"
proof -
  have len: "length (addr_bytes a) = ADDRESS_HASH_SIZE"
    using assms by (simp add: addr_ok_def)
  then show ?thesis
    using parse_hex_pairs_hex_byte [of "addr_bytes a" s]
    by (simp add: address_hash_new_from_hex_string_def address_hash_to_hex_string_def
        length_hex_bytes hash_sizes)
qed

theorem address_hash_hex_roundtrip_witness:
  "addr_ok (AddressHash [0, 1, 2, 3, 4, 5, 6, 7, 8, 9, 10, 11, 12, 13, 14, 255]) \<and>
   address_hash_new_from_hex_string
     (address_hash_to_hex_string
        (AddressHash [0, 1, 2, 3, 4, 5, 6, 7, 8, 9, 10, 11, 12, 13, 14, 255]) @ ''/'') =
     Some (Inr (AddressHash [0, 1, 2, 3, 4, 5, 6, 7, 8, 9, 10, 11, 12, 13, 14, 255]))"
proof -
  let ?a = "AddressHash [0, 1, 2, 3, 4, 5, 6, 7, 8, 9, 10, 11, 12, 13, 14, 255]"
  have ok: "addr_ok ?a" by (simp add: addr_ok_def hash_sizes)
  from address_hash_hex_roundtrip [OF ok, of "''/''"] ok show ?thesis by blast
qed

end
