(* ===== verification/Rns_Packet.thy ===== *)
theory Rns_Packet
  imports Rns_Buffer Rns_Hash
begin

text \<open>
  The packet format: \<^verbatim>\<open>reticulum-core/src/packet.rs\<close> (header fields, the packed flags byte, packet
  contexts, the packet record and its hash) and \<^verbatim>\<open>reticulum-core/src/serde.rs\<close> (wire encoding and
  decoding). The payload \<^verbatim>\<open>StaticBuffer<2048>\<close> is represented by its contents, the bounded byte
  vector that \<open>Rns_Buffer\<close> shows it implements.
\<close>

section \<open>Protocol constants\<close>

definition PACKET_MDU :: nat where "PACKET_MDU = 2048"
definition PACKET_IFAC_MAX_LENGTH :: nat where "PACKET_IFAC_MAX_LENGTH = 64"
definition PROTOCOL_MTU :: nat where "PROTOCOL_MTU = 500"
definition TRUNCATED_HASHLENGTH_BYTES :: nat where "TRUNCATED_HASHLENGTH_BYTES = 16"
definition HEADER_MINSIZE :: nat where "HEADER_MINSIZE = 2 + 1 + TRUNCATED_HASHLENGTH_BYTES"
definition HEADER_MAXSIZE :: nat where "HEADER_MAXSIZE = 2 + 1 + TRUNCATED_HASHLENGTH_BYTES * 2"
definition IFAC_MIN_SIZE :: nat where "IFAC_MIN_SIZE = 1"
definition TOKEN_OVERHEAD :: nat where "TOKEN_OVERHEAD = 48"
definition AES128_BLOCKSIZE :: nat where "AES128_BLOCKSIZE = 16"
definition PACKET_PROTOCOL_MDU :: nat where
  "PACKET_PROTOCOL_MDU = PROTOCOL_MTU - HEADER_MAXSIZE - IFAC_MIN_SIZE"
definition LINK_MDU :: nat where
  "LINK_MDU = (PROTOCOL_MTU - IFAC_MIN_SIZE - HEADER_MINSIZE - TOKEN_OVERHEAD)
      div AES128_BLOCKSIZE * AES128_BLOCKSIZE - 1"
definition LINK_MTU_MIN :: nat where
  "LINK_MTU_MIN = IFAC_MIN_SIZE + HEADER_MINSIZE + TOKEN_OVERHEAD + AES128_BLOCKSIZE"
definition PATHFINDER_M :: u8 where "PATHFINDER_M = 128"

lemmas packet_consts = PACKET_MDU_def PACKET_IFAC_MAX_LENGTH_def PROTOCOL_MTU_def
  TRUNCATED_HASHLENGTH_BYTES_def HEADER_MINSIZE_def HEADER_MAXSIZE_def IFAC_MIN_SIZE_def
  TOKEN_OVERHEAD_def AES128_BLOCKSIZE_def PACKET_PROTOCOL_MDU_def LINK_MDU_def LINK_MTU_MIN_def
  PATHFINDER_M_def

section \<open>Header fields\<close>

datatype ifac_flag = Open | Authenticated

fun ifac_flag_u8 :: "ifac_flag \<Rightarrow> u8" where
  "ifac_flag_u8 Open = 0"
| "ifac_flag_u8 Authenticated = 1"

definition ifac_flag_from :: "u8 \<Rightarrow> ifac_flag" where
  "ifac_flag_from v = (if v = 0 then Open else if v = 1 then Authenticated else Open)"

datatype header_type = Type1 | Type2

fun header_type_u8 :: "header_type \<Rightarrow> u8" where
  "header_type_u8 Type1 = 0"
| "header_type_u8 Type2 = 1"

definition header_type_from :: "u8 \<Rightarrow> header_type" where
  "header_type_from v =
     (let x = v AND 1 in if x = 0 then Type1 else if x = 1 then Type2 else Type1)"

datatype propagation_type = Broadcast | Transport | Reserved1 | Reserved2

fun propagation_type_u8 :: "propagation_type \<Rightarrow> u8" where
  "propagation_type_u8 Broadcast = 0"
| "propagation_type_u8 Transport = 1"
| "propagation_type_u8 Reserved1 = 2"
| "propagation_type_u8 Reserved2 = 3"

definition propagation_type_from :: "u8 \<Rightarrow> propagation_type" where
  "propagation_type_from v =
     (let x = v AND 3 in
      if x = 0 then Broadcast else if x = 1 then Transport
      else if x = 2 then Reserved1 else if x = 3 then Reserved2 else Broadcast)"

datatype destination_type = Single | Group | Plain | Link

fun destination_type_u8 :: "destination_type \<Rightarrow> u8" where
  "destination_type_u8 Single = 0"
| "destination_type_u8 Group = 1"
| "destination_type_u8 Plain = 2"
| "destination_type_u8 Link = 3"

definition destination_type_from :: "u8 \<Rightarrow> destination_type" where
  "destination_type_from v =
     (let x = v AND 3 in
      if x = 0 then Single else if x = 1 then Group
      else if x = 2 then Plain else if x = 3 then Link else Single)"

datatype packet_type = Data | Announce | LinkRequest | Proof

fun packet_type_u8 :: "packet_type \<Rightarrow> u8" where
  "packet_type_u8 Data = 0"
| "packet_type_u8 Announce = 1"
| "packet_type_u8 LinkRequest = 2"
| "packet_type_u8 Proof = 3"

definition packet_type_from :: "u8 \<Rightarrow> packet_type" where
  "packet_type_from v =
     (let x = v AND 3 in
      if x = 0 then Data else if x = 1 then Announce
      else if x = 2 then LinkRequest else if x = 3 then Proof else Data)"

datatype packet_context =
    Ctx_None | Ctx_Resource | Ctx_ResourceAdvertisement | Ctx_ResourceRequest
  | Ctx_ResourceHashUpdate | Ctx_ResourceProof | Ctx_ResourceInitiatorCancel
  | Ctx_ResourceReceiverCancel | Ctx_CacheRequest | Ctx_Request | Ctx_Response
  | Ctx_PathResponse | Ctx_Command | Ctx_CommandStatus | Ctx_Channel | Ctx_KeepAlive
  | Ctx_LinkIdentify | Ctx_LinkClose | Ctx_LinkProof | Ctx_LinkRTT | Ctx_LinkRequestProof

fun packet_context_u8 :: "packet_context \<Rightarrow> u8" where
  "packet_context_u8 Ctx_None = 0x00"
| "packet_context_u8 Ctx_Resource = 0x01"
| "packet_context_u8 Ctx_ResourceAdvertisement = 0x02"
| "packet_context_u8 Ctx_ResourceRequest = 0x03"
| "packet_context_u8 Ctx_ResourceHashUpdate = 0x04"
| "packet_context_u8 Ctx_ResourceProof = 0x05"
| "packet_context_u8 Ctx_ResourceInitiatorCancel = 0x06"
| "packet_context_u8 Ctx_ResourceReceiverCancel = 0x07"
| "packet_context_u8 Ctx_CacheRequest = 0x08"
| "packet_context_u8 Ctx_Request = 0x09"
| "packet_context_u8 Ctx_Response = 0x0A"
| "packet_context_u8 Ctx_PathResponse = 0x0B"
| "packet_context_u8 Ctx_Command = 0x0C"
| "packet_context_u8 Ctx_CommandStatus = 0x0D"
| "packet_context_u8 Ctx_Channel = 0x0E"
| "packet_context_u8 Ctx_KeepAlive = 0xFA"
| "packet_context_u8 Ctx_LinkIdentify = 0xFB"
| "packet_context_u8 Ctx_LinkClose = 0xFC"
| "packet_context_u8 Ctx_LinkProof = 0xFD"
| "packet_context_u8 Ctx_LinkRTT = 0xFE"
| "packet_context_u8 Ctx_LinkRequestProof = 0xFF"

definition packet_context_from :: "u8 \<Rightarrow> packet_context" where
  "packet_context_from v =
     (if v = 0x01 then Ctx_Resource
      else if v = 0x02 then Ctx_ResourceAdvertisement
      else if v = 0x03 then Ctx_ResourceRequest
      else if v = 0x04 then Ctx_ResourceHashUpdate
      else if v = 0x05 then Ctx_ResourceProof
      else if v = 0x06 then Ctx_ResourceInitiatorCancel
      else if v = 0x07 then Ctx_ResourceReceiverCancel
      else if v = 0x08 then Ctx_CacheRequest
      else if v = 0x09 then Ctx_Request
      else if v = 0x0A then Ctx_Response
      else if v = 0x0B then Ctx_PathResponse
      else if v = 0x0C then Ctx_Command
      else if v = 0x0D then Ctx_CommandStatus
      else if v = 0x0E then Ctx_Channel
      else if v = 0xFA then Ctx_KeepAlive
      else if v = 0xFB then Ctx_LinkIdentify
      else if v = 0xFC then Ctx_LinkClose
      else if v = 0xFD then Ctx_LinkProof
      else if v = 0xFE then Ctx_LinkRTT
      else if v = 0xFF then Ctx_LinkRequestProof
      else Ctx_None)"

record header =
  hd_ifac_flag :: ifac_flag
  hd_context_flag :: bool
  hd_header_type :: header_type
  hd_propagation_type :: propagation_type
  hd_destination_type :: destination_type
  hd_packet_type :: packet_type
  hd_hops :: u8

definition header_default :: header where
  "header_default =
     \<lparr>hd_ifac_flag = Open, hd_context_flag = False, hd_header_type = Type1,
      hd_propagation_type = Broadcast, hd_destination_type = Single, hd_packet_type = Data,
      hd_hops = 0\<rparr>"

definition to_meta :: "header \<Rightarrow> u8" where
  "to_meta h =
     push_bit 7 (ifac_flag_u8 (hd_ifac_flag h))
     OR push_bit 6 (header_type_u8 (hd_header_type h))
     OR push_bit 5 (if hd_context_flag h then 1 else 0)
     OR push_bit 4 (propagation_type_u8 (hd_propagation_type h))
     OR push_bit 2 (destination_type_u8 (hd_destination_type h))
     OR packet_type_u8 (hd_packet_type h)"

definition from_meta :: "u8 \<Rightarrow> header" where
  "from_meta meta =
     \<lparr>hd_ifac_flag = ifac_flag_from (drop_bit 7 meta),
      hd_context_flag = (meta AND 0b00100000 \<noteq> 0),
      hd_header_type = header_type_from (drop_bit 6 meta),
      hd_propagation_type = propagation_type_from (drop_bit 4 meta),
      hd_destination_type = destination_type_from (drop_bit 2 meta),
      hd_packet_type = packet_type_from meta,
      hd_hops = 0\<rparr>"

section \<open>The packet\<close>

text \<open>\<^verbatim>\<open>PacketIfac::new_from_slice\<close> panics on a slice longer than the 64-byte array.\<close>

record packet_ifac =
  pi_access_code :: bytes
  pi_length :: nat

definition packet_ifac_new_from_slice :: "bytes \<Rightarrow> packet_ifac option" where
  "packet_ifac_new_from_slice code =
     (if length code > PACKET_IFAC_MAX_LENGTH then None
      else Some \<lparr>pi_access_code = copy_at 0 code (replicate PACKET_IFAC_MAX_LENGTH 0),
                 pi_length = length code\<rparr>)"

definition packet_ifac_as_slice :: "packet_ifac \<Rightarrow> bytes" where
  "packet_ifac_as_slice p = take (pi_length p) (pi_access_code p)"

record packet =
  pk_header :: header
  pk_ifac :: "packet_ifac option"
  pk_destination :: address_hash
  pk_transport :: "address_hash option"
  pk_context :: packet_context
  pk_data :: bytes

definition packet_default :: packet where
  "packet_default =
     \<lparr>pk_header = header_default, pk_ifac = None, pk_destination = address_hash_new_empty,
      pk_transport = None, pk_context = Ctx_None, pk_data = []\<rparr>"

text \<open>\<^verbatim>\<open>Packet::hash\<close>: the digest of the low four flag bits, destination, context and payload.\<close>

definition packet_hash :: "sha \<Rightarrow> packet \<Rightarrow> rns_hash" where
  "packet_hash sha p =
     Hash (sha ([to_meta (pk_header p) AND 0b00001111] @ addr_bytes (pk_destination p) @
                [packet_context_u8 (pk_context p)] @ pk_data p))"

section \<open>Wire encoding\<close>

definition address_hash_serialize :: "address_hash \<Rightarrow> (output_buffer, nat) res" where
  "address_hash_serialize a = output_buffer_write (addr_bytes a)"

definition header_serialize :: "header \<Rightarrow> (output_buffer, nat) res" where
  "header_serialize h = output_buffer_write [to_meta h, hd_hops h]"

definition packet_context_serialize :: "packet_context \<Rightarrow> (output_buffer, nat) res" where
  "packet_context_serialize c = output_buffer_write [packet_context_u8 c]"

definition packet_serialize :: "packet \<Rightarrow> (output_buffer, nat) res" where
  "packet_serialize p =
     res_bind (header_serialize (pk_header p)) (\<lambda>_.
     res_bind (case (hd_header_type (pk_header p), pk_transport p) of
                 (Type2, Some transport) \<Rightarrow> address_hash_serialize transport
               | _ \<Rightarrow> res_return 0) (\<lambda>_.
     res_bind (address_hash_serialize (pk_destination p)) (\<lambda>_.
     res_bind (packet_context_serialize (pk_context p)) (\<lambda>_.
     output_buffer_write (pk_data p)))))"

definition header_deserialize :: "(input_buffer, header) res" where
  "header_deserialize =
     res_bind input_buffer_read_byte (\<lambda>meta.
     res_bind input_buffer_read_byte (\<lambda>hops.
     if hops \<ge> PATHFINDER_M then res_throw PacketError
     else res_return ((from_meta meta)\<lparr>hd_hops := hops\<rparr>)))"

definition address_hash_deserialize :: "(input_buffer, address_hash) res" where
  "address_hash_deserialize =
     res_bind (input_buffer_read ADDRESS_HASH_SIZE) (\<lambda>address. res_return (AddressHash address))"

definition packet_context_deserialize :: "(input_buffer, packet_context) res" where
  "packet_context_deserialize =
     res_bind input_buffer_read_byte (\<lambda>b. res_return (packet_context_from b))"

definition packet_deserialize :: "(input_buffer, packet) res" where
  "packet_deserialize =
     res_bind header_deserialize (\<lambda>header.
     res_bind (if hd_header_type header = Type2
               then res_bind address_hash_deserialize (\<lambda>a. res_return (Some a))
               else res_return None) (\<lambda>transport.
     res_bind address_hash_deserialize (\<lambda>destination.
     res_bind packet_context_deserialize (\<lambda>context.
     (\<lambda>buffer. let remaining = input_buffer_bytes_left buffer in
        if remaining > PACKET_MDU then (Inl OutOfMemory, buffer)
        else res_bind (input_buffer_read remaining) (\<lambda>data.
          res_return \<lparr>pk_header = header, pk_ifac = None, pk_destination = destination,
                      pk_transport = transport, pk_context = context, pk_data = data\<rparr>) buffer)))))"

section \<open>The flags byte\<close>



lemma context_roundtrip: "packet_context_from (packet_context_u8 c) = c"
  by (cases c) (simp_all add: packet_context_from_def)


lemma u8_and_3_cases: "(v :: u8) AND 3 = 0 \<or> v AND 3 = 1 \<or> v AND 3 = 2 \<or> v AND 3 = 3"
proof -
  have "unat (v AND 3) \<le> 3"
    using word_and_le1 [of v 3] by (simp add: word_le_nat_alt)
  then have "unat (v AND 3) = 0 \<or> unat (v AND 3) = 1 \<or> unat (v AND 3) = 2 \<or> unat (v AND 3) = 3"
    by arith
  then show ?thesis by (simp add: word_unat_eq_iff)
qed

lemma u8_and_1_cases: "(v :: u8) AND 1 = 0 \<or> v AND 1 = 1"
  by (simp add: and_one_eq mod_2_eq_odd)

lemma field_u8_from:
  "header_type_u8 (header_type_from v) = v AND 1"
  "propagation_type_u8 (propagation_type_from v) = v AND 3"
  "destination_type_u8 (destination_type_from v) = v AND 3"
  "packet_type_u8 (packet_type_from v) = v AND 3"
  using u8_and_3_cases [of v] u8_and_1_cases [of v]
  by (auto simp: header_type_from_def propagation_type_from_def destination_type_from_def
      packet_type_from_def)

lemma drop_bit_7_u8: "drop_bit 7 (b :: u8) = 0 \<or> drop_bit 7 b = 1"
proof -
  have "unat (drop_bit 7 b) = drop_bit 7 (unat b)"
    by (rule unat_drop_bit_eq)
  also have "\<dots> = unat b div 128"
    by (simp add: drop_bit_eq_div)
  finally have "unat (drop_bit 7 b) = 0 \<or> unat (drop_bit 7 b) = 1"
    using unat_u8_less [of b] by arith
  then show ?thesis by (simp add: word_unat_eq_iff)
qed

lemma ifac_u8_from: "ifac_flag_u8 (ifac_flag_from (drop_bit 7 b)) = drop_bit 7 b"
  using drop_bit_7_u8 [of b] by (auto simp: ifac_flag_from_def)


lemma u8_bit_cases: "n < LENGTH(8) \<Longrightarrow> n = 0 \<or> n = 1 \<or> n = 2 \<or> n = 3 \<or> n = 4 \<or> n = 5 \<or> n = 6 \<or> n = 7"
  by simp arith


lemma bit_32: "n < 8 \<Longrightarrow> bit (32 :: u8) n \<longleftrightarrow> n = 5"
  using u8_bit_cases [of n] by (auto; simp)

lemma and_32_bit: "(b :: u8) AND 32 \<noteq> 0 \<longleftrightarrow> bit b 5"
proof -
  have "b AND 32 \<noteq> 0 \<longleftrightarrow> (\<exists>n < 8. bit b n \<and> bit (32 :: u8) n)"
    by (auto simp: bit_eq_iff bit_simps)
  also have "\<dots> \<longleftrightarrow> bit b 5"
  proof
    assume "\<exists>n < 8. bit b n \<and> bit (32 :: u8) n"
    then show "bit b 5" using bit_32 by auto
  next
    assume "bit b 5"
    then show "\<exists>n < 8. bit b n \<and> bit (32 :: u8) n" by (intro exI [of _ 5]) simp
  qed
  finally show ?thesis .
qed

lemma to_meta_from_meta: "to_meta (from_meta b) = b"
proof (rule bit_word_eqI)
  fix n assume "n < LENGTH(8)"
  from u8_bit_cases [OF this] show "bit (to_meta (from_meta b)) n = bit b n"
    by (elim disjE) (simp_all add: to_meta_def from_meta_def field_u8_from ifac_u8_from and_32_bit
        bit_or_iff bit_push_bit_iff bit_and_iff bit_drop_bit_eq)
qed

text \<open>Claim C20. Decoding a flags byte and encoding it again gives the same byte, whatever the
  byte: a node that relays a header it parsed does not alter it.\<close>

theorem relayed_flags_unchanged: "to_meta (from_meta b) = b"
  by (rule to_meta_from_meta)

text \<open>
  The other direction is not the identity. The propagation type is written as two bits at
  position 4, so its high bit and the context flag share bit 5 of the byte; \<open>reparsed\<close> is what a
  receiver reads back.
\<close>

lemma to_meta_hops [simp]: "to_meta (h\<lparr>hd_hops := n\<rparr>) = to_meta h"
  by (simp add: to_meta_def)

definition reparsed :: "header \<Rightarrow> header" where
  "reparsed h =
     h\<lparr>hd_context_flag := (hd_context_flag h \<or> hd_propagation_type h \<in> {Reserved1, Reserved2}),
       hd_propagation_type :=
         (if hd_context_flag h
          then case hd_propagation_type h of
                 Broadcast \<Rightarrow> Reserved1 | Transport \<Rightarrow> Reserved2 | pt \<Rightarrow> pt
          else hd_propagation_type h)\<rparr>"

lemma from_meta_to_meta: "from_meta (to_meta h) = (reparsed h)\<lparr>hd_hops := 0\<rparr>"
proof -
  obtain i c t p d k n where h: "h = \<lparr>hd_ifac_flag = i, hd_context_flag = c, hd_header_type = t,
      hd_propagation_type = p, hd_destination_type = d, hd_packet_type = k, hd_hops = n\<rparr>"
    by (cases h)
  show ?thesis
    unfolding h by (cases i; cases c; cases t; cases p; cases d; cases k)
      (simp_all add: to_meta_def from_meta_def reparsed_def ifac_flag_from_def header_type_from_def
        propagation_type_from_def destination_type_from_def packet_type_from_def)
qed

lemma reparsed_header_type [simp]: "hd_header_type (reparsed h) = hd_header_type h"
  "hd_hops (reparsed h) = hd_hops h"
  by (simp_all add: reparsed_def)

lemma reparsed_hops_upd: "(reparsed h)\<lparr>hd_hops := hd_hops h\<rparr> = reparsed h"
  by (simp add: reparsed_def)

lemma reparsed_eq_iff:
  "reparsed h = h \<longleftrightarrow> (hd_context_flag h \<longleftrightarrow> hd_propagation_type h \<in> {Reserved1, Reserved2})"
  by (cases h; cases "hd_propagation_type h") (auto simp: reparsed_def)

text \<open>Claim C21. What a receiver reads from an encoded header: every field is preserved except that
  a set context flag turns the propagation types Broadcast and Transport into the two reserved
  ones (and a reserved type sets the context flag). A header survives the trip exactly when its
  context flag agrees with the high bit of its propagation type.\<close>

theorem header_flags_reparsed:
  "from_meta (to_meta h) = (reparsed h)\<lparr>hd_hops := 0\<rparr> \<and>
   ((from_meta (to_meta h))\<lparr>hd_hops := hd_hops h\<rparr> = h \<longleftrightarrow>
      (hd_context_flag h \<longleftrightarrow> hd_propagation_type h \<in> {Reserved1, Reserved2}))"
  by (simp add: from_meta_to_meta reparsed_hops_upd reparsed_eq_iff)

section \<open>Packets on the wire\<close>

text \<open>The byte layout: flags, hops, optional transport address, destination, context, payload.\<close>

definition transport_wire :: "packet \<Rightarrow> bytes" where
  "transport_wire p =
     (case (hd_header_type (pk_header p), pk_transport p) of
        (Type2, Some t) \<Rightarrow> addr_bytes t | _ \<Rightarrow> [])"

definition packet_wire :: "packet \<Rightarrow> bytes" where
  "packet_wire p =
     [to_meta (pk_header p), hd_hops (pk_header p)] @ transport_wire p @
     addr_bytes (pk_destination p) @ [packet_context_u8 (pk_context p)] @ pk_data p"

lemma output_write_Nil: "output_buffer_write [] = res_return 0"
  by (simp add: output_buffer_write_def res_return_def fun_eq_iff)

lemma packet_serialize_seq:
  "packet_serialize p =
     res_bind (write_seq output_buffer_write
       [[to_meta (pk_header p), hd_hops (pk_header p)], transport_wire p,
        addr_bytes (pk_destination p), [packet_context_u8 (pk_context p)]])
       (\<lambda>_. output_buffer_write (pk_data p))"
proof -
  have "(case (hd_header_type (pk_header p), pk_transport p) of
          (Type2, Some transport) \<Rightarrow> address_hash_serialize transport | _ \<Rightarrow> res_return 0) =
        output_buffer_write (transport_wire p)"
    by (simp add: transport_wire_def output_write_Nil address_hash_serialize_def
        split: header_type.splits option.splits)
  then show ?thesis
    by (simp add: packet_serialize_def header_serialize_def address_hash_serialize_def
        packet_context_serialize_def res_bind_assoc)
qed

lemma packet_serialize_fits:
  assumes ok: "output_buffer_ok b"
    and fits: "length (output_buffer_as_slice b) + length (packet_wire p) \<le> length (ob_buffer b)"
  shows "\<exists>b'. packet_serialize p b = (Inr (length (pk_data p)), b') \<and> output_buffer_ok b' \<and>
              output_buffer_as_slice b' = output_buffer_as_slice b @ packet_wire p"
proof -
  let ?ds = "[[to_meta (pk_header p), hd_hops (pk_header p)], transport_wire p,
        addr_bytes (pk_destination p), [packet_context_u8 (pk_context p)]]"
  have "length (output_buffer_as_slice b) + length (concat ?ds) \<le> length (ob_buffer b)"
    using fits by (simp add: packet_wire_def)
  from ob.seq_fits [OF ok this] obtain b1
    where b1: "write_seq output_buffer_write ?ds b = (Inr (), b1)" "output_buffer_ok b1"
      "length (ob_buffer b1) = length (ob_buffer b)"
      "output_buffer_as_slice b1 = output_buffer_as_slice b @ concat ?ds" by blast
  have "length (output_buffer_as_slice b1) + length (pk_data p) \<le> length (ob_buffer b1)"
    using fits b1(3,4) by (simp add: packet_wire_def)
  from ob.write_fits [OF b1(2) this] obtain b2
    where "output_buffer_write (pk_data p) b1 = (Inr (length (pk_data p)), b2)" "output_buffer_ok b2"
      "output_buffer_as_slice b2 = output_buffer_as_slice b1 @ pk_data p" by blast
  with b1 show ?thesis
    unfolding packet_serialize_seq by (simp add: res_bind_Inr packet_wire_def)
qed

lemma packet_serialize_overflow:
  assumes ok: "output_buffer_ok b"
    and full: "length (ob_buffer b) < length (output_buffer_as_slice b) + length (packet_wire p)"
  shows "fst (packet_serialize p b) = Inl OutOfMemory"
proof -
  let ?ds = "[[to_meta (pk_header p), hd_hops (pk_header p)], transport_wire p,
        addr_bytes (pk_destination p), [packet_context_u8 (pk_context p)]]"
  show ?thesis
  proof (cases "length (output_buffer_as_slice b) + length (concat ?ds) \<le> length (ob_buffer b)")
    case False
    then obtain b1 where "write_seq output_buffer_write ?ds b = (Inl OutOfMemory, b1)"
      using ob.seq_overflow [OF ok, of ?ds] by auto
    then show ?thesis unfolding packet_serialize_seq by (simp add: res_bind_Inl)
  next
    case True
    from ob.seq_fits [OF ok True] obtain b1
      where b1: "write_seq output_buffer_write ?ds b = (Inr (), b1)" "output_buffer_ok b1"
        "length (ob_buffer b1) = length (ob_buffer b)"
        "output_buffer_as_slice b1 = output_buffer_as_slice b @ concat ?ds" by blast
    then have "length (ob_buffer b1) < length (output_buffer_as_slice b1) + length (pk_data p)"
      using full by (simp add: packet_wire_def)
    from ob.write_full [OF b1(2) this] b1(1) show ?thesis
      unfolding packet_serialize_seq by (simp add: res_bind_Inr)
  qed
qed

text \<open>
  A closed form of the decoder: which inputs it refuses, with which error, and where each field
  lies. A type 1 packet has a 19-byte header and a type 2 packet a 35-byte one; the payload is
  whatever follows, at most 2048 bytes.
\<close>

definition packet_parse :: "bytes \<Rightarrow> packet result" where
  "packet_parse bs =
     (if length bs < 2 then Inl OutOfMemory
      else if bs ! 1 \<ge> 128 then Inl PacketError
      else let h = (from_meta (bs ! 0))\<lparr>hd_hops := bs ! 1\<rparr>;
               two = (hd_header_type h = Type2);
               n = (if two then 35 else 19)
           in if length bs < n \<or> length bs > n + 2048 then Inl OutOfMemory
              else Inr \<lparr>pk_header = h, pk_ifac = None,
                        pk_destination = AddressHash (take 16 (drop (n - 17) bs)),
                        pk_transport = (if two then Some (AddressHash (take 16 (drop 2 bs))) else None),
                        pk_context = packet_context_from (bs ! (n - 1)),
                        pk_data = drop n bs\<rparr>)"

lemma packet_deserialize_eq_parse: "fst (packet_deserialize (input_buffer_new bs)) = packet_parse bs"
  by (auto simp: packet_deserialize_def packet_parse_def header_deserialize_def
      address_hash_deserialize_def packet_context_deserialize_def input_buffer_read_byte_def
      input_buffer_read_def input_buffer_bytes_left_def input_buffer_new_def res_bind_def
      res_return_def res_throw_def hash_sizes packet_consts numeral_2_eq_2)

text \<open>The cursor-based decoder computes exactly the closed form, on every input: all
  its refusals (short input, hop count of 128 or more, oversized payload) and all its fields.\<close>

theorem packet_deserialize_parse: "fst (packet_deserialize (input_buffer_new bs)) = packet_parse bs"
  by (rule packet_deserialize_eq_parse)

text \<open>A packet the encoder can represent: 16-byte addresses, a payload within the buffer, and a
  transport address exactly when the header type says so.\<close>

definition packet_ok :: "packet \<Rightarrow> bool" where
  "packet_ok p \<longleftrightarrow>
     addr_ok (pk_destination p) \<and> length (pk_data p) \<le> PACKET_MDU \<and>
     (case pk_transport p of None \<Rightarrow> hd_header_type (pk_header p) = Type1
      | Some t \<Rightarrow> hd_header_type (pk_header p) = Type2 \<and> addr_ok t)"

lemma packet_parse_wire:
  assumes ok: "packet_ok p" and hops: "hd_hops (pk_header p) < 128"
  shows "packet_parse (packet_wire p) = Inr (p\<lparr>pk_header := reparsed (pk_header p), pk_ifac := None\<rparr>)"
proof (cases "pk_transport p")
  case None
  with assms show ?thesis
    by (cases p) (auto simp: packet_parse_def packet_wire_def transport_wire_def packet_ok_def addr_ok_def
        from_meta_to_meta reparsed_hops_upd context_roundtrip hash_sizes packet_consts nth_append)
next
  case (Some t)
  with assms show ?thesis
    by (cases p) (auto simp: packet_parse_def packet_wire_def transport_wire_def packet_ok_def addr_ok_def
        from_meta_to_meta reparsed_hops_upd context_roundtrip hash_sizes packet_consts nth_append)
qed

text \<open>Claim C18. Serialising a well-formed packet with fewer than 128 hops into a large enough
  buffer succeeds, and decoding the written bytes gives the packet back, with the header a
  receiver reads (\<open>reparsed\<close>) and without the interface access code, which is not part of the
  packet encoding.\<close>

theorem packet_roundtrip:
  assumes "packet_ok p" and "hd_hops (pk_header p) < 128"
    and "length (packet_wire p) \<le> length buf"
  shows "\<exists>b'. packet_serialize p (output_buffer_new buf) = (Inr (length (pk_data p)), b') \<and>
           fst (packet_deserialize (input_buffer_new (output_buffer_as_slice b'))) =
             Inr (p\<lparr>pk_header := reparsed (pk_header p), pk_ifac := None\<rparr>)"
  using packet_serialize_fits [of "output_buffer_new buf" p] assms packet_parse_wire [of p]
  by (auto simp: packet_deserialize_eq_parse)

lemma sample_packet_wire:
  "packet_wire packet_default = replicate 19 0"
  by (simp add: packet_wire_def transport_wire_def packet_default_def header_default_def to_meta_def
      address_hash_new_empty_def hash_sizes numeral_eq_Suc)

theorem packet_roundtrip_witness:
  "\<exists>b'. packet_serialize packet_default (output_buffer_new (replicate 64 0)) = (Inr 0, b') \<and>
      fst (packet_deserialize (input_buffer_new (output_buffer_as_slice b'))) = Inr packet_default"
proof -
  have ok: "packet_ok packet_default"
    by (simp add: packet_ok_def packet_default_def header_default_def addr_ok_def
        address_hash_new_empty_def)
  have hops: "hd_hops (pk_header packet_default) < 128"
    by (simp add: packet_default_def header_default_def)
  have len: "length (packet_wire packet_default) \<le> length (replicate 64 (0 :: u8))"
    by (simp add: sample_packet_wire)
  have "packet_default\<lparr>pk_header := reparsed (pk_header packet_default), pk_ifac := None\<rparr> = packet_default"
    by (simp add: packet_default_def header_default_def reparsed_def)
  with packet_roundtrip [OF ok hops len] show ?thesis
    by (simp add: packet_default_def)
qed

text \<open>The four flag bits that enter the packet hash are the destination and packet types.\<close>

lemma low_nibble_bits:
  "to_meta h AND 15 = push_bit 2 (destination_type_u8 (hd_destination_type h)) OR
     packet_type_u8 (hd_packet_type h)"
proof (rule bit_word_eqI)
  fix n assume "n < LENGTH(8)"
  from u8_bit_cases [OF this] show "bit (to_meta h AND 15) n =
      bit (push_bit 2 (destination_type_u8 (hd_destination_type h)) OR packet_type_u8 (hd_packet_type h)) n"
    by (elim disjE; cases "hd_destination_type h"; cases "hd_packet_type h")
      (simp_all add: to_meta_def bit_or_iff bit_push_bit_iff bit_and_iff)
qed


definition context_offset :: "bytes \<Rightarrow> nat" where
  "context_offset bs = (if hd_header_type (from_meta (bs ! 0)) = Type2 then 34 else 18)"

lemma parse_Inr_wire:
  assumes "packet_parse bs = Inr p"
  shows "packet_ok p \<and> pk_ifac p = None \<and> hd_hops (pk_header p) < 128 \<and>
     packet_wire p = bs[context_offset bs := packet_context_u8 (packet_context_from (bs ! context_offset bs))]"
proof -
  have "2 \<le> length bs" using assms by (auto simp: packet_parse_def split: if_splits)
  then obtain m h r where bs: "bs = m # h # r" by (cases bs; cases "tl bs") auto
  show ?thesis
  proof (cases "hd_header_type (from_meta m)")
    case Type1
    with assms have len: "17 \<le> length r" "length r \<le> 17 + 2048" and h: "h < 128"
      and p: "p = \<lparr>pk_header = (from_meta m)\<lparr>hd_hops := h\<rparr>, pk_ifac = None,
         pk_destination = AddressHash (take 16 r), pk_transport = None,
         pk_context = packet_context_from (r ! 16), pk_data = drop 17 r\<rparr>"
      by (auto simp: bs packet_parse_def not_le split: if_splits)
    have "r[16 := x] = take 16 r @ x # drop 17 r" for x
      using len by (simp add: upd_conv_take_nth_drop)
    then show ?thesis using Type1 len h unfolding p bs
      by (auto simp: packet_ok_def addr_ok_def packet_wire_def transport_wire_def context_offset_def
         hash_sizes packet_consts to_meta_hops to_meta_from_meta)
  next
    case Type2
    with assms have len: "33 \<le> length r" "length r \<le> 33 + 2048" and h: "h < 128"
      and p: "p = \<lparr>pk_header = (from_meta m)\<lparr>hd_hops := h\<rparr>, pk_ifac = None,
         pk_destination = AddressHash (take 16 (drop 16 r)), pk_transport = Some (AddressHash (take 16 r)),
         pk_context = packet_context_from (r ! 32), pk_data = drop 33 r\<rparr>"
      by (auto simp: bs packet_parse_def not_le split: if_splits)
    have "r[32 := x] = take 16 r @ take 16 (drop 16 r) @ x # drop 33 r" for x
      using len take_add [of 16 16 r] by (simp add: upd_conv_take_nth_drop)
    then show ?thesis using Type2 len h unfolding p bs
      by (auto simp: packet_ok_def addr_ok_def packet_wire_def transport_wire_def context_offset_def
         hash_sizes packet_consts to_meta_hops to_meta_from_meta)
  qed
qed



lemma packet_hash_cong:
  assumes "hd_destination_type (pk_header p) = hd_destination_type (pk_header q)"
    and "hd_packet_type (pk_header p) = hd_packet_type (pk_header q)"
    and "pk_destination p = pk_destination q" "pk_context p = pk_context q" "pk_data p = pk_data q"
  shows "packet_hash sha p = packet_hash sha q"
  using assms by (simp add: packet_hash_def low_nibble_bits)

lemma packet_hash_ok: "sha_ok sha \<Longrightarrow> hash_ok (packet_hash sha p)"
  by (simp add: sha_ok_def hash_ok_def packet_hash_def hash_sizes)

end
