(* ===== verification/Rns_Hdlc.thy ===== *)
theory Rns_Hdlc
  imports Rns_Packet
begin

text \<open>
  HDLC byte stuffing, \<^verbatim>\<open>src/iface/hdlc.rs\<close>: the encoders into an output buffer and into a vector,
  the one-shot decoder, the frame finder, and the incremental decoder of byte streams. The contract
  \<open>stream_framing\<close> states what every framed byte stream promises (also KISS, in its own theory);
  its client lemma is delivery of a sequence of frames under any chunking of the stream.
\<close>

section \<open>The contract of a framed stream\<close>

text \<open>
  \<open>feed\<close> consumes bytes and returns the events they complete; \<open>idle\<close> are the states between
  frames. A decoder is fed chunk by chunk, as bytes arrive from a port.
\<close>

primrec feed_chunks :: "('d \<Rightarrow> bytes \<Rightarrow> 'e list \<times> 'd) \<Rightarrow> 'd \<Rightarrow> bytes list \<Rightarrow> 'e list \<times> 'd" where
  "feed_chunks f d [] = ([], d)"
| "feed_chunks f d (c # cs) =
     (case f d c of (es, d') \<Rightarrow> (case feed_chunks f d' cs of (es', d'') \<Rightarrow> (es @ es', d'')))"

locale stream_framing =
  fixes feed :: "'d \<Rightarrow> bytes \<Rightarrow> 'e list \<times> 'd"
    and encode :: "bytes \<Rightarrow> bytes"
    and deliver :: "nat \<Rightarrow> bytes \<Rightarrow> 'e"
    and mtu :: "'d \<Rightarrow> nat"
    and idle :: "'d \<Rightarrow> bool"
  assumes feed_Nil: "feed d [] = ([], d)"
    and feed_append: "feed d (xs @ ys) =
          (case feed d xs of (es, d') \<Rightarrow> (case feed d' ys of (es', d'') \<Rightarrow> (es @ es', d'')))"
    and feed_encode: "idle d \<Longrightarrow>
          \<exists>d'. feed d (encode p) = ([deliver (mtu d) p], d') \<and> idle d' \<and> mtu d' = mtu d"
begin

lemma chunks_concat: "feed_chunks feed d cs = feed d (concat cs)"
  by (induction cs arbitrary: d) (auto simp: feed_Nil feed_append split: prod.splits)

lemma feed_frames:
  "idle d \<Longrightarrow> \<exists>d'. feed d (concat (map encode ps)) = (map (deliver (mtu d)) ps, d') \<and>
                  idle d' \<and> mtu d' = mtu d"
proof (induction ps arbitrary: d)
  case Nil
  then show ?case by (simp add: feed_Nil)
next
  case (Cons p ps)
  obtain d1 where d1: "feed d (encode p) = ([deliver (mtu d) p], d1)" "idle d1" "mtu d1 = mtu d"
    using feed_encode [OF Cons.prems] by blast
  obtain d2 where "feed d1 (concat (map encode ps)) = (map (deliver (mtu d1)) ps, d2)" "idle d2"
      "mtu d2 = mtu d1"
    using Cons.IH [OF d1(2)] by blast
  with d1 show ?case by (simp add: feed_append)
qed

lemma chunked_delivery:
  assumes "idle d" and "concat cs = concat (map encode ps)"
  shows "fst (feed_chunks feed d cs) = map (deliver (mtu d)) ps"
  using feed_frames [OF assms(1), of ps] assms(2) by (auto simp: chunks_concat)

end

section \<open>Definitions\<close>

definition HDLC_FRAME_FLAG :: u8 where "HDLC_FRAME_FLAG = 0x7e"
definition HDLC_ESCAPE_BYTE :: u8 where "HDLC_ESCAPE_BYTE = 0x7d"
definition HDLC_ESCAPE_MASK :: u8 where "HDLC_ESCAPE_MASK = 0b00100000"

lemmas hdlc_consts = HDLC_FRAME_FLAG_def HDLC_ESCAPE_BYTE_def HDLC_ESCAPE_MASK_def

primrec hdlc_escape_loop :: "bytes \<Rightarrow> (output_buffer, unit) res" where
  "hdlc_escape_loop [] = res_return ()"
| "hdlc_escape_loop (byte # data) =
     res_bind
       (if byte = HDLC_FRAME_FLAG \<or> byte = HDLC_ESCAPE_BYTE
        then output_buffer_write [HDLC_ESCAPE_BYTE, byte XOR HDLC_ESCAPE_MASK]
        else output_buffer_write_byte byte)
       (\<lambda>_. hdlc_escape_loop data)"

definition output_buffer_get_offset :: "(output_buffer, nat) res" where
  "output_buffer_get_offset = (\<lambda>b. (Inr (ob_offset b), b))"

text \<open>\<^verbatim>\<open>Hdlc::encode\<close> writes the escaping loop inline; \<^verbatim>\<open>escape\<close> and \<^verbatim>\<open>encode_frame\<close> share it.\<close>

definition hdlc_encode :: "bytes \<Rightarrow> (output_buffer, nat) res" where
  "hdlc_encode data =
     res_bind (output_buffer_write_byte HDLC_FRAME_FLAG) (\<lambda>_.
     res_bind (hdlc_escape_loop data) (\<lambda>_.
     res_bind (output_buffer_write_byte HDLC_FRAME_FLAG) (\<lambda>_.
     output_buffer_get_offset)))"

definition hdlc_escape :: "bytes \<Rightarrow> (output_buffer, nat) res" where
  "hdlc_escape data = res_bind (hdlc_escape_loop data) (\<lambda>_. output_buffer_get_offset)"

definition hdlc_encode_frame :: "bytes \<Rightarrow> (output_buffer, nat) res" where
  "hdlc_encode_frame data =
     res_bind (output_buffer_write_byte HDLC_FRAME_FLAG) (\<lambda>_.
     res_bind (hdlc_escape data) (\<lambda>_.
     res_bind (output_buffer_write_byte HDLC_FRAME_FLAG) (\<lambda>_.
     output_buffer_get_offset)))"

definition hdlc_push_escaped :: "u8 \<Rightarrow> bytes \<Rightarrow> bytes" where
  "hdlc_push_escaped byte out =
     (if byte = HDLC_FRAME_FLAG \<or> byte = HDLC_ESCAPE_BYTE
      then out @ [HDLC_ESCAPE_BYTE] @ [byte XOR HDLC_ESCAPE_MASK]
      else out @ [byte])"

definition hdlc_encode_frame_vec :: "bytes \<Rightarrow> bytes" where
  "hdlc_encode_frame_vec data =
     fold hdlc_push_escaped data [HDLC_FRAME_FLAG] @ [HDLC_FRAME_FLAG]"

text \<open>The loop of \<^verbatim>\<open>Hdlc::find\<close>, at index \<open>i\<close>, with the start flag seen at \<open>start\<close>.\<close>

fun hdlc_find_loop :: "nat \<Rightarrow> nat option \<Rightarrow> bytes \<Rightarrow> (nat \<times> nat) option" where
  "hdlc_find_loop i start [] = None"
| "hdlc_find_loop i start (byte # data) =
     (if byte \<noteq> HDLC_FRAME_FLAG then hdlc_find_loop (Suc i) start data
      else case start of
             None \<Rightarrow> hdlc_find_loop (Suc i) (Some i) data
           | Some s \<Rightarrow> Some (s, i))"

definition hdlc_find :: "bytes \<Rightarrow> (nat \<times> nat) option" where
  "hdlc_find data = hdlc_find_loop 0 None data"

text \<open>The loop of \<^verbatim>\<open>Hdlc::decode\<close>; its value is the flag \<^verbatim>\<open>finished\<close>.\<close>

fun hdlc_decode_loop :: "bool \<Rightarrow> bool \<Rightarrow> bytes \<Rightarrow> (output_buffer, bool) res" where
  "hdlc_decode_loop started escape [] = res_return False"
| "hdlc_decode_loop started escape (byte # data) =
     (if escape then
        res_bind (output_buffer_write_byte (byte XOR HDLC_ESCAPE_MASK)) (\<lambda>_.
        hdlc_decode_loop started False data)
      else if byte = HDLC_FRAME_FLAG then
        (if started then res_return True else hdlc_decode_loop True False data)
      else if byte = HDLC_ESCAPE_BYTE then hdlc_decode_loop started True data
      else res_bind (output_buffer_write_byte byte) (\<lambda>_. hdlc_decode_loop started False data))"

definition hdlc_decode :: "bytes \<Rightarrow> (output_buffer, nat) res" where
  "hdlc_decode data =
     res_bind (hdlc_decode_loop False False data) (\<lambda>finished.
     if \<not> finished then res_throw OutOfMemory else output_buffer_get_offset)"

record hdlc_decoder =
  hdlc_frame :: bytes
  hdlc_in_frame :: bool
  hdlc_escaped :: bool
  hdlc_mtu :: nat

definition hdlc_decoder_new :: "nat \<Rightarrow> hdlc_decoder" where
  "hdlc_decoder_new mtu =
     \<lparr>hdlc_frame = [], hdlc_in_frame = False, hdlc_escaped = False, hdlc_mtu = mtu\<rparr>"

text \<open>One iteration of the loop of \<^verbatim>\<open>HdlcDecoder::feed\<close>: the frame handed to the callback, if any.\<close>

definition hdlc_unescape :: "u8 \<Rightarrow> u8" where
  "hdlc_unescape byte =
     (let byte = (if byte = HDLC_FRAME_FLAG XOR HDLC_ESCAPE_MASK then HDLC_FRAME_FLAG else byte)
      in if byte = HDLC_ESCAPE_BYTE XOR HDLC_ESCAPE_MASK then HDLC_ESCAPE_BYTE else byte)"

definition hdlc_feed_byte :: "hdlc_decoder \<Rightarrow> u8 \<Rightarrow> bytes list \<times> hdlc_decoder" where
  "hdlc_feed_byte d byte =
     (if hdlc_in_frame d \<and> byte = HDLC_FRAME_FLAG then
        ([hdlc_frame d], d\<lparr>hdlc_in_frame := False, hdlc_escaped := False, hdlc_frame := []\<rparr>)
      else if byte = HDLC_FRAME_FLAG then
        ([], d\<lparr>hdlc_in_frame := True, hdlc_escaped := False, hdlc_frame := []\<rparr>)
      else if hdlc_in_frame d \<and> length (hdlc_frame d) < hdlc_mtu d then
        (if byte = HDLC_ESCAPE_BYTE then ([], d\<lparr>hdlc_escaped := True\<rparr>)
         else ([], d\<lparr>hdlc_escaped := False,
                     hdlc_frame := hdlc_frame d @
                       [if hdlc_escaped d then hdlc_unescape byte else byte]\<rparr>))
      else ([], d))"

primrec hdlc_feed :: "hdlc_decoder \<Rightarrow> bytes \<Rightarrow> bytes list \<times> hdlc_decoder" where
  "hdlc_feed d [] = ([], d)"
| "hdlc_feed d (byte # data) =
     (case hdlc_feed_byte d byte of (fs, d') \<Rightarrow>
        (case hdlc_feed d' data of (fs', d'') \<Rightarrow> (fs @ fs', d'')))"

definition hdlc_decoder_reset :: "hdlc_decoder \<Rightarrow> hdlc_decoder" where
  "hdlc_decoder_reset d = d\<lparr>hdlc_frame := [], hdlc_in_frame := False, hdlc_escaped := False\<rparr>"

section \<open>The escaped form\<close>

definition hdlc_stuff :: "bytes \<Rightarrow> bytes" where
  "hdlc_stuff data = concat (map (\<lambda>b. hdlc_push_escaped b []) data)"

lemma hdlc_stuff_simps [simp]:
  "hdlc_stuff [] = []"
  "hdlc_stuff (b # bs) = hdlc_push_escaped b [] @ hdlc_stuff bs"
  by (simp_all add: hdlc_stuff_def)

lemma hdlc_push_escaped_append: "hdlc_push_escaped b out = out @ hdlc_push_escaped b []"
  by (simp add: hdlc_push_escaped_def)

lemma fold_hdlc_push: "fold hdlc_push_escaped data out = out @ hdlc_stuff data"
proof (induction data arbitrary: out)
  case (Cons b data)
  then show ?case
    by (simp add: hdlc_push_escaped_append [of b out])
qed simp

lemma hdlc_encode_frame_vec_eq:
  "hdlc_encode_frame_vec data = [HDLC_FRAME_FLAG] @ hdlc_stuff data @ [HDLC_FRAME_FLAG]"
  by (simp add: hdlc_encode_frame_vec_def fold_hdlc_push)

lemma hdlc_escape_loop_seq:
  "hdlc_escape_loop data = write_seq output_buffer_write (map (\<lambda>b. hdlc_push_escaped b []) data)"
  by (induction data) (simp_all add: hdlc_push_escaped_def output_buffer_write_byte_def)

lemma hdlc_push_no_flag: "HDLC_FRAME_FLAG \<notin> set (hdlc_push_escaped b [])"
  by (simp add: hdlc_push_escaped_def hdlc_consts)

lemma hdlc_stuff_no_flag: "HDLC_FRAME_FLAG \<notin> set (hdlc_stuff data)"
  using hdlc_push_no_flag by (auto simp: hdlc_stuff_def)

lemma length_hdlc_stuff: "length data \<le> length (hdlc_stuff data) \<and> length (hdlc_stuff data) \<le> 2 * length data"
  by (induction data) (auto simp: hdlc_push_escaped_def)


section \<open>Encoders\<close>

lemma res_bind_get_offset:
  "res_bind (res_bind m (\<lambda>_. output_buffer_get_offset)) (\<lambda>_. k) = res_bind m (\<lambda>_. k)"
  by (auto simp: res_bind_def output_buffer_get_offset_def fun_eq_iff split: prod.splits sum.splits)

lemma hdlc_encode_eq_frame: "hdlc_encode = hdlc_encode_frame"
  by (simp add: fun_eq_iff hdlc_encode_def hdlc_encode_frame_def hdlc_escape_def res_bind_get_offset)

lemma hdlc_encode_seq:
  "hdlc_encode data =
     res_bind (write_seq output_buffer_write
       ([HDLC_FRAME_FLAG] # map (\<lambda>b. hdlc_push_escaped b []) data @ [[HDLC_FRAME_FLAG]]))
       (\<lambda>_. output_buffer_get_offset)"
proof -
  have seq: "write_seq w (xs @ ys) = res_bind (write_seq w xs) (\<lambda>_. write_seq w ys)"
    for w :: "bytes \<Rightarrow> (output_buffer, nat) res" and xs ys
    by (induction xs) (simp_all add: res_bind_assoc)
  show ?thesis
    by (simp add: hdlc_encode_def hdlc_escape_loop_seq output_buffer_write_byte_def seq res_bind_assoc)
qed

text \<open>The buffer encoders \<^verbatim>\<open>encode\<close> and \<^verbatim>\<open>encode_frame\<close> are the same function; with enough
  room they append exactly the bytes of \<^verbatim>\<open>encode_frame_vec\<close> and return the new offset, without it
  they fail with \<^verbatim>\<open>OutOfMemory\<close>.\<close>

theorem hdlc_encoders_agree:
  assumes "output_buffer_ok b"
  shows "hdlc_encode data b = hdlc_encode_frame data b \<and>
    (if ob_offset b + length (hdlc_encode_frame_vec data) \<le> length (ob_buffer b)
     then \<exists>b'. hdlc_encode data b = (Inr (ob_offset b + length (hdlc_encode_frame_vec data)), b') \<and>
               output_buffer_as_slice b' = output_buffer_as_slice b @ hdlc_encode_frame_vec data
     else fst (hdlc_encode data b) = Inl OutOfMemory)"
proof -
  let ?ds = "[HDLC_FRAME_FLAG] # map (\<lambda>b. hdlc_push_escaped b []) data @ [[HDLC_FRAME_FLAG]]"
  have wire: "concat ?ds = hdlc_encode_frame_vec data"
    by (simp add: hdlc_encode_frame_vec_eq hdlc_stuff_def)
  have off: "ob_offset b = length (output_buffer_as_slice b)"
    using assms by (rule output_buffer_offset)
  show ?thesis
  proof (cases "ob_offset b + length (hdlc_encode_frame_vec data) \<le> length (ob_buffer b)")
    case True
    then obtain b' where b': "write_seq output_buffer_write ?ds b = (Inr (), b')" "output_buffer_ok b'"
        "output_buffer_as_slice b' = output_buffer_as_slice b @ hdlc_encode_frame_vec data"
      using ob.seq_fits [OF assms, of ?ds] by (auto simp only: off wire)
    with True show ?thesis
      by (simp add: hdlc_encode_eq_frame [symmetric] hdlc_encode_seq res_bind_Inr
          output_buffer_get_offset_def output_buffer_offset off)
  next
    case False
    then obtain b' where "write_seq output_buffer_write ?ds b = (Inl OutOfMemory, b')"
      using ob.seq_overflow [OF assms, of ?ds] by (auto simp only: off wire not_le)
    with False show ?thesis
      by (simp add: hdlc_encode_eq_frame [symmetric] hdlc_encode_seq res_bind_Inl)
  qed
qed

theorem hdlc_encoders_agree_witness:
  "output_buffer_ok (output_buffer_new (replicate 8 0)) \<and>
   (\<exists>b'. hdlc_encode [0x7e, 0x7d, 1] (output_buffer_new (replicate 8 0)) = (Inr 7, b') \<and>
         output_buffer_as_slice b' = [0x7e, 0x7d, 0x5e, 0x7d, 0x5d, 1, 0x7e])"
proof -
  have "hdlc_encode_frame_vec [0x7e, 0x7d, 1] = [0x7e, 0x7d, 0x5e, 0x7d, 0x5d, 1, 0x7e]"
    by (simp add: hdlc_encode_frame_vec_eq hdlc_push_escaped_def hdlc_consts)
  then show ?thesis
    using hdlc_encoders_agree [THEN conjunct2, of "output_buffer_new (replicate 8 0)" "[0x7e, 0x7d, 1]"]
    by (simp add: output_buffer_offset eval_nat_numeral)
qed

section \<open>One-shot decoding\<close>

lemma xor_mask_twice: "(b XOR HDLC_ESCAPE_MASK) XOR HDLC_ESCAPE_MASK = b"
  by (simp add: xor.assoc)

lemma hdlc_decode_loop_stuff:
  "hdlc_decode_loop True False (hdlc_stuff data @ HDLC_FRAME_FLAG # rest) =
     res_bind (write_seq output_buffer_write (map (\<lambda>b. [b]) data)) (\<lambda>_. res_return True)"
proof (induction data)
  case (Cons b data)
  have "HDLC_ESCAPE_BYTE \<noteq> HDLC_FRAME_FLAG" by (simp add: hdlc_consts)
  with Cons show ?case
    by (simp add: hdlc_push_escaped_def xor_mask_twice output_buffer_write_byte_def res_bind_assoc)
qed simp

lemma hdlc_decode_frame:
  "hdlc_decode (hdlc_encode_frame_vec data @ rest) =
     res_bind (write_seq output_buffer_write (map (\<lambda>b. [b]) data)) (\<lambda>_. output_buffer_get_offset)"
  by (simp add: hdlc_decode_def hdlc_encode_frame_vec_eq hdlc_decode_loop_stuff res_bind_assoc)

lemma hdlc_find_loop_skip:
  "HDLC_FRAME_FLAG \<notin> set xs \<Longrightarrow> hdlc_find_loop i st (xs @ ys) = hdlc_find_loop (i + length xs) st ys"
  by (induction xs arbitrary: i) auto

lemma hdlc_find_frame:
  assumes "HDLC_FRAME_FLAG \<notin> set noise"
  shows "hdlc_find (noise @ hdlc_encode_frame_vec data @ rest) =
           Some (length noise, length noise + length (hdlc_encode_frame_vec data) - 1)"
  using assms hdlc_stuff_no_flag [of data]
  by (simp add: hdlc_find_def hdlc_find_loop_skip hdlc_encode_frame_vec_eq)

text \<open>In a byte stream that starts with flag-free noise followed by an encoded frame,
  \<^verbatim>\<open>find\<close> locates exactly that frame, and decoding the located slice into a large enough buffer
  recovers the payload, whatever bytes it contains.\<close>

theorem hdlc_find_decode:
  assumes "HDLC_FRAME_FLAG \<notin> set noise"
    and "stream = noise @ hdlc_encode_frame_vec data @ rest"
    and "output_buffer_ok b" and "ob_offset b + length data \<le> length (ob_buffer b)"
  shows "\<exists>s e b'. hdlc_find stream = Some (s, e) \<and>
           hdlc_decode (take (e + 1 - s) (drop s stream)) b = (Inr (ob_offset b + length data), b') \<and>
           output_buffer_as_slice b' = output_buffer_as_slice b @ data"
proof -
  let ?ds = "map (\<lambda>b. [b]) data :: bytes list"
  let ?f = "hdlc_encode_frame_vec data"
  have "?f \<noteq> []" by (simp add: hdlc_encode_frame_vec_def)
  then have slice: "take (length noise + length ?f - 1 + 1 - length noise) (drop (length noise) stream) = ?f"
    using assms(2) by simp
  have "length (output_buffer_as_slice b) + length (concat ?ds) \<le> length (ob_buffer b)"
    using assms(3,4) by (simp add: output_buffer_offset)
  from ob.seq_fits [OF assms(3) this] obtain b' where
    b': "write_seq output_buffer_write ?ds b = (Inr (), b')" "output_buffer_ok b'"
      "output_buffer_as_slice b' = output_buffer_as_slice b @ data"
    by auto
  then have "hdlc_decode ?f b = (Inr (ob_offset b + length data), b')"
    using hdlc_decode_frame [of data "[]"] assms(3)
    by (simp add: res_bind_Inr output_buffer_get_offset_def output_buffer_offset)
  with slice have "hdlc_decode (take (length noise + length ?f - 1 + 1 - length noise)
      (drop (length noise) stream)) b = (Inr (ob_offset b + length data), b')"
    by (simp only:)
  moreover have "hdlc_find stream = Some (length noise, length noise + length ?f - 1)"
    using hdlc_find_frame [OF assms(1)] assms(2) by simp
  ultimately show ?thesis using b'(3) by blast
qed

theorem hdlc_find_decode_witness:
  "\<exists>s e b'. hdlc_find ([1, 2] @ hdlc_encode_frame_vec [0x7e, 5] @ [0x7e]) = Some (s, e) \<and>
     hdlc_decode (take (e + 1 - s) (drop s ([1, 2] @ hdlc_encode_frame_vec [0x7e, 5] @ [0x7e])))
       (output_buffer_new (replicate 4 0)) = (Inr 2, b') \<and>
     output_buffer_as_slice b' = [0x7e, 5]"
proof -
  have noise: "HDLC_FRAME_FLAG \<notin> set [1, 2]"
    by (simp add: hdlc_consts)
  have room: "ob_offset (output_buffer_new (replicate 4 0)) + length [0x7e, 5 :: u8]
      \<le> length (ob_buffer (output_buffer_new (replicate 4 0)))"
    by (simp add: output_buffer_offset)
  have "ob_offset (output_buffer_new (replicate 4 0)) + length [0x7e, 5 :: u8] = 2"
    by (simp add: output_buffer_offset)
  with hdlc_find_decode [OF noise refl output_buffer_new_ok(1) room, of "[0x7e]"] show ?thesis
    by (simp only: output_buffer_new_ok append.left_neutral)
qed

section \<open>Streaming decoding\<close>

lemma hdlc_feed_append:
  "hdlc_feed d (xs @ ys) =
     (case hdlc_feed d xs of (es, d') \<Rightarrow> (case hdlc_feed d' ys of (es', d'') \<Rightarrow> (es @ es', d'')))"
  by (induction xs arbitrary: d) (auto split: prod.splits)

lemma hdlc_unescape_escaped:
  "b = HDLC_FRAME_FLAG \<or> b = HDLC_ESCAPE_BYTE \<Longrightarrow> hdlc_unescape (b XOR HDLC_ESCAPE_MASK) = b"
  by (auto simp: hdlc_unescape_def hdlc_consts)

lemma hdlc_feed_stuff:
  "hdlc_in_frame d \<Longrightarrow> \<not> hdlc_escaped d \<Longrightarrow> length (hdlc_frame d) \<le> hdlc_mtu d \<Longrightarrow>
     hdlc_feed d (hdlc_stuff p) = ([], d\<lparr>hdlc_frame := take (hdlc_mtu d) (hdlc_frame d @ p)\<rparr>)"
proof (induction p arbitrary: d)
  case Nil
  then show ?case by simp
next
  case (Cons b p)
  let ?d' = "if length (hdlc_frame d) < hdlc_mtu d then d\<lparr>hdlc_frame := hdlc_frame d @ [b]\<rparr> else d"
  have push: "hdlc_feed d (hdlc_push_escaped b []) = ([], ?d')"
  proof (cases "b = HDLC_FRAME_FLAG \<or> b = HDLC_ESCAPE_BYTE")
    case True
    have "b XOR HDLC_ESCAPE_MASK \<noteq> HDLC_FRAME_FLAG" "b XOR HDLC_ESCAPE_MASK \<noteq> HDLC_ESCAPE_BYTE"
      "HDLC_ESCAPE_BYTE \<noteq> HDLC_FRAME_FLAG"
      using True by (auto simp: hdlc_consts)
    with True Cons.prems show ?thesis
      by (simp add: hdlc_push_escaped_def hdlc_feed_byte_def hdlc_unescape_escaped)
  next
    case False
    with Cons.prems show ?thesis
      by (simp add: hdlc_push_escaped_def hdlc_feed_byte_def)
  qed
  have "hdlc_feed ?d' (hdlc_stuff p) = ([], ?d'\<lparr>hdlc_frame := take (hdlc_mtu ?d') (hdlc_frame ?d' @ p)\<rparr>)"
    using Cons.prems by (intro Cons.IH) auto
  with push Cons.prems show ?case
    by (auto simp: hdlc_feed_append not_less take_Cons')
qed

interpretation hdlc: stream_framing hdlc_feed hdlc_encode_frame_vec take hdlc_mtu
  "\<lambda>d. \<not> hdlc_in_frame d"
proof unfold_locales
  fix d :: hdlc_decoder and p
  assume "\<not> hdlc_in_frame d"
  then have "hdlc_feed_byte d HDLC_FRAME_FLAG =
      ([], d\<lparr>hdlc_in_frame := True, hdlc_escaped := False, hdlc_frame := []\<rparr>)"
    by (simp add: hdlc_feed_byte_def)
  then show "\<exists>d'. hdlc_feed d (hdlc_encode_frame_vec p) = ([take (hdlc_mtu d) p], d') \<and>
      \<not> hdlc_in_frame d' \<and> hdlc_mtu d' = hdlc_mtu d"
    by (simp add: hdlc_encode_frame_vec_eq hdlc_feed_append hdlc_feed_stuff)
      (simp add: hdlc_feed_byte_def)
qed (simp_all add: hdlc_feed_append)



end
