(* ===== verification/Rns_Kiss.thy ===== *)
theory Rns_Kiss
  imports Rns_Hdlc
begin

text \<open>
  KISS framing for serial TNCs (\<^verbatim>\<open>src/iface/kiss.rs\<close>: escaping, data frames, configuration commands,
  the incremental decoder and the ID beacon) and the AX.25 address header that the AX.25 variant
  puts in front of the payload (\<^verbatim>\<open>src/iface/ax25.rs\<close>). KISS is the second provider of the contract
  \<open>stream_framing\<close>. The asynchronous read and write tasks around these functions are not modelled.
\<close>

section \<open>KISS\<close>

definition FEND :: u8 where "FEND = 0xC0"
definition FESC :: u8 where "FESC = 0xDB"
definition TFEND :: u8 where "TFEND = 0xDC"
definition TFESC :: u8 where "TFESC = 0xDD"
definition CMD_UNKNOWN :: u8 where "CMD_UNKNOWN = 0xFE"
definition CMD_DATA :: u8 where "CMD_DATA = 0x00"
definition CMD_TXDELAY :: u8 where "CMD_TXDELAY = 0x01"
definition CMD_P :: u8 where "CMD_P = 0x02"
definition CMD_SLOTTIME :: u8 where "CMD_SLOTTIME = 0x03"
definition CMD_TXTAIL :: u8 where "CMD_TXTAIL = 0x04"
definition CMD_READY :: u8 where "CMD_READY = 0x0F"
definition KISS_HW_MTU :: nat where "KISS_HW_MTU = 564"

lemmas kiss_consts = FEND_def FESC_def TFEND_def TFESC_def CMD_UNKNOWN_def CMD_DATA_def
  CMD_TXDELAY_def CMD_P_def CMD_SLOTTIME_def CMD_TXTAIL_def CMD_READY_def KISS_HW_MTU_def

record csma_params =
  csma_preamble :: u32
  csma_txtail :: u32
  csma_persistence :: u32
  csma_slottime :: u32

definition csma_default :: csma_params where
  "csma_default =
     \<lparr>csma_preamble = 350, csma_txtail = 20, csma_persistence = 64, csma_slottime = 20\<rparr>"

definition kiss_command :: "u8 \<Rightarrow> u8 \<Rightarrow> bytes" where
  "kiss_command command value = [FEND, command, value, FEND]"

definition kiss_set_preamble :: "u32 \<Rightarrow> bytes" where
  "kiss_set_preamble ms = kiss_command CMD_TXDELAY (ucast (min (ms div 10) 255))"

definition kiss_set_txtail :: "u32 \<Rightarrow> bytes" where
  "kiss_set_txtail ms = kiss_command CMD_TXTAIL (ucast (min (ms div 10) 255))"

definition kiss_set_persistence :: "u32 \<Rightarrow> bytes" where
  "kiss_set_persistence p = kiss_command CMD_P (ucast (min p 255))"

definition kiss_set_slottime :: "u32 \<Rightarrow> bytes" where
  "kiss_set_slottime ms = kiss_command CMD_SLOTTIME (ucast (min (ms div 10) 255))"

definition kiss_set_flow_control :: "bool \<Rightarrow> bytes" where
  "kiss_set_flow_control enabled = kiss_command CMD_READY (if enabled then 1 else 0)"

definition csma_commands :: "csma_params \<Rightarrow> bytes list" where
  "csma_commands c =
     [kiss_set_preamble (csma_preamble c), kiss_set_txtail (csma_txtail c),
      kiss_set_persistence (csma_persistence c), kiss_set_slottime (csma_slottime c),
      kiss_set_flow_control True]"

definition kiss_escape_byte :: "u8 \<Rightarrow> bytes" where
  "kiss_escape_byte byte =
     (if byte = FESC then [FESC, TFESC] else if byte = FEND then [FESC, TFEND] else [byte])"

definition kiss_escape :: "bytes \<Rightarrow> bytes" where
  "kiss_escape data = fold (\<lambda>byte escaped. escaped @ kiss_escape_byte byte) data []"

definition kiss_encode_frame :: "bytes \<Rightarrow> bytes" where
  "kiss_encode_frame data = [FEND] @ [CMD_DATA] @ kiss_escape data @ [FEND]"

datatype kiss_event = KissData bytes | KissReady

record kiss_decoder =
  kiss_frame :: bytes
  kiss_in_frame :: bool
  kiss_escaped :: bool
  kiss_cmd :: u8
  kiss_mtu :: nat

definition kiss_decoder_new :: "nat \<Rightarrow> kiss_decoder" where
  "kiss_decoder_new mtu =
     \<lparr>kiss_frame = [], kiss_in_frame = False, kiss_escaped = False, kiss_cmd = CMD_UNKNOWN,
      kiss_mtu = mtu\<rparr>"

definition kiss_unescape :: "u8 \<Rightarrow> u8" where
  "kiss_unescape byte =
     (let byte = (if byte = TFEND then FEND else byte) in if byte = TFESC then FESC else byte)"

definition kiss_feed_byte :: "kiss_decoder \<Rightarrow> u8 \<Rightarrow> kiss_event list \<times> kiss_decoder" where
  "kiss_feed_byte d byte =
     (if kiss_in_frame d \<and> byte = FEND \<and> kiss_cmd d = CMD_DATA then
        ([KissData (kiss_frame d)],
         d\<lparr>kiss_in_frame := False, kiss_cmd := CMD_UNKNOWN, kiss_escaped := False, kiss_frame := []\<rparr>)
      else if byte = FEND then
        ([], d\<lparr>kiss_in_frame := True, kiss_cmd := CMD_UNKNOWN, kiss_escaped := False, kiss_frame := []\<rparr>)
      else if kiss_in_frame d \<and> length (kiss_frame d) < kiss_mtu d then
        (if kiss_frame d = [] \<and> kiss_cmd d = CMD_UNKNOWN then ([], d\<lparr>kiss_cmd := byte AND 0x0F\<rparr>)
         else if kiss_cmd d = CMD_DATA then
           (if byte = FESC then ([], d\<lparr>kiss_escaped := True\<rparr>)
            else ([], d\<lparr>kiss_escaped := False,
                        kiss_frame := kiss_frame d @
                          [if kiss_escaped d then kiss_unescape byte else byte]\<rparr>))
         else if kiss_cmd d = CMD_READY then ([KissReady], d\<lparr>kiss_cmd := CMD_UNKNOWN\<rparr>)
         else ([], d))
      else ([], d))"

primrec kiss_feed :: "kiss_decoder \<Rightarrow> bytes \<Rightarrow> kiss_event list \<times> kiss_decoder" where
  "kiss_feed d [] = ([], d)"
| "kiss_feed d (byte # data) =
     (case kiss_feed_byte d byte of (es, d') \<Rightarrow>
        (case kiss_feed d' data of (es', d'') \<Rightarrow> (es @ es', d'')))"

text \<open>The ID beacon of an interface; instants are explicit arguments.\<close>

record id_beacon =
  ib_interval :: nanos
  ib_callsign :: bytes
  ib_first_tx :: "nanos option"

definition id_beacon_new :: "nat \<Rightarrow> bytes \<Rightarrow> id_beacon" where
  "id_beacon_new interval_secs callsign =
     \<lparr>ib_interval = secs interval_secs, ib_callsign = callsign, ib_first_tx = None\<rparr>"

definition id_beacon_time_until_due :: "id_beacon \<Rightarrow> nanos \<Rightarrow> nanos option" where
  "id_beacon_time_until_due b now =
     map_option (\<lambda>started. started + ib_interval b + millis 1 - now) (ib_first_tx b)"

definition id_beacon_take_if_due :: "id_beacon \<Rightarrow> nanos \<Rightarrow> bytes option" where
  "id_beacon_take_if_due b now =
     (case ib_first_tx b of
        None \<Rightarrow> None
      | Some started \<Rightarrow>
          if now > started + ib_interval b
          then Some (ib_callsign b @ replicate (15 - length (ib_callsign b)) 0)
          else None)"

definition id_beacon_is_padded_id :: "id_beacon \<Rightarrow> bytes \<Rightarrow> bool" where
  "id_beacon_is_padded_id b data \<longleftrightarrow>
     length (ib_callsign b) < 15 \<and> length data = 15 \<and>
     take (length (ib_callsign b)) data = ib_callsign b \<and>
     list_all (\<lambda>x. x = 0) (drop (length (ib_callsign b)) data)"

definition id_beacon_note_sent :: "id_beacon \<Rightarrow> bytes \<Rightarrow> nanos \<Rightarrow> id_beacon" where
  "id_beacon_note_sent b data now =
     (if data = ib_callsign b then b\<lparr>ib_first_tx := None\<rparr>
      else if id_beacon_is_padded_id b data \<or> ib_first_tx b = None then b\<lparr>ib_first_tx := Some now\<rparr>
      else b)"

section \<open>AX.25\<close>

definition PID_NOLAYER3 :: u8 where "PID_NOLAYER3 = 0xF0"
definition CTRL_UI :: u8 where "CTRL_UI = 0x03"
definition AX25_HEADER_SIZE :: nat where "AX25_HEADER_SIZE = 16"

text \<open>The bytes of \<^verbatim>\<open>"APZRNS"\<close>.\<close>

definition DEFAULT_DESTINATION_CALLSIGN :: bytes where
  "DEFAULT_DESTINATION_CALLSIGN = [0x41, 0x50, 0x5A, 0x52, 0x4E, 0x53]"

definition ax25_validate_callsign :: "bytes \<Rightarrow> u8 \<Rightarrow> unit result" where
  "ax25_validate_callsign callsign ssid =
     (if length callsign < 3 \<or> length callsign > 6 then Inl InvalidArgument
      else if \<not> list_all (\<lambda>b. b < 128) callsign then Inl InvalidArgument
      else if ssid > 15 then Inl InvalidArgument
      else Inr ())"

definition ax25_encode_address :: "bytes \<Rightarrow> u8 \<Rightarrow> bool \<Rightarrow> bytes" where
  "ax25_encode_address callsign ssid lst =
     (let address = copy_at 0 (map (push_bit 1) (take 6 callsign)) (replicate 7 0x20);
          encoded_ssid = 0x60 OR push_bit 1 ssid;
          encoded_ssid = (if lst then encoded_ssid OR 0x01 else encoded_ssid)
      in address[6 := encoded_ssid])"

definition ax25_pack_frame_to :: "bytes \<Rightarrow> bytes \<Rightarrow> u8 \<Rightarrow> bytes \<Rightarrow> u8 \<Rightarrow> bytes" where
  "ax25_pack_frame_to data src_call src_ssid dst_call dst_ssid =
     ax25_encode_address dst_call dst_ssid False @ ax25_encode_address src_call src_ssid True @
     [CTRL_UI] @ [PID_NOLAYER3] @ data"

definition ax25_pack_frame :: "bytes \<Rightarrow> bytes \<Rightarrow> u8 \<Rightarrow> bytes" where
  "ax25_pack_frame data callsign ssid =
     ax25_pack_frame_to data callsign ssid DEFAULT_DESTINATION_CALLSIGN 0"

definition ax25_strip_header :: "bytes \<Rightarrow> bytes option" where
  "ax25_strip_header frame =
     (if length frame > AX25_HEADER_SIZE then Some (drop AX25_HEADER_SIZE frame) else None)"

definition ax25_decode_address :: "bytes \<Rightarrow> bytes \<times> u8" where
  "ax25_decode_address address =
     (filter (\<lambda>byte. byte \<noteq> 0x10 \<and> byte \<noteq> 0x00) (map (drop_bit 1) (take 6 address)),
      drop_bit 1 (address ! 6) AND 0x0F)"

section \<open>KISS streams\<close>

lemma kiss_escape_concat: "kiss_escape data = concat (map kiss_escape_byte data)"
proof -
  have "fold (\<lambda>byte escaped. escaped @ kiss_escape_byte byte) data acc =
      acc @ concat (map kiss_escape_byte data)" for acc
    by (induction data arbitrary: acc) auto
  from this [of "[]"] show ?thesis by (simp add: kiss_escape_def)
qed

lemma kiss_escape_simps [simp]:
  "kiss_escape [] = []" "kiss_escape (b # bs) = kiss_escape_byte b @ kiss_escape bs"
  by (simp_all add: kiss_escape_concat)

lemma kiss_feed_append:
  "kiss_feed d (xs @ ys) =
     (case kiss_feed d xs of (es, d') \<Rightarrow> (case kiss_feed d' ys of (es', d'') \<Rightarrow> (es @ es', d'')))"
  by (induction xs arbitrary: d) (auto split: prod.splits)

lemma kiss_feed_escape:
  "kiss_in_frame d \<Longrightarrow> kiss_cmd d = CMD_DATA \<Longrightarrow> \<not> kiss_escaped d \<Longrightarrow>
   length (kiss_frame d) \<le> kiss_mtu d \<Longrightarrow>
     kiss_feed d (kiss_escape p) = ([], d\<lparr>kiss_frame := take (kiss_mtu d) (kiss_frame d @ p)\<rparr>)"
proof (induction p arbitrary: d)
  case Nil
  then show ?case by simp
next
  case (Cons b p)
  let ?d' = "if length (kiss_frame d) < kiss_mtu d then d\<lparr>kiss_frame := kiss_frame d @ [b]\<rparr> else d"
  have ne: "CMD_DATA \<noteq> CMD_UNKNOWN" "FESC \<noteq> FEND" "TFEND \<noteq> FEND" "TFESC \<noteq> FEND" "TFEND \<noteq> FESC"
    "TFESC \<noteq> FESC" "kiss_unescape TFEND = FEND" "kiss_unescape TFESC = FESC"
    by (simp_all add: kiss_consts kiss_unescape_def)
  have push: "kiss_feed d (kiss_escape_byte b) = ([], ?d')"
    using Cons.prems ne by (auto simp: kiss_escape_byte_def kiss_feed_byte_def)
  have "kiss_feed ?d' (kiss_escape p) = ([], ?d'\<lparr>kiss_frame := take (kiss_mtu ?d') (kiss_frame ?d' @ p)\<rparr>)"
    using Cons.prems by (intro Cons.IH) auto
  with push Cons.prems show ?case
    by (auto simp: kiss_feed_append not_less take_Cons')
qed

interpretation kiss: stream_framing kiss_feed kiss_encode_frame "\<lambda>n p. KissData (take n p)" kiss_mtu
  "\<lambda>d. \<not> kiss_in_frame d \<and> 0 < kiss_mtu d"
proof unfold_locales
  fix d :: kiss_decoder and p
  assume idle: "\<not> kiss_in_frame d \<and> 0 < kiss_mtu d"
  let ?d0 = "d\<lparr>kiss_in_frame := True, kiss_cmd := CMD_UNKNOWN, kiss_escaped := False, kiss_frame := []\<rparr>"
  have "kiss_feed_byte d FEND = ([], ?d0)"
    using idle by (simp add: kiss_feed_byte_def)
  moreover have "kiss_feed_byte ?d0 CMD_DATA = ([], ?d0\<lparr>kiss_cmd := CMD_DATA\<rparr>)"
    using idle by (simp add: kiss_feed_byte_def kiss_consts)
  ultimately show "\<exists>d'. kiss_feed d (kiss_encode_frame p) = ([KissData (take (kiss_mtu d) p)], d') \<and>
      (\<not> kiss_in_frame d' \<and> 0 < kiss_mtu d') \<and> kiss_mtu d' = kiss_mtu d"
    using idle by (simp add: kiss_encode_frame_def kiss_feed_append kiss_feed_escape)
      (simp add: kiss_feed_byte_def)
qed (simp_all add: kiss_feed_append)

lemma kiss_delivery_new:
  assumes "0 < mtu" and "concat chunks = concat (map kiss_encode_frame payloads)"
  shows "fst (feed_chunks kiss_feed (kiss_decoder_new mtu) chunks) =
           map (\<lambda>p. KissData (take mtu p)) payloads"
  using kiss.chunked_delivery [OF _ assms(2), of "kiss_decoder_new mtu"] assms(1)
  by (simp add: kiss_decoder_new_def)



section \<open>AX.25 over KISS\<close>

lemma length_ax25_encode_address [simp]: "length (ax25_encode_address c s l) = 7"
  by (simp add: ax25_encode_address_def copy_at_def)

lemma ax25_strip_pack:
  "data \<noteq> [] \<Longrightarrow> ax25_strip_header (ax25_pack_frame data callsign ssid) = Some data"
  by (simp add: ax25_strip_header_def ax25_pack_frame_def ax25_pack_frame_to_def AX25_HEADER_SIZE_def)

lemma length_ax25_pack_frame: "length (ax25_pack_frame data callsign ssid) = AX25_HEADER_SIZE + length data"
  by (simp add: ax25_pack_frame_def ax25_pack_frame_to_def AX25_HEADER_SIZE_def)

text \<open>Non-empty payloads within the hardware MTU that one AX.25 KISS station packs and
  frames reach the other station unchanged and in order, under any chunking of the serial stream:
  the receive decoder's MTU leaves room for the AX.25 header.\<close>

theorem ax25_kiss_delivery:
  assumes "\<forall>p \<in> set payloads. p \<noteq> [] \<and> length p \<le> KISS_HW_MTU"
    and "concat chunks = concat (map (\<lambda>p. kiss_encode_frame (ax25_pack_frame p callsign ssid)) payloads)"
  shows "map (\<lambda>e. case e of KissData f \<Rightarrow> ax25_strip_header f | KissReady \<Rightarrow> None)
           (fst (feed_chunks kiss_feed (kiss_decoder_new (KISS_HW_MTU + AX25_HEADER_SIZE)) chunks)) =
         map Some payloads"
proof -
  let ?mtu = "KISS_HW_MTU + AX25_HEADER_SIZE"
  have mtu: "0 < ?mtu" by (simp add: AX25_HEADER_SIZE_def)
  have "concat chunks = concat (map kiss_encode_frame (map (\<lambda>p. ax25_pack_frame p callsign ssid) payloads))"
    using assms(2) by (simp add: comp_def)
  then have "fst (feed_chunks kiss_feed (kiss_decoder_new ?mtu) chunks) =
      map (\<lambda>p. KissData (take ?mtu p)) (map (\<lambda>p. ax25_pack_frame p callsign ssid) payloads)"
    by (rule kiss_delivery_new [OF mtu])
  moreover have "take ?mtu (ax25_pack_frame p callsign ssid) = ax25_pack_frame p callsign ssid"
    if "p \<in> set payloads" for p
    using assms(1) that by (simp add: length_ax25_pack_frame)
  ultimately show ?thesis
    using assms(1) by (auto simp: ax25_strip_pack)
qed

theorem ax25_kiss_delivery_witness:
  "map (\<lambda>e. case e of KissData f \<Rightarrow> ax25_strip_header f | KissReady \<Rightarrow> None)
     (fst (feed_chunks kiss_feed (kiss_decoder_new (KISS_HW_MTU + AX25_HEADER_SIZE))
       [kiss_encode_frame (ax25_pack_frame [0xC0, 0xDB] [0x41, 0x42, 0x43] 1)])) = [Some [0xC0, 0xDB]]"
  using ax25_kiss_delivery [of "[[0xC0, 0xDB]]"
      "[kiss_encode_frame (ax25_pack_frame [0xC0, 0xDB] [0x41, 0x42, 0x43] 1)]" "[0x41, 0x42, 0x43]" 1]
  by (simp add: kiss_consts)

text \<open>A READY command is not confined to its frame: the decoder forgets the command after
  reporting it, and reads the next byte of the same frame as a command again.\<close>

lemma kiss_ready_frame_reinterpreted:
  "fst (kiss_feed (kiss_decoder_new 564) [0xC0, 0x0F, 0x01, 0x00, 0x42, 0xC0]) =
     [KissReady, KissData [0x42]]"
  by (simp add: kiss_decoder_new_def kiss_feed_byte_def kiss_consts)

end
