(* ===== verification/Rns_Packet_Cache.thy ===== *)
theory Rns_Packet_Cache
  imports Rns_Packet
begin

text \<open>
  \<^verbatim>\<open>src/transport/packet_cache.rs\<close>: the duplicate filter of received packets and the bounded cache
  of announce packets. Clock readings are the arguments \<open>now\<close>; \<open>sha\<close> is the hash function behind
  \<^verbatim>\<open>Packet::hash\<close>.
\<close>

section \<open>Definitions\<close>

record packet_track =
  pt_time :: nanos
  pt_min_hops :: u8

record packet_cache =
  pc_map :: "(rns_hash, packet_track) hash_map"
  pc_remove_cache :: "rns_hash list"
  pc_announce_capacity :: nat
  pc_announces :: "(rns_hash, packet) hash_map"
  pc_announce_order :: "rns_hash list"

definition packet_cache_new :: "nat \<Rightarrow> packet_cache" where
  "packet_cache_new capacity =
     \<lparr>pc_map = [], pc_remove_cache = [], pc_announce_capacity = capacity, pc_announces = [],
      pc_announce_order = []\<rparr>"

text \<open>\<^verbatim>\<open>release\<close>: collect the keys older than \<open>duration\<close>, remove each, empty the scratch list.\<close>

definition packet_cache_release :: "nanos \<Rightarrow> nanos \<Rightarrow> packet_cache \<Rightarrow> packet_cache" where
  "packet_cache_release now duration c =
     (let expired = pc_remove_cache c @
            map fst (filter (\<lambda>(h, t). now - pt_time t > duration) (pc_map c))
      in c\<lparr>pc_map := fold AList.delete expired (pc_map c), pc_remove_cache := []\<rparr>)"

definition packet_cache_update :: "sha \<Rightarrow> nanos \<Rightarrow> packet \<Rightarrow> packet_cache \<Rightarrow> bool \<times> packet_cache" where
  "packet_cache_update sha now p c =
     (let hash = packet_hash sha p in
      case hm_get (pc_map c) hash of
        Some track \<Rightarrow>
          (False, c\<lparr>pc_map := hm_insert hash
             \<lparr>pt_time = now, pt_min_hops = min (hd_hops (pk_header p)) (pt_min_hops track)\<rparr> (pc_map c)\<rparr>)
      | None \<Rightarrow>
          (True, c\<lparr>pc_map := hm_insert hash
             \<lparr>pt_time = now, pt_min_hops = hd_hops (pk_header p)\<rparr> (pc_map c)\<rparr>))"

text \<open>The eviction loop \<^verbatim>\<open>while order.len() >= capacity\<close>.\<close>

fun evict_loop :: "nat \<Rightarrow> rns_hash list \<Rightarrow> (rns_hash, packet) hash_map
    \<Rightarrow> rns_hash list \<times> (rns_hash, packet) hash_map" where
  "evict_loop cap [] announces = ([], announces)"
| "evict_loop cap (evicted # order) announces =
     (if length (evicted # order) \<ge> cap then evict_loop cap order (hm_remove evicted announces)
      else (evicted # order, announces))"

definition packet_cache_cache_announce :: "sha \<Rightarrow> packet \<Rightarrow> packet_cache \<Rightarrow> packet_cache" where
  "packet_cache_cache_announce sha p c =
     (if pc_announce_capacity c = 0 then c
      else let hash = packet_hash sha p;
               (order, announces) =
                 (if hm_get (pc_announces c) hash = None
                  then case evict_loop (pc_announce_capacity c) (pc_announce_order c) (pc_announces c) of
                         (order, announces) \<Rightarrow> (order @ [hash], announces)
                  else (pc_announce_order c, pc_announces c))
           in c\<lparr>pc_announce_order := order, pc_announces := hm_insert hash p announces\<rparr>)"

definition packet_cache_get_cached_announce :: "packet_cache \<Rightarrow> rns_hash \<Rightarrow> packet option" where
  "packet_cache_get_cached_announce c hash = hm_get (pc_announces c) hash"

definition packet_cache_hashes :: "packet_cache \<Rightarrow> rns_hash list" where
  "packet_cache_hashes c = map fst (pc_map c)"

definition packet_cache_remember_hash :: "nanos \<Rightarrow> rns_hash \<Rightarrow> packet_cache \<Rightarrow> packet_cache" where
  "packet_cache_remember_hash now hash c =
     (case hm_get (pc_map c) hash of
        Some _ \<Rightarrow> c
      | None \<Rightarrow> c\<lparr>pc_map := hm_insert hash \<lparr>pt_time = now, pt_min_hops = 0\<rparr> (pc_map c)\<rparr>)"

section \<open>Invariant\<close>

definition packet_cache_ok :: "packet_cache \<Rightarrow> bool" where
  "packet_cache_ok c \<longleftrightarrow>
     hm_ok (pc_map c) \<and> hm_ok (pc_announces c) \<and> pc_remove_cache c = [] \<and>
     distinct (pc_announce_order c) \<and> set (pc_announce_order c) = fst ` set (pc_announces c) \<and>
     length (pc_announce_order c) \<le> pc_announce_capacity c"

lemma evict_loop_drop:
  "evict_loop cap order m =
     (let k = (if length order < cap then 0 else Suc (length order) - cap)
      in (drop k order, fold AList.delete (take k order) m))"
proof (induction cap order m rule: evict_loop.induct)
  case (2 cap evicted order m)
  show ?case
  proof (cases "length (evicted # order) < cap")
    case True
    then show ?thesis by simp
  next
    case False
    then have "Suc (length (evicted # order)) - cap = Suc (Suc (length order) - cap)"
      by (simp add: Suc_diff_le)
    with 2 False show ?thesis
      by (cases "length order < cap") (auto simp: not_less less_Suc_eq_le)
  qed
qed simp

text \<open>With fewer entries than the capacity nothing is evicted; a full cache loses its oldest.\<close>

lemma evict_loop_below: "length order < cap \<Longrightarrow> evict_loop cap order m = (order, m)"
  by (simp add: evict_loop_drop)

lemma evict_loop_full:
  "length order = cap \<Longrightarrow> 0 < cap \<Longrightarrow>
     evict_loop cap order m = (tl order, hm_remove (hd order) m)"
  by (cases order) (simp_all add: evict_loop_drop)

lemma hm_ok_update: "hm_ok m \<Longrightarrow> hm_ok (hm_insert k v m)"
  by (rule hm.inv_ins)

lemma packet_cache_new_ok: "packet_cache_ok (packet_cache_new n)"
  by (simp add: packet_cache_ok_def packet_cache_new_def)

lemma packet_cache_update_ok: "packet_cache_ok c \<Longrightarrow> packet_cache_ok (snd (packet_cache_update sha now p c))"
  by (auto simp: packet_cache_ok_def packet_cache_update_def hm_ok_update split: option.splits)

lemma packet_cache_release_ok: "packet_cache_ok c \<Longrightarrow> packet_cache_ok (packet_cache_release now d c)"
  by (auto simp: packet_cache_ok_def packet_cache_release_def hm.inv_fold_rem)

lemma packet_cache_remember_ok: "packet_cache_ok c \<Longrightarrow> packet_cache_ok (packet_cache_remember_hash now h c)"
  by (auto simp: packet_cache_ok_def packet_cache_remember_hash_def hm_ok_update split: option.splits)

text \<open>The announce cache as a queue: a new hash is appended after at most one eviction.\<close>

definition fifo_push :: "nat \<Rightarrow> 'a \<Rightarrow> 'a list \<Rightarrow> 'a list" where
  "fifo_push cap x xs =
     (if cap = 0 \<or> x \<in> set xs then xs else if length xs < cap then xs @ [x] else tl xs @ [x])"

lemma cache_announce_order:
  assumes "packet_cache_ok c"
  shows "pc_announce_order (packet_cache_cache_announce sha p c) =
           fifo_push (pc_announce_capacity c) (packet_hash sha p) (pc_announce_order c)"
proof -
  have mem: "hm_get (pc_announces c) (packet_hash sha p) = None \<longleftrightarrow>
      packet_hash sha p \<notin> set (pc_announce_order c)"
    using assms by (simp add: packet_cache_ok_def map_of_eq_None_iff)
  show ?thesis
    using assms mem
    by (cases "length (pc_announce_order c) < pc_announce_capacity c")
      (auto simp: packet_cache_cache_announce_def fifo_push_def packet_cache_ok_def evict_loop_below
        evict_loop_full not_less)
qed

lemma cache_announce_lookup:
  assumes "packet_cache_ok c" and "0 < pc_announce_capacity c"
  shows "packet_cache_get_cached_announce (packet_cache_cache_announce sha p c) h =
           (if h = packet_hash sha p then Some p
            else if h \<in> set (fifo_push (pc_announce_capacity c) (packet_hash sha p) (pc_announce_order c))
            then packet_cache_get_cached_announce c h else None)"
proof -
  let ?h = "packet_hash sha p" and ?o = "pc_announce_order c" and ?cap = "pc_announce_capacity c"
  have ok: "hm_ok (pc_announces c)" "distinct ?o" "set ?o = fst ` set (pc_announces c)" "length ?o \<le> ?cap"
    using assms(1) by (auto simp: packet_cache_ok_def)
  have none: "hm_get (pc_announces c) k = None \<longleftrightarrow> k \<notin> set ?o" for k
    using ok(3) by (simp add: map_of_eq_None_iff)
  consider "?h \<in> set ?o" | "?h \<notin> set ?o" "length ?o < ?cap" | "?h \<notin> set ?o" "length ?o = ?cap"
    using ok(4) by linarith
  then show ?thesis
  proof cases
    case 1
    then show ?thesis
      using assms(2) none [of ?h] none [of h]
      by (auto simp: packet_cache_get_cached_announce_def packet_cache_cache_announce_def fifo_push_def
          hm.get_ins [OF ok(1)])
  next
    case 2
    then show ?thesis
      using assms(2) none [of ?h] none [of h]
      by (auto simp: packet_cache_get_cached_announce_def packet_cache_cache_announce_def fifo_push_def
          hm.get_ins [OF ok(1)] evict_loop_below)
  next
    case 3
    then obtain x xs where o: "?o = x # xs" using assms(2) by (cases ?o) auto
    with 3 show ?thesis
      using assms(2) none [of ?h] none [of h] ok(2)
      by (auto simp: packet_cache_get_cached_announce_def packet_cache_cache_announce_def fifo_push_def
          hm.get_ins [OF hm.inv_rem [OF ok(1)]] hm.get_rem [OF ok(1)] evict_loop_below)
  qed
qed

lemma cache_announce_frame:
  "pc_map (packet_cache_cache_announce sha p c) = pc_map c"
  "pc_remove_cache (packet_cache_cache_announce sha p c) = pc_remove_cache c"
  "pc_announce_capacity (packet_cache_cache_announce sha p c) = pc_announce_capacity c"
  by (auto simp: packet_cache_cache_announce_def split: prod.splits)

lemma fifo_push_props:
  assumes "distinct xs" "length xs \<le> cap"
  shows "distinct (fifo_push cap x xs)" "length (fifo_push cap x xs) \<le> cap"
    "0 < cap \<Longrightarrow> x \<in> set (fifo_push cap x xs)"
    "set (fifo_push cap x xs) \<subseteq> insert x (set xs)"
  using assms by (cases xs; auto simp: fifo_push_def)+

lemma hm_ok_evict: "hm_ok m \<Longrightarrow> hm_ok (snd (evict_loop cap order m))"
  by (simp add: evict_loop_drop hm.inv_fold_rem)

lemma packet_cache_announce_ok:
  assumes ok: "packet_cache_ok c"
  shows "packet_cache_ok (packet_cache_cache_announce sha p c)"
proof (cases "pc_announce_capacity c = 0")
  case True
  then show ?thesis using ok by (simp add: packet_cache_cache_announce_def)
next
  case False
  let ?c' = "packet_cache_cache_announce sha p c"
  let ?o' = "fifo_push (pc_announce_capacity c) (packet_hash sha p) (pc_announce_order c)"
  have o: "distinct (pc_announce_order c)" "length (pc_announce_order c) \<le> pc_announce_capacity c"
    using ok by (auto simp: packet_cache_ok_def)
  have "hm_ok (pc_announces ?c')"
    using ok hm_ok_evict [of "pc_announces c" "pc_announce_capacity c" "pc_announce_order c"]
    by (auto simp: packet_cache_cache_announce_def packet_cache_ok_def hm_ok_update split: prod.splits)
  moreover have "h \<in> set ?o' \<longleftrightarrow> h \<in> fst ` set (pc_announces ?c')" for h
  proof -
    have "h \<in> fst ` set (pc_announces ?c') \<longleftrightarrow> packet_cache_get_cached_announce ?c' h \<noteq> None"
      by (simp add: packet_cache_get_cached_announce_def map_of_eq_None_iff)
    also have "\<dots> \<longleftrightarrow> h \<in> set ?o'"
    proof -
      have "h \<in> set ?o' \<Longrightarrow> h \<noteq> packet_hash sha p \<Longrightarrow> packet_cache_get_cached_announce c h \<noteq> None"
        using fifo_push_props(4) [OF o, of "packet_hash sha p"] ok
        by (auto simp: packet_cache_get_cached_announce_def packet_cache_ok_def map_of_eq_None_iff)
      then show ?thesis
        using fifo_push_props(3) [OF o, of "packet_hash sha p"] False
        by (auto simp: cache_announce_lookup [OF ok])
    qed
    finally show ?thesis by simp
  qed
  ultimately show ?thesis
    using ok fifo_push_props [OF o] cache_announce_order [OF ok, of sha p]
    by (auto simp: packet_cache_ok_def cache_announce_frame)
qed


section \<open>Properties\<close>

text \<open>Operations of the cache, and runs of them.\<close>

datatype cache_op =
    Update nanos packet | CacheAnnounce packet | Release nanos nanos | RememberHash nanos rns_hash

fun cache_step :: "sha \<Rightarrow> cache_op \<Rightarrow> packet_cache \<Rightarrow> packet_cache" where
  "cache_step sha (Update now p) c = snd (packet_cache_update sha now p c)"
| "cache_step sha (CacheAnnounce p) c = packet_cache_cache_announce sha p c"
| "cache_step sha (Release now d) c = packet_cache_release now d c"
| "cache_step sha (RememberHash now h) c = packet_cache_remember_hash now h c"

lemma cache_step_ok: "packet_cache_ok c \<Longrightarrow> packet_cache_ok (cache_step sha x c)"
  by (cases x) (simp_all add: packet_cache_update_ok packet_cache_announce_ok packet_cache_release_ok
      packet_cache_remember_ok)

interpretation cache_sys: step_system "cache_step sha" packet_cache_ok "\<lambda>_. True" for sha
  by unfold_locales (rule cache_step_ok)

lemma cache_run_ok: "packet_cache_ok c \<Longrightarrow> packet_cache_ok (fold (cache_step sha) xs c)"
  by (rule cache_sys.run_inv) (simp_all add: list_all_iff)

lemma cache_step_capacity: "pc_announce_capacity (cache_step sha x c) = pc_announce_capacity c"
  by (cases x) (auto simp: packet_cache_update_def packet_cache_release_def
      packet_cache_remember_hash_def cache_announce_frame split: option.splits)

lemma cache_run_capacity: "pc_announce_capacity (fold (cache_step sha) xs c) = pc_announce_capacity c"
  by (induction xs arbitrary: c) (auto simp: cache_step_capacity)

fun announce_history :: "sha \<Rightarrow> cache_op list \<Rightarrow> rns_hash list" where
  "announce_history sha [] = []"
| "announce_history sha (CacheAnnounce p # xs) = packet_hash sha p # announce_history sha xs"
| "announce_history sha (_ # xs) = announce_history sha xs"

lemma cache_run_order:
  "packet_cache_ok c \<Longrightarrow>
     pc_announce_order (fold (cache_step sha) xs c) =
       fold (fifo_push (pc_announce_capacity c)) (announce_history sha xs) (pc_announce_order c)"
proof (induction xs arbitrary: c)
  case (Cons op xs)
  note ok = cache_step_ok [OF Cons.prems, of sha op] and cap = cache_step_capacity [of sha op c]
  show ?case
  proof (cases op)
    case (CacheAnnounce p)
    then show ?thesis
      using Cons.prems Cons.IH [OF ok] cap by (simp add: cache_announce_order cache_announce_frame)
  next
    case (Update now p)
    then show ?thesis
      using Cons.IH [OF ok] cap by (auto simp: packet_cache_update_def split: option.splits)
  next
    case (Release now d)
    then show ?thesis
      using Cons.IH [OF ok] cap by (simp add: packet_cache_release_def)
  next
    case (RememberHash now h)
    then show ?thesis
      using Cons.IH [OF ok] cap by (auto simp: packet_cache_remember_hash_def split: option.splits)
  qed
qed simp

text \<open>Over any run of operations on a new cache, the retained announces are exactly those
  of a bounded first-in first-out queue of their hashes: never more than the capacity, a repeated
  announce keeps its place, a new one evicts only the oldest; every retained hash has a stored
  packet and no other has.\<close>

theorem announce_cache_is_fifo:
  assumes "c = fold (cache_step sha) xs (packet_cache_new capacity)"
  shows "pc_announce_order c = fold (fifo_push capacity) (announce_history sha xs) [] \<and>
         length (pc_announce_order c) \<le> capacity \<and> distinct (pc_announce_order c) \<and>
         (\<forall>h. (packet_cache_get_cached_announce c h \<noteq> None) = (h \<in> set (pc_announce_order c)))"
proof -
  have ok: "packet_cache_ok c"
    using assms cache_run_ok [OF packet_cache_new_ok] by blast
  have cap: "pc_announce_capacity c = capacity"
    using assms by (simp add: cache_run_capacity packet_cache_new_def)
  have "pc_announce_order c = fold (fifo_push capacity) (announce_history sha xs) []"
    using assms cache_run_order [OF packet_cache_new_ok, of sha xs capacity]
    by (simp add: packet_cache_new_def)
  with ok cap show ?thesis
    by (auto simp: packet_cache_ok_def packet_cache_get_cached_announce_def map_of_eq_None_iff)
qed

theorem announce_cache_is_fifo_witness:
  "pc_announce_order (fold (cache_step id)
      [CacheAnnounce (packet_default\<lparr>pk_data := [1]\<rparr>), CacheAnnounce (packet_default\<lparr>pk_data := [2]\<rparr>),
       CacheAnnounce (packet_default\<lparr>pk_data := [1]\<rparr>), CacheAnnounce (packet_default\<lparr>pk_data := [3]\<rparr>)]
      (packet_cache_new 2)) =
    [packet_hash id (packet_default\<lparr>pk_data := [2]\<rparr>), packet_hash id (packet_default\<lparr>pk_data := [3]\<rparr>)]"
proof -
  have ne: "packet_hash id (packet_default\<lparr>pk_data := [a]\<rparr>) = packet_hash id (packet_default\<lparr>pk_data := [b]\<rparr>)
      \<longleftrightarrow> a = b" for a b
    by (simp add: packet_hash_def packet_default_def)
  show ?thesis
    using announce_cache_is_fifo [OF refl, of id "[CacheAnnounce (packet_default\<lparr>pk_data := [1]\<rparr>),
       CacheAnnounce (packet_default\<lparr>pk_data := [2]\<rparr>), CacheAnnounce (packet_default\<lparr>pk_data := [1]\<rparr>),
       CacheAnnounce (packet_default\<lparr>pk_data := [3]\<rparr>)]" 2]
    by (simp add: fifo_push_def ne)
qed

text \<open>The duplicate filter over a sequence of arrivals.\<close>

primrec update_run :: "sha \<Rightarrow> (nanos \<times> packet) list \<Rightarrow> packet_cache \<Rightarrow> bool list" where
  "update_run sha [] c = []"
| "update_run sha (a # arrivals) c =
     (case packet_cache_update sha (fst a) (snd a) c of
        (new, c') \<Rightarrow> new # update_run sha arrivals c')"

fun first_seen :: "'a set \<Rightarrow> 'a list \<Rightarrow> bool list" where
  "first_seen seen [] = []"
| "first_seen seen (x # xs) = (x \<notin> seen) # first_seen (insert x seen) xs"

lemma packet_cache_update_known:
  assumes "packet_cache_update sha now p c = (new, c')"
  shows "new \<longleftrightarrow> packet_hash sha p \<notin> dom (map_of (pc_map c))"
    "dom (map_of (pc_map c')) = insert (packet_hash sha p) (dom (map_of (pc_map c)))"
  using assms
  by (auto simp: packet_cache_update_def update_conv' domIff split: option.splits if_splits)

text \<open>The duplicate filter reports a packet as new exactly when no packet with the same
  hash arrived before it (and none was known at the start).\<close>

theorem update_run_first_seen:
  "update_run sha arrivals c =
     first_seen (dom (map_of (pc_map c))) (map (packet_hash sha \<circ> snd) arrivals)"
proof (induction arrivals arbitrary: c)
  case (Cons a arrivals)
  obtain new c' where u: "packet_cache_update sha (fst a) (snd a) c = (new, c')"
    by fastforce
  then show ?case
    using Cons.IH [of c'] packet_cache_update_known [OF u] by simp
qed simp

text \<open>Releasing with an age limit forgets exactly the hashes last seen longer ago than
  the limit: afterwards a hash is known iff it was known and seen within the limit.\<close>

theorem packet_cache_release_exact:
  assumes "packet_cache_ok c"
  shows "hm_get (pc_map (packet_cache_release now limit c)) h =
           (case hm_get (pc_map c) h of
              None \<Rightarrow> None
            | Some t \<Rightarrow> if now - pt_time t > limit then None else Some t)"
proof -
  let ?ks = "map fst (filter (\<lambda>(h, t). now - pt_time t > limit) (pc_map c))"
  have ok: "hm_ok (pc_map c)" and rc: "pc_remove_cache c = []"
    using assms by (auto simp: packet_cache_ok_def)
  have keys: "k \<in> set ?ks \<longleftrightarrow> \<not> (now - pt_time v \<le> limit)" if "hm_get (pc_map c) k = Some v" for k v
    using mem_keys_filter [OF ok that, of "\<lambda>k t. now - pt_time t > limit"] by (simp only: not_le)
  have "pc_map (packet_cache_release now limit c) = fold AList.delete ?ks (pc_map c)"
    by (simp add: packet_cache_release_def rc)
  then have "hm_get (pc_map (packet_cache_release now limit c)) h =
      hm_get (hm_retain (\<lambda>k t. now - pt_time t \<le> limit) (pc_map c)) h"
    using hm.collect_then_remove [of "pc_map c" ?ks "\<lambda>k t. now - pt_time t \<le> limit" h, OF ok keys]
    by (simp only:)
  then show ?thesis
    by (simp add: hm.get_keep [OF ok] not_less split: option.splits)
qed

theorem packet_cache_release_exact_witness:
  "packet_cache_ok (snd (packet_cache_update id 5 packet_default (packet_cache_new 1))) \<and>
   hm_get (pc_map (packet_cache_release 16 10
     (snd (packet_cache_update id 5 packet_default (packet_cache_new 1))))) (packet_hash id packet_default) = None"
proof -
  let ?c = "snd (packet_cache_update id 5 packet_default (packet_cache_new 1))"
  have ok: "packet_cache_ok ?c"
    by (intro packet_cache_update_ok packet_cache_new_ok)
  have "hm_get (pc_map ?c) (packet_hash id packet_default) =
      Some \<lparr>pt_time = 5, pt_min_hops = hd_hops (pk_header packet_default)\<rparr>"
    by (simp add: packet_cache_update_def packet_cache_new_def)
  with packet_cache_release_exact [OF ok, of 16 10 "packet_hash id packet_default"] ok
  show ?thesis by simp
qed

end
