(* ===== verification/Rns_Control.thy ===== *)
theory Rns_Control
  imports Complex_Main Rns_Packet
begin

text \<open>
  Per-interface transport control, \<^verbatim>\<open>src/iface/control.rs\<close>: interface modes, frequency accounting,
  announce and path-request ingress limiting, held announces, and the egress announce queue.

  Frequencies, the announce cap and the control parameters are \<^verbatim>\<open>f64\<close> in the source; they are
  rationals here, so their arithmetic is exact. Instants and durations are unbounded numbers of
  nanoseconds. The theory shows that every operation keeps the bounds of the queues, that an
  announce burst ends once the interface is quiet, that held announces are released one per
  interval, and what the announce queue holds and hands out.
\<close>

section \<open>Interface modes\<close>

datatype interface_mode =
  Full | PointToPoint | AccessPoint | Roaming | Boundary | Gateway | Internal

definition interface_mode_u8 :: "interface_mode \<Rightarrow> u8" where
  "interface_mode_u8 m = (case m of Full \<Rightarrow> 0x01 | PointToPoint \<Rightarrow> 0x02 | AccessPoint \<Rightarrow> 0x03
     | Roaming \<Rightarrow> 0x04 | Boundary \<Rightarrow> 0x05 | Gateway \<Rightarrow> 0x06 | Internal \<Rightarrow> 0x07)"

definition DISCOVER_PATHS_FOR :: "interface_mode list" where
  "DISCOVER_PATHS_FOR = [AccessPoint, Gateway, Roaming, Internal]"

definition BOUNDARY_SEARCH_MODES :: "interface_mode list" where
  "BOUNDARY_SEARCH_MODES = [Boundary, Gateway]"

definition interface_mode_from_u8 :: "u8 \<Rightarrow> interface_mode option" where
  "interface_mode_from_u8 v =
     (if v = 0x01 then Some Full
      else if v = 0x02 then Some PointToPoint
      else if v = 0x03 then Some AccessPoint
      else if v = 0x04 then Some Roaming
      else if v = 0x05 then Some Boundary
      else if v = 0x06 then Some Gateway
      else if v = 0x07 then Some Internal
      else None)"

text \<open>\<^verbatim>\<open>str::to_lowercase\<close> on the letters the mode names use.\<close>

definition ascii_lower :: "char \<Rightarrow> char" where
  "ascii_lower c = (let n = of_char c :: nat in if 65 \<le> n \<and> n \<le> 90 then char_of (n + 32) else c)"

definition interface_mode_from_name :: "string \<Rightarrow> interface_mode option" where
  "interface_mode_from_name name = (let s = map ascii_lower name in
     if s \<in> {''full'', ''default''} then Some Full
     else if s \<in> {''pointtopoint'', ''point_to_point'', ''point-to-point'', ''ptp''} then Some PointToPoint
     else if s \<in> {''accesspoint'', ''access_point'', ''access-point'', ''ap''} then Some AccessPoint
     else if s = ''roaming'' then Some Roaming
     else if s = ''boundary'' then Some Boundary
     else if s \<in> {''gateway'', ''gw''} then Some Gateway
     else if s = ''internal'' then Some Internal
     else None)"

definition interface_mode_name :: "interface_mode \<Rightarrow> string" where
  "interface_mode_name m = (case m of Full \<Rightarrow> ''full'' | PointToPoint \<Rightarrow> ''point_to_point''
     | AccessPoint \<Rightarrow> ''access_point'' | Roaming \<Rightarrow> ''roaming'' | Boundary \<Rightarrow> ''boundary''
     | Gateway \<Rightarrow> ''gateway'' | Internal \<Rightarrow> ''internal'')"

section \<open>Control state\<close>

definition RANDOM_BLOB_OFFSET :: nat where "RANDOM_BLOB_OFFSET = 32 * 2 + 10"
definition FREQ_SAMPLES :: nat where "FREQ_SAMPLES = 48"
definition DEQUE_MIN_SAMPLE :: nat where "DEQUE_MIN_SAMPLE = 2"
definition EC_BURST_MIN_SAMPLES :: nat where "EC_BURST_MIN_SAMPLES = 2"
definition IC_PR_BURST_COOLDOWN :: u8 where "IC_PR_BURST_COOLDOWN = 3"
definition AR_FREQ_DECAY :: nanos where "AR_FREQ_DECAY = secs 10"
definition PR_FREQ_DECAY :: nanos where "PR_FREQ_DECAY = secs 10"
definition ANNOUNCE_CAP :: rat where "ANNOUNCE_CAP = 0.02"
definition DEFAULT_BITRATE :: nat where "DEFAULT_BITRATE = 62500"
definition MAX_QUEUED_ANNOUNCES :: nat where "MAX_QUEUED_ANNOUNCES = 16384"
definition QUEUED_ANNOUNCE_LIFE :: nanos where "QUEUED_ANNOUNCE_LIFE = secs (60 * 60 * 24)"
definition MAX_HELD_ANNOUNCES :: nat where "MAX_HELD_ANNOUNCES = 256"

record iface_control_params =
  ic_max_held_announces :: nat
  ic_burst_hold :: nanos
  ic_burst_freq_new :: rat
  ic_burst_freq :: rat
  ic_pr_burst_freq_new :: rat
  ic_pr_burst_freq :: rat
  ic_new_time :: nanos
  ic_burst_penalty :: nanos
  ic_held_release_interval :: nanos
  ec_pr_freq :: rat

definition iface_control_params_default :: iface_control_params where
  "iface_control_params_default =
     \<lparr>ic_max_held_announces = MAX_HELD_ANNOUNCES,
      ic_burst_hold = secs 15,
      ic_burst_freq_new = 3,
      ic_burst_freq = 10,
      ic_pr_burst_freq_new = 3,
      ic_pr_burst_freq = 8,
      ic_new_time = secs (2 * 60 * 60),
      ic_burst_penalty = secs 15,
      ic_held_release_interval = secs 5,
      ec_pr_freq = 5\<rparr>"

record queued_announce =
  qa_packet :: packet
  qa_queued_at :: nanos
  qa_emitted :: nat

record iface_control =
  ctl_created :: nanos
  ctl_mode :: interface_mode
  ctl_bitrate :: nat
  ctl_announce_cap :: rat
  ctl_ingress_control :: bool
  ctl_announce_ingress_limit :: bool
  ctl_egress_control :: bool
  ctl_recursive_prs :: bool
  ctl_announces_from_internal :: bool
  ctl_announces_to_internal :: "bool option"
  ctl_is_local_client :: bool
  ctl_tunnel_id :: "address_hash option"
  ctl_wants_tunnel :: bool
  ctl_gravity :: int
  ctl_announce_rate_target :: "nanos option"
  ctl_announce_rate_grace :: "u32 option"
  ctl_announce_rate_penalty :: "nanos option"
  ctl_params :: iface_control_params
  announce_allowed_at :: nanos
  ia_freq_deque :: "nanos list"
  oa_freq_deque :: "nanos list"
  ip_freq_deque :: "nanos list"
  op_freq_deque :: "nanos list"
  ic_burst_active :: bool
  ic_burst_activated :: nanos
  ic_burst_sustained :: nanos
  ic_pr_burst_active :: bool
  ic_pr_burst_activated :: nanos
  ic_pr_burst_sustained :: nanos
  ic_pr_burst_cooldown :: u8
  ic_held_release :: nanos
  held_announces :: "(address_hash, packet) btree_map"
  announce_queue :: "queued_announce list"

definition iface_control_new :: "nanos \<Rightarrow> iface_control" where
  "iface_control_new now =
     \<lparr>ctl_created = now, ctl_mode = Full, ctl_bitrate = DEFAULT_BITRATE,
      ctl_announce_cap = ANNOUNCE_CAP, ctl_ingress_control = True,
      ctl_announce_ingress_limit = True, ctl_egress_control = False, ctl_recursive_prs = False,
      ctl_announces_from_internal = True, ctl_announces_to_internal = None,
      ctl_is_local_client = False, ctl_tunnel_id = None, ctl_wants_tunnel = False,
      ctl_gravity = 0, ctl_announce_rate_target = None, ctl_announce_rate_grace = None,
      ctl_announce_rate_penalty = None, ctl_params = iface_control_params_default,
      announce_allowed_at = now, ia_freq_deque = [], oa_freq_deque = [], ip_freq_deque = [],
      op_freq_deque = [], ic_burst_active = False, ic_burst_activated = now,
      ic_burst_sustained = now, ic_pr_burst_active = False, ic_pr_burst_activated = now,
      ic_pr_burst_sustained = now, ic_pr_burst_cooldown = 0, ic_held_release = now,
      held_announces = [], announce_queue = []\<rparr>"

definition announce_emitted :: "packet \<Rightarrow> nat" where
  "announce_emitted p = (let data = pk_data p; start = RANDOM_BLOB_OFFSET + 5 in
     if start + 5 \<le> length data then be_decode (replicate 3 0 @ take 5 (drop start data)) else 0)"

text \<open>The packed size of a packet; the scratch buffer has room for \<^verbatim>\<open>PACKET_MDU + 128\<close> bytes.\<close>

definition packet_wire_len :: "packet \<Rightarrow> nat" where
  "packet_wire_len p =
     (case packet_serialize p (output_buffer_new (replicate (PACKET_MDU + 128) 0)) of
        (Inr _, b) \<Rightarrow> ob_offset b
      | (Inl _, _) \<Rightarrow> PACKET_MDU)"

definition queued_is_stale :: "queued_announce \<Rightarrow> nanos \<Rightarrow> bool" where
  "queued_is_stale e now = (now > qa_queued_at e + QUEUED_ANNOUNCE_LIFE)"

definition ctl_age :: "iface_control \<Rightarrow> nanos \<Rightarrow> nanos" where
  "ctl_age s now = now - ctl_created s"

definition set_announce_ingress_limit :: "bool \<Rightarrow> iface_control \<Rightarrow> iface_control" where
  "set_announce_ingress_limit enabled s = s\<lparr>ctl_announce_ingress_limit := enabled\<rparr>"

definition set_params :: "iface_control_params \<Rightarrow> iface_control \<Rightarrow> iface_control" where
  "set_params p s = s\<lparr>ctl_params := p\<rparr>"

section \<open>Frequency accounting\<close>

definition push_sample :: "nanos list \<Rightarrow> nanos \<Rightarrow> nanos list" where
  "push_sample deque now = (if length deque = FREQ_SAMPLES then tl deque else deque) @ [now]"

definition received_announce :: "nanos \<Rightarrow> iface_control \<Rightarrow> iface_control" where
  "received_announce now s = s\<lparr>ia_freq_deque := push_sample (ia_freq_deque s) now\<rparr>"

definition sent_announce :: "nanos \<Rightarrow> iface_control \<Rightarrow> iface_control" where
  "sent_announce now s = s\<lparr>oa_freq_deque := push_sample (oa_freq_deque s) now\<rparr>"

definition received_path_request :: "nanos \<Rightarrow> iface_control \<Rightarrow> iface_control" where
  "received_path_request now s = s\<lparr>ip_freq_deque := push_sample (ip_freq_deque s) now\<rparr>"

definition sent_path_request :: "nanos \<Rightarrow> iface_control \<Rightarrow> iface_control" where
  "sent_path_request now s = s\<lparr>op_freq_deque := push_sample (op_freq_deque s) now\<rparr>"

text \<open>The rate in Hz, and the deque after at most one stale sample is dropped.\<close>

definition frequency :: "nanos list \<Rightarrow> nanos \<Rightarrow> nat \<Rightarrow> nanos \<Rightarrow> bool \<Rightarrow> rat \<times> nanos list" where
  "frequency deque decay min_samples now preemptive =
     (let n = length deque in
      if n \<le> min_samples then (0, deque)
      else
        let span = now - deque ! 0;
            deque' = (if span > decay then tl deque else deque)
        in ((if span = 0 then 0
             else of_nat (n + of_bool preemptive) / (of_nat span / 1000000000)), deque'))"

definition incoming_announce_frequency :: "nanos \<Rightarrow> iface_control \<Rightarrow> rat \<times> iface_control" where
  "incoming_announce_frequency now s =
     (let (f, d) = frequency (ia_freq_deque s) AR_FREQ_DECAY DEQUE_MIN_SAMPLE now False
      in (f, s\<lparr>ia_freq_deque := d\<rparr>))"

definition outgoing_announce_frequency :: "nanos \<Rightarrow> iface_control \<Rightarrow> rat \<times> iface_control" where
  "outgoing_announce_frequency now s =
     (let (f, d) = frequency (oa_freq_deque s) AR_FREQ_DECAY 1 now False
      in (f, s\<lparr>oa_freq_deque := d\<rparr>))"

definition incoming_pr_frequency :: "nanos \<Rightarrow> iface_control \<Rightarrow> rat \<times> iface_control" where
  "incoming_pr_frequency now s =
     (let (f, d) = frequency (ip_freq_deque s) PR_FREQ_DECAY DEQUE_MIN_SAMPLE now False
      in (f, s\<lparr>ip_freq_deque := d\<rparr>))"

definition outgoing_pr_frequency :: "nanos \<Rightarrow> iface_control \<Rightarrow> rat \<times> iface_control" where
  "outgoing_pr_frequency now s =
     (let (f, d) = frequency (op_freq_deque s) PR_FREQ_DECAY 1 now False
      in (f, s\<lparr>op_freq_deque := d\<rparr>))"

section \<open>Ingress limiting\<close>

definition announce_threshold :: "nanos \<Rightarrow> iface_control \<Rightarrow> rat" where
  "announce_threshold now s =
     (if ctl_age s now < ic_new_time (ctl_params s)
      then ic_burst_freq_new (ctl_params s) else ic_burst_freq (ctl_params s))"

definition should_ingress_limit :: "nanos \<Rightarrow> iface_control \<Rightarrow> bool \<times> iface_control" where
  "should_ingress_limit now s =
     (if \<not> ctl_ingress_control s \<or> \<not> ctl_announce_ingress_limit s then (False, s)
      else
        let freq_threshold = announce_threshold now s;
            (ia_freq, s) = incoming_announce_frequency now s
        in if ic_burst_active s then
             let hold_elapsed = (now > ic_burst_activated s + ic_burst_hold (ctl_params s)
                               \<and> now > ic_burst_sustained s + ic_burst_hold (ctl_params s))
             in (True,
                 if ia_freq < freq_threshold \<and> hold_elapsed then
                   (if length (ia_freq_deque s) \<ge> DEQUE_MIN_SAMPLE
                    then s\<lparr>ic_burst_active := False\<rparr> else s)
                 else if ia_freq \<ge> freq_threshold then s\<lparr>ic_burst_sustained := now\<rparr>
                 else s)
           else if ia_freq > freq_threshold then
             (True, s\<lparr>ic_burst_active := True, ic_burst_activated := now, ic_burst_sustained := now,
                      ic_held_release := now + ic_burst_penalty (ctl_params s)\<rparr>)
           else (False, s))"

definition should_ingress_limit_pr :: "nanos \<Rightarrow> iface_control \<Rightarrow> bool \<times> iface_control" where
  "should_ingress_limit_pr now s =
     (if \<not> ctl_ingress_control s then (False, s)
      else
        let freq_threshold =
              (if ctl_age s now < ic_new_time (ctl_params s)
               then ic_pr_burst_freq_new (ctl_params s) else ic_pr_burst_freq (ctl_params s));
            (ip_freq, s) = incoming_pr_frequency now s
        in if ic_pr_burst_active s then
             let hold_elapsed = (now > ic_pr_burst_activated s + ic_burst_hold (ctl_params s)
                               \<and> now > ic_pr_burst_sustained s + ic_burst_hold (ctl_params s))
             in (True,
                 if ip_freq < freq_threshold \<and> hold_elapsed then
                   (if ic_pr_burst_cooldown s = 0 then s\<lparr>ic_pr_burst_active := False\<rparr>
                    else s\<lparr>ic_pr_burst_cooldown := ic_pr_burst_cooldown s - 1\<rparr>)
                 else
                   let s = s\<lparr>ic_pr_burst_cooldown := IC_PR_BURST_COOLDOWN\<rparr>
                   in if ip_freq \<ge> freq_threshold then s\<lparr>ic_pr_burst_sustained := now\<rparr> else s)
           else if ip_freq > freq_threshold then
             (True, s\<lparr>ic_pr_burst_active := True, ic_pr_burst_activated := now,
                      ic_pr_burst_sustained := now, ic_pr_burst_cooldown := IC_PR_BURST_COOLDOWN\<rparr>)
           else (False, s))"

definition should_egress_limit_pr :: "nanos \<Rightarrow> iface_control \<Rightarrow> bool \<times> iface_control" where
  "should_egress_limit_pr now s =
     (if \<not> ctl_egress_control s then (False, s)
      else
        let (op_freq, d) = frequency (op_freq_deque s) PR_FREQ_DECAY 1 now True;
            s = s\<lparr>op_freq_deque := d\<rparr>
        in (op_freq > ec_pr_freq (ctl_params s) \<and> length (op_freq_deque s) \<ge> EC_BURST_MIN_SAMPLES, s))"

definition hold_announce :: "packet \<Rightarrow> u8 \<Rightarrow> iface_control \<Rightarrow> iface_control" where
  "hold_announce p max_hops s =
     (if hd_hops (pk_header p) \<ge> (if max_hops = 0 then 0 else max_hops - 1) then s
      else if hm_get (held_announces s) (pk_destination p) = None
            \<and> length (held_announces s) \<ge> ic_max_held_announces (ctl_params s) then s
      else s\<lparr>held_announces := bm_insert (pk_destination p) p (held_announces s)\<rparr>)"

definition release_held_announce :: "nanos \<Rightarrow> iface_control \<Rightarrow> packet option \<times> iface_control" where
  "release_held_announce now s =
     (if held_announces s = [] \<or> now \<le> ic_held_release s then (None, s)
      else
        let freq_threshold = announce_threshold now s;
            (ia_freq, s) = incoming_announce_frequency now s
        in if ia_freq \<ge> freq_threshold then (None, s)
           else case min_by_key (\<lambda>(_, p). hd_hops (pk_header p)) (held_announces s) of
                  None \<Rightarrow> (None, s)
                | Some (selected, _) \<Rightarrow>
                    (hm_get (held_announces s) selected,
                     s\<lparr>ic_held_release := now + ic_held_release_interval (ctl_params s),
                       held_announces := hm_remove selected (held_announces s)\<rparr>))"

section \<open>Egress airtime budget\<close>

text \<open>\<^verbatim>\<open>Duration::from_secs_f64\<close>, rounding to the nearest nanosecond.\<close>

definition from_secs_f64 :: "rat \<Rightarrow> nanos" where
  "from_secs_f64 x = nat (round (x * 1000000000))"

definition cap_wait_time :: "iface_control \<Rightarrow> nat \<Rightarrow> nanos" where
  "cap_wait_time s n =
     (if ctl_bitrate s = 0 then 0
      else
        let tx_time = (of_nat n * 8) / of_nat (ctl_bitrate s);
            wait = tx_time / max (ctl_announce_cap s) (1 / 2 ^ 1022)
        in from_secs_f64 (max wait 0))"

definition try_transmit_announce :: "nat \<Rightarrow> nanos \<Rightarrow> iface_control \<Rightarrow> bool \<times> iface_control" where
  "try_transmit_announce n now s =
     (if announce_queue s \<noteq> [] \<or> ctl_bitrate s = 0 \<or> ctl_announce_cap s \<le> 0 then (False, s)
      else if now \<ge> announce_allowed_at s then
        (True, s\<lparr>announce_allowed_at := now + cap_wait_time s n\<rparr>)
      else (False, s))"

text \<open>\<^verbatim>\<open>iter_mut().find\<close>: the first entry satisfying the predicate is rewritten.\<close>

primrec update_first :: "('a \<Rightarrow> bool) \<Rightarrow> ('a \<Rightarrow> 'a) \<Rightarrow> 'a list \<Rightarrow> 'a list" where
  "update_first P f [] = []"
| "update_first P f (x # xs) = (if P x then f x # xs else x # update_first P f xs)"

definition queue_announce :: "packet \<Rightarrow> nanos \<Rightarrow> iface_control \<Rightarrow> iface_control" where
  "queue_announce p now s =
     (if hd_packet_type (pk_header p) \<noteq> Announce then s
      else
        let destination = pk_destination p;
            emitted = announce_emitted p;
            same = (\<lambda>e. pk_destination (qa_packet e) = destination)
        in if list_ex same (announce_queue s) then
             s\<lparr>announce_queue := update_first same
                 (\<lambda>e. if emitted > qa_emitted e
                      then \<lparr>qa_packet = p, qa_queued_at = now, qa_emitted = emitted\<rparr> else e)
                 (announce_queue s)\<rparr>
           else if length (announce_queue s) \<ge> MAX_QUEUED_ANNOUNCES then s
           else s\<lparr>announce_queue := announce_queue s @
                    [\<lparr>qa_packet = p, qa_queued_at = now, qa_emitted = emitted\<rparr>]\<rparr>)"

text \<open>\<^verbatim>\<open>Vec::remove(index)\<close> for an index in range.\<close>

definition remove_at :: "nat \<Rightarrow> 'a list \<Rightarrow> 'a list" where
  "remove_at i xs = take i xs @ drop (Suc i) xs"

definition take_queued_announce :: "nanos \<Rightarrow> iface_control \<Rightarrow> packet option \<times> iface_control" where
  "take_queued_announce now s =
     (let s = s\<lparr>announce_queue := filter (\<lambda>e. \<not> queued_is_stale e now) (announce_queue s)\<rparr>
      in case min_by_key (\<lambda>(i, e). (hd_hops (pk_header (qa_packet e)), i))
                (enumerate 0 (announce_queue s)) of
           None \<Rightarrow> (None, s)
         | Some (selected, e) \<Rightarrow>
             let s = s\<lparr>announce_queue := remove_at selected (announce_queue s)\<rparr>
             in (Some (qa_packet e),
                 s\<lparr>announce_allowed_at := now + cap_wait_time s (packet_wire_len (qa_packet e))\<rparr>))"

definition queued_announce_wait :: "nanos \<Rightarrow> iface_control \<Rightarrow> nanos option" where
  "queued_announce_wait now s =
     (if announce_queue s = [] then None else Some (announce_allowed_at s - now))"

definition clear_announce_queue :: "iface_control \<Rightarrow> iface_control" where
  "clear_announce_queue s = s\<lparr>announce_queue := []\<rparr>"

section \<open>Invariant\<close>

text \<open>
  What every operation keeps: bounded sample windows, a bounded map of held announces, a bounded
  queue with one entry per destination, and enough samples to end a burst.
\<close>

definition queue_ok :: "queued_announce list \<Rightarrow> bool" where
  "queue_ok q = (length q \<le> MAX_QUEUED_ANNOUNCES
     \<and> distinct (map (\<lambda>e. pk_destination (qa_packet e)) q)
     \<and> list_all (\<lambda>e. hd_packet_type (pk_header (qa_packet e)) = Announce
                  \<and> qa_emitted e = announce_emitted (qa_packet e)) q)"

definition held_ok :: "iface_control \<Rightarrow> bool" where
  "held_ok s = (bm_ok (held_announces s)
     \<and> length (held_announces s) \<le> ic_max_held_announces (ctl_params s)
     \<and> list_all (\<lambda>(d, p). pk_destination p = d) (held_announces s))"

definition ctl_ok :: "iface_control \<Rightarrow> bool" where
  "ctl_ok s = (length (ia_freq_deque s) \<le> FREQ_SAMPLES \<and> length (oa_freq_deque s) \<le> FREQ_SAMPLES
     \<and> length (ip_freq_deque s) \<le> FREQ_SAMPLES \<and> length (op_freq_deque s) \<le> FREQ_SAMPLES
     \<and> (ic_burst_active s \<longrightarrow> length (ia_freq_deque s) \<ge> DEQUE_MIN_SAMPLE)
     \<and> held_ok s \<and> queue_ok (announce_queue s))"

lemmas control_consts = FREQ_SAMPLES_def DEQUE_MIN_SAMPLE_def MAX_QUEUED_ANNOUNCES_def

lemma length_push_sample:
  "length d \<le> FREQ_SAMPLES \<Longrightarrow> length (push_sample d now) \<le> FREQ_SAMPLES"
  "min (length d) 2 \<le> length (push_sample d now)"
  by (auto simp: push_sample_def FREQ_SAMPLES_def)

lemma frequency_deque:
  "length (snd (frequency d decay m now b)) \<le> length d"
  "m \<le> length d \<Longrightarrow> m \<le> length (snd (frequency d decay m now b))"
  "m < length d \<Longrightarrow> m \<le> length (snd (frequency d decay m now b))"
  "set (snd (frequency d decay m now b)) \<subseteq> set d"
  by (auto simp: frequency_def dest: list.set_sel(2) intro: list.set_sel(2) split: if_splits)

lemma frequency_pos:
  "0 < fst (frequency d decay m now b) \<Longrightarrow> m < length d"
  by (auto simp: frequency_def split: if_splits)

lemma ctl_ok_ingress:
  assumes "ctl_ok s" "0 \<le> announce_threshold now s"
  shows "ctl_ok (snd (should_ingress_limit now s))"
proof -
  obtain f d where fd: "frequency (ia_freq_deque s) AR_FREQ_DECAY DEQUE_MIN_SAMPLE now False = (f, d)"
    by fastforce
  have "length d \<le> length (ia_freq_deque s)"
    "DEQUE_MIN_SAMPLE \<le> length (ia_freq_deque s) \<Longrightarrow> DEQUE_MIN_SAMPLE \<le> length d"
    "announce_threshold now s < f \<Longrightarrow> DEQUE_MIN_SAMPLE \<le> length d"
    using frequency_deque [where d = "ia_freq_deque s" and decay = AR_FREQ_DECAY
        and m = DEQUE_MIN_SAMPLE and now = now and b = False]
      frequency_pos [of "ia_freq_deque s" AR_FREQ_DECAY DEQUE_MIN_SAMPLE now False] assms(2) fd
    by auto
  with assms(1) fd show ?thesis
    by (auto simp: should_ingress_limit_def incoming_announce_frequency_def ctl_ok_def held_ok_def)
qed

lemma ctl_ok_pr_fields [simp]:
  "ctl_ok (s\<lparr>ic_pr_burst_active := b\<rparr>) = ctl_ok s"
  "ctl_ok (s\<lparr>ic_pr_burst_activated := t\<rparr>) = ctl_ok s"
  "ctl_ok (s\<lparr>ic_pr_burst_sustained := t\<rparr>) = ctl_ok s"
  "ctl_ok (s\<lparr>ic_pr_burst_cooldown := c\<rparr>) = ctl_ok s"
  by (simp_all add: ctl_ok_def held_ok_def)

lemma ctl_ok_ingress_pr: "ctl_ok s \<Longrightarrow> ctl_ok (snd (should_ingress_limit_pr now s))"
proof -
  assume ok: "ctl_ok s"
  obtain f d where fd: "frequency (ip_freq_deque s) PR_FREQ_DECAY DEQUE_MIN_SAMPLE now False = (f, d)"
    by fastforce
  have "ctl_ok (s\<lparr>ip_freq_deque := d\<rparr>)"
    using ok fd frequency_deque(1) [of "ip_freq_deque s" PR_FREQ_DECAY DEQUE_MIN_SAMPLE now False]
    by (simp add: ctl_ok_def held_ok_def)
  with ok show ?thesis
    by (simp add: should_ingress_limit_pr_def incoming_pr_frequency_def fd)
qed

lemma ctl_ok_egress_pr: "ctl_ok s \<Longrightarrow> ctl_ok (snd (should_egress_limit_pr now s))"
  using frequency_deque(1) [of "op_freq_deque s" PR_FREQ_DECAY 1 now True]
  by (auto simp: should_egress_limit_pr_def ctl_ok_def held_ok_def split: prod.splits)

lemma length_bm_insert:
  "bm_ok m \<Longrightarrow> length (bm_insert k v m) = (if map_of m k = None then Suc (length m) else length m)"
proof (induction k v m rule: bm_insert.induct)
  case (2 k v a b m)
  have "map_of m k = None" if "k < a"
    using that "2.prems" by (force simp: bm_ok_def map_of_eq_None_iff)
  with 2 show ?case
    by (auto simp: bm_ok_def)
qed simp

lemma ctl_ok_hold: "ctl_ok s \<Longrightarrow> ctl_ok (hold_announce p mh s)"
  by (auto simp: hold_announce_def ctl_ok_def held_ok_def bm.inv_ins length_bm_insert
      intro: list_all_bm_insert)

lemma ctl_ok_release: "ctl_ok s \<Longrightarrow> ctl_ok (snd (release_held_announce now s))"
proof -
  assume ok: "ctl_ok s"
  obtain f d where fd: "frequency (ia_freq_deque s) AR_FREQ_DECAY DEQUE_MIN_SAMPLE now False = (f, d)"
    by fastforce
  have "length d \<le> length (ia_freq_deque s)"
    "DEQUE_MIN_SAMPLE \<le> length (ia_freq_deque s) \<Longrightarrow> DEQUE_MIN_SAMPLE \<le> length d"
    using frequency_deque [where d = "ia_freq_deque s" and decay = AR_FREQ_DECAY
        and m = DEQUE_MIN_SAMPLE and now = now and b = False] fd by auto
  moreover have "held_ok (s\<lparr>held_announces := hm_remove k (held_announces s)\<rparr>)" for k
    using ok bm.inv_rem [of "held_announces s" k]
    by (auto simp: ctl_ok_def held_ok_def list_all_iff delete_conv_filter
        intro: le_trans [OF length_filter_le])
  ultimately show ?thesis
    using ok fd by (auto simp: release_held_announce_def incoming_announce_frequency_def ctl_ok_def
        held_ok_def split: option.splits)
qed

lemma map_update_first:
  "(\<And>x. x \<in> set xs \<Longrightarrow> P x \<Longrightarrow> g (f x) = g x) \<Longrightarrow> map g (update_first P f xs) = map g xs"
  by (induction xs) auto

lemma length_update_first [simp]: "length (update_first P f xs) = length xs"
  by (induction xs) auto

lemma set_update_first: "set (update_first P f xs) \<subseteq> set xs \<union> f ` {x \<in> set xs. P x}"
  by (induction xs) auto

lemma queue_ok_queue_announce:
  assumes "queue_ok (announce_queue s)"
  shows "queue_ok (announce_queue (queue_announce p now s))"
proof -
  let ?same = "\<lambda>e. pk_destination (qa_packet e) = pk_destination p"
  let ?f = "\<lambda>e. if announce_emitted p > qa_emitted e
              then \<lparr>qa_packet = p, qa_queued_at = now, qa_emitted = announce_emitted p\<rparr> else e"
  let ?q = "announce_queue s"
  have "map (\<lambda>e. pk_destination (qa_packet e)) (update_first ?same ?f ?q) =
        map (\<lambda>e. pk_destination (qa_packet e)) ?q"
    by (rule map_update_first) auto
  then show ?thesis
    using assms set_update_first [of ?same ?f ?q]
    by (auto simp: queue_announce_def queue_ok_def list_all_iff list_ex_iff)
qed

lemma queue_ok_filter: "queue_ok q \<Longrightarrow> queue_ok (filter P q)"
  by (auto simp: queue_ok_def list_all_iff distinct_map_filter intro: le_trans [OF length_filter_le])

lemma distinct_remove_at: "distinct xs \<Longrightarrow> distinct (remove_at i xs)"
  by (simp add: remove_at_def set_take_disj_set_drop_if_distinct)

lemma map_remove_at: "map f (remove_at i xs) = remove_at i (map f xs)"
  by (simp add: remove_at_def take_map drop_map)

lemma set_remove_at: "set (remove_at i xs) \<subseteq> set xs"
  by (auto simp: remove_at_def dest: in_set_takeD in_set_dropD)

lemma queue_ok_remove_at: "queue_ok q \<Longrightarrow> queue_ok (remove_at i q)"
  using set_remove_at [of i q]
  by (auto simp: queue_ok_def map_remove_at distinct_remove_at list_all_iff)
    (simp add: remove_at_def)

lemma ctl_ok_take: "ctl_ok s \<Longrightarrow> ctl_ok (snd (take_queued_announce now s))"
  by (auto simp: take_queued_announce_def ctl_ok_def held_ok_def queue_ok_filter queue_ok_remove_at
      split: option.splits)

lemma ctl_ok_queue: "ctl_ok s \<Longrightarrow> ctl_ok (queue_announce p now s)"
  using queue_ok_queue_announce [of s p now]
  by (auto simp: ctl_ok_def queue_announce_def held_ok_def)

section \<open>Runs of operations\<close>

datatype ctl_op =
    ReceivedAnnounce | SentAnnounce | ReceivedPathRequest | SentPathRequest
  | CheckIngress | CheckIngressPr | CheckEgressPr
  | HoldAnnounce packet u8 | ReleaseHeld
  | TryTransmit nat | QueueAnnounce packet | TakeQueued | ClearQueue
  | SetIngressLimit bool

text \<open>One operation at a clock reading: the held announce it releases, and the next state.\<close>

fun ctl_step :: "nanos \<Rightarrow> ctl_op \<Rightarrow> iface_control \<Rightarrow> packet option \<times> iface_control" where
  "ctl_step now ReceivedAnnounce s = (None, received_announce now s)"
| "ctl_step now SentAnnounce s = (None, sent_announce now s)"
| "ctl_step now ReceivedPathRequest s = (None, received_path_request now s)"
| "ctl_step now SentPathRequest s = (None, sent_path_request now s)"
| "ctl_step now CheckIngress s = (None, snd (should_ingress_limit now s))"
| "ctl_step now CheckIngressPr s = (None, snd (should_ingress_limit_pr now s))"
| "ctl_step now CheckEgressPr s = (None, snd (should_egress_limit_pr now s))"
| "ctl_step now (HoldAnnounce p mh) s = (None, hold_announce p mh s)"
| "ctl_step now ReleaseHeld s = release_held_announce now s"
| "ctl_step now (TryTransmit n) s = (None, snd (try_transmit_announce n now s))"
| "ctl_step now (QueueAnnounce p) s = (None, queue_announce p now s)"
| "ctl_step now TakeQueued s = (None, snd (take_queued_announce now s))"
| "ctl_step now ClearQueue s = (None, clear_announce_queue s)"
| "ctl_step now (SetIngressLimit b) s = (None, set_announce_ingress_limit b s)"

text \<open>A run, with the clock readings and packets of the held announces it released.\<close>

fun ctl_run :: "(nanos \<times> ctl_op) list \<Rightarrow> iface_control \<Rightarrow> (nanos \<times> packet) list \<times> iface_control" where
  "ctl_run [] s = ([], s)"
| "ctl_run ((now, op) # ops) s =
     (let (r, s') = ctl_step now op s;
          (rs, s'') = ctl_run ops s'
      in (case r of None \<Rightarrow> rs | Some p \<Rightarrow> (now, p) # rs, s''))"

lemmas ctl_op_defs = received_announce_def sent_announce_def received_path_request_def
  sent_path_request_def should_ingress_limit_def should_ingress_limit_pr_def
  should_egress_limit_pr_def hold_announce_def release_held_announce_def try_transmit_announce_def
  queue_announce_def take_queued_announce_def clear_announce_queue_def
  set_announce_ingress_limit_def incoming_announce_frequency_def incoming_pr_frequency_def

lemma ctl_step_params: "ctl_params (snd (ctl_step now op s)) = ctl_params s"
  by (cases op) (auto simp: ctl_op_defs split: prod.splits option.splits)

lemma ctl_step_release_gate:
  "ic_held_release (snd (ctl_step now op s)) \<in>
     {ic_held_release s, now + ic_burst_penalty (ctl_params s)} \<and> fst (ctl_step now op s) = None
   \<or> ic_held_release s < now
     \<and> ic_held_release (snd (ctl_step now op s)) = now + ic_held_release_interval (ctl_params s)"
  by (cases op) (auto simp: ctl_op_defs split: prod.splits option.splits)

lemma ctl_ok_step:
  assumes "ctl_ok s" and "0 \<le> ic_burst_freq_new (ctl_params s)" "0 \<le> ic_burst_freq (ctl_params s)"
  shows "ctl_ok (snd (ctl_step now op s))"
proof (cases op)
  case CheckIngress
  then show ?thesis
    using assms by (auto intro!: ctl_ok_ingress simp: announce_threshold_def)
next
  case ReceivedAnnounce
  then show ?thesis
    using assms(1) length_push_sample(1) [of "ia_freq_deque s" now]
      length_push_sample(2) [of "ia_freq_deque s" now]
    by (auto simp: received_announce_def ctl_ok_def held_ok_def DEQUE_MIN_SAMPLE_def)
qed (use assms(1) in \<open>auto simp: ctl_ok_ingress_pr ctl_ok_egress_pr ctl_ok_hold ctl_ok_release
    ctl_ok_queue ctl_ok_take\<close>,
  auto simp: ctl_ok_def held_ok_def queue_ok_def length_push_sample sent_announce_def
    received_path_request_def sent_path_request_def try_transmit_announce_def
    clear_announce_queue_def set_announce_ingress_limit_def)

lemma ctl_ok_run:
  assumes "ctl_ok s" and "0 \<le> ic_burst_freq_new (ctl_params s)" "0 \<le> ic_burst_freq (ctl_params s)"
  shows "ctl_ok (snd (ctl_run ops s))"
  using assms
proof (induction ops s rule: ctl_run.induct)
  case (2 now op ops s)
  then show ?case
    using ctl_ok_step [of s now op] ctl_step_params [of now op s]
    by (auto split: prod.splits)
qed simp

text \<open>
  From a fresh interface, after any run of operations: every sample window has at most
  48 entries, at most 256 announces are held, the announce queue has at most 16384 entries, one
  per destination and all of them announces, and an active burst has the samples it needs to end.
\<close>

theorem control_invariant: "ctl_ok (snd (ctl_run ops (iface_control_new t)))"
proof (rule ctl_ok_run)
  show "ctl_ok (iface_control_new t)"
    by (simp add: ctl_ok_def held_ok_def queue_ok_def iface_control_new_def)
qed (simp_all add: iface_control_new_def iface_control_params_default_def)

lemma ctl_run_barrier:
  assumes "sorted (map fst ops)" and "\<forall>t\<in>fst ` set ops. t0 \<le> t"
    and "t0 + ic_held_release_interval (ctl_params s) \<le> ic_held_release s"
    and "ic_held_release_interval (ctl_params s) \<le> ic_burst_penalty (ctl_params s)"
  shows "\<forall>(t, p)\<in>set (fst (ctl_run ops s)). t0 + ic_held_release_interval (ctl_params s) < t"
  using assms
proof (induction ops s rule: ctl_run.induct)
  case (2 now op ops s)
  obtain r s' where step: "ctl_step now op s = (r, s')" by fastforce
  obtain rs s'' where run: "ctl_run ops s' = (rs, s'')" by fastforce
  have params: "ctl_params s' = ctl_params s"
    using ctl_step_params [of now op s] step by simp
  have gate: "ic_held_release s' \<in> {ic_held_release s, now + ic_burst_penalty (ctl_params s)} \<and> r = None
      \<or> ic_held_release s < now \<and> ic_held_release s' = now + ic_held_release_interval (ctl_params s)"
    using ctl_step_release_gate [of now op s] step by simp
  have "t0 + ic_held_release_interval (ctl_params s) \<le> ic_held_release s'"
    using gate 2(3-5) by auto
  then have "\<forall>(t, p)\<in>set rs. t0 + ic_held_release_interval (ctl_params s) < t"
    using "2.IH" [of "(r, s')" r s'] 2(2-5) step run params by auto
  moreover have "t0 + ic_held_release_interval (ctl_params s) < now" if "r \<noteq> None"
    using that gate 2(4) by auto
  ultimately show ?case
    using step run by (auto split: option.splits)
qed simp

text \<open>
  Held announces return to processing one at a time: in a run over a monotonic clock,
  whatever else happens on the interface, two releases are always more than the release interval
  apart, provided the burst penalty is at least that interval (15 s against 5 s by default).
\<close>

theorem held_announces_spaced:
  assumes "sorted (map fst ops)"
    and "ic_held_release_interval (ctl_params s) \<le> ic_burst_penalty (ctl_params s)"
  shows "sorted_wrt (\<lambda>t t'. t + ic_held_release_interval (ctl_params s) < t')
           (map fst (fst (ctl_run ops s)))"
  using assms
proof (induction ops s rule: ctl_run.induct)
  case (2 now op ops s)
  obtain r s' where step: "ctl_step now op s = (r, s')" by fastforce
  obtain rs s'' where run: "ctl_run ops s' = (rs, s'')" by fastforce
  have params: "ctl_params s' = ctl_params s"
    using ctl_step_params [of now op s] step by simp
  have "sorted_wrt (\<lambda>t t'. t + ic_held_release_interval (ctl_params s) < t') (map fst rs)"
    using "2.IH" [of "(r, s')" r s'] 2(2-3) step run params by auto
  moreover have "\<forall>(t, p)\<in>set rs. now + ic_held_release_interval (ctl_params s) < t" if "r \<noteq> None"
  proof -
    have "ic_held_release s' = now + ic_held_release_interval (ctl_params s)"
      using ctl_step_release_gate [of now op s] step that by auto
    then show ?thesis
      using ctl_run_barrier [of ops now s'] 2(2-3) run params by auto
  qed
  ultimately show ?case
    using step run by (auto split: option.splits)
qed simp

theorem held_announces_spaced_witness:
  "let p = packet_default\<lparr>pk_destination := AddressHash (replicate 16 7)\<rparr>;
       ops = [(1, HoldAnnounce packet_default 128), (2, HoldAnnounce p 128), (3, ReleaseHeld),
              (4, ReleaseHeld), (secs 6, ReleaseHeld)];
       s = iface_control_new 0
   in map fst (fst (ctl_run ops s)) = [3, secs 6] \<and>
      sorted_wrt (\<lambda>t t'. t + ic_held_release_interval (ctl_params s) < t')
        (map fst (fst (ctl_run ops s)))"
  using held_announces_spaced
    [of "[(1, HoldAnnounce packet_default 128),
          (2, HoldAnnounce (packet_default\<lparr>pk_destination := AddressHash (replicate 16 7)\<rparr>) 128),
          (3, ReleaseHeld), (4, ReleaseHeld), (secs 6, ReleaseHeld)]" "iface_control_new 0"]
  by (simp add: iface_control_new_def iface_control_params_default_def hold_announce_def
      packet_default_def header_default_def MAX_HELD_ANNOUNCES_def release_held_announce_def
      incoming_announce_frequency_def frequency_def announce_threshold_def ctl_age_def
      address_hash_new_empty_def less_address_hash_def)

section \<open>Bursts end\<close>

lemma frequency_quiet:
  assumes "length d \<le> FREQ_SAMPLES" and "\<forall>t\<in>set d. t \<le> T" and "T < now"
  shows "fst (frequency d decay m now False) \<le> 48000000000 / of_nat (now - T)"
proof (cases "length d \<le> m")
  case False
  then have "d ! 0 \<in> set d" by (intro nth_mem) linarith
  then have span: "now - T \<le> now - d ! 0" "0 < now - T"
    using assms by auto
  have "of_nat (length d) * 1000000000 / of_nat (now - d ! 0)
      \<le> (48000000000 :: rat) / of_nat (now - T)"
  proof (rule frac_le)
    have "(of_nat (length d) :: rat) \<le> of_nat 48"
      using assms(1) unfolding FREQ_SAMPLES_def of_nat_le_iff .
    then show "of_nat (length d) * 1000000000 \<le> (48000000000 :: rat)" by simp
    show "(of_nat (now - T) :: rat) \<le> of_nat (now - d ! 0)"
      using span(1) by (simp only: of_nat_le_iff)
    show "(0 :: rat) < of_nat (now - T)"
      using span(2) by (simp only: of_nat_0_less_iff)
  qed simp
  then show ?thesis
    using False span by (simp add: frequency_def)
qed (simp add: frequency_def)

lemma frequency_below:
  assumes "length d \<le> FREQ_SAMPLES" and "\<forall>t\<in>set d. t \<le> T" and "T < now"
    and "48000000000 < thr * of_nat (now - T)"
  shows "fst (frequency d decay m now False) < thr"
proof -
  have "(0 :: rat) < of_nat (now - T)"
    using assms(3) by (simp only: of_nat_0_less_iff zero_less_diff)
  then have "48000000000 / of_nat (now - T) < thr"
    using assms(4) by (simp only: pos_divide_less_eq)
  then show ?thesis
    using frequency_quiet [OF assms(1-3), of decay m] by (rule order.strict_trans1 [rotated])
qed

lemma announce_threshold_cong:
  "ctl_created s' = ctl_created s \<Longrightarrow> ctl_params s' = ctl_params s \<Longrightarrow>
     announce_threshold now s' = announce_threshold now s"
  by (simp add: announce_threshold_def ctl_age_def)

text \<open>
  Claim C40. An announce burst ends: if no announce arrived and no check found the rate at the
  threshold since \<open>T\<close>, then the first check after the hold time at which the window of 48 samples
  cannot reach the threshold any more still limits but clears the burst, and every later check
  without new announces does not limit.
\<close>

theorem ingress_burst_ends:
  assumes ok: "ctl_ok s" and on: "ctl_ingress_control s" "ctl_announce_ingress_limit s"
    and active: "ic_burst_active s"
    and quiet: "\<forall>t\<in>set (ia_freq_deque s). t \<le> T" "ic_burst_activated s \<le> T" "ic_burst_sustained s \<le> T"
    and hold: "T + ic_burst_hold (ctl_params s) < now"
    and low: "48000000000 < ic_burst_freq_new (ctl_params s) * of_nat (now - T)"
      "48000000000 < ic_burst_freq (ctl_params s) * of_nat (now - T)"
    and later: "now \<le> now'"
  shows "fst (should_ingress_limit now s)
    \<and> \<not> fst (should_ingress_limit now' (snd (should_ingress_limit now s)))"
proof -
  obtain f d where fd: "frequency (ia_freq_deque s) AR_FREQ_DECAY DEQUE_MIN_SAMPLE now False = (f, d)"
    by fastforce
  let ?s' = "s\<lparr>ia_freq_deque := d, ic_burst_active := False\<rparr>"
  have d: "length d \<le> FREQ_SAMPLES" "\<forall>t\<in>set d. t \<le> T" "DEQUE_MIN_SAMPLE \<le> length d"
    using frequency_deque [where d = "ia_freq_deque s" and decay = AR_FREQ_DECAY
        and m = DEQUE_MIN_SAMPLE and now = now and b = False] ok active quiet(1) fd
    by (auto simp: ctl_ok_def)
  have thr: "48000000000 < announce_threshold now s * of_nat (now - T)"
    using low unfolding announce_threshold_def by presburger
  have "f < announce_threshold now s"
    using frequency_below [of "ia_freq_deque s" T now _ AR_FREQ_DECAY DEQUE_MIN_SAMPLE]
      ok quiet(1) hold thr fd by (auto simp: ctl_ok_def)
  then have step: "should_ingress_limit now s = (True, ?s')"
    using on active quiet hold d(3) fd
    by (simp add: should_ingress_limit_def incoming_announce_frequency_def)
  have mono: "x * of_nat (now - T) \<le> x * of_nat (now' - T)" if "0 \<le> x" for x :: rat
    using later that by (intro mult_left_mono) (simp_all only: of_nat_le_iff diff_le_mono)
  have nonneg: "0 \<le> x" if "48000000000 < x * of_nat (now - T)" for x :: rat
    using that by (metis less_le_trans mult_nonpos_nonneg nle_le not_numeral_less_zero of_nat_0_le_iff)
  have "48000000000 < announce_threshold now' s * of_nat (now' - T)"
    using low mono [OF nonneg [OF low(1)]] mono [OF nonneg [OF low(2)]]
    unfolding announce_threshold_def by (auto intro: less_le_trans simp del: of_nat_diff)
  then have "fst (frequency d AR_FREQ_DECAY DEQUE_MIN_SAMPLE now' False) < announce_threshold now' s"
    using frequency_below [of d T now'] d hold later by auto
  moreover have "announce_threshold now' ?s' = announce_threshold now' s"
    by (rule announce_threshold_cong) simp_all
  ultimately show ?thesis
    unfolding step
    by (auto simp: should_ingress_limit_def incoming_announce_frequency_def split: prod.splits)
qed

text \<open>A burst of three announces in half a second, ended sixteen seconds later.\<close>

definition burst_example :: iface_control where
  "burst_example = (iface_control_new 0)
     \<lparr>ia_freq_deque := [0, millis 100, millis 200], ic_burst_active := True,
      ic_burst_activated := millis 500, ic_burst_sustained := millis 500\<rparr>"

theorem ingress_burst_ends_witness:
  "fst (should_ingress_limit (secs 17) burst_example)
   \<and> \<not> fst (should_ingress_limit (secs 18) (snd (should_ingress_limit (secs 17) burst_example)))"
  by (rule ingress_burst_ends [where T = "millis 500"])
    (simp_all add: burst_example_def iface_control_new_def iface_control_params_default_def
      ctl_ok_def held_ok_def queue_ok_def control_consts)

section \<open>The announce queue\<close>

lemma take_queued_budget_free:
  "fst (take_queued_announce now (s\<lparr>announce_allowed_at := t\<rparr>)) = fst (take_queued_announce now s)"
  by (simp add: take_queued_announce_def split: option.splits prod.splits)

lemma enumerate_nth_mem: "(i, x) \<in> set (enumerate 0 xs) \<longleftrightarrow> i < length xs \<and> xs ! i = x"
  by (auto simp: in_set_enumerate_eq)

lemma min_by_key_enumerate:
  assumes "min_by_key (\<lambda>(i, e). (f e, i)) (enumerate 0 xs) = Some (i, e)"
  shows "i < length xs" "xs ! i = e"
    "j < length xs \<Longrightarrow> f e \<le> f (xs ! j)"
    "j < length xs \<Longrightarrow> j < i \<Longrightarrow> f e < f (xs ! j)"
proof -
  note m = min_by_key_Some [OF assms]
  show "i < length xs" "xs ! i = e"
    using conjunct1 [OF m] by (simp_all add: enumerate_nth_mem)
  have least: "(f e, i) \<le> (f (xs ! j), j)" if "j < length xs" for j
    using bspec [OF conjunct2 [OF m], of "(j, xs ! j)"] that by (simp add: enumerate_nth_mem)
  show "f e \<le> f (xs ! j)" if "j < length xs"
    using least [OF that] by (auto simp: less_eq_prod_def)
  show "f e < f (xs ! j)" if "j < length xs" "j < i"
    using least [OF that(1)] that(2) by (auto simp: less_eq_prod_def)
qed

lemma take_queued_None:
  "min_by_key (\<lambda>(i, e). (hd_hops (pk_header (qa_packet e)), i))
     (enumerate 0 (filter (\<lambda>e. \<not> queued_is_stale e now) (announce_queue s))) = None \<Longrightarrow>
   take_queued_announce now s = (None, s\<lparr>announce_queue := []\<rparr>)"
  by (simp add: take_queued_announce_def enumerate_eq_zip)

lemma take_queued_Some:
  "min_by_key (\<lambda>(i, e). (hd_hops (pk_header (qa_packet e)), i))
     (enumerate 0 (filter (\<lambda>e. \<not> queued_is_stale e now) (announce_queue s))) = Some (i, e) \<Longrightarrow>
   take_queued_announce now s = (Some (qa_packet e),
     s\<lparr>announce_queue := remove_at i (filter (\<lambda>e. \<not> queued_is_stale e now) (announce_queue s)),
       announce_allowed_at := now + cap_wait_time s (packet_wire_len (qa_packet e))\<rparr>)"
  by (simp add: take_queued_announce_def cap_wait_time_def)

text \<open>
  Taking from the announce queue drops the entries queued for more than a day, hands out
  the fresh entry with the fewest hops and, among those, the one longest in the queue, leaves the
  other fresh entries in order, and reserves the airtime of the packet from now on. It hands out
  nothing only when no fresh entry is left; the budget left by earlier transmissions is not
  consulted.
\<close>

theorem take_queued_announce_spec:
  "let fresh = filter (\<lambda>e. \<not> queued_is_stale e now) (announce_queue s);
       hops = (\<lambda>e. hd_hops (pk_header (qa_packet e)))
   in case take_queued_announce now s of
        (None, s') \<Rightarrow> fresh = [] \<and> announce_queue s' = []
      | (Some p, s') \<Rightarrow> (\<exists>i < length fresh. p = qa_packet (fresh ! i)
          \<and> (\<forall>j < length fresh. hops (fresh ! i) \<le> hops (fresh ! j)
              \<and> (j < i \<longrightarrow> hops (fresh ! i) < hops (fresh ! j)))
          \<and> announce_queue s' = take i fresh @ drop (Suc i) fresh
          \<and> announce_allowed_at s' = now + cap_wait_time s (packet_wire_len p))"
proof (cases "min_by_key (\<lambda>(i, e). (hd_hops (pk_header (qa_packet e)), i))
         (enumerate 0 (filter (\<lambda>e. \<not> queued_is_stale e now) (announce_queue s)))")
  case None
  then have "filter (\<lambda>e. \<not> queued_is_stale e now) (announce_queue s) = []"
    by (simp add: enumerate_eq_zip)
  then show ?thesis
    unfolding take_queued_None [OF None] by simp
next
  case (Some ie)
  obtain i e where ie: "ie = (i, e)" by fastforce
  note sel = min_by_key_enumerate [OF Some [unfolded ie]]
  show ?thesis
    unfolding take_queued_Some [OF Some [unfolded ie]] Let_def prod.case option.case
    using sel by (intro exI [of _ i]) (simp add: remove_at_def)
qed

text \<open>Two queued announces, the second one hop closer.\<close>

definition announce_example :: "u8 \<Rightarrow> packet" where
  "announce_example h = packet_default
     \<lparr>pk_header := header_default\<lparr>hd_packet_type := Announce, hd_hops := h\<rparr>,
      pk_destination := AddressHash (replicate 16 h)\<rparr>"

definition queue_example :: iface_control where
  "queue_example = queue_announce (announce_example 2) 2
     (queue_announce (announce_example 3) 1 (iface_control_new 0))"

theorem take_queued_announce_spec_witness:
  "fst (take_queued_announce 5 queue_example) = Some (announce_example 2)
   \<and> map qa_packet (announce_queue (snd (take_queued_announce 5 queue_example))) = [announce_example 3]"
  using take_queued_announce_spec [of 5 queue_example]
  by (simp add: take_queued_announce_def queue_example_def announce_example_def queue_announce_def
      iface_control_new_def queued_is_stale_def announce_emitted_def QUEUED_ANNOUNCE_LIFE_def
      remove_at_def MAX_QUEUED_ANNOUNCES_def less_eq_prod_def packet_default_def)

lemma interface_mode_roundtrip:
  "interface_mode_from_u8 (interface_mode_u8 m) = Some m"
  "interface_mode_from_name (interface_mode_name m) = Some m"
  by (cases m; simp add: interface_mode_from_u8_def interface_mode_u8_def
      interface_mode_from_name_def interface_mode_name_def ascii_lower_def)+

end
