(* ===== verification/Rns_Announce_Table.thy ===== *)
theory Rns_Announce_Table
  imports Rns_Control
begin

text \<open>
  The announce table, \<^verbatim>\<open>src/transport/announce_table.rs\<close>, which rebroadcasts announces and answers
  path requests, and the announce rate limiter, \<^verbatim>\<open>src/transport/announce_limits.rs\<close>.

  The clock readings of one call are one argument, and the random window of a new entry is an
  argument. The theory shows how often an announce and a path response are sent, and when a
  destination that announces too fast is blocked.
\<close>

section \<open>Messages to interfaces\<close>

datatype tx_message_type = BroadcastTx "address_hash option" | DirectTx address_hash

record tx_message =
  tm_tx_type :: tx_message_type
  tm_packet :: packet

section \<open>Announce entries\<close>

definition PATHFINDER_R :: u8 where "PATHFINDER_R = 1"
definition PATHFINDER_GRACE :: nanos where "PATHFINDER_GRACE = secs 5"
definition PATHFINDER_RANDOM_WINDOW :: nanos where "PATHFINDER_RANDOM_WINDOW = millis 500"

record announce_entry =
  ae_packet :: packet
  ae_timeout :: nanos
  ae_received_from :: address_hash
  ae_retries :: u8
  ae_hops :: u8
  ae_response_to_iface :: "address_hash option"

definition always_retransmit :: "address_hash \<Rightarrow> announce_entry \<Rightarrow> tx_message" where
  "always_retransmit transport_id e =
     \<lparr>tm_tx_type = (case ae_response_to_iface e of
          Some iface \<Rightarrow> DirectTx iface | None \<Rightarrow> BroadcastTx (Some (ae_received_from e))),
      tm_packet =
        \<lparr>pk_header = \<lparr>hd_ifac_flag = Open, hd_context_flag = hd_context_flag (pk_header (ae_packet e)),
           hd_header_type = Type2, hd_propagation_type = Broadcast, hd_destination_type = Single,
           hd_packet_type = Announce, hd_hops = ae_hops e\<rparr>,
         pk_ifac = None, pk_destination = pk_destination (ae_packet e), pk_transport = Some transport_id,
         pk_context = (if ae_response_to_iface e \<noteq> None then Ctx_PathResponse else Ctx_None),
         pk_data = pk_data (ae_packet e)\<rparr>\<rparr>"

definition retransmit :: "nanos \<Rightarrow> address_hash \<Rightarrow> announce_entry \<Rightarrow> tx_message option \<times> announce_entry" where
  "retransmit now transport_id e =
     (if ae_response_to_iface e \<noteq> None then
        if ae_retries e = 0 \<or> now < ae_timeout e then (None, e)
        else let e = e\<lparr>ae_retries := 0\<rparr> in (Some (always_retransmit transport_id e), e)
      else if ae_retries e > PATHFINDER_R then (None, e)
      else if now < ae_timeout e then (None, e)
      else let e = e\<lparr>ae_retries := ae_retries e + 1,
                     ae_timeout := now + PATHFINDER_GRACE + PATHFINDER_RANDOM_WINDOW\<rparr>
           in (Some (always_retransmit transport_id e), e))"

section \<open>The cache of completed announces\<close>

record announce_cache =
  ac_newer :: "(address_hash, announce_entry) btree_map"
  ac_older :: "(address_hash, announce_entry) btree_map option"
  ac_capacity :: nat

definition announce_cache_new :: "nat \<Rightarrow> announce_cache" where
  "announce_cache_new capacity = \<lparr>ac_newer = [], ac_older = None, ac_capacity = capacity\<rparr>"

definition announce_cache_insert :: "address_hash \<Rightarrow> announce_entry \<Rightarrow> announce_cache \<Rightarrow> announce_cache" where
  "announce_cache_insert destination e c =
     (let c = (if length (ac_newer c) \<ge> ac_capacity c
               then c\<lparr>ac_older := Some (ac_newer c), ac_newer := []\<rparr> else c)
      in c\<lparr>ac_newer := bm_insert destination e (ac_newer c)\<rparr>)"

definition announce_cache_get :: "address_hash \<Rightarrow> announce_cache \<Rightarrow> announce_entry option" where
  "announce_cache_get destination c =
     (case hm_get (ac_newer c) destination of
        Some e \<Rightarrow> Some e
      | None \<Rightarrow> (case ac_older c of Some older \<Rightarrow> hm_get older destination | None \<Rightarrow> None))"

section \<open>The table\<close>

record announce_table =
  at_map :: "(address_hash, announce_entry) btree_map"
  at_responses :: "(address_hash \<times> address_hash, announce_entry) btree_map"
  at_cache :: announce_cache

definition announce_table_new :: announce_table where
  "announce_table_new = \<lparr>at_map = [], at_responses = [], at_cache = announce_cache_new 100000\<rparr>"

definition announce_table_add ::
  "nanos \<Rightarrow> nanos \<Rightarrow> packet \<Rightarrow> address_hash \<Rightarrow> address_hash \<Rightarrow> announce_table \<Rightarrow> announce_table" where
  "announce_table_add now rand_window announce destination received_from t =
     t\<lparr>at_map := bm_insert destination
        \<lparr>ae_packet = announce, ae_timeout = now + rand_window, ae_received_from = received_from,
         ae_retries = 0, ae_hops = sat_inc8 (hd_hops (pk_header announce)),
         ae_response_to_iface = None\<rparr> (at_map t)\<rparr>"

definition do_add_response ::
  "nanos \<Rightarrow> announce_entry \<Rightarrow> address_hash \<Rightarrow> address_hash \<Rightarrow> u8 \<Rightarrow> nanos \<Rightarrow> announce_table \<Rightarrow> announce_table" where
  "do_add_response now response destination to_iface hops grace t =
     t\<lparr>at_responses := bm_insert (destination, to_iface)
        (response\<lparr>ae_retries := 1, ae_hops := hops, ae_timeout := now + grace,
          ae_response_to_iface := Some to_iface\<rparr>) (at_responses t)\<rparr>"

definition response_pending :: "announce_table \<Rightarrow> address_hash \<Rightarrow> bool" where
  "response_pending t destination = list_ex (\<lambda>((dest, _), _). dest = destination) (at_responses t)"

definition announce_table_clear :: "announce_table \<Rightarrow> announce_table" where
  "announce_table_clear t =
     t\<lparr>at_map := [], at_responses := [], at_cache := (at_cache t)\<lparr>ac_newer := [], ac_older := None\<rparr>\<rparr>"

definition drop_responses_to :: "address_hash \<Rightarrow> announce_table \<Rightarrow> announce_table" where
  "drop_responses_to iface t = t\<lparr>at_responses := hm_retain (\<lambda>(_, to) _. to \<noteq> iface) (at_responses t)\<rparr>"

definition add_response ::
  "nanos \<Rightarrow> address_hash \<Rightarrow> address_hash \<Rightarrow> u8 \<Rightarrow> nanos \<Rightarrow> announce_table \<Rightarrow> bool \<times> announce_table" where
  "add_response now destination to_iface hops grace t =
     (case hm_get (at_map t) destination of
        Some e \<Rightarrow> (True, do_add_response now e destination to_iface hops grace t)
      | None \<Rightarrow>
          (case announce_cache_get destination (at_cache t) of
             Some e \<Rightarrow> (True, do_add_response now e destination to_iface hops grace t)
           | None \<Rightarrow> (False, t)))"

definition new_packet :: "nanos \<Rightarrow> address_hash \<Rightarrow> address_hash \<Rightarrow> announce_table \<Rightarrow> tx_message option \<times> announce_table" where
  "new_packet now dest_hash transport_id t =
     (case hm_get (at_map t) dest_hash of
        None \<Rightarrow> (None, t)
      | Some e \<Rightarrow>
          if ae_response_to_iface e \<noteq> None \<or> ae_retries e > 0 then (None, t)
          else let e = e\<lparr>ae_retries := 1, ae_timeout := now + PATHFINDER_GRACE + PATHFINDER_RANDOM_WINDOW\<rparr>
               in (Some (always_retransmit transport_id e),
                   t\<lparr>at_map := hm_modify dest_hash (\<lambda>_. e) (at_map t)\<rparr>))"

text \<open>
  \<^verbatim>\<open>for (key, entry) in &mut map\<close> with a step that may send a message and rewrites the entry: the
  rows with what each sent.
\<close>

definition retransmit_rows ::
  "nanos \<Rightarrow> address_hash \<Rightarrow> ('k \<Rightarrow> bool) \<Rightarrow> ('k \<times> announce_entry) list \<Rightarrow> ('k \<times> tx_message option \<times> announce_entry) list" where
  "retransmit_rows now transport_id skip m =
     map (\<lambda>(k, e). (k, if skip k then (None, e) else retransmit now transport_id e)) m"

definition complete_announce :: "address_hash \<Rightarrow> announce_table \<Rightarrow> announce_table" where
  "complete_announce destination t =
     (case hm_get (at_map t) destination of
        Some announce \<Rightarrow> t\<lparr>at_map := hm_remove destination (at_map t),
                           at_cache := announce_cache_insert destination announce (at_cache t)\<rparr>
      | None \<Rightarrow> t)"

definition tx_to_retransmit :: "nanos \<Rightarrow> address_hash \<Rightarrow> announce_table \<Rightarrow> tx_message list \<times> announce_table" where
  "tx_to_retransmit now transport_id t =
     (let pending = map (fst \<circ> fst) (at_responses t);
          rows = retransmit_rows now transport_id (\<lambda>d. d \<in> set pending) (at_map t);
          completed = map fst (filter (\<lambda>(d, m, e). d \<notin> set pending \<and> m = None \<and> ae_retries e > PATHFINDER_R) rows);
          rrows = retransmit_rows now transport_id (\<lambda>_. False) (at_responses t);
          sent = map fst (filter (\<lambda>(_, m, _). m \<noteq> None) rrows);
          messages = List.map_filter (\<lambda>r. fst (snd r)) rows @ List.map_filter (\<lambda>r. fst (snd r)) rrows;
          t = t\<lparr>at_map := map (\<lambda>(k, _, e). (k, e)) rows,
                at_responses := fold hm_remove sent (map (\<lambda>(k, _, e). (k, e)) rrows)\<rparr>
      in (messages, fold complete_announce completed t))"

definition cached_messages :: "address_hash \<Rightarrow> announce_table \<Rightarrow> (address_hash, announce_entry) btree_map \<Rightarrow> tx_message list" where
  "cached_messages transport_id t cache =
     map (\<lambda>(_, e). always_retransmit transport_id e) (filter (\<lambda>(d, _). \<not> response_pending t d) cache)"

definition tx_to_retransmit_old :: "address_hash \<Rightarrow> announce_table \<Rightarrow> tx_message list" where
  "tx_to_retransmit_old transport_id t =
     cached_messages transport_id t (ac_newer (at_cache t))
     @ (case ac_older (at_cache t) of Some older \<Rightarrow> cached_messages transport_id t older | None \<Rightarrow> [])"

section \<open>Announce rate limits\<close>

definition MAX_RATE_TIMESTAMPS :: nat where "MAX_RATE_TIMESTAMPS = 16"

record announce_rate_limit =
  rl_target :: nanos
  rl_grace :: nat
  rl_penalty :: "nanos option"

definition announce_rate_limit_default :: announce_rate_limit where
  "announce_rate_limit_default = \<lparr>rl_target = secs 3600, rl_grace = 10, rl_penalty = Some (secs 7200)\<rparr>"

record announce_limit_entry =
  al_rate_limit :: "announce_rate_limit option"
  al_violations :: nat
  al_last_announce :: nanos
  al_blocked_until :: nanos
  al_timestamps :: "rat list"

definition announce_limit_entry_new ::
  "nanos \<Rightarrow> rat \<Rightarrow> announce_rate_limit option \<Rightarrow> announce_limit_entry" where
  "announce_limit_entry_new now unix_now rate_limit =
     \<lparr>al_rate_limit = rate_limit, al_violations = 0, al_last_announce = now, al_blocked_until = now,
      al_timestamps = [unix_now]\<rparr>"

definition record_announce_time :: "rat \<Rightarrow> announce_limit_entry \<Rightarrow> announce_limit_entry" where
  "record_announce_time unix_now e =
     e\<lparr>al_timestamps := trim_front MAX_RATE_TIMESTAMPS (al_timestamps e @ [unix_now])\<rparr>"

definition limit_handle_announce ::
  "nanos \<Rightarrow> rat \<Rightarrow> announce_limit_entry \<Rightarrow> nanos option \<times> announce_limit_entry" where
  "limit_handle_announce now unix_now e =
     (let (is_blocked, e) = (case al_rate_limit e of
            None \<Rightarrow> (False, e)
          | Some rl \<Rightarrow>
              if now < al_blocked_until e
              then (True, e\<lparr>al_blocked_until := now + rl_target rl + (case rl_penalty rl of Some p \<Rightarrow> p | None \<Rightarrow> 0)\<rparr>)
              else if now < al_last_announce e + rl_target rl
              then let e = e\<lparr>al_violations := al_violations e + 1\<rparr>
                   in if al_violations e > rl_grace rl
                      then (True, e\<lparr>al_violations := 0, al_blocked_until := now + rl_target rl\<rparr>)
                      else (False, e)
              else (False, e));
          e = record_announce_time unix_now (e\<lparr>al_last_announce := now\<rparr>)
      in (if is_blocked then Some (al_blocked_until e - now) else None, e))"

type_synonym announce_limits = "(address_hash, announce_limit_entry) btree_map"

definition limits_apply ::
  "nanos \<Rightarrow> rat \<Rightarrow> address_hash \<Rightarrow> announce_rate_limit option \<Rightarrow> announce_limits \<Rightarrow> nanos option \<times> announce_limits" where
  "limits_apply now unix_now destination limit ls =
     (case hm_get ls destination of
        Some e \<Rightarrow> let (r, e) = limit_handle_announce now unix_now (e\<lparr>al_rate_limit := limit\<rparr>)
                  in (r, hm_modify destination (\<lambda>_. e) ls)
      | None \<Rightarrow> (None, bm_insert destination (announce_limit_entry_new now unix_now limit) ls))"

definition limits_check :: "nanos \<Rightarrow> rat \<Rightarrow> address_hash \<Rightarrow> announce_limits \<Rightarrow> nanos option \<times> announce_limits" where
  "limits_check now unix_now destination ls = limits_apply now unix_now destination None ls"

definition limits_check_limited ::
  "nanos \<Rightarrow> rat \<Rightarrow> address_hash \<Rightarrow> announce_rate_limit \<Rightarrow> announce_limits \<Rightarrow> nanos option \<times> announce_limits" where
  "limits_check_limited now unix_now destination limit ls =
     limits_apply now unix_now destination (Some limit) ls"

definition limits_snapshot ::
  "nanos \<Rightarrow> announce_limits \<Rightarrow> (address_hash \<times> nat \<times> nanos option \<times> nanos \<times> rat list) list" where
  "limits_snapshot now ls = map (\<lambda>(destination, e).
     (destination, al_violations e,
      if now < al_blocked_until e then Some (al_blocked_until e - now) else None,
      now - al_last_announce e, al_timestamps e)) ls"

section \<open>How often announces are sent\<close>

datatype at_op =
    HearAnnounce nanos nanos packet address_hash
  | SendNew nanos address_hash
  | RetransmitTick nanos
  | AnswerRequest nanos address_hash address_hash u8 nanos
  | DropResponses address_hash
  | ClearAnnounces

fun at_step :: "address_hash \<Rightarrow> at_op \<Rightarrow> announce_table \<Rightarrow> tx_message list \<times> announce_table" where
  "at_step tid (HearAnnounce now w p frm) t = ([], announce_table_add now w p (pk_destination p) frm t)"
| "at_step tid (SendNew now d) t =
     (case new_packet now d tid t of (None, t) \<Rightarrow> ([], t) | (Some m, t) \<Rightarrow> ([m], t))"
| "at_step tid (RetransmitTick now) t = tx_to_retransmit now tid t"
| "at_step tid (AnswerRequest now d i hops grace) t = ([], snd (add_response now d i hops grace t))"
| "at_step tid (DropResponses i) t = ([], drop_responses_to i t)"
| "at_step tid ClearAnnounces t = ([], announce_table_clear t)"

fun at_run :: "address_hash \<Rightarrow> at_op list \<Rightarrow> announce_table \<Rightarrow> tx_message list \<times> announce_table" where
  "at_run tid [] t = ([], t)"
| "at_run tid (op # ops) t =
     (let (ms, t) = at_step tid op t; (ms', t) = at_run tid ops t in (ms @ ms', t))"

definition is_rebroadcast :: "address_hash \<Rightarrow> tx_message \<Rightarrow> bool" where
  "is_rebroadcast d m \<longleftrightarrow> pk_destination (tm_packet m) = d
     \<and> (case tm_tx_type m of BroadcastTx _ \<Rightarrow> True | DirectTx _ \<Rightarrow> False)"

definition is_response :: "address_hash \<Rightarrow> address_hash \<Rightarrow> tx_message \<Rightarrow> bool" where
  "is_response d i m \<longleftrightarrow> pk_destination (tm_packet m) = d \<and> tm_tx_type m = DirectTx i"

fun hears :: "address_hash \<Rightarrow> at_op \<Rightarrow> bool" where
  "hears d (HearAnnounce _ _ p _) = (pk_destination p = d)"
| "hears d _ = False"

fun asks :: "address_hash \<Rightarrow> address_hash \<Rightarrow> at_op \<Rightarrow> bool" where
  "asks d i (AnswerRequest _ d' i' _ _) = (d' = d \<and> i' = i)"
| "asks d i _ = False"

abbreviation count_of :: "('a \<Rightarrow> bool) \<Rightarrow> 'a list \<Rightarrow> nat" where
  "count_of P xs \<equiv> length (filter P xs)"

text \<open>Entries of the map and the cache are announces of their key; responses belong to their key.\<close>

definition ordinary_ok :: "address_hash \<Rightarrow> announce_entry \<Rightarrow> bool" where
  "ordinary_ok d e \<longleftrightarrow> pk_destination (ae_packet e) = d \<and> ae_response_to_iface e = None \<and> ae_retries e \<le> 2"

definition response_ok :: "address_hash \<times> address_hash \<Rightarrow> announce_entry \<Rightarrow> bool" where
  "response_ok k e \<longleftrightarrow> pk_destination (ae_packet e) = fst k \<and> ae_response_to_iface e = Some (snd k)"

definition cache_ok :: "announce_cache \<Rightarrow> bool" where
  "cache_ok c \<longleftrightarrow> tbl_all ordinary_ok (ac_newer c)
     \<and> (case ac_older c of Some m \<Rightarrow> tbl_all ordinary_ok m | None \<Rightarrow> True)"

definition at_ok :: "announce_table \<Rightarrow> bool" where
  "at_ok t \<longleftrightarrow> bm_ok (at_map t) \<and> bm_ok (at_responses t) \<and> tbl_all ordinary_ok (at_map t)
     \<and> tbl_all response_ok (at_responses t) \<and> cache_ok (at_cache t)"

text \<open>Broadcasts an entry may still make, and responses still to be sent.\<close>

definition budget :: "address_hash \<Rightarrow> announce_table \<Rightarrow> nat" where
  "budget d t = (case hm_get (at_map t) d of Some e \<Rightarrow> 2 - unat (ae_retries e) | None \<Rightarrow> 0)"

definition owed :: "address_hash \<Rightarrow> address_hash \<Rightarrow> announce_table \<Rightarrow> nat" where
  "owed d i t = (if hm_get (at_responses t) (d, i) = None then 0 else 1)"

lemma count_rows:
  assumes "distinct (map fst rows)"
    and "\<And>k m e. (k, Some m, e) \<in> set rows \<Longrightarrow> Q m \<longleftrightarrow> k = d"
  shows "count_of Q (List.map_filter (\<lambda>r. fst (snd r)) rows) =
    (case map_of rows d of Some (Some _, _) \<Rightarrow> 1 | _ \<Rightarrow> 0)"
  using assms
proof (induction rows)
  case Nil
  then show ?case by simp
next
  case (Cons r rows)
  obtain k m e where r: "r = (k, m, e)" by (cases r)
  have IH: "count_of Q (List.map_filter (\<lambda>r. fst (snd r)) rows) = (case map_of rows d of Some (Some _, _) \<Rightarrow> 1 | _ \<Rightarrow> 0)"
    using Cons.prems by (intro Cons.IH) auto
  have "k = d \<Longrightarrow> map_of rows d = None"
    using Cons.prems(1) r by (simp add: map_of_eq_None_iff)
  then show ?case
    using IH Cons.prems(2) [of k] r by (cases m) (auto simp: map_filter_simps)
qed

lemma count_zero: "(\<And>x. x \<in> set xs \<Longrightarrow> \<not> Q x) \<Longrightarrow> count_of Q xs = 0"
  by (simp add: filter_empty_conv)

lemma retransmit_ordinary:
  assumes "ordinary_ok d e" and "retransmit now tid e = (m, e')"
  shows "ordinary_ok d e' \<and> (case m of
      Some msg \<Rightarrow> is_rebroadcast d msg \<and> unat (ae_retries e') = unat (ae_retries e) + 1 \<and> unat (ae_retries e) < 2
    | None \<Rightarrow> e' = e)"
proof -
  have "unat (r + 1) = unat r + 1" "unat r \<le> 1" "unat r < 2" if "\<not> PATHFINDER_R < r" for r
    using that unat_inc8 [of r] by (simp_all add: PATHFINDER_R_def word_less_nat_alt)
  then show ?thesis
    using assms
    by (auto simp: ordinary_ok_def retransmit_def is_rebroadcast_def always_retransmit_def word_le_nat_alt
        split: if_splits)
qed

lemma retransmit_response:
  assumes "response_ok k e" and "retransmit now tid e = (m, e')"
  shows "response_ok k e' \<and> (\<forall>msg. m = Some msg \<longrightarrow> is_response (fst k) (snd k) msg)"
  using assms
  by (auto simp: response_ok_def retransmit_def is_response_def always_retransmit_def split: if_splits)

lemma message_kinds: "is_rebroadcast d m \<Longrightarrow> \<not> is_response d' i m"
  "is_rebroadcast d m \<Longrightarrow> is_rebroadcast d' m \<longleftrightarrow> d = d'"
  "is_response d i m \<Longrightarrow> is_response d' i' m \<longleftrightarrow> (d, i) = (d', i')"
  by (auto simp: is_rebroadcast_def is_response_def)

lemma retransmit_rows_keys [simp]: "map fst (retransmit_rows now tid skip m) = map fst m"
  by (simp add: retransmit_rows_def case_prod_beta comp_def)

lemma map_of_rows:
  "map_of (retransmit_rows now tid skip m) k =
     map_option (\<lambda>e. if skip k then (None, e) else retransmit now tid e) (map_of m k)"
  by (induction m) (auto simp: retransmit_rows_def)

lemma map_of_row_entries: "map_of (map (\<lambda>(k, _, e). (k, e)) rows) k = map_option snd (map_of rows k)"
  by (induction rows) auto

lemma map_fst_row_entries [simp]: "map fst (map (\<lambda>(k, _, e). (k, e)) rows) = map fst rows"
  by (simp add: case_prod_beta comp_def)

lemma get_fold_complete:
  "hm_get (at_map (fold complete_announce ds t)) d = (if d \<in> set ds then None else hm_get (at_map t) d)"
  by (induction ds arbitrary: t) (auto simp: complete_announce_def delete_conv' split: option.splits)

lemma fold_complete_responses [simp]: "at_responses (fold complete_announce ds t) = at_responses t"
  by (induction ds arbitrary: t) (auto simp: complete_announce_def split: option.splits)

lemma cache_ok_insert: "cache_ok c \<Longrightarrow> ordinary_ok d e \<Longrightarrow> cache_ok (announce_cache_insert d e c)"
  by (auto simp: cache_ok_def announce_cache_insert_def tbl_all_bm_insert split: option.splits)

lemma at_ok_complete: "at_ok t \<Longrightarrow> at_ok (complete_announce d t)"
  by (auto simp: at_ok_def complete_announce_def bm.inv_rem tbl_all_delete
      intro!: cache_ok_insert elim: tbl_all_get split: option.splits)

lemma at_ok_fold_complete: "at_ok t \<Longrightarrow> at_ok (fold complete_announce ds t)"
  by (induction ds arbitrary: t) (auto simp: at_ok_complete)

lemma tbl_all_row_entries:
  assumes "tbl_all P m" and "\<And>k e m e'. P k e \<Longrightarrow> retransmit now tid e = (m, e') \<Longrightarrow> P k e'"
  shows "tbl_all P (map (\<lambda>(k, _, e). (k, e)) (retransmit_rows now tid skip m))"
proof -
  have "P k (snd (retransmit now tid e))" if "P k e" for k e
    using assms(2) that by (cases "retransmit now tid e") auto
  with assms(1) show ?thesis
    by (induction m) (auto simp: tbl_all_def retransmit_rows_def case_prod_beta split: if_splits)
qed

lemma bm_ok_row_entries: "bm_ok m \<Longrightarrow> bm_ok (map (\<lambda>(k, _, e). (k, e)) (retransmit_rows now tid skip m))"
  by (simp only: bm_ok_def map_fst_row_entries retransmit_rows_keys)

lemma tbl_all_fold_delete: "tbl_all P m \<Longrightarrow> tbl_all P (fold AList.delete ks m)"
  by (induction ks arbitrary: m) (auto simp: tbl_all_delete)

lemma tick_ok:
  assumes "at_ok t"
  shows "at_ok (snd (tx_to_retransmit now tid t))"
proof -
  have "tbl_all ordinary_ok (map (\<lambda>(k, _, e). (k, e)) (retransmit_rows now tid skip (at_map t)))" for skip
    using assms retransmit_ordinary by (intro tbl_all_row_entries) (auto simp: at_ok_def)
  moreover have "tbl_all response_ok (map (\<lambda>(k, _, e). (k, e)) (retransmit_rows now tid skip (at_responses t)))" for skip
    using assms retransmit_response by (intro tbl_all_row_entries) (auto simp: at_ok_def)
  ultimately show ?thesis
    using assms unfolding tx_to_retransmit_def Let_def snd_conv
    by (intro at_ok_fold_complete) (auto simp: at_ok_def bm.inv_fold_rem tbl_all_fold_delete bm_ok_row_entries)
qed

lemma at_ok_step: "at_ok t \<Longrightarrow> at_ok (snd (at_step tid op t))"
proof (cases op)
  case (HearAnnounce now w p frm)
  then show "at_ok t \<Longrightarrow> ?thesis"
    by (auto simp: at_ok_def announce_table_add_def bm_ok_insert ordinary_ok_def intro!: tbl_all_bm_insert)
next
  case (SendNew now d)
  have "tbl_all ordinary_ok (at_map t) \<Longrightarrow> hm_get (at_map t) d = Some e \<Longrightarrow>
      tbl_all ordinary_ok (hm_modify d (\<lambda>_. e\<lparr>ae_retries := 1, ae_timeout := n\<rparr>) (at_map t))" for e n
    using tbl_all_get [of ordinary_ok "at_map t" d e] by (intro tbl_all_modify) (auto simp: ordinary_ok_def word_le_nat_alt)
  with SendNew show "at_ok t \<Longrightarrow> ?thesis"
    by (auto simp: new_packet_def at_ok_def split: option.splits)
next
  case (RetransmitTick now)
  then show "at_ok t \<Longrightarrow> ?thesis" by (simp add: tick_ok)
next
  case (AnswerRequest now d i hops grace)
  have "ordinary_ok d e" if "at_ok t" "announce_cache_get d (at_cache t) = Some e" for e
    using that tbl_all_get by (fastforce simp: at_ok_def cache_ok_def announce_cache_get_def split: option.splits)
  moreover have "ordinary_ok d e" if "at_ok t" "hm_get (at_map t) d = Some e" for e
    using that tbl_all_get by (fastforce simp: at_ok_def)
  ultimately show "at_ok t \<Longrightarrow> ?thesis"
    using AnswerRequest
    by (auto simp: add_response_def do_add_response_def at_ok_def bm_ok_insert ordinary_ok_def response_ok_def
        split: option.splits intro!: tbl_all_bm_insert)
qed (auto simp: at_ok_def drop_responses_to_def bm.inv_keep tbl_all_retain announce_table_clear_def cache_ok_def)

interpretation announce_sys: step_system "\<lambda>op t. snd (at_step tid op t)" at_ok "\<lambda>_. True" for tid
  by unfold_locales (rule at_ok_step)

lemma rows_rebroadcasts:
  assumes "at_ok t" and rows: "rows = retransmit_rows now tid skip (at_map t)"
  shows "count_of (is_rebroadcast d) (List.map_filter (\<lambda>r. fst (snd r)) rows) =
      (case map_of rows d of Some (Some _, _) \<Rightarrow> 1 | _ \<Rightarrow> 0)"
    and "count_of (is_response d i) (List.map_filter (\<lambda>r. fst (snd r)) rows) = 0"
proof -
  have row: "is_rebroadcast k m" if mem: "(k, Some m, e) \<in> set rows" for k m e
  proof -
    obtain e0 where e0: "(k, e0) \<in> set (at_map t)" "retransmit now tid e0 = (Some m, e)"
      using mem by (auto simp: rows retransmit_rows_def split: if_splits)
    then have "ordinary_ok k e0"
      using assms(1) by (auto simp: at_ok_def tbl_all_def list_all_iff)
    with retransmit_ordinary [OF this e0(2)] show ?thesis by simp
  qed
  have "distinct (map fst rows)"
    using assms by (simp add: at_ok_def bm_ok_def strict_sorted_iff)
  then show "count_of (is_rebroadcast d) (List.map_filter (\<lambda>r. fst (snd r)) rows) =
      (case map_of rows d of Some (Some _, _) \<Rightarrow> 1 | _ \<Rightarrow> 0)"
    using row message_kinds(2) by (intro count_rows) blast+
  show "count_of (is_response d i) (List.map_filter (\<lambda>r. fst (snd r)) rows) = 0"
    using row message_kinds(1) by (intro count_zero) (fastforce simp: map_filter_def)
qed

lemma rows_responses:
  assumes "at_ok t" and rows: "rows = retransmit_rows now tid skip (at_responses t)"
  shows "count_of (is_response d i) (List.map_filter (\<lambda>r. fst (snd r)) rows) =
      (case map_of rows (d, i) of Some (Some _, _) \<Rightarrow> 1 | _ \<Rightarrow> 0)"
    and "count_of (is_rebroadcast d) (List.map_filter (\<lambda>r. fst (snd r)) rows) = 0"
proof -
  have row: "is_response (fst k) (snd k) m" if mem: "(k, Some m, e) \<in> set rows" for k m e
  proof -
    obtain e0 where e0: "(k, e0) \<in> set (at_responses t)" "retransmit now tid e0 = (Some m, e)"
      using mem by (auto simp: rows retransmit_rows_def split: if_splits)
    then have "response_ok k e0"
      using assms(1) by (auto simp: at_ok_def tbl_all_def list_all_iff)
    with retransmit_response [OF this e0(2)] show ?thesis by simp
  qed
  have "distinct (map fst rows)"
    using assms by (simp add: at_ok_def bm_ok_def strict_sorted_iff)
  then show "count_of (is_response d i) (List.map_filter (\<lambda>r. fst (snd r)) rows) =
      (case map_of rows (d, i) of Some (Some _, _) \<Rightarrow> 1 | _ \<Rightarrow> 0)"
    using row message_kinds(3) by (intro count_rows) fastforce+
  show "count_of (is_rebroadcast d) (List.map_filter (\<lambda>r. fst (snd r)) rows) = 0"
    using row message_kinds(1) by (intro count_zero) (fastforce simp: map_filter_def)
qed

lemma tick_budget:
  assumes ok: "at_ok t" and run: "tx_to_retransmit now tid t = (ms, t')"
  shows "count_of (is_rebroadcast d) ms + budget d t' \<le> budget d t"
    and "count_of (is_response d i) ms + owed d i t' \<le> owed d i t"
proof -
  define pending where "pending = map (fst \<circ> fst) (at_responses t)"
  define rows where "rows = retransmit_rows now tid (\<lambda>d. d \<in> set pending) (at_map t)"
  define rrows where "rrows = retransmit_rows now tid (\<lambda>_. False) (at_responses t)"
  define completed where
    "completed = map fst (filter (\<lambda>(d, m, e). d \<notin> set pending \<and> m = None \<and> ae_retries e > PATHFINDER_R) rows)"
  define sent where "sent = map fst (filter (\<lambda>(_, m, _). m \<noteq> None) rrows)"
  have ms: "ms = List.map_filter (\<lambda>r. fst (snd r)) rows @ List.map_filter (\<lambda>r. fst (snd r)) rrows"
    and t': "t' = fold complete_announce completed (t\<lparr>at_map := map (\<lambda>(k, _, e). (k, e)) rows,
        at_responses := fold hm_remove sent (map (\<lambda>(k, _, e). (k, e)) rrows)\<rparr>)"
    using run unfolding tx_to_retransmit_def Let_def pending_def rows_def rrows_def completed_def sent_def
    by auto
  note r1 = rows_rebroadcasts [OF ok rows_def] and r2 = rows_responses [OF ok rrows_def]
  have b: "budget d t' \<le> (case map_of rows d of Some (_, e) \<Rightarrow> 2 - unat (ae_retries e) | None \<Rightarrow> 0)"
    unfolding budget_def t' by (auto simp: get_fold_complete map_of_row_entries split: option.split)
  have "(case map_of rows d of Some (Some _, _) \<Rightarrow> 1 | _ \<Rightarrow> 0)
      + (case map_of rows d of Some (_, e) \<Rightarrow> 2 - unat (ae_retries e) | None \<Rightarrow> 0) \<le> budget d t"
  proof (cases "hm_get (at_map t) d")
    case (Some e)
    then have "ordinary_ok d e" using ok tbl_all_get by (fastforce simp: at_ok_def)
    with Some retransmit_ordinary [of d e now tid] show ?thesis
      by (cases "retransmit now tid e") (auto simp: rows_def map_of_rows budget_def split: option.split)
  qed (simp add: rows_def map_of_rows budget_def)
  with b show "count_of (is_rebroadcast d) ms + budget d t' \<le> budget d t"
    by (simp add: ms r1 r2)
  have "hm_ok (map (\<lambda>(k, _, e). (k, e)) rrows)"
    unfolding rrows_def using ok by (intro bm_ok_hm_ok bm_ok_row_entries) (simp add: at_ok_def)
  note get = hm.get_fold_rem [OF this]
  have "(d, i) \<in> set sent" if "map_of rrows (d, i) = Some (Some m, e)" for m e
    using map_of_SomeD [OF that] by (force simp: sent_def)
  moreover have "hm_get (at_responses t) (d, i) = None \<longleftrightarrow> map_of rrows (d, i) = None"
    by (simp add: rrows_def map_of_rows)
  ultimately show "count_of (is_response d i) ms + owed d i t' \<le> owed d i t"
    by (auto simp: ms r1 r2 t' owed_def get map_of_row_entries split: option.split)
qed

lemma step_budget:
  assumes ok: "at_ok t" and step: "at_step tid op t = (ms, t')"
  shows "count_of (is_rebroadcast d) ms + budget d t' \<le> budget d t + (if hears d op then 2 else 0)"
    and "count_of (is_response d i) ms + owed d i t' \<le> owed d i t + (if asks d i op then 1 else 0)"
proof -
  have "count_of (is_rebroadcast d) ms + budget d t' \<le> budget d t + (if hears d op then 2 else 0)
    \<and> count_of (is_response d i) ms + owed d i t' \<le> owed d i t + (if asks d i op then 1 else 0)"
  proof (cases op)
    case (HearAnnounce now w p frm)
    with step show ?thesis by (auto simp: announce_table_add_def budget_def owed_def map_of_bm_insert)
  next
    case (SendNew now k)
    have "ordinary_ok k e" if "hm_get (at_map t) k = Some e" for e
      using that ok tbl_all_get by (fastforce simp: at_ok_def)
    with SendNew step show ?thesis
      by (auto simp: new_packet_def budget_def owed_def map_of_hm_modify is_rebroadcast_def is_response_def
          always_retransmit_def ordinary_ok_def word_gt_0 split: option.splits if_splits)
  next
    case (RetransmitTick now)
    with step tick_budget [OF ok] show ?thesis by auto
  next
    case (AnswerRequest now k j hops grace)
    with step show ?thesis
      by (auto simp: add_response_def do_add_response_def budget_def owed_def map_of_bm_insert split: option.splits)
  next
    case (DropResponses j)
    have "bm_ok (at_responses t)" using ok by (simp add: at_ok_def)
    with DropResponses step show ?thesis
      by (auto simp: drop_responses_to_def budget_def owed_def bm.get_keep split: option.splits)
  next
    case ClearAnnounces
    with step show ?thesis by (auto simp: announce_table_clear_def budget_def owed_def)
  qed
  then show "count_of (is_rebroadcast d) ms + budget d t' \<le> budget d t + (if hears d op then 2 else 0)"
    and "count_of (is_response d i) ms + owed d i t' \<le> owed d i t + (if asks d i op then 1 else 0)"
    by auto
qed

lemma run_budget:
  assumes "at_ok t" and "at_run tid ops t = (ms, t')"
  shows "count_of (is_rebroadcast d) ms + budget d t' \<le> budget d t + 2 * count_of (hears d) ops"
    and "count_of (is_response d i) ms + owed d i t' \<le> owed d i t + count_of (asks d i) ops"
proof -
  have "count_of (is_rebroadcast d) ms + budget d t' \<le> budget d t + 2 * count_of (hears d) ops
    \<and> count_of (is_response d i) ms + owed d i t' \<le> owed d i t + count_of (asks d i) ops"
    using assms
  proof (induction ops arbitrary: t ms)
    case (Cons op ops)
    obtain ms1 t1 where s1: "at_step tid op t = (ms1, t1)" by fastforce
    obtain ms2 where s2: "at_run tid ops t1 = (ms2, t')" and ms: "ms = ms1 @ ms2"
      using Cons.prems(2) s1 by (auto split: prod.splits)
    have "at_ok t1" using at_ok_step [OF Cons.prems(1), of tid op] s1 by simp
    from Cons.IH [OF this s2] step_budget(1) [OF Cons.prems(1) s1, of d]
      step_budget(2) [OF Cons.prems(1) s1, of d i]
    show ?case by (auto simp: ms)
  qed simp
  then show "count_of (is_rebroadcast d) ms + budget d t' \<le> budget d t + 2 * count_of (hears d) ops"
    and "count_of (is_response d i) ms + owed d i t' \<le> owed d i t + count_of (asks d i) ops"
    by auto
qed

lemma budget_new [simp]: "budget d announce_table_new = 0" "owed d i announce_table_new = 0"
  by (simp_all add: budget_def owed_def announce_table_new_def)

lemma at_ok_new: "at_ok announce_table_new"
  by (simp add: announce_table_new_def at_ok_def cache_ok_def announce_cache_new_def)


section \<open>Blocking of fast announcers\<close>

primrec limit_run :: "(nanos \<times> rat) list \<Rightarrow> announce_limit_entry \<Rightarrow> nanos option list" where
  "limit_run [] e = []"
| "limit_run (x # xs) e =
     (let (r, e) = limit_handle_announce (fst x) (snd x) e in r # limit_run xs e)"

text \<open>Consecutive times, the first one after \<open>t\<close>, that are less than \<open>gap\<close> apart, or at least that.\<close>

fun gaps :: "(nanos \<Rightarrow> nanos \<Rightarrow> bool) \<Rightarrow> nanos \<Rightarrow> (nanos \<times> rat) list \<Rightarrow> bool" where
  "gaps P t [] = True"
| "gaps P t ((now, _) # xs) = (t \<le> now \<and> P t now \<and> gaps P now xs)"

lemma limit_step_fast:
  assumes "al_rate_limit e = Some rl" and "now < al_last_announce e + rl_target rl"
  shows "fst (limit_handle_announce now u e) \<noteq> None
    \<or> al_violations (snd (limit_handle_announce now u e)) = al_violations e + 1
      \<and> al_violations e + 1 \<le> rl_grace rl
      \<and> al_rate_limit (snd (limit_handle_announce now u e)) = Some rl
      \<and> al_last_announce (snd (limit_handle_announce now u e)) = now"
  using assms by (auto simp: limit_handle_announce_def record_announce_time_def)

lemma limit_run_fast:
  assumes "al_rate_limit e = Some rl" and "gaps (\<lambda>t now. now < t + rl_target rl) (al_last_announce e) xs"
    and "rl_grace rl < al_violations e + length xs"
  shows "al_violations e \<le> rl_grace rl \<Longrightarrow> \<exists>r\<in>set (take (rl_grace rl + 1 - al_violations e) (limit_run xs e)). r \<noteq> None"
  using assms
proof (induction xs arbitrary: e)
  case (Cons x xs)
  obtain now u where x: "x = (now, u)" by fastforce
  obtain r e' where h: "limit_handle_announce now u e = (r, e')" by fastforce
  note step = limit_step_fast [OF Cons.prems(2), of now u, unfolded h fst_conv snd_conv]
  show ?case
  proof (cases r)
    case None
    with step Cons.prems(3) x have e': "al_violations e' = al_violations e + 1" "al_violations e' \<le> rl_grace rl"
        "al_rate_limit e' = Some rl" "al_last_announce e' = now" by auto
    have "\<exists>r\<in>set (take (rl_grace rl + 1 - al_violations e') (limit_run xs e')). r \<noteq> None"
      using e' Cons.prems x by (intro Cons.IH) auto
    moreover have "rl_grace rl + 1 - al_violations e = Suc (rl_grace rl + 1 - al_violations e')"
      using e' by simp
    ultimately show ?thesis by (auto simp: x h)
  next
    case (Some a)
    with Cons.prems(1) show ?thesis by (auto simp: x h Suc_diff_le)
  qed
qed simp

lemma limit_run_slow:
  assumes "al_rate_limit e = Some rl" and "gaps (\<lambda>t now. t + rl_target rl \<le> now) (al_last_announce e) xs"
    and "al_blocked_until e \<le> al_last_announce e + rl_target rl"
  shows "limit_run xs e = replicate (length xs) None"
  using assms
proof (induction xs arbitrary: e)
  case (Cons x xs)
  obtain now u where x: "x = (now, u)" by fastforce
  have "limit_handle_announce now u e = (None, record_announce_time u (e\<lparr>al_last_announce := now\<rparr>))"
    using Cons.prems x by (auto simp: limit_handle_announce_def)
  then show ?case
    using Cons.prems x by (auto simp: record_announce_time_def intro!: Cons.IH)
qed simp

text \<open>
  The announce rate limit: a destination that announces more often than the target
  interval allows is blocked at the latest when its fast announces exceed the grace, whatever
  happened before; one that keeps the interval, and is not blocked beyond it, never is.
\<close>

theorem announce_rate_enforced:
  assumes "al_rate_limit e = Some rl" and "al_violations e \<le> rl_grace rl"
  shows "(gaps (\<lambda>t now. now < t + rl_target rl) (al_last_announce e) fast \<and> rl_grace rl < length fast \<longrightarrow>
      (\<exists>r\<in>set (take (rl_grace rl + 1) (limit_run fast e)). r \<noteq> None))
    \<and> (gaps (\<lambda>t now. t + rl_target rl \<le> now) (al_last_announce e) slow
      \<and> al_blocked_until e \<le> al_last_announce e + rl_target rl \<longrightarrow>
      limit_run slow e = replicate (length slow) None)"
proof -
  have "set (take (rl_grace rl + 1 - al_violations e) ys) \<subseteq> set (take (rl_grace rl + 1) ys)" for ys :: "nanos option list"
    by (rule set_take_subset_set_take) simp
  then have "gaps (\<lambda>t now. now < t + rl_target rl) (al_last_announce e) fast \<Longrightarrow> rl_grace rl < length fast \<Longrightarrow>
      \<exists>r\<in>set (take (rl_grace rl + 1) (limit_run fast e)). r \<noteq> None"
    using limit_run_fast [OF assms(1) _ _ assms(2), of fast] by fastforce
  with limit_run_slow [OF assms(1)] show ?thesis by blast
qed

theorem announce_rate_enforced_witness:
  "let e = announce_limit_entry_new 0 0 (Some \<lparr>rl_target = 10, rl_grace = 1, rl_penalty = None\<rparr>)
   in (\<exists>r\<in>set (take 2 (limit_run [(3, 0), (5, 0)] e)). r \<noteq> None) \<and> limit_run [(10, 0), (20, 0)] e = [None, None]"
  using announce_rate_enforced [of "announce_limit_entry_new 0 0 (Some \<lparr>rl_target = 10, rl_grace = 1, rl_penalty = None\<rparr>)"
      "\<lparr>rl_target = 10, rl_grace = 1, rl_penalty = None\<rparr>" "[(3, 0), (5, 0)]" "[(10, 0), (20, 0)]"]
  by (simp add: announce_limit_entry_new_def numeral_2_eq_2 del: limit_run.simps)

end
