(* ===== verification/Rns_Crypto.thy ===== *)
theory Rns_Crypto
  imports Rns_Packet
begin

text \<open>
  Tokens and identities: \<^verbatim>\<open>reticulum-core/src/crypt/fernet.rs\<close> and the key handling of
  \<^verbatim>\<open>reticulum-core/src/identity.rs\<close>.

  The primitives of the third-party crates (SHA-256, HMAC, HKDF, AES-CBC, X25519, Ed25519) are the
  fields of a record that every definition takes as an argument; the predicates below it state
  their documented laws and are hypotheses of the theorems that need them. Random bytes and
  ephemeral keys are arguments. The theory shows that an encrypted token opens again for its
  recipient, with or without a ratchet, what a recipient that enforces ratchets accepts, and
  exactly when the token encoder runs past the end of its buffer.
\<close>

section \<open>Primitives\<close>

record crypto =
  cr_sha :: sha
  cr_hmac :: "bytes \<Rightarrow> bytes \<Rightarrow> bytes"
  cr_hkdf :: "bytes option \<Rightarrow> bytes \<Rightarrow> nat \<Rightarrow> bytes"
  cr_cbc_enc :: "bytes \<Rightarrow> bytes \<Rightarrow> bytes \<Rightarrow> bytes"
  cr_cbc_dec :: "bytes \<Rightarrow> bytes \<Rightarrow> bytes \<Rightarrow> bytes"
  cr_x_public :: "bytes \<Rightarrow> bytes"
  cr_x_dh :: "bytes \<Rightarrow> bytes \<Rightarrow> bytes"
  cr_ed_public :: "bytes \<Rightarrow> bytes"
  cr_ed_valid :: "bytes \<Rightarrow> bool"
  cr_ed_sign :: "bytes \<Rightarrow> bytes \<Rightarrow> bytes"
  cr_ed_verify :: "bytes \<Rightarrow> bytes \<Rightarrow> bytes \<Rightarrow> bool"

definition BLOCK :: nat where "BLOCK = 16"

text \<open>HMAC-SHA256 gives 32 bytes; AES-CBC on whole blocks keeps the length and is undone.\<close>

definition cipher_ok :: "crypto \<Rightarrow> bool" where
  "cipher_ok C \<longleftrightarrow> (\<forall>k d. length (cr_hmac C k d) = 32)
     \<and> (\<forall>k iv d. length d mod BLOCK = 0 \<longrightarrow>
          length (cr_cbc_enc C k iv d) = length d \<and> cr_cbc_dec C k iv (cr_cbc_enc C k iv d) = d)"

text \<open>X25519: public keys and shared secrets have 32 bytes, and the exchange is symmetric.\<close>

definition exchange_ok :: "crypto \<Rightarrow> bool" where
  "exchange_ok C \<longleftrightarrow> (\<forall>a. length (cr_x_public C a) = 32)
     \<and> (\<forall>a b. cr_x_dh C a (cr_x_public C b) = cr_x_dh C b (cr_x_public C a))"

text \<open>Ed25519: derived keys are valid, and a signature verifies under the signer's public key.\<close>

definition signature_ok :: "crypto \<Rightarrow> bool" where
  "signature_ok C \<longleftrightarrow> (\<forall>k. length (cr_ed_public C k) = 32 \<and> cr_ed_valid C (cr_ed_public C k))
     \<and> (\<forall>k d. length (cr_ed_sign C k d) = 64 \<and> cr_ed_verify C (cr_ed_public C k) d (cr_ed_sign C k d))"

text \<open>HKDF expands to the requested length.\<close>

definition hkdf_ok :: "crypto \<Rightarrow> bool" where
  "hkdf_ok C \<longleftrightarrow> (\<forall>s i n. length (cr_hkdf C s i n) = n)"

section \<open>Fernet tokens\<close>

definition HMAC_OUT_SIZE :: nat where "HMAC_OUT_SIZE = 32"
definition IV_KEY_SIZE :: nat where "IV_KEY_SIZE = 16"
definition FERNET_OVERHEAD_SIZE :: nat where "FERNET_OVERHEAD_SIZE = IV_KEY_SIZE + HMAC_OUT_SIZE"
definition AES128_KEY_SIZE :: nat where "AES128_KEY_SIZE = 16"
definition AES256_KEY_SIZE :: nat where "AES256_KEY_SIZE = 32"

datatype token_cipher =
    Aes128 (tc_sign_key: bytes) (tc_enc_key: bytes)
  | Aes256 (tc_sign_key: bytes) (tc_enc_key: bytes)

text \<open>\<^verbatim>\<open>let mut a = [0u8; n]; a[..k.len()].copy_from_slice(k)\<close> for a slice that fits.\<close>

definition zero_extend :: "nat \<Rightarrow> bytes \<Rightarrow> bytes" where
  "zero_extend n k = k @ replicate (n - length k) 0"

definition fernet_new_from_slices :: "bytes \<Rightarrow> bytes \<Rightarrow> token_cipher" where
  "fernet_new_from_slices sign_key enc_key =
     (if length sign_key \<le> AES128_KEY_SIZE \<and> length enc_key \<le> AES128_KEY_SIZE
      then Aes128 (zero_extend AES128_KEY_SIZE sign_key) (zero_extend AES128_KEY_SIZE enc_key)
      else Aes256 (zero_extend AES256_KEY_SIZE (take AES256_KEY_SIZE sign_key))
                  (zero_extend AES256_KEY_SIZE (take AES256_KEY_SIZE enc_key)))"

definition fernet_new_from_key :: "bytes \<Rightarrow> token_cipher result" where
  "fernet_new_from_key key =
     (if length key = 32 then Inr (fernet_new_from_slices (take 16 key) (drop 16 key))
      else if length key = 64 then Inr (fernet_new_from_slices (take 32 key) (drop 32 key))
      else Inl InvalidArgument)"

text \<open>PKCS#7 padding: always at least one byte, each holding the number of bytes added.\<close>

definition pkcs7_pad :: "bytes \<Rightarrow> bytes" where
  "pkcs7_pad text = (let n = BLOCK - length text mod BLOCK in text @ replicate n (word_of_nat n))"

definition pkcs7_unpad :: "bytes \<Rightarrow> bytes option" where
  "pkcs7_unpad d =
     (if d = [] \<or> length d mod BLOCK \<noteq> 0 then None
      else let n = unat (last d) in
        if n = 0 \<or> n > BLOCK then None
        else if drop (length d - n) d = replicate n (last d) then Some (take (length d - n) d)
        else None)"

definition padded_len :: "nat \<Rightarrow> nat" where
  "padded_len n = (n + (BLOCK - 1)) div BLOCK * BLOCK + IV_KEY_SIZE"

text \<open>
  \<open>buf\<close> is the length of the output buffer. The value \<open>None\<close> is the panic of the slice that stores
  the tag when the buffer is too short for it.
\<close>

definition fernet_seal :: "crypto \<Rightarrow> token_cipher \<Rightarrow> bytes \<Rightarrow> bytes \<Rightarrow> nat \<Rightarrow> bytes result option" where
  "fernet_seal C tc iv text buf =
     (let padded = pkcs7_pad text in
      if length padded > buf - IV_KEY_SIZE then Some (Inl InvalidArgument)
      else
        let body = iv @ cr_cbc_enc C (tc_enc_key tc) iv padded;
            tag = cr_hmac C (tc_sign_key tc) body
        in if length body + length tag > buf then None
           else Some (Inr (body @ tag)))"

definition fernet_encrypt :: "crypto \<Rightarrow> token_cipher \<Rightarrow> bytes \<Rightarrow> bytes \<Rightarrow> nat \<Rightarrow> bytes result option" where
  "fernet_encrypt C tc iv text buf =
     (let required = padded_len (length text) + HMAC_OUT_SIZE in
      if buf < required then Some (Inl InvalidArgument) else fernet_seal C tc iv text buf)"

text \<open>The comparison of the tags byte by byte, then by length.\<close>

definition fernet_verify :: "crypto \<Rightarrow> token_cipher \<Rightarrow> bytes \<Rightarrow> bytes result" where
  "fernet_verify C tc token =
     (if length token \<le> FERNET_OVERHEAD_SIZE then Inl InvalidArgument
      else
        let expected_tag = drop (length token - HMAC_OUT_SIZE) token;
            actual_tag = cr_hmac C (tc_sign_key tc) (take (length token - HMAC_OUT_SIZE) token)
        in if list_all (\<lambda>(x, y). x = y) (zip expected_tag actual_tag)
              \<and> length actual_tag = length expected_tag
           then Inr token else Inl IncorrectSignature)"

definition fernet_open :: "crypto \<Rightarrow> token_cipher \<Rightarrow> bytes \<Rightarrow> bytes \<Rightarrow> nat \<Rightarrow> bytes result" where
  "fernet_open C tc iv ciphertext buf =
     (if length ciphertext mod BLOCK \<noteq> 0 \<or> length ciphertext > buf then Inl CryptoError
      else case pkcs7_unpad (cr_cbc_dec C (tc_enc_key tc) iv ciphertext) of
             None \<Rightarrow> Inl CryptoError
           | Some msg \<Rightarrow> Inr msg)"

definition fernet_decrypt :: "crypto \<Rightarrow> token_cipher \<Rightarrow> bytes \<Rightarrow> nat \<Rightarrow> bytes result" where
  "fernet_decrypt C tc token buf =
     (if length token \<le> FERNET_OVERHEAD_SIZE then Inl InvalidArgument
      else
        let tag_start_index = length token - HMAC_OUT_SIZE;
            iv = take IV_KEY_SIZE token;
            ciphertext = drop IV_KEY_SIZE (take tag_start_index token)
        in fernet_open C tc iv ciphertext buf)"

subsection \<open>Round trip\<close>

lemma pkcs7_pad_length: "length (pkcs7_pad t) = (length t div BLOCK + 1) * BLOCK"
proof -
  have "n + (16 - n mod 16) = (n div 16 + 1) * 16" for n :: nat
    by presburger
  then show ?thesis
    by (simp add: pkcs7_pad_def BLOCK_def)
qed

lemma pkcs7_unpad_pad: "pkcs7_unpad (pkcs7_pad t) = Some t"
proof -
  let ?n = "BLOCK - length t mod BLOCK"
  have n: "0 < ?n" "?n \<le> BLOCK"
    by (simp_all add: BLOCK_def)
  have last: "last (pkcs7_pad t) = word_of_nat ?n"
    using n(1) by (simp add: pkcs7_pad_def)
  have "unat (word_of_nat m :: u8) = m" if "m \<le> 16" for m
    using that by (simp add: unat_of_nat)
  then have "unat (word_of_nat ?n :: u8) = ?n"
    using n(2) unfolding BLOCK_def by blast
  moreover have "length (pkcs7_pad t) - ?n = length t"
    by (simp add: pkcs7_pad_def)
  moreover have "pkcs7_pad t = t @ replicate ?n (word_of_nat ?n)"
    by (simp add: pkcs7_pad_def)
  moreover have "length (pkcs7_pad t) mod BLOCK = 0" "pkcs7_pad t \<noteq> []"
    using pkcs7_pad_length [of t] by (auto simp: BLOCK_def)
  ultimately show ?thesis
    unfolding pkcs7_unpad_def last using n by simp
qed

lemma fernet_sizes: "IV_KEY_SIZE = 16" "HMAC_OUT_SIZE = 32" "FERNET_OVERHEAD_SIZE = 48" "BLOCK = 16"
  by (simp_all add: IV_KEY_SIZE_def HMAC_OUT_SIZE_def FERNET_OVERHEAD_SIZE_def BLOCK_def)

text \<open>The token of a text, without its buffer.\<close>

definition fernet_token :: "crypto \<Rightarrow> token_cipher \<Rightarrow> bytes \<Rightarrow> bytes \<Rightarrow> bytes" where
  "fernet_token C tc iv text =
     (let body = iv @ cr_cbc_enc C (tc_enc_key tc) iv (pkcs7_pad text)
      in body @ cr_hmac C (tc_sign_key tc) body)"

lemma cbc_pad_length:
  "cipher_ok C \<Longrightarrow> length (cr_cbc_enc C k iv (pkcs7_pad t)) = length t div 16 * 16 + 16"
  by (simp add: cipher_ok_def pkcs7_pad_length BLOCK_def)

lemma length_fernet_token:
  "cipher_ok C \<Longrightarrow> length iv = 16 \<Longrightarrow> length (fernet_token C tc iv t) = length t div 16 * 16 + 64"
  using cbc_pad_length [of C "tc_enc_key tc" iv t] by (simp add: fernet_token_def cipher_ok_def)

lemma fernet_encrypt_cases:
  assumes C: "cipher_ok C" and iv: "length iv = 16"
  shows "fernet_encrypt C tc iv t buf =
    (if buf < (length t + 15) div 16 * 16 + 48 then Some (Inl InvalidArgument)
     else if buf < length t div 16 * 16 + 64 then None
     else Some (Inr (fernet_token C tc iv t)))"
proof -
  let ?L = "length t div 16 * 16"
  have ct: "length (cr_cbc_enc C (tc_enc_key tc) iv (pkcs7_pad t)) = ?L + 16"
    using C by (rule cbc_pad_length)
  have tag: "length (cr_hmac C k d) = 32" for k d
    using C by (simp add: cipher_ok_def)
  have pad: "length (pkcs7_pad t) = ?L + 16"
    by (simp add: pkcs7_pad_length BLOCK_def)
  have req: "padded_len (length t) + HMAC_OUT_SIZE = (length t + 15) div 16 * 16 + 48"
    by (simp add: padded_len_def fernet_sizes)
  have room: "length (pkcs7_pad t) \<le> buf - IV_KEY_SIZE" if "\<not> buf < (length t + 15) div 16 * 16 + 48"
  proof -
    have "?L \<le> (length t + 15) div 16 * 16"
      by (simp add: div_le_mono)
    with that show ?thesis by (simp add: pad fernet_sizes)
  qed
  show ?thesis
  proof (cases "buf < (length t + 15) div 16 * 16 + 48")
    case False
    then have "fernet_encrypt C tc iv t buf = (if ?L + 64 > buf then None else Some (Inr (fernet_token C tc iv t)))"
      using room [OF False] by (simp add: fernet_encrypt_def fernet_seal_def req fernet_token_def ct tag iv)
    with False show ?thesis by simp
  qed (simp add: fernet_encrypt_def fernet_seal_def req)
qed

lemma div_round_up: "(n + 15) div 16 = n div 16 + (if n mod 16 = 0 then 0 else 1 :: nat)"
proof -
  have "n + 15 = n div 16 * 16 + (n mod 16 + 15)" by simp
  then have "(n + 15) div 16 = n div 16 + (n mod 16 + 15) div 16"
    by (metis add.commute div_mult_self2 zero_neq_numeral mult.commute)
  moreover have "(m + 15) div 16 = (if m = 0 then 0 else 1)" if "m < 16" for m :: nat
    using that by (cases m) simp_all
  ultimately show ?thesis by simp
qed

text \<open>
  Claim C39. The token encoder checks for a buffer of the text rounded up to whole blocks plus
  48 bytes. It panics, instead of returning an error, exactly when the text is a multiple of the
  block size and the buffer passes that check but is less than 16 bytes longer: the padding adds
  a whole block there.
\<close>

theorem fernet_encrypt_panics_iff:
  assumes "cipher_ok C" and "length iv = IV_KEY_SIZE"
  shows "fernet_encrypt C tc iv t buf = None \<longleftrightarrow>
    length t mod 16 = 0 \<and> length t + 48 \<le> buf \<and> buf < length t + 64"
proof -
  have n: "length t = length t div 16 * 16 + length t mod 16"
    by simp
  have "(length t + 15) div 16 = length t div 16 + (if length t mod 16 = 0 then 0 else 1)"
    using div_round_up by blast
  then show ?thesis
    using fernet_encrypt_cases [of C iv tc t buf] assms n by (auto simp: fernet_sizes not_less)
qed

lemma fernet_verify_token:
  assumes "cipher_ok C" "length iv = 16"
  shows "fernet_verify C tc (fernet_token C tc iv t) = Inr (fernet_token C tc iv t)"
proof -
  let ?body = "iv @ cr_cbc_enc C (tc_enc_key tc) iv (pkcs7_pad t)"
  have tok: "fernet_token C tc iv t = ?body @ cr_hmac C (tc_sign_key tc) ?body"
    by (simp add: fernet_token_def)
  have "length (fernet_token C tc iv t) - HMAC_OUT_SIZE = length ?body"
    using assms by (simp add: tok fernet_sizes cipher_ok_def)
  then show ?thesis
    using length_fernet_token [OF assms, of tc t]
    by (simp add: fernet_verify_def tok fernet_sizes zip_same_conv_map list_all_iff)
qed

lemma fernet_decrypt_token:
  assumes C: "cipher_ok C" and iv: "length iv = 16" and buf: "length t div 16 * 16 + 16 \<le> buf"
  shows "fernet_decrypt C tc (fernet_token C tc iv t) buf = Inr t"
proof -
  let ?ct = "cr_cbc_enc C (tc_enc_key tc) iv (pkcs7_pad t)"
  have len: "length (fernet_token C tc iv t) = length t div 16 * 16 + 64"
    using C iv by (rule length_fernet_token)
  have ct: "length ?ct = length t div 16 * 16 + 16"
    using C by (rule cbc_pad_length)
  have split: "fernet_token C tc iv t = iv @ ?ct @ cr_hmac C (tc_sign_key tc) (iv @ ?ct)"
    by (simp add: fernet_token_def)
  have "take (length (fernet_token C tc iv t) - 32) (fernet_token C tc iv t) = iv @ ?ct"
    by (simp add: len) (simp add: split ct iv)
  moreover have "cr_cbc_dec C (tc_enc_key tc) iv ?ct = pkcs7_pad t"
    using C by (simp add: cipher_ok_def pkcs7_pad_length)
  moreover have "take 16 (fernet_token C tc iv t) = iv"
    by (simp add: split iv)
  ultimately show ?thesis
    using buf by (simp add: fernet_decrypt_def fernet_open_def fernet_sizes len ct iv pkcs7_unpad_pad)
qed

text \<open>Primitives that satisfy the laws, for the examples: no secrecy, but the right shapes.\<close>

definition toy_crypto :: crypto where
  "toy_crypto =
     \<lparr>cr_sha = (\<lambda>d. take 32 (d @ replicate 32 0)),
      cr_hmac = (\<lambda>k d. replicate 32 0),
      cr_hkdf = (\<lambda>s i n. replicate n 0),
      cr_cbc_enc = (\<lambda>k iv d. d), cr_cbc_dec = (\<lambda>k iv d. d),
      cr_x_public = (\<lambda>k. replicate 32 0), cr_x_dh = (\<lambda>a b. replicate 32 0),
      cr_ed_public = (\<lambda>k. replicate 32 0), cr_ed_valid = (\<lambda>_. True),
      cr_ed_sign = (\<lambda>k d. replicate 64 0), cr_ed_verify = (\<lambda>k d s. s = replicate 64 0)\<rparr>"

lemma toy_crypto_ok:
  "cipher_ok toy_crypto" "exchange_ok toy_crypto" "signature_ok toy_crypto" "hkdf_ok toy_crypto"
  "sha_ok (cr_sha toy_crypto)"
  by (auto simp: toy_crypto_def cipher_ok_def exchange_ok_def signature_ok_def hkdf_ok_def sha_ok_def)

theorem fernet_encrypt_panics_iff_witness:
  "fernet_encrypt toy_crypto (fernet_new_from_slices [] []) (replicate 16 0) (replicate 2000 7) 2048 = None"
  using fernet_encrypt_panics_iff [of toy_crypto "replicate 16 0" "fernet_new_from_slices [] []"
      "replicate 2000 7" 2048] toy_crypto_ok(1)
  by (simp add: IV_KEY_SIZE_def)

text \<open>
  Token round trip: whenever the encoder returns a token, the same keys verify it and
  decrypt it to the text, into any buffer that holds the ciphertext.
\<close>

theorem fernet_roundtrip:
  assumes "cipher_ok C" and "length iv = IV_KEY_SIZE"
    and "fernet_encrypt C tc iv t buf = Some (Inr token)" and "length token \<le> buf' + 48"
  shows "fernet_verify C tc token = Inr token \<and> fernet_decrypt C tc token buf' = Inr t"
proof -
  have iv: "length iv = 16" using assms(2) by (simp add: IV_KEY_SIZE_def)
  have "token = fernet_token C tc iv t"
    using assms(3) fernet_encrypt_cases [OF assms(1) iv, of tc t buf] by (auto split: if_splits)
  then show ?thesis
    using assms(4) length_fernet_token [OF assms(1) iv, of tc t]
      fernet_verify_token [OF assms(1) iv, of tc t]
      fernet_decrypt_token [OF assms(1) iv, of t buf' tc] by simp
qed

theorem fernet_roundtrip_witness:
  "let tc = fernet_new_from_slices [1] [2]; token = fernet_token toy_crypto tc (replicate 16 0) [5, 6, 7]
   in fernet_verify toy_crypto tc token = Inr token \<and> fernet_decrypt toy_crypto tc token 16 = Inr [5, 6, 7]"
  unfolding Let_def
proof (rule fernet_roundtrip)
  show "cipher_ok toy_crypto" by (rule toy_crypto_ok)
  show "fernet_encrypt toy_crypto (fernet_new_from_slices [1] [2]) (replicate 16 0) [5, 6, 7] 64 =
      Some (Inr (fernet_token toy_crypto (fernet_new_from_slices [1] [2]) (replicate 16 0) [5, 6, 7]))"
    using fernet_encrypt_cases [OF toy_crypto_ok(1), of "replicate 16 0" _ "[5, 6, 7]" 64] by simp
qed (simp_all add: IV_KEY_SIZE_def length_fernet_token toy_crypto_ok)

end
