(* ===== verification/Rns_Identity.thy ===== *)
theory Rns_Identity
  imports Rns_Crypto
begin

text \<open>
  Identities and their keys, \<^verbatim>\<open>reticulum-core/src/identity.rs\<close>: public and private identities, hex
  and raw forms, key derivation, encryption to an identity or to one of its ratchets, and
  decryption with retained ratchets. The theory shows the round trips of the textual and raw
  forms and of encryption, and that a recipient that enforces ratchets never falls back to its
  static key.
\<close>

definition PUBLIC_KEY_LENGTH :: nat where "PUBLIC_KEY_LENGTH = 32"
definition RATCHET_KEY_LENGTH :: nat where "RATCHET_KEY_LENGTH = 256 div 8"
definition RATCHET_ID_LENGTH :: nat where "RATCHET_ID_LENGTH = 80 div 8"
definition DERIVED_KEY_LENGTH :: nat where "DERIVED_KEY_LENGTH = 512 div 8"
definition RATCHET_EXPIRY_SECS :: nat where "RATCHET_EXPIRY_SECS = 60 * 60 * 24 * 30"

lemmas key_sizes = PUBLIC_KEY_LENGTH_def RATCHET_KEY_LENGTH_def RATCHET_ID_LENGTH_def DERIVED_KEY_LENGTH_def

section \<open>Public identities\<close>

record identity =
  id_public_key :: bytes
  id_verifying_key :: bytes
  id_address_hash :: address_hash

definition identity_new :: "crypto \<Rightarrow> bytes \<Rightarrow> bytes \<Rightarrow> identity" where
  "identity_new C public_key verifying_key =
     \<lparr>id_public_key = public_key, id_verifying_key = verifying_key,
      id_address_hash = address_hash_new_from_hash (Hash (cr_sha C (public_key @ verifying_key)))\<rparr>"

text \<open>
  \<open>None\<close> is the panic of \<^verbatim>\<open>copy_from_slice\<close> on a slice of the wrong length. An invalid Ed25519 key is
  replaced by the default key \<open>dflt\<close> of the crate.
\<close>

definition identity_new_from_slices :: "crypto \<Rightarrow> bytes \<Rightarrow> bytes \<Rightarrow> bytes \<Rightarrow> identity option" where
  "identity_new_from_slices C dflt public_key verifying_key =
     (if length public_key = PUBLIC_KEY_LENGTH \<and> length verifying_key = PUBLIC_KEY_LENGTH
      then Some (identity_new C public_key
             (if cr_ed_valid C verifying_key then verifying_key else dflt))
      else None)"

definition identity_new_from_hex_string :: "crypto \<Rightarrow> bytes \<Rightarrow> string \<Rightarrow> identity result option" where
  "identity_new_from_hex_string C dflt s =
     (if length s < PUBLIC_KEY_LENGTH * 2 * 2 then Some (Inl IncorrectHash)
      else case (parse_hex_pairs PUBLIC_KEY_LENGTH s,
                 parse_hex_pairs PUBLIC_KEY_LENGTH (drop (PUBLIC_KEY_LENGTH * 2) s)) of
             (Some pk, Some vk) \<Rightarrow> map_option Inr (identity_new_from_slices C dflt pk vk)
           | _ \<Rightarrow> None)"

definition identity_to_hex_string :: "identity \<Rightarrow> string" where
  "identity_to_hex_string i =
     concat (map hex_byte (id_public_key i)) @ concat (map hex_byte (id_verifying_key i))"

definition identity_verify :: "crypto \<Rightarrow> identity \<Rightarrow> bytes \<Rightarrow> bytes \<Rightarrow> unit result" where
  "identity_verify C i data signature =
     (if cr_ed_verify C (id_verifying_key i) data signature then Inr () else Inl IncorrectSignature)"

definition identity_to_bytes :: "identity \<Rightarrow> bytes" where
  "identity_to_bytes i = id_public_key i @ id_verifying_key i"

definition derived_key_new :: "crypto \<Rightarrow> bytes \<Rightarrow> bytes option \<Rightarrow> bytes" where
  "derived_key_new C shared_key salt = cr_hkdf C salt shared_key DERIVED_KEY_LENGTH"

definition derived_key_new_empty :: bytes where
  "derived_key_new_empty = replicate DERIVED_KEY_LENGTH 0"

definition derived_key_new_from_private_key :: "crypto \<Rightarrow> bytes \<Rightarrow> bytes \<Rightarrow> bytes option \<Rightarrow> bytes" where
  "derived_key_new_from_private_key C priv_key pub_key salt = derived_key_new C (cr_x_dh C priv_key pub_key) salt"

text \<open>The token keys are the two halves of a derived key.\<close>

definition derived_cipher :: "bytes \<Rightarrow> token_cipher" where
  "derived_cipher k = fernet_new_from_slices (take (DERIVED_KEY_LENGTH div 2) k) (drop (DERIVED_KEY_LENGTH div 2) k)"

definition encrypt_with_ephemeral ::
  "crypto \<Rightarrow> identity \<Rightarrow> bytes \<Rightarrow> bytes \<Rightarrow> bytes \<Rightarrow> bytes option \<Rightarrow> nat \<Rightarrow> bytes result option" where
  "encrypt_with_ephemeral C i iv ephemeral txt ratchet buf =
     (if buf \<le> RATCHET_KEY_LENGTH then Some (Inl InvalidArgument)
      else
        let target_public_key = (case ratchet of Some r \<Rightarrow> r | None \<Rightarrow> id_public_key i);
            shared_key = cr_x_dh C ephemeral target_public_key;
            derived_key = derived_key_new C shared_key (Some (addr_bytes (id_address_hash i)))
        in case fernet_encrypt C (derived_cipher derived_key) iv txt (buf - RATCHET_KEY_LENGTH) of
             None \<Rightarrow> None
           | Some (Inl e) \<Rightarrow> Some (Inl e)
           | Some (Inr token) \<Rightarrow> Some (Inr (cr_x_public C ephemeral @ token)))"

section \<open>Private identities\<close>

record private_identity =
  pi_identity :: identity
  pi_private_key :: bytes
  pi_sign_key :: bytes

definition private_identity_new :: "crypto \<Rightarrow> bytes \<Rightarrow> bytes \<Rightarrow> private_identity" where
  "private_identity_new C private_key sign_key =
     \<lparr>pi_identity = identity_new C (cr_x_public C private_key) (cr_ed_public C sign_key),
      pi_private_key = private_key, pi_sign_key = sign_key\<rparr>"

definition private_identity_new_from_name :: "crypto \<Rightarrow> bytes \<Rightarrow> private_identity" where
  "private_identity_new_from_name C name =
     (let h1 = hash_new_from_slice (cr_sha C) name;
          h2 = hash_new_from_slice (cr_sha C) (hash_bytes h1)
      in private_identity_new C (hash_bytes h1) (hash_bytes h2))"

definition private_identity_new_from_hex_string :: "crypto \<Rightarrow> string \<Rightarrow> private_identity result option" where
  "private_identity_new_from_hex_string C s =
     (if length s < PUBLIC_KEY_LENGTH * 2 * 2 then Some (Inl IncorrectHash)
      else case (parse_hex_pairs PUBLIC_KEY_LENGTH s,
                 parse_hex_pairs PUBLIC_KEY_LENGTH (drop (PUBLIC_KEY_LENGTH * 2) s)) of
             (Some pk, Some sk) \<Rightarrow> Some (Inr (private_identity_new C pk sk))
           | _ \<Rightarrow> None)"

definition private_identity_to_hex_string :: "private_identity \<Rightarrow> string" where
  "private_identity_to_hex_string p =
     concat (map hex_byte (pi_private_key p)) @ concat (map hex_byte (pi_sign_key p))"

definition private_identity_sign :: "crypto \<Rightarrow> private_identity \<Rightarrow> bytes \<Rightarrow> bytes" where
  "private_identity_sign C p data = cr_ed_sign C (pi_sign_key p) data"

definition private_identity_to_bytes :: "private_identity \<Rightarrow> bytes" where
  "private_identity_to_bytes p = pi_private_key p @ pi_sign_key p"

definition private_identity_new_from_bytes :: "crypto \<Rightarrow> bytes \<Rightarrow> private_identity result" where
  "private_identity_new_from_bytes C bs =
     (if length bs \<noteq> PUBLIC_KEY_LENGTH * 2 then Inl IncorrectHash
      else Inr (private_identity_new C (take PUBLIC_KEY_LENGTH bs) (drop PUBLIC_KEY_LENGTH bs)))"

definition ratchet_public_from_private :: "crypto \<Rightarrow> bytes \<Rightarrow> bytes" where
  "ratchet_public_from_private C private_key = cr_x_public C private_key"

definition ratchet_id :: "crypto \<Rightarrow> bytes \<Rightarrow> rns_hash" where
  "ratchet_id C ratchet_public =
     Hash (take RATCHET_ID_LENGTH (hash_bytes (hash_new_from_slice (cr_sha C) ratchet_public))
           @ replicate (HASH_SIZE - RATCHET_ID_LENGTH) 0)"

definition decrypt_token :: "crypto \<Rightarrow> bytes \<Rightarrow> bytes \<Rightarrow> nat \<Rightarrow> bytes result" where
  "decrypt_token C derived_key data buf =
     (case fernet_verify C (derived_cipher derived_key) data of
        Inl e \<Rightarrow> Inl e
      | Inr token \<Rightarrow> fernet_decrypt C (derived_cipher derived_key) token buf)"

text \<open>The keys tried for a token from \<open>peer\<close>: the shared key of a private key with the sender's.\<close>

definition decrypt_with :: "crypto \<Rightarrow> private_identity \<Rightarrow> bytes \<Rightarrow> bytes \<Rightarrow> nat \<Rightarrow> bytes \<Rightarrow> bytes result" where
  "decrypt_with C p peer ciphertext buf key =
     decrypt_token C (derived_key_new C (cr_x_dh C key peer)
       (Some (addr_bytes (id_address_hash (pi_identity p))))) ciphertext buf"

primrec try_ratchets ::
  "crypto \<Rightarrow> private_identity \<Rightarrow> bytes \<Rightarrow> bytes \<Rightarrow> nat \<Rightarrow> bytes list \<Rightarrow> (bytes \<times> bytes) option" where
  "try_ratchets C p peer ciphertext buf [] = None"
| "try_ratchets C p peer ciphertext buf (r # rs) =
     (case decrypt_with C p peer ciphertext buf r of
        Inr plain \<Rightarrow> Some (plain, take RATCHET_ID_LENGTH
          (hash_bytes (ratchet_id C (ratchet_public_from_private C r))))
      | Inl _ \<Rightarrow> try_ratchets C p peer ciphertext buf rs)"

definition decrypt_ratchet ::
  "crypto \<Rightarrow> private_identity \<Rightarrow> bytes \<Rightarrow> bytes list \<Rightarrow> bool \<Rightarrow> nat \<Rightarrow> (bytes \<times> bytes option) result" where
  "decrypt_ratchet C p data ratchets enforce_ratchets buf =
     (if length data \<le> RATCHET_KEY_LENGTH then Inl InvalidArgument
      else
        let peer_public_key = take RATCHET_KEY_LENGTH data;
            ciphertext = drop RATCHET_KEY_LENGTH data
        in case try_ratchets C p peer_public_key ciphertext buf ratchets of
             Some (plain, rid) \<Rightarrow> Inr (plain, Some rid)
           | None \<Rightarrow>
               if enforce_ratchets then Inl CryptoError
               else case decrypt_with C p peer_public_key ciphertext buf (pi_private_key p) of
                      Inl e \<Rightarrow> Inl e
                    | Inr plain \<Rightarrow> Inr (plain, None))"

definition private_identity_decrypt ::
  "crypto \<Rightarrow> private_identity \<Rightarrow> bytes \<Rightarrow> bytes list \<Rightarrow> nat \<Rightarrow> bytes result" where
  "private_identity_decrypt C p data ratchets buf =
     (case decrypt_ratchet C p data ratchets False buf of Inl e \<Rightarrow> Inl e | Inr (plain, _) \<Rightarrow> Inr plain)"

section \<open>Textual and raw forms\<close>

lemma drop_hex_bytes:
  "length a = n \<Longrightarrow> drop (n * 2) (concat (map hex_byte a) @ s) = s"
  using length_hex_bytes [of a] by simp

lemma parse_hex_keys:
  assumes "length a = PUBLIC_KEY_LENGTH" "length b = PUBLIC_KEY_LENGTH"
  shows "\<not> length (concat (map hex_byte a) @ concat (map hex_byte b) @ s) < PUBLIC_KEY_LENGTH * 2 * 2"
    "parse_hex_pairs PUBLIC_KEY_LENGTH (concat (map hex_byte a) @ concat (map hex_byte b) @ s) = Some a"
    "parse_hex_pairs PUBLIC_KEY_LENGTH
       (drop (PUBLIC_KEY_LENGTH * 2) (concat (map hex_byte a) @ concat (map hex_byte b) @ s)) = Some b"
proof -
  show "\<not> length (concat (map hex_byte a) @ concat (map hex_byte b) @ s) < PUBLIC_KEY_LENGTH * 2 * 2"
    using assms length_hex_bytes [of a] length_hex_bytes [of b] by (simp add: key_sizes)
  show "parse_hex_pairs PUBLIC_KEY_LENGTH (concat (map hex_byte a) @ concat (map hex_byte b) @ s) = Some a"
    using parse_hex_pairs_hex_byte [of a "concat (map hex_byte b) @ s"] assms by simp
  show "parse_hex_pairs PUBLIC_KEY_LENGTH
       (drop (PUBLIC_KEY_LENGTH * 2) (concat (map hex_byte a) @ concat (map hex_byte b) @ s)) = Some b"
    unfolding drop_hex_bytes [OF assms(1)] using parse_hex_pairs_hex_byte [of b s] assms by simp
qed

text \<open>The keys of a private identity have the lengths of keys and determine its public half.\<close>

definition private_identity_ok :: "crypto \<Rightarrow> private_identity \<Rightarrow> bool" where
  "private_identity_ok C p \<longleftrightarrow> length (pi_private_key p) = PUBLIC_KEY_LENGTH
     \<and> length (pi_sign_key p) = PUBLIC_KEY_LENGTH
     \<and> p = private_identity_new C (pi_private_key p) (pi_sign_key p)"

lemma private_identity_new_ok:
  "length a = PUBLIC_KEY_LENGTH \<Longrightarrow> length b = PUBLIC_KEY_LENGTH \<Longrightarrow>
     private_identity_ok C (private_identity_new C a b)"
  by (simp add: private_identity_ok_def private_identity_new_def)

lemma identity_hex_roundtrip:
  assumes "private_identity_ok C p" "exchange_ok C" "signature_ok C"
  shows "identity_new_from_hex_string C dflt (identity_to_hex_string (pi_identity p) @ s)
           = Some (Inr (pi_identity p))"
proof -
  let ?i = "pi_identity p"
  have i: "?i = identity_new C (cr_x_public C (pi_private_key p)) (cr_ed_public C (pi_sign_key p))"
    using assms(1) by (metis private_identity_ok_def private_identity_new_def private_identity.select_convs(1))
  have len: "length (id_public_key ?i) = PUBLIC_KEY_LENGTH" "length (id_verifying_key ?i) = PUBLIC_KEY_LENGTH"
    "cr_ed_valid C (id_verifying_key ?i)" "identity_new C (id_public_key ?i) (id_verifying_key ?i) = ?i"
    using assms(2,3) by (simp_all add: i identity_new_def key_sizes exchange_ok_def signature_ok_def)
  then show ?thesis
    using parse_hex_keys [OF len(1,2), of s]
    by (simp add: identity_new_from_hex_string_def identity_to_hex_string_def identity_new_from_slices_def)
qed

text \<open>
  A private identity is recovered from its hexadecimal form, also with trailing text,
  and from its raw bytes, and its public half from the public hexadecimal form.
\<close>

theorem private_identity_roundtrip:
  assumes ok: "private_identity_ok C p" and C: "exchange_ok C" "signature_ok C"
  shows "private_identity_new_from_hex_string C (private_identity_to_hex_string p @ s) = Some (Inr p)
    \<and> private_identity_new_from_bytes C (private_identity_to_bytes p) = Inr p
    \<and> identity_new_from_hex_string C dflt (identity_to_hex_string (pi_identity p) @ s)
        = Some (Inr (pi_identity p))"
proof -
  have len: "length (pi_private_key p) = PUBLIC_KEY_LENGTH" "length (pi_sign_key p) = PUBLIC_KEY_LENGTH"
    and p: "private_identity_new C (pi_private_key p) (pi_sign_key p) = p"
    using ok by (auto simp: private_identity_ok_def)
  show ?thesis
    using parse_hex_keys [OF len, of s] p len identity_hex_roundtrip [OF ok C]
    by (simp add: private_identity_new_from_hex_string_def private_identity_to_hex_string_def
        private_identity_new_from_bytes_def private_identity_to_bytes_def)
qed

definition private_identity_example :: private_identity where
  "private_identity_example = private_identity_new toy_crypto (replicate 32 1) (replicate 32 2)"

lemma private_identity_example_ok: "private_identity_ok toy_crypto private_identity_example"
  by (simp add: private_identity_example_def private_identity_new_ok PUBLIC_KEY_LENGTH_def)

theorem private_identity_roundtrip_witness:
  "private_identity_new_from_hex_string toy_crypto
     (private_identity_to_hex_string private_identity_example @ ''x'') = Some (Inr private_identity_example)"
  using private_identity_roundtrip [OF private_identity_example_ok toy_crypto_ok(2,3), of "''x''" "[]"]
  by blast

section \<open>Encryption\<close>

lemma encrypt_token:
  assumes "cipher_ok C" "length iv = 16"
    and "encrypt_with_ephemeral C i iv eph t ratchet buf = Some (Inr data)"
  shows "data = cr_x_public C eph @ fernet_token C (derived_cipher (derived_key_new C
      (cr_x_dh C eph (case ratchet of Some r \<Rightarrow> r | None \<Rightarrow> id_public_key i))
      (Some (addr_bytes (id_address_hash i))))) iv t"
  using assms(3) fernet_encrypt_cases [OF assms(1,2)]
  by (auto simp: encrypt_with_ephemeral_def split: if_splits option.splits sum.splits)

lemma decrypt_token_token:
  assumes "cipher_ok C" "length iv = 16" "length t div 16 * 16 + 16 \<le> buf"
  shows "decrypt_token C k (fernet_token C (derived_cipher k) iv t) buf = Inr t"
  using fernet_verify_token [OF assms(1,2)] fernet_decrypt_token [OF assms]
  by (simp add: decrypt_token_def)

lemma decrypt_with_shared:
  assumes "cipher_ok C" "exchange_ok C" "length iv = 16" "length t div 16 * 16 + 16 \<le> buf"
  shows "decrypt_with C p (cr_x_public C eph)
           (fernet_token C (derived_cipher (derived_key_new C (cr_x_dh C eph (cr_x_public C key))
              (Some (addr_bytes (id_address_hash (pi_identity p)))))) iv t) buf key = Inr t"
proof -
  have "cr_x_dh C key (cr_x_public C eph) = cr_x_dh C eph (cr_x_public C key)"
    using assms(2) unfolding exchange_ok_def by blast
  then show ?thesis
    using decrypt_token_token [OF assms(1,3,4)] by (simp add: decrypt_with_def)
qed

lemma try_ratchets_skip:
  "\<forall>r\<in>set pre. \<exists>e. decrypt_with C p peer ct buf r = Inl e \<Longrightarrow>
     try_ratchets C p peer ct buf (pre @ rs) = try_ratchets C p peer ct buf rs"
  by (induction pre) auto

lemma try_ratchets_Some:
  "try_ratchets C p peer ct buf rs = Some (plain, rid) \<Longrightarrow>
     \<exists>r\<in>set rs. decrypt_with C p peer ct buf r = Inr plain
       \<and> rid = take RATCHET_ID_LENGTH (hash_bytes (ratchet_id C (ratchet_public_from_private C r)))"
  by (induction rs) (auto split: sum.splits)

text \<open>
  Claim C27. What is encrypted to a ratchet of an identity opens for its owner as long as the
  ratchet is retained and no newer ratchet happens to open the token too, and the owner learns
  the id of that ratchet. What is encrypted to the static key opens when no ratchet opens it and
  ratchets are not enforced.
\<close>

theorem identity_decrypts:
  assumes C: "cipher_ok C" "exchange_ok C" and iv: "length iv = IV_KEY_SIZE"
    and p: "private_identity_ok C p" and buf': "length t + 16 \<le> buf'"
    and enc: "encrypt_with_ephemeral C (pi_identity p) iv eph t
        (map_option (ratchet_public_from_private C) ratchet) buf = Some (Inr data)"
    and newer: "\<forall>r\<in>set newer. \<exists>e. decrypt_with C p (take 32 data) (drop 32 data) buf' r = Inl e"
  shows "case ratchet of
      Some r \<Rightarrow> decrypt_ratchet C p data (newer @ r # older) enforce buf' =
        Inr (t, Some (take RATCHET_ID_LENGTH (hash_bytes (ratchet_id C (ratchet_public_from_private C r)))))
    | None \<Rightarrow> decrypt_ratchet C p data newer False buf' = Inr (t, None)"
proof -
  let ?key = "case ratchet of Some r \<Rightarrow> r | None \<Rightarrow> pi_private_key p"
  have iv': "length iv = 16" using iv by (simp add: IV_KEY_SIZE_def)
  have "id_public_key (pi_identity p) = cr_x_public C (pi_private_key p)"
    using p unfolding private_identity_ok_def private_identity_new_def identity_new_def
    by (metis identity.select_convs(1) private_identity.select_convs(1))
  then have data: "data = cr_x_public C eph @ fernet_token C (derived_cipher (derived_key_new C
      (cr_x_dh C eph (cr_x_public C ?key)) (Some (addr_bytes (id_address_hash (pi_identity p)))))) iv t"
    using encrypt_token [OF C(1) iv' enc] by (cases ratchet) (simp_all add: ratchet_public_from_private_def)
  have pub: "length (cr_x_public C eph) = 32"
    using C(2) by (simp add: exchange_ok_def)
  have "length t div 16 * 16 + 16 \<le> buf'"
    using buf' div_times_less_eq_dividend [of "length t" 16] by linarith
  then have opens: "decrypt_with C p (take 32 data) (drop 32 data) buf' ?key = Inr t"
    using decrypt_with_shared [OF C iv', of t buf' p eph ?key] pub by (simp add: data)
  have long: "32 < length data"
    using pub length_fernet_token [OF C(1) iv', of _ t] by (simp add: data)
  show ?thesis
    using opens long try_ratchets_skip [OF newer] try_ratchets_skip [OF newer, of "[]"]
    by (cases ratchet) (simp_all add: decrypt_ratchet_def RATCHET_KEY_LENGTH_def)
qed

text \<open>
  Claim C28. A recipient that enforces ratchets opens a token only with one of its ratchets and
  reports that ratchet; it never falls back to the static identity key.
\<close>

theorem enforced_ratchets_only:
  "case decrypt_ratchet C p data ratchets True buf of
     Inl e \<Rightarrow> e = (if length data \<le> RATCHET_KEY_LENGTH then InvalidArgument else CryptoError)
   | Inr (plain, rid) \<Rightarrow> (\<exists>r\<in>set ratchets.
       decrypt_with C p (take RATCHET_KEY_LENGTH data) (drop RATCHET_KEY_LENGTH data) buf r = Inr plain
       \<and> rid = Some (take RATCHET_ID_LENGTH (hash_bytes (ratchet_id C (ratchet_public_from_private C r)))))"
  by (auto simp: decrypt_ratchet_def split: option.splits dest: try_ratchets_Some)

theorem identity_decrypts_witness:
  "\<exists>data. encrypt_with_ephemeral toy_crypto (pi_identity private_identity_example) (replicate 16 0)
       (replicate 32 4) [1, 2, 3] (Some (ratchet_public_from_private toy_crypto (replicate 32 3))) 200 = Some (Inr data)
     \<and> decrypt_ratchet toy_crypto private_identity_example data [replicate 32 3] True 100 =
         Inr ([1, 2, 3], Some (take RATCHET_ID_LENGTH
           (hash_bytes (ratchet_id toy_crypto (ratchet_public_from_private toy_crypto (replicate 32 3))))))"
proof -
  let ?rk = "replicate 32 3 :: bytes"
  obtain data where enc: "encrypt_with_ephemeral toy_crypto (pi_identity private_identity_example)
      (replicate 16 0) (replicate 32 4) [1, 2, 3]
      (map_option (ratchet_public_from_private toy_crypto) (Some ?rk)) 200 = Some (Inr data)"
    using fernet_encrypt_cases [OF toy_crypto_ok(1), of "replicate 16 0" _ "[1, 2, 3]" 168]
    by (auto simp: encrypt_with_ephemeral_def RATCHET_KEY_LENGTH_def)
  have "decrypt_ratchet toy_crypto private_identity_example data [?rk] True 100 =
         Inr ([1, 2, 3], Some (take RATCHET_ID_LENGTH
           (hash_bytes (ratchet_id toy_crypto (ratchet_public_from_private toy_crypto ?rk)))))"
    using identity_decrypts [OF toy_crypto_ok(1,2) _ private_identity_example_ok _ enc, of 100 "[]" "[]" True]
    by (simp add: IV_KEY_SIZE_def)
  with enc show ?thesis by auto
qed

end
