(* ===== verification/Rns_Destination.thy ===== *)
theory Rns_Destination
  imports Rns_Identity "HOL-Library.Sublist"
begin

text \<open>
  Destinations and announces, \<^verbatim>\<open>reticulum-core/src/destination.rs\<close>: names and addresses, building and
  validating announces, ratchet rotation, proof strategies and group keys. The theory shows that
  every announce a destination builds validates at the receiver, with the right identity, name,
  ratchet and application data, what a validated announce guarantees, and that rotation keeps a
  bounded, newest-first list of ratchets.
\<close>

section \<open>Names and addresses\<close>

definition NAME_HASH_LENGTH :: nat where "NAME_HASH_LENGTH = 10"
definition RAND_HASH_LENGTH :: nat where "RAND_HASH_LENGTH = 10"
definition SIGNATURE_LENGTH :: nat where "SIGNATURE_LENGTH = 64"
definition MIN_ANNOUNCE_DATA_LENGTH :: nat where
  "MIN_ANNOUNCE_DATA_LENGTH = PUBLIC_KEY_LENGTH * 2 + NAME_HASH_LENGTH + RAND_HASH_LENGTH + SIGNATURE_LENGTH"

lemmas announce_sizes = NAME_HASH_LENGTH_def RAND_HASH_LENGTH_def SIGNATURE_LENGTH_def
  MIN_ANNOUNCE_DATA_LENGTH_def PUBLIC_KEY_LENGTH_def RATCHET_KEY_LENGTH_def

text \<open>A destination name is its 32-byte hash.\<close>

datatype destination_name = DestinationName (name_hash: rns_hash)

definition destination_name_new :: "crypto \<Rightarrow> bytes \<Rightarrow> bytes \<Rightarrow> destination_name" where
  "destination_name_new C app_name aspects =
     DestinationName (Hash (cr_sha C (app_name @ [0x2e] @ aspects)))"

text \<open>The slice is copied to the front of a zeroed array; a longer slice panics.\<close>

definition destination_name_new_from_hash_slice :: "bytes \<Rightarrow> destination_name option" where
  "destination_name_new_from_hash_slice s =
     (if length s \<le> 32 then Some (DestinationName (Hash (s @ replicate (32 - length s) 0))) else None)"

definition as_name_hash_slice :: "destination_name \<Rightarrow> bytes" where
  "as_name_hash_slice n = take NAME_HASH_LENGTH (hash_bytes (name_hash n))"

definition desc_hash_matches :: "destination_name \<Rightarrow> destination_name \<Rightarrow> bool" where
  "desc_hash_matches n m = (as_name_hash_slice n = as_name_hash_slice m)"

text \<open>\<open>id_slice\<close> is the address of the identity, or empty for plain and group destinations.\<close>

definition create_address_hash :: "crypto \<Rightarrow> bytes \<Rightarrow> destination_name \<Rightarrow> address_hash" where
  "create_address_hash C id_slice n =
     address_hash_new_from_hash (Hash (cr_sha C (as_name_hash_slice n @ id_slice)))"

section \<open>Destinations\<close>

datatype proof_strategy = ProveNone | ProveApp | ProveAll

definition RATCHET_COUNT :: nat where "RATCHET_COUNT = 512"
definition RATCHET_INTERVAL_SECS :: nat where "RATCHET_INTERVAL_SECS = 30 * 60"

text \<open>
  A destination that receives for a private identity. The \<^verbatim>\<open>u64\<close> clock values are natural numbers,
  the callback is a function on packets.
\<close>

record single_in =
  si_identity :: private_identity
  si_proof_strategy :: proof_strategy
  si_accepts_links :: bool
  si_ratchets :: "bytes list option"
  si_latest_ratchet_time :: nat
  si_ratchet_interval :: nat
  si_retained_ratchets :: nat
  si_proof_requested :: "(packet \<Rightarrow> bool) option"
  si_default_app_data :: "bytes option"
  si_ratchets_enforced :: bool
  si_name :: destination_name
  si_address_hash :: address_hash

definition single_in_new :: "crypto \<Rightarrow> private_identity \<Rightarrow> destination_name \<Rightarrow> single_in" where
  "single_in_new C p n =
     \<lparr>si_identity = p, si_proof_strategy = ProveNone, si_accepts_links = True, si_ratchets = None,
      si_latest_ratchet_time = 0, si_ratchet_interval = RATCHET_INTERVAL_SECS,
      si_retained_ratchets = RATCHET_COUNT, si_proof_requested = None, si_default_app_data = None,
      si_ratchets_enforced = False, si_name = n,
      si_address_hash = create_address_hash C (addr_bytes (id_address_hash (pi_identity p))) n\<rparr>"

definition set_proof_strategy :: "proof_strategy \<Rightarrow> single_in \<Rightarrow> single_in" where
  "set_proof_strategy strategy d = d\<lparr>si_proof_strategy := strategy\<rparr>"

definition set_proof_requested_callback :: "(packet \<Rightarrow> bool) \<Rightarrow> single_in \<Rightarrow> single_in" where
  "set_proof_requested_callback callback d = d\<lparr>si_proof_requested := Some callback\<rparr>"

definition should_prove :: "single_in \<Rightarrow> packet \<Rightarrow> bool" where
  "should_prove d p = (case si_proof_strategy d of
       ProveAll \<Rightarrow> True
     | ProveNone \<Rightarrow> False
     | ProveApp \<Rightarrow> (case si_proof_requested d of Some f \<Rightarrow> f p | None \<Rightarrow> False))"

definition enable_ratchets :: "bytes list \<Rightarrow> single_in \<Rightarrow> single_in" where
  "enable_ratchets ratchets d = d\<lparr>si_ratchets := Some ratchets, si_latest_ratchet_time := 0\<rparr>"

definition disable_ratchets :: "single_in \<Rightarrow> single_in" where
  "disable_ratchets d = d\<lparr>si_ratchets := None, si_ratchets_enforced := False\<rparr>"

definition enforce_ratchets :: "single_in \<Rightarrow> bool \<times> single_in" where
  "enforce_ratchets d =
     (if si_ratchets d \<noteq> None then (True, d\<lparr>si_ratchets_enforced := True\<rparr>) else (False, d))"

definition set_default_app_data :: "bytes option \<Rightarrow> single_in \<Rightarrow> single_in" where
  "set_default_app_data app_data d = d\<lparr>si_default_app_data := app_data\<rparr>"

definition clear_default_app_data :: "single_in \<Rightarrow> single_in" where
  "clear_default_app_data d = d\<lparr>si_default_app_data := None\<rparr>"

definition set_accepts_links :: "bool \<Rightarrow> single_in \<Rightarrow> single_in" where
  "set_accepts_links accepts d = d\<lparr>si_accepts_links := accepts\<rparr>"

definition set_ratchet_interval :: "nat \<Rightarrow> single_in \<Rightarrow> single_in" where
  "set_ratchet_interval interval d = (if interval > 0 then d\<lparr>si_ratchet_interval := interval\<rparr> else d)"

definition clean_ratchets :: "single_in \<Rightarrow> single_in" where
  "clean_ratchets d = (case si_ratchets d of
       Some rs \<Rightarrow> if length rs > si_retained_ratchets d
                 then d\<lparr>si_ratchets := Some (take (min RATCHET_COUNT (si_retained_ratchets d)) rs)\<rparr> else d
     | None \<Rightarrow> d)"

definition set_retained_ratchets :: "nat \<Rightarrow> single_in \<Rightarrow> single_in" where
  "set_retained_ratchets count d =
     (if count > 0 then clean_ratchets (d\<lparr>si_retained_ratchets := count\<rparr>) else d)"

text \<open>\<open>fresh\<close> is the private key the random generator would deliver.\<close>

definition rotate_ratchets :: "bytes \<Rightarrow> nat \<Rightarrow> single_in \<Rightarrow> bytes option \<times> single_in" where
  "rotate_ratchets fresh now_secs d = (case si_ratchets d of
       None \<Rightarrow> (None, d)
     | Some rs \<Rightarrow>
         if now_secs > si_latest_ratchet_time d + si_ratchet_interval d
         then (Some fresh, clean_ratchets (d\<lparr>si_ratchets := Some (fresh # rs), si_latest_ratchet_time := now_secs\<rparr>))
         else (None, d))"

definition rotate_ratchets_if_due :: "crypto \<Rightarrow> bytes \<Rightarrow> nat \<Rightarrow> single_in \<Rightarrow> (bytes \<times> bytes) option \<times> single_in" where
  "rotate_ratchets_if_due C fresh now_secs d = (case si_ratchets d of
       None \<Rightarrow> (None, d)
     | Some rs \<Rightarrow>
         let rotate = (rs = [] \<or> now_secs > si_latest_ratchet_time d + si_ratchet_interval d);
             d = (if rotate
                  then clean_ratchets (d\<lparr>si_ratchets := Some (fresh # rs), si_latest_ratchet_time := now_secs\<rparr>)
                  else d)
         in case si_ratchets d of
              Some (private # _) \<Rightarrow> (Some (ratchet_public_from_private C private, private), d)
            | _ \<Rightarrow> (None, d))"

definition single_in_decrypt_ratchet ::
  "crypto \<Rightarrow> single_in \<Rightarrow> bytes \<Rightarrow> nat \<Rightarrow> (bytes \<times> bytes option) result" where
  "single_in_decrypt_ratchet C d data buf =
     decrypt_ratchet C (si_identity d) data (case si_ratchets d of Some rs \<Rightarrow> rs | None \<Rightarrow> [])
       (si_ratchets_enforced d) buf"

definition single_in_decrypt :: "crypto \<Rightarrow> single_in \<Rightarrow> bytes \<Rightarrow> nat \<Rightarrow> bytes result" where
  "single_in_decrypt C d data buf = map_sum id fst (single_in_decrypt_ratchet C d data buf)"

datatype destination_handle_status = HandleNone | HandleLinkProof

definition single_in_handle_packet :: "single_in \<Rightarrow> packet \<Rightarrow> destination_handle_status" where
  "single_in_handle_packet d p =
     (if si_address_hash d \<noteq> pk_destination p then HandleNone
      else if hd_packet_type (pk_header p) = LinkRequest then HandleLinkProof
      else HandleNone)"

section \<open>Announces\<close>

text \<open>
  The blob of an announce: five random bytes and the emission time. \<open>u64\<close> times are reduced to
  their eight bytes as \<^verbatim>\<open>to_be_bytes\<close> does.
\<close>

definition announce_blob :: "rns_hash \<Rightarrow> nat \<Rightarrow> bytes" where
  "announce_blob rand now_secs =
     take (RAND_HASH_LENGTH div 2) (hash_bytes rand) @ drop 3 (be_encode 8 now_secs)"

text \<open>
  The contents of a packet buffer, which is a bounded byte list: \<^verbatim>\<open>chain_safe_write\<close> of a list of
  pieces into an empty buffer cuts each piece at the capacity; \<^verbatim>\<open>write\<close> of the application data
  fails when it does not fit.
\<close>

definition safe_concat :: "bytes list \<Rightarrow> bytes" where
  "safe_concat ps = take PACKET_MDU (concat ps)"

definition write_app_data :: "bytes \<Rightarrow> bytes option \<Rightarrow> bytes result" where
  "write_app_data buf app_data = (case app_data of
       None \<Rightarrow> Inr buf
     | Some data \<Rightarrow> if length buf + length data > PACKET_MDU then Inl OutOfMemory else Inr (buf @ data))"

definition announce_at ::
  "crypto \<Rightarrow> bytes \<Rightarrow> rns_hash \<Rightarrow> bytes option \<Rightarrow> nat \<Rightarrow> single_in \<Rightarrow> packet result \<times> single_in" where
  "announce_at C fresh rand app_data now_secs d =
     (let app_data = (case app_data of Some a \<Rightarrow> Some a | None \<Rightarrow> si_default_app_data d);
          (keys, d) = rotate_ratchets_if_due C fresh now_secs d;
          ratchet = map_option fst keys;
          rand_hash = announce_blob rand now_secs;
          i = pi_identity (si_identity d);
          ratchet_part = (case ratchet of Some r \<Rightarrow> [r] | None \<Rightarrow> []);
          fields = [id_public_key i, id_verifying_key i, as_name_hash_slice (si_name d), rand_hash] @ ratchet_part
      in case write_app_data (safe_concat (addr_bytes (si_address_hash d) # fields)) app_data of
           Inl e \<Rightarrow> (Inl e, d)
         | Inr signed_data \<Rightarrow>
             let signature = private_identity_sign C (si_identity d) signed_data
             in case write_app_data (safe_concat (fields @ [signature])) app_data of
                  Inl e \<Rightarrow> (Inl e, d)
                | Inr data \<Rightarrow>
                    (Inr \<lparr>pk_header = \<lparr>hd_ifac_flag = Open, hd_context_flag = (ratchet \<noteq> None),
                            hd_header_type = Type1, hd_propagation_type = Broadcast,
                            hd_destination_type = Single, hd_packet_type = Announce, hd_hops = 0\<rparr>,
                          pk_ifac = None, pk_destination = si_address_hash d, pk_transport = None,
                          pk_context = Ctx_None, pk_data = data\<rparr>, d))"

definition path_response ::
  "crypto \<Rightarrow> bytes \<Rightarrow> rns_hash \<Rightarrow> bytes option \<Rightarrow> nat \<Rightarrow> single_in \<Rightarrow> packet result \<times> single_in" where
  "path_response C fresh rand app_data now_secs d =
     (case announce_at C fresh rand app_data now_secs d of
        (Inl e, d) \<Rightarrow> (Inl e, d)
      | (Inr p, d) \<Rightarrow> (Inr (p\<lparr>pk_context := Ctx_PathResponse\<rparr>), d))"

record announce_data =
  ad_app_data :: "bytes option"
  ad_ratchet :: "bytes option"

text \<open>The destination a validated announce describes: an identity and a name.\<close>

record single_out =
  so_identity :: identity
  so_name :: destination_name
  so_address_hash :: address_hash

definition single_out_new :: "crypto \<Rightarrow> identity \<Rightarrow> destination_name \<Rightarrow> single_out" where
  "single_out_new C i n = \<lparr>so_identity = i, so_name = n,
     so_address_hash = create_address_hash C (addr_bytes (id_address_hash i)) n\<rparr>"

definition slice_at :: "nat \<Rightarrow> nat \<Rightarrow> bytes \<Rightarrow> bytes" where
  "slice_at off n d = take n (drop off d)"

definition validate_announce :: "crypto \<Rightarrow> packet \<Rightarrow> (single_out \<times> announce_data) result" where
  "validate_announce C p =
     (if hd_packet_type (pk_header p) \<noteq> Announce then Inl PacketError
      else
        let announce_data = pk_data p;
            minimum = (if hd_context_flag (pk_header p)
                       then MIN_ANNOUNCE_DATA_LENGTH + RATCHET_KEY_LENGTH else MIN_ANNOUNCE_DATA_LENGTH)
        in if length announce_data < minimum then Inl OutOfMemory
        else
          let public_key = slice_at 0 PUBLIC_KEY_LENGTH announce_data;
              verifying_key = slice_at PUBLIC_KEY_LENGTH PUBLIC_KEY_LENGTH announce_data
          in if \<not> cr_ed_valid C verifying_key then Inl CryptoError
          else
            let i = identity_new C public_key verifying_key;
                offset = PUBLIC_KEY_LENGTH * 2;
                name_hash = slice_at offset NAME_HASH_LENGTH announce_data;
                offset = offset + NAME_HASH_LENGTH;
                rand_hash = slice_at offset RAND_HASH_LENGTH announce_data;
                offset = offset + RAND_HASH_LENGTH;
                ratchet = (if hd_context_flag (pk_header p)
                           then Some (slice_at offset RATCHET_KEY_LENGTH announce_data) else None);
                offset = (if hd_context_flag (pk_header p) then offset + RATCHET_KEY_LENGTH else offset);
                signature = slice_at offset SIGNATURE_LENGTH announce_data;
                offset = offset + SIGNATURE_LENGTH;
                app_data = (if length announce_data > MIN_ANNOUNCE_DATA_LENGTH
                            then Some (drop offset announce_data) else None);
                signed_data = addr_bytes (pk_destination p) @ public_key @ verifying_key @ name_hash
                  @ rand_hash @ (case ratchet of Some r \<Rightarrow> r | None \<Rightarrow> [])
                  @ (case app_data of Some a \<Rightarrow> a | None \<Rightarrow> [])
            in case identity_verify C i signed_data signature of
                 Inl e \<Rightarrow> Inl e
               | Inr _ \<Rightarrow>
                   if address_hash_new_from_hash (Hash (cr_sha C (name_hash @ addr_bytes (id_address_hash i))))
                        \<noteq> pk_destination p
                   then Inl IncorrectHash
                   else case destination_name_new_from_hash_slice name_hash of
                          None \<Rightarrow> Inl IncorrectHash
                        | Some n \<Rightarrow> Inr (single_out_new C i n, \<lparr>ad_app_data = app_data, ad_ratchet = ratchet\<rparr>))"

section \<open>Group and plain destinations\<close>

text \<open>
  Plain and group destinations have the empty identity, so their address depends on the name
  only. A group key is the raw key with the token keys made of its halves; the initialisation
  vector that the random generator delivers is the argument \<open>iv\<close>. The fields of the struct that no
  operation of these destinations changes are left out.
\<close>

definition GROUP_KEY_SIZE :: nat where "GROUP_KEY_SIZE = 64"

record group_key =
  gk_fernet :: token_cipher
  gk_raw :: bytes

definition group_key_from_bytes :: "bytes \<Rightarrow> group_key" where
  "group_key_from_bytes raw =
     \<lparr>gk_fernet = fernet_new_from_slices (take (GROUP_KEY_SIZE div 2) raw) (drop (GROUP_KEY_SIZE div 2) raw),
      gk_raw = raw\<rparr>"

definition group_key_encrypt :: "crypto \<Rightarrow> group_key \<Rightarrow> bytes \<Rightarrow> bytes \<Rightarrow> nat \<Rightarrow> bytes result option" where
  "group_key_encrypt C k iv plaintext buf = fernet_encrypt C (gk_fernet k) iv plaintext buf"

definition group_key_encrypt_with_rng :: "crypto \<Rightarrow> group_key \<Rightarrow> bytes \<Rightarrow> bytes \<Rightarrow> nat \<Rightarrow> bytes result option" where
  "group_key_encrypt_with_rng C k iv plaintext buf =
     fernet_encrypt C (fernet_new_from_slices (take (GROUP_KEY_SIZE div 2) (gk_raw k))
                                              (drop (GROUP_KEY_SIZE div 2) (gk_raw k))) iv plaintext buf"

definition group_key_decrypt :: "crypto \<Rightarrow> group_key \<Rightarrow> bytes \<Rightarrow> nat \<Rightarrow> bytes result" where
  "group_key_decrypt C k token buf = (case fernet_verify C (gk_fernet k) token of
       Inl e \<Rightarrow> Inl e
     | Inr verified \<Rightarrow> fernet_decrypt C (gk_fernet k) verified buf)"

record group_dest =
  gd_name :: destination_name
  gd_address_hash :: address_hash
  gd_group_key :: "group_key option"

definition plain_dest_new :: "crypto \<Rightarrow> destination_name \<Rightarrow> group_dest" where
  "plain_dest_new C n = \<lparr>gd_name = n, gd_address_hash = create_address_hash C [] n, gd_group_key = None\<rparr>"

definition group_dest_new :: "crypto \<Rightarrow> destination_name \<Rightarrow> group_dest" where
  "group_dest_new C n = \<lparr>gd_name = n, gd_address_hash = create_address_hash C [] n, gd_group_key = None\<rparr>"

definition create_group_key :: "bytes \<Rightarrow> group_dest \<Rightarrow> bytes \<times> group_dest" where
  "create_group_key fresh d =
     (let key = group_key_from_bytes fresh in (gk_raw key, d\<lparr>gd_group_key := Some key\<rparr>))"

definition load_group_key :: "bytes \<Rightarrow> group_dest \<Rightarrow> group_dest" where
  "load_group_key key d = d\<lparr>gd_group_key := Some (group_key_from_bytes key)\<rparr>"

definition group_encrypted :: "group_dest \<Rightarrow> bool" where
  "group_encrypted d = (gd_group_key d \<noteq> None)"

definition encrypt_group :: "crypto \<Rightarrow> group_dest \<Rightarrow> bytes \<Rightarrow> bytes \<Rightarrow> nat \<Rightarrow> bytes result option" where
  "encrypt_group C d iv plaintext buf = (case gd_group_key d of
       Some key \<Rightarrow> group_key_encrypt C key iv plaintext buf
     | None \<Rightarrow> Some (Inl CryptoError))"

definition encrypt_group_with_rng :: "crypto \<Rightarrow> group_dest \<Rightarrow> bytes \<Rightarrow> bytes \<Rightarrow> nat \<Rightarrow> bytes result option" where
  "encrypt_group_with_rng C d iv plaintext buf = (case gd_group_key d of
       Some key \<Rightarrow> group_key_encrypt_with_rng C key iv plaintext buf
     | None \<Rightarrow> Some (Inl CryptoError))"

definition decrypt_group :: "crypto \<Rightarrow> group_dest \<Rightarrow> bytes \<Rightarrow> nat \<Rightarrow> bytes result" where
  "decrypt_group C d ciphertext buf = (case gd_group_key d of
       Some key \<Rightarrow> group_key_decrypt C key ciphertext buf
     | None \<Rightarrow> Inl CryptoError)"

text \<open>What one member of a group encrypts every member that loaded the key decrypts.\<close>

lemma group_members_share:
  assumes "cipher_ok C" and "length iv = 16"
    and "encrypt_group C (load_group_key key d) iv t buf = Some (Inr token)" and "length token \<le> buf' + 48"
  shows "decrypt_group C (snd (create_group_key key d')) token buf' = Inr t"
proof -
  have "token = fernet_token C (gk_fernet (group_key_from_bytes key)) iv t"
    using assms(3) fernet_encrypt_cases [OF assms(1,2)]
    by (auto simp: encrypt_group_def load_group_key_def group_key_encrypt_def split: if_splits)
  then show ?thesis
    using assms(4) length_fernet_token [OF assms(1,2)]
    by (simp add: decrypt_group_def create_group_key_def Let_def group_key_decrypt_def
        fernet_verify_token [OF assms(1,2)] fernet_decrypt_token [OF assms(1,2)])
qed

section \<open>Ratchet rotation\<close>

text \<open>A destination whose stored address belongs to its name and identity.\<close>

definition single_in_ok :: "crypto \<Rightarrow> single_in \<Rightarrow> bool" where
  "single_in_ok C d \<longleftrightarrow> private_identity_ok C (si_identity d)
     \<and> length (hash_bytes (name_hash (si_name d))) = 32
     \<and> si_address_hash d = create_address_hash C (addr_bytes (id_address_hash (pi_identity (si_identity d)))) (si_name d)"

definition ratchets_ok :: "single_in \<Rightarrow> bool" where
  "ratchets_ok d \<longleftrightarrow> 0 < si_retained_ratchets d
     \<and> (case si_ratchets d of None \<Rightarrow> True | Some rs \<Rightarrow> length rs \<le> si_retained_ratchets d)"

lemma clean_ratchets_frame [simp]:
  "si_identity (clean_ratchets d) = si_identity d" "si_name (clean_ratchets d) = si_name d"
  "si_address_hash (clean_ratchets d) = si_address_hash d"
  "si_retained_ratchets (clean_ratchets d) = si_retained_ratchets d"
  "si_latest_ratchet_time (clean_ratchets d) = si_latest_ratchet_time d"
  "si_ratchet_interval (clean_ratchets d) = si_ratchet_interval d"
  "si_default_app_data (clean_ratchets d) = si_default_app_data d"
  by (auto simp: clean_ratchets_def split: option.splits)

lemma clean_ratchets_list:
  "si_ratchets (clean_ratchets d) = map_option (\<lambda>rs. if length rs > si_retained_ratchets d
     then take (min RATCHET_COUNT (si_retained_ratchets d)) rs else rs) (si_ratchets d)"
  by (simp add: clean_ratchets_def split: option.split)

lemma clean_ratchets_ok: "0 < si_retained_ratchets d \<Longrightarrow> ratchets_ok (clean_ratchets d)"
  by (simp add: ratchets_ok_def clean_ratchets_list split: option.split)

lemma rotate_if_due_frame [simp]:
  "si_identity (snd (rotate_ratchets_if_due C fresh now d)) = si_identity d"
  "si_name (snd (rotate_ratchets_if_due C fresh now d)) = si_name d"
  "si_address_hash (snd (rotate_ratchets_if_due C fresh now d)) = si_address_hash d"
  by (simp_all add: rotate_ratchets_if_due_def split: option.split list.split)

text \<open>
  An announce of a destination with ratchets always carries a ratchet: the newest one,
  fresh when the list was empty or the interval has passed. Rotation puts the fresh key first,
  keeps the order of the others and never retains more than the configured number.
\<close>

theorem announce_ratchet_rotation:
  assumes ok: "ratchets_ok d" and rs: "si_ratchets d = Some rs"
    and rot: "rotate_ratchets_if_due C fresh now d = (keys, d')"
  shows "ratchets_ok d' \<and> (\<exists>rest. si_ratchets d' = Some ((if rs = [] \<or> now > si_latest_ratchet_time d + si_ratchet_interval d
              then fresh else hd rs) # rest) \<and> prefix rest (if rs = [] \<or> now > si_latest_ratchet_time d + si_ratchet_interval d
              then rs else tl rs))
    \<and> keys = Some (ratchet_public_from_private C (hd (the (si_ratchets d'))), hd (the (si_ratchets d')))"
proof (cases "rs = [] \<or> now > si_latest_ratchet_time d + si_ratchet_interval d")
  case True
  let ?d = "d\<lparr>si_ratchets := Some (fresh # rs), si_latest_ratchet_time := now\<rparr>"
  obtain rest where rest: "si_ratchets (clean_ratchets ?d) = Some (fresh # rest)" "prefix rest rs"
  proof (cases "si_retained_ratchets d")
    case 0
    then show ?thesis using ok by (simp add: ratchets_ok_def)
  next
    case (Suc n)
    then have "\<exists>m. min RATCHET_COUNT (si_retained_ratchets d) = Suc m"
      by (simp add: RATCHET_COUNT_def min_def)
    then show ?thesis
      by (intro that [of "if Suc (length rs) > si_retained_ratchets d
            then take (min RATCHET_COUNT (si_retained_ratchets d) - 1) rs else rs"])
        (auto simp: clean_ratchets_list take_is_prefix)
  qed
  have "ratchets_ok (clean_ratchets ?d)"
    by (rule clean_ratchets_ok) (use ok in \<open>simp add: ratchets_ok_def\<close>)
  with True rs rot rest show ?thesis
    by (auto simp: rotate_ratchets_if_due_def)
next
  case False
  then obtain r rest where "rs = r # rest" by (cases rs) auto
  with False rs rot ok show ?thesis
    by (auto simp: rotate_ratchets_if_due_def)
qed

section \<open>Announces validate\<close>

lemma slice_at_append:
  "length a = off \<Longrightarrow> slice_at (off + k) n (a @ b) = slice_at k n b"
  by (simp add: slice_at_def)

lemma slice_at_0: "length a = n \<Longrightarrow> slice_at 0 n (a @ b) = a"
  by (simp add: slice_at_def)

text \<open>The layout of announce data.\<close>

definition announce_layout :: "identity \<Rightarrow> bytes \<Rightarrow> bytes \<Rightarrow> bytes option \<Rightarrow> bytes \<Rightarrow> bytes \<Rightarrow> bytes" where
  "announce_layout i name blob ratchet sig app =
     id_public_key i @ id_verifying_key i @ name @ blob @ (case ratchet of Some r \<Rightarrow> r | None \<Rightarrow> []) @ sig @ app"

lemma announce_layout_parse:
  assumes len: "length (id_public_key i) = 32" "length (id_verifying_key i) = 32" "length name = 10"
    "length blob = 10" "length sig = 64" and r: "\<And>r. ratchet = Some r \<Longrightarrow> length r = 32"
    and D: "D = announce_layout i name blob ratchet sig app" and k: "k = (if ratchet \<noteq> None then 32 else 0)"
  shows "slice_at 0 32 D = id_public_key i" "slice_at 32 32 D = id_verifying_key i"
    "slice_at 64 10 D = name" "slice_at 74 10 D = blob"
    "ratchet \<noteq> None \<Longrightarrow> Some (slice_at 84 32 D) = ratchet"
    "slice_at (84 + k) 64 D = sig" "drop (148 + k) D = app" "length D = 148 + k + length app"
  using len r unfolding D k announce_layout_def slice_at_def
  by (cases ratchet; simp)+

lemma identity_keys:
  assumes "private_identity_ok C p" "exchange_ok C" "signature_ok C"
  shows "length (id_public_key (pi_identity p)) = 32" "length (id_verifying_key (pi_identity p)) = 32"
    "cr_ed_valid C (id_verifying_key (pi_identity p))"
    "identity_new C (id_public_key (pi_identity p)) (id_verifying_key (pi_identity p)) = pi_identity p"
    "cr_ed_verify C (id_verifying_key (pi_identity p)) m (private_identity_sign C p m)"
    "length (private_identity_sign C p m) = 64"
proof -
  have i: "pi_identity p = identity_new C (cr_x_public C (pi_private_key p)) (cr_ed_public C (pi_sign_key p))"
    using assms(1) by (metis private_identity_ok_def private_identity_new_def private_identity.select_convs(1))
  show "length (id_public_key (pi_identity p)) = 32" "length (id_verifying_key (pi_identity p)) = 32"
    "cr_ed_valid C (id_verifying_key (pi_identity p))"
    "identity_new C (id_public_key (pi_identity p)) (id_verifying_key (pi_identity p)) = pi_identity p"
    "cr_ed_verify C (id_verifying_key (pi_identity p)) m (private_identity_sign C p m)"
    "length (private_identity_sign C p m) = 64"
    using assms(2,3) by (simp_all add: i identity_new_def exchange_ok_def signature_ok_def private_identity_sign_def)
qed

text \<open>What the signature of an announce covers.\<close>

definition announce_signed :: "address_hash \<Rightarrow> identity \<Rightarrow> bytes \<Rightarrow> bytes \<Rightarrow> bytes option \<Rightarrow> bytes \<Rightarrow> bytes" where
  "announce_signed a i name blob ratchet app =
     addr_bytes a @ id_public_key i @ id_verifying_key i @ name @ blob
       @ (case ratchet of Some r \<Rightarrow> r | None \<Rightarrow> []) @ app"

lemma validate_layout:
  assumes len: "length (id_public_key i) = 32" "length (id_verifying_key i) = 32" "length name = 10"
    "length blob = 10" "length sig = 64" and r: "\<And>r. ratchet = Some r \<Longrightarrow> length r = 32"
    and i: "cr_ed_valid C (id_verifying_key i)" "identity_new C (id_public_key i) (id_verifying_key i) = i"
    and p: "hd_packet_type (pk_header p) = Announce" "hd_context_flag (pk_header p) = (ratchet \<noteq> None)"
      "pk_data p = announce_layout i name blob ratchet sig app"
  shows "validate_announce C p =
    (if \<not> cr_ed_verify C (id_verifying_key i) (announce_signed (pk_destination p) i name blob ratchet app) sig
     then Inl IncorrectSignature
     else if address_hash_new_from_hash (Hash (cr_sha C (name @ addr_bytes (id_address_hash i)))) \<noteq> pk_destination p
     then Inl IncorrectHash
     else Inr (single_out_new C i (DestinationName (Hash (name @ replicate 22 0))),
            \<lparr>ad_app_data = (if ratchet = None \<and> app = [] then None else Some app), ad_ratchet = ratchet\<rparr>))"
proof -
  note parse = announce_layout_parse [OF len r p(3) refl]
  show ?thesis
  proof (cases ratchet)
    case None
    then show ?thesis
      using parse len p i
      by (simp add: validate_announce_def announce_sizes identity_verify_def announce_signed_def
          destination_name_new_from_hash_slice_def)
  next
    case (Some r)
    then show ?thesis
      using parse len p i
      by (simp add: validate_announce_def announce_sizes identity_verify_def announce_signed_def
          destination_name_new_from_hash_slice_def)
  qed
qed

lemma safe_concat_short: "length (concat ps) \<le> PACKET_MDU \<Longrightarrow> safe_concat ps = concat ps"
  by (simp add: safe_concat_def)

lemma write_app_data_Inr:
  "write_app_data buf a = Inr out \<Longrightarrow> out = buf @ (case a of Some x \<Rightarrow> x | None \<Rightarrow> [])"
  by (auto simp: write_app_data_def split: option.splits if_splits)

lemma length_announce_blob: "hash_ok rand \<Longrightarrow> length (announce_blob rand now) = 10"
  by (simp add: announce_blob_def RAND_HASH_LENGTH_def hash_ok_def HASH_SIZE_def)

lemma create_address_ok: "sha_ok (cr_sha C) \<Longrightarrow> addr_ok (create_address_hash C a n)"
  by (simp add: create_address_hash_def address_hash_new_from_hash_ok hash_ok_def sha_ok_def HASH_SIZE_def)

text \<open>The data of a built announce.\<close>

lemma announce_at_Inr:
  assumes d: "single_in_ok C d" and C: "exchange_ok C" "signature_ok C" "sha_ok (cr_sha C)"
    and rand: "hash_ok rand" and ann: "announce_at C fresh rand app now d = (Inr p, d')"
    and rot: "rotate_ratchets_if_due C fresh now d = (keys, d')"
    and ratchet: "ratchet = map_option fst keys" and rlen: "\<And>r. ratchet = Some r \<Longrightarrow> length r = 32"
    and a: "a = (case (case app of Some a \<Rightarrow> Some a | None \<Rightarrow> si_default_app_data d) of Some x \<Rightarrow> x | None \<Rightarrow> [])"
    and i: "i = pi_identity (si_identity d)" and n: "name = as_name_hash_slice (si_name d)"
    and b: "blob = announce_blob rand now"
  shows "pk_data p = announce_layout i name blob ratchet
      (private_identity_sign C (si_identity d) (announce_signed (si_address_hash d) i name blob ratchet a)) a"
    and "hd_packet_type (pk_header p) = Announce" and "hd_context_flag (pk_header p) = (ratchet \<noteq> None)"
    and "pk_destination p = si_address_hash d"
proof -
  note frame = rotate_if_due_frame [of C fresh now d, unfolded rot snd_conv]
  note keys = identity_keys [OF _ C(1,2), of "si_identity d"]
  have p_ok: "private_identity_ok C (si_identity d)" and hlen: "length (hash_bytes (name_hash (si_name d))) = 32"
    using d by (auto simp: single_in_ok_def)
  have alen: "length (addr_bytes (si_address_hash d)) = 16"
    using d C(3) create_address_ok by (fastforce simp: single_in_ok_def addr_ok_def ADDRESS_HASH_SIZE_def)
  define rp where "rp = (case ratchet of Some r \<Rightarrow> [r] | None \<Rightarrow> [])"
  have rp: "length (concat rp) \<le> 32" "concat rp = (case ratchet of Some r \<Rightarrow> r | None \<Rightarrow> [])"
    using rlen by (auto simp: rp_def split: option.splits)
  have rpk: "(case keys of None \<Rightarrow> [] | Some x \<Rightarrow> ((\<lambda>r. [r]) \<circ> fst) x) = rp"
    by (cases keys) (simp_all add: rp_def ratchet)
  have lens: "length (id_public_key i) = 32" "length (id_verifying_key i) = 32" "length name = 10" "length blob = 10"
    using keys p_ok hlen rand by (simp_all add: i n b length_announce_blob as_name_hash_slice_def NAME_HASH_LENGTH_def)
  let ?fields = "[id_public_key i, id_verifying_key i, name, blob] @ rp"
  have short: "safe_concat (addr_bytes (si_address_hash d) # ?fields) = concat (addr_bytes (si_address_hash d) # ?fields)"
    by (rule safe_concat_short) (use lens alen rp(1) in \<open>simp add: PACKET_MDU_def\<close>)
  have short': "safe_concat (?fields @ [s]) = concat (?fields @ [s])" if "length s = 64" for s
    by (rule safe_concat_short) (use lens that rp(1) in \<open>simp add: PACKET_MDU_def\<close>)
  have signed: "concat (addr_bytes (si_address_hash d) # ?fields) @ a = announce_signed (si_address_hash d) i name blob ratchet a"
    by (simp add: announce_signed_def rp)
  show "pk_data p = announce_layout i name blob ratchet
      (private_identity_sign C (si_identity d) (announce_signed (si_address_hash d) i name blob ratchet a)) a"
    using ann keys(6) [OF p_ok] signed
    by (auto simp: announce_at_def rot frame announce_layout_def short [simplified] short' [simplified] rp rpk
        simp flip: ratchet rp_def i n b a
        dest!: write_app_data_Inr split: sum.splits)
  show "hd_packet_type (pk_header p) = Announce" "hd_context_flag (pk_header p) = (ratchet \<noteq> None)"
    "pk_destination p = si_address_hash d"
    using ann by (auto simp: announce_at_def rot frame ratchet split: sum.splits)
qed

lemma name_from_slice:
  "length name = 10 \<Longrightarrow> as_name_hash_slice (DestinationName (Hash (name @ replicate 22 0))) = name"
  by (simp add: as_name_hash_slice_def NAME_HASH_LENGTH_def)

lemma announce_accepted:
  assumes d: "single_in_ok C d" and C: "exchange_ok C" "signature_ok C" "sha_ok (cr_sha C)"
    and rand: "hash_ok rand" and ann: "announce_at C fresh rand app now d = (Inr p, d')"
    and rot: "rotate_ratchets_if_due C fresh now d = (keys, d')"
    and q: "hd_packet_type (pk_header q) = hd_packet_type (pk_header p)"
      "hd_context_flag (pk_header q) = hd_context_flag (pk_header p)"
      "pk_destination q = pk_destination p" "pk_data q = pk_data p"
    and a: "a = (case (case app of Some a \<Rightarrow> Some a | None \<Rightarrow> si_default_app_data d) of Some x \<Rightarrow> x | None \<Rightarrow> [])"
  shows "validate_announce C q =
      Inr (single_out_new C (pi_identity (si_identity d))
             (DestinationName (Hash (as_name_hash_slice (si_name d) @ replicate 22 0))),
           \<lparr>ad_app_data = (if map_option fst keys = None \<and> a = [] then None else Some a),
            ad_ratchet = map_option fst keys\<rparr>)"
proof -
  let ?i = "pi_identity (si_identity d)" and ?n = "as_name_hash_slice (si_name d)"
    and ?r = "map_option fst keys"
  have rlen: "\<And>r. ?r = Some r \<Longrightarrow> length r = 32"
    using rot C(1) by (auto simp: rotate_ratchets_if_due_def exchange_ok_def ratchet_public_from_private_def
        split: option.splits list.splits)
  have p_ok: "private_identity_ok C (si_identity d)" and nlen: "length ?n = 10"
    and addr: "si_address_hash d = create_address_hash C (addr_bytes (id_address_hash ?i)) (si_name d)"
    using d by (auto simp: single_in_ok_def as_name_hash_slice_def NAME_HASH_LENGTH_def)
  note built = announce_at_Inr [OF d C rand ann rot refl rlen a refl refl refl]
  note keys' = identity_keys [OF p_ok C(1,2)]
  show ?thesis
    by (subst validate_layout [OF keys'(1,2) nlen length_announce_blob [OF rand] keys'(6) rlen keys'(3,4)])
      (use built q keys'(5) addr in \<open>auto simp: create_address_hash_def\<close>)
qed

text \<open>
  Claim C6. Every announce a destination builds validates, also after relays that change only
  routing fields: the receiver learns the destination's identity, name hash and address, the
  newest ratchet, and the application data, its own or the default. An absent or empty payload
  of an announce without ratchet is reported as absent.
\<close>

theorem announce_validates:
  assumes d: "single_in_ok C d" and C: "exchange_ok C" "signature_ok C" "sha_ok (cr_sha C)"
    and rand: "hash_ok rand" and ann: "announce_at C fresh rand app now d = (Inr p, d')"
    and rot: "rotate_ratchets_if_due C fresh now d = (keys, d')"
    and q: "hd_packet_type (pk_header q) = hd_packet_type (pk_header p)"
      "hd_context_flag (pk_header q) = hd_context_flag (pk_header p)"
      "pk_destination q = pk_destination p" "pk_data q = pk_data p"
  shows "\<exists>out. validate_announce C q = Inr (out,
        \<lparr>ad_app_data = (let a = (case app of Some a \<Rightarrow> Some a | None \<Rightarrow> si_default_app_data d) in
            if keys = None \<and> a \<in> {None, Some []} then None else Some (case a of Some x \<Rightarrow> x | None \<Rightarrow> [])),
         ad_ratchet = map_option fst keys\<rparr>)
     \<and> so_identity out = pi_identity (si_identity d) \<and> so_address_hash out = si_address_hash d
     \<and> desc_hash_matches (so_name out) (si_name d)"
proof -
  have addr: "si_address_hash d = create_address_hash C (addr_bytes (id_address_hash (pi_identity (si_identity d)))) (si_name d)"
    and nlen: "length (as_name_hash_slice (si_name d)) = 10"
    using d by (auto simp: single_in_ok_def as_name_hash_slice_def NAME_HASH_LENGTH_def)
  from announce_accepted [OF d C rand ann rot q refl] show ?thesis
    using addr name_from_slice [OF nlen]
    by (auto simp: single_out_new_def create_address_hash_def desc_hash_matches_def split: option.splits)
qed

text \<open>
  Claim C5. A validated announce is authentic as a whole: its data is the identity's keys, the
  name hash, the blob, the ratchet, the signature and the application data; the signature is
  valid for the address and all the other fields; and the address belongs to that identity and
  name.
\<close>

theorem validated_announce_authentic:
  assumes v: "validate_announce C p = Inr (out, ad)"
  shows "so_address_hash out = pk_destination p
    \<and> (\<exists>blob sig. let app = (case ad_app_data ad of Some a \<Rightarrow> a | None \<Rightarrow> []) in
         pk_data p = announce_layout (so_identity out) (as_name_hash_slice (so_name out)) blob (ad_ratchet ad) sig app
         \<and> length sig = SIGNATURE_LENGTH
         \<and> cr_ed_verify C (id_verifying_key (so_identity out))
             (announce_signed (pk_destination p) (so_identity out) (as_name_hash_slice (so_name out)) blob
               (ad_ratchet ad) app) sig)"
proof -
  let ?D = "pk_data p" and ?c = "hd_context_flag (pk_header p)"
  let ?k = "if ?c then 32 else 0 :: nat"
  let ?i = "identity_new C (slice_at 0 32 ?D) (slice_at 32 32 ?D)"
  let ?ratchet = "if ?c then Some (slice_at 84 32 ?D) else None"
  let ?sig = "slice_at (84 + ?k) 64 ?D" and ?app = "drop (148 + ?k) ?D"
  have ty: "hd_packet_type (pk_header p) = Announce" and long: "148 + ?k \<le> length ?D"
    and valid: "cr_ed_valid C (slice_at 32 32 ?D)"
    using v by (auto simp: validate_announce_def announce_sizes split: if_splits)
  have split: "?D = announce_layout ?i (slice_at 64 10 ?D) (slice_at 74 10 ?D) ?ratchet ?sig ?app"
  proof -
    have cut: "drop off ?D = slice_at off n ?D @ drop (off + n) ?D" for off n
      by (metis append_take_drop_id drop_drop slice_at_def add.commute)
    show ?thesis
      using cut [of 0 32] cut [of 32 32] cut [of 64 10] cut [of 74 10] cut [of 84 32]
        cut [of 84 64] cut [of 116 64]
      by (simp add: announce_layout_def identity_new_def)
  qed
  have lens: "length (id_public_key ?i) = 32" "length (id_verifying_key ?i) = 32"
    "length (slice_at 64 10 ?D) = 10" "length (slice_at 74 10 ?D) = 10" "length ?sig = 64"
    "\<And>r. ?ratchet = Some r \<Longrightarrow> length r = 32"
    using long by (auto simp: slice_at_def identity_new_def split: if_splits)
  have ids: "cr_ed_valid C (id_verifying_key ?i)" "identity_new C (id_public_key ?i) (id_verifying_key ?i) = ?i"
    using valid by (simp_all add: identity_new_def)
  have flag: "?c = (?ratchet \<noteq> None)" by simp
  note val = trans [OF validate_layout [OF lens ids ty flag split, symmetric] v]
  have app: "(case ad_app_data ad of Some a \<Rightarrow> a | None \<Rightarrow> []) = ?app"
    and out: "out = single_out_new C ?i (DestinationName (Hash (slice_at 64 10 ?D @ replicate 22 0)))"
    and rat: "ad_ratchet ad = ?ratchet"
    and ver: "cr_ed_verify C (id_verifying_key ?i)
        (announce_signed (pk_destination p) ?i (slice_at 64 10 ?D) (slice_at 74 10 ?D) ?ratchet ?app) ?sig"
    and addr: "address_hash_new_from_hash (Hash (cr_sha C (slice_at 64 10 ?D @ addr_bytes (id_address_hash ?i)))) = pk_destination p"
    using val by (auto split: if_splits)
  have nm: "as_name_hash_slice (so_name out) = slice_at 64 10 ?D" "so_identity out = ?i"
    using name_from_slice [OF lens(3)] by (simp_all add: out single_out_new_def)
  have "so_address_hash out = pk_destination p"
    using addr nm(1) by (simp add: out single_out_new_def create_address_hash_def)
  then show ?thesis
    unfolding app Let_def nm rat SIGNATURE_LENGTH_def
    using split ver lens(5) by (intro conjI exI [of _ "slice_at 74 10 ?D"] exI [of _ ?sig]) assumption+
qed

text \<open>A destination with ratchets, its announce, and what the receiver makes of it.\<close>

definition single_in_example :: single_in where
  "single_in_example = enable_ratchets []
     (single_in_new toy_crypto private_identity_example (DestinationName (Hash (replicate 32 6))))"

definition announce_packet_example :: "packet result \<times> single_in" where
  "announce_packet_example = announce_at toy_crypto (replicate 32 8) (Hash (replicate 32 1)) (Some [1, 2]) 77 single_in_example"

lemma single_in_example_ok: "single_in_ok toy_crypto single_in_example"
  using private_identity_example_ok
  by (simp add: single_in_example_def single_in_ok_def single_in_new_def enable_ratchets_def)

lemma single_in_example_rotate:
  "rotate_ratchets_if_due toy_crypto (replicate 32 8) 77 single_in_example =
     (Some (replicate 32 0, replicate 32 8),
      single_in_example\<lparr>si_ratchets := Some [replicate 32 8], si_latest_ratchet_time := 77\<rparr>)"
  by (simp add: rotate_ratchets_if_due_def single_in_example_def single_in_new_def enable_ratchets_def
      clean_ratchets_def RATCHET_COUNT_def ratchet_public_from_private_def toy_crypto_def)

lemma announce_example_built: "\<exists>p. announce_packet_example =
    (Inr p, single_in_example\<lparr>si_ratchets := Some [replicate 32 8], si_latest_ratchet_time := 77\<rparr>)"
proof -
  have "length (concat ps) + 2 \<le> PACKET_MDU \<Longrightarrow> write_app_data (safe_concat ps) (Some [1, 2]) = Inr (safe_concat ps @ [1, 2])" for ps
    by (simp add: write_app_data_def safe_concat_def)
  moreover have "length (id_public_key (pi_identity private_identity_example)) = 32"
    "length (id_verifying_key (pi_identity private_identity_example)) = 32"
    using identity_keys [OF private_identity_example_ok toy_crypto_ok(2,3)] by auto
  ultimately show ?thesis
    using create_address_ok [OF toy_crypto_ok(5)] identity_keys(6) [OF private_identity_example_ok toy_crypto_ok(2,3)]
    by (simp add: announce_packet_example_def announce_at_def single_in_example_rotate)
      (simp add: single_in_example_def single_in_new_def enable_ratchets_def PACKET_MDU_def addr_ok_def
        ADDRESS_HASH_SIZE_def as_name_hash_slice_def NAME_HASH_LENGTH_def length_announce_blob hash_ok_def HASH_SIZE_def)
qed

theorem announce_validates_witness:
  "case announce_packet_example of (Inr p, d') \<Rightarrow>
     \<exists>out. validate_announce toy_crypto p = Inr (out, \<lparr>ad_app_data = Some [1, 2], ad_ratchet = Some (replicate 32 0)\<rparr>)
   | _ \<Rightarrow> False"
proof -
  obtain p where p: "announce_packet_example =
      (Inr p, single_in_example\<lparr>si_ratchets := Some [replicate 32 8], si_latest_ratchet_time := 77\<rparr>)"
    using announce_example_built by blast
  from announce_validates [OF single_in_example_ok toy_crypto_ok(2,3,5) _
      p [unfolded announce_packet_example_def] single_in_example_rotate refl refl refl refl]
  show ?thesis
    by (auto simp: p hash_ok_def HASH_SIZE_def)
qed

theorem validated_announce_authentic_witness:
  "case announce_packet_example of (Inr p, d') \<Rightarrow>
     (case validate_announce toy_crypto p of
        Inr (out, ad) \<Rightarrow> so_address_hash out = pk_destination p | _ \<Rightarrow> False)
   | _ \<Rightarrow> False"
proof -
  obtain p where p: "announce_packet_example =
      (Inr p, single_in_example\<lparr>si_ratchets := Some [replicate 32 8], si_latest_ratchet_time := 77\<rparr>)"
    using announce_example_built by blast
  have h: "hash_ok (Hash (replicate 32 1))" by (simp add: hash_ok_def HASH_SIZE_def)
  obtain out ad where v: "validate_announce toy_crypto p = Inr (out, ad)"
    using announce_accepted [OF single_in_example_ok toy_crypto_ok(2,3,5) h
        p [unfolded announce_packet_example_def] single_in_example_rotate refl refl refl refl refl] by blast
  show ?thesis
    using conjunct1 [OF validated_announce_authentic [OF v]] by (simp add: p v)
qed

theorem announce_ratchet_rotation_witness:
  "ratchets_ok (single_in_example\<lparr>si_ratchets := Some [replicate 32 8], si_latest_ratchet_time := 77\<rparr>)"
  using announce_ratchet_rotation [OF _ _ single_in_example_rotate]
  by (simp add: single_in_example_def single_in_new_def enable_ratchets_def ratchets_ok_def RATCHET_COUNT_def)

end
