(* ===== verification/Rns_Path_Requests.thy ===== *)
theory Rns_Path_Requests
  imports Rns_Destination
begin

text \<open>
  Path requests, \<^verbatim>\<open>src/transport/path_requests.rs\<close>: the request packet, the filter for repeated
  requests, the interval between automated requests, and the discovery requests a node makes on
  behalf of others.

  The random tag and the clock are arguments. A \<^verbatim>\<open>BTreeSet\<close> is a sorted map to \<open>unit\<close>; the instance
  name, used for logging only, is left out. The theory shows what a receiver reads from a
  generated request, when a request counts as a repetition, and that a discovery is searched
  once and answered to every interface that asked.
\<close>

section \<open>Requests\<close>

definition PATH_REQUEST_TIMEOUT :: nanos where "PATH_REQUEST_TIMEOUT = secs 15"
definition PATH_REQUEST_GATE_TIMEOUT :: nanos where "PATH_REQUEST_GATE_TIMEOUT = secs 45"
definition MAX_REMEMBERED_TAGS :: nat where "MAX_REMEMBERED_TAGS = 4096"

definition ascii_bytes :: "string \<Rightarrow> bytes" where
  "ascii_bytes s = map of_char s"

definition create_path_request_destination :: "crypto \<Rightarrow> group_dest" where
  "create_path_request_destination C =
     plain_dest_new C (destination_name_new C (ascii_bytes ''rnstransport'') (ascii_bytes ''path.request''))"

record path_request =
  pr_destination :: address_hash
  pr_requesting_transport :: "address_hash option"
  pr_tag_bytes :: bytes

definition path_request_decode :: "sha \<Rightarrow> bytes \<Rightarrow> path_request option" where
  "path_request_decode sha data =
     (if length data \<le> ADDRESS_HASH_SIZE then None
      else
        let destination = AddressHash (take ADDRESS_HASH_SIZE data);
            (requesting_transport, tag_start) =
              (if length data > ADDRESS_HASH_SIZE * 2
               then (Some (address_hash_new_from_slice sha (take ADDRESS_HASH_SIZE (drop ADDRESS_HASH_SIZE data))),
                     ADDRESS_HASH_SIZE * 2)
               else (None, ADDRESS_HASH_SIZE));
            tag_end = (if length data - tag_start > ADDRESS_HASH_SIZE
                       then tag_start + ADDRESS_HASH_SIZE else length data)
        in Some \<lparr>pr_destination = destination, pr_requesting_transport = requesting_transport,
                 pr_tag_bytes = take (tag_end - tag_start) (drop tag_start data)\<rparr>)"

record pending_discovery =
  pd_deadline :: nanos
  pd_wait :: nanos
  pd_ifaces :: "address_hash list"

record path_requests =
  prs_cache :: "(address_hash \<times> bytes, unit) btree_map"
  prs_transport_id :: "address_hash option"
  prs_controlled :: group_dest
  prs_discovery :: "(address_hash, pending_discovery) btree_map"
  prs_pending :: "(address_hash, nanos) btree_map"
  prs_last_request :: "(address_hash, nanos) btree_map"
  prs_min_request_interval :: nanos

definition discovery_wait :: "nanos \<Rightarrow> nanos" where
  "discovery_wait medium_path_timeout = max PATH_REQUEST_TIMEOUT medium_path_timeout"

definition lengthen_discovery_wait :: "nanos \<Rightarrow> pending_discovery \<Rightarrow> pending_discovery" where
  "lengthen_discovery_wait medium_path_timeout e =
     (let wait = discovery_wait medium_path_timeout
      in if wait > pd_wait e
         then e\<lparr>pd_deadline := pd_deadline e + (wait - pd_wait e), pd_wait := wait\<rparr> else e)"

definition path_requests_new :: "crypto \<Rightarrow> address_hash option \<Rightarrow> path_requests" where
  "path_requests_new C transport_id =
     \<lparr>prs_cache = [], prs_transport_id = transport_id,
      prs_controlled = create_path_request_destination C, prs_discovery = [], prs_pending = [],
      prs_last_request = [], prs_min_request_interval = secs 20\<rparr>"

text \<open>\<^verbatim>\<open>while self.cache.len() >= MAX_REMEMBERED_TAGS\<close> removes the first element of the sorted set.\<close>

definition evict_tags :: "(address_hash \<times> bytes, unit) btree_map \<Rightarrow> (address_hash \<times> bytes, unit) btree_map" where
  "evict_tags c = trim_front (MAX_REMEMBERED_TAGS - 1) c"

definition path_requests_decode :: "sha \<Rightarrow> bytes \<Rightarrow> path_requests \<Rightarrow> path_request option \<times> path_requests" where
  "path_requests_decode sha data s =
     (case path_request_decode sha data of
        None \<Rightarrow> (None, s)
      | Some request \<Rightarrow>
          let cache = evict_tags (prs_cache s);
              key = (pr_destination request, pr_tag_bytes request);
              is_new = (hm_get cache key = None);
              s = s\<lparr>prs_cache := bm_insert key () cache\<rparr>
          in (if is_new then Some request else None, s))"

definition path_requests_generate ::
  "nanos \<Rightarrow> bytes \<Rightarrow> address_hash \<Rightarrow> bytes option \<Rightarrow> path_requests \<Rightarrow> packet \<times> path_requests" where
  "path_requests_generate now random_tag destination tag s =
     (let s = s\<lparr>prs_pending := bm_insert destination now (prs_pending s),
               prs_last_request := bm_insert destination now (prs_last_request s)\<rparr>;
          tag = (case tag of Some t \<Rightarrow> t | None \<Rightarrow> random_tag);
          data = safe_concat ([addr_bytes destination]
            @ (case prs_transport_id s of Some t \<Rightarrow> [addr_bytes t] | None \<Rightarrow> []) @ [tag])
      in (\<lparr>pk_header = \<lparr>hd_ifac_flag = Open, hd_context_flag = False, hd_header_type = Type1,
             hd_propagation_type = Broadcast, hd_destination_type = Plain, hd_packet_type = Data, hd_hops = 0\<rparr>,
           pk_ifac = None, pk_destination = gd_address_hash (prs_controlled s),
           pk_transport = prs_transport_id s, pk_context = Ctx_None, pk_data = data\<rparr>, s))"

definition has_pending :: "nanos \<Rightarrow> address_hash \<Rightarrow> path_requests \<Rightarrow> bool \<times> path_requests" where
  "has_pending now destination s =
     (case hm_get (prs_pending s) destination of
        Some at \<Rightarrow>
          if now - at < PATH_REQUEST_TIMEOUT then (True, s)
          else (False, s\<lparr>prs_pending := hm_remove destination (prs_pending s)\<rparr>)
      | None \<Rightarrow> (False, s))"

definition discovery_pending :: "nanos \<Rightarrow> address_hash \<Rightarrow> path_requests \<Rightarrow> bool" where
  "discovery_pending now destination s =
     (case hm_get (prs_discovery s) destination of Some e \<Rightarrow> now < pd_deadline e | None \<Rightarrow> False)"

definition register_discovery_with_timeout ::
  "nanos \<Rightarrow> address_hash \<Rightarrow> address_hash option \<Rightarrow> nanos \<Rightarrow> path_requests \<Rightarrow> bool \<times> path_requests" where
  "register_discovery_with_timeout now destination requesting_iface medium_path_timeout s =
     (case requesting_iface of
        None \<Rightarrow> (False, s)
      | Some iface \<Rightarrow>
          let wait = discovery_wait medium_path_timeout;
              start = (True, s\<lparr>prs_discovery := bm_insert destination
                \<lparr>pd_deadline = now + wait, pd_wait = wait, pd_ifaces = [iface]\<rparr> (prs_discovery s)\<rparr>)
          in case hm_get (prs_discovery s) destination of
               Some e \<Rightarrow>
                 if now < pd_deadline e
                 then (False, s\<lparr>prs_discovery := hm_modify destination (\<lambda>e. lengthen_discovery_wait medium_path_timeout
                        (if iface \<in> set (pd_ifaces e) then e else e\<lparr>pd_ifaces := pd_ifaces e @ [iface]\<rparr>))
                        (prs_discovery s)\<rparr>)
                 else start
             | None \<Rightarrow> start)"

definition clear_discovery :: "address_hash \<Rightarrow> path_requests \<Rightarrow> address_hash list option \<times> path_requests" where
  "clear_discovery destination s =
     (map_option pd_ifaces (hm_get (prs_discovery s) destination),
      s\<lparr>prs_discovery := hm_remove destination (prs_discovery s)\<rparr>)"

definition request_allowed :: "nanos \<Rightarrow> address_hash \<Rightarrow> path_requests \<Rightarrow> bool \<times> path_requests" where
  "request_allowed now destination s =
     (let s = s\<lparr>prs_last_request := hm_retain (\<lambda>_ at. now - at < PATH_REQUEST_GATE_TIMEOUT) (prs_last_request s)\<rparr>
      in (case hm_get (prs_last_request s) destination of
            Some at \<Rightarrow> now - at \<ge> prs_min_request_interval s
          | None \<Rightarrow> True, s))"

section \<open>What a receiver reads\<close>

definition path_requests_ok :: "path_requests \<Rightarrow> bool" where
  "path_requests_ok s \<longleftrightarrow> bm_ok (prs_cache s) \<and> length (prs_cache s) \<le> MAX_REMEMBERED_TAGS
     \<and> bm_ok (prs_discovery s) \<and> bm_ok (prs_pending s) \<and> bm_ok (prs_last_request s)
     \<and> tbl_all (\<lambda>_ e. pd_ifaces e \<noteq> [] \<and> distinct (pd_ifaces e)) (prs_discovery s)"

lemma sorted_wrt_drop: "sorted_wrt P xs \<Longrightarrow> sorted_wrt P (drop n xs)"
  by (metis append_take_drop_id sorted_wrt_append)

lemma bm_ok_drop: "bm_ok m \<Longrightarrow> bm_ok (drop n m)"
  by (simp add: bm_ok_def drop_map [symmetric] sorted_wrt_drop)

text \<open>
  What a receiver reads from a generated path request: the destination and the tag,
  the given one or the random one. The requesting transport it reads is not the sender's
  identifier but the truncated digest of that identifier.
\<close>

theorem path_request_roundtrip:
  assumes "addr_ok destination" and "pred_option addr_ok (prs_transport_id s)"
    and "length (case tag of Some t \<Rightarrow> t | None \<Rightarrow> random_tag) \<in> {1..16}"
  shows "path_request_decode sha (pk_data (fst (path_requests_generate now random_tag destination tag s))) =
    Some \<lparr>pr_destination = destination,
          pr_requesting_transport = map_option (\<lambda>t. AddressHash (take 16 (sha (addr_bytes t)))) (prs_transport_id s),
          pr_tag_bytes = (case tag of Some t \<Rightarrow> t | None \<Rightarrow> random_tag)\<rparr>"
proof -
  define g where "g = (case tag of Some t \<Rightarrow> t | None \<Rightarrow> random_tag)"
  have g: "length g \<le> 16" "g \<noteq> []" using assms(3) by (auto simp: g_def)
  obtain d where d: "destination = AddressHash d" "length d = 16"
    using assms(1) by (cases destination) (auto simp: addr_ok_def ADDRESS_HASH_SIZE_def)
  show ?thesis
  proof (cases "prs_transport_id s")
    case None
    with g d show ?thesis
      unfolding g_def [symmetric] path_requests_generate_def
      by (simp add: g_def [symmetric] path_request_decode_def safe_concat_def PACKET_MDU_def ADDRESS_HASH_SIZE_def)
  next
    case (Some t)
    then have "length (addr_bytes t) = 16"
      using assms(2) by (simp add: addr_ok_def ADDRESS_HASH_SIZE_def)
    with Some g d show ?thesis
      unfolding g_def [symmetric] path_requests_generate_def
      by (simp add: g_def [symmetric] path_request_decode_def safe_concat_def PACKET_MDU_def ADDRESS_HASH_SIZE_def
          address_hash_new_from_slice_def create_hash_def HASH_SIZE_def)
  qed
qed

theorem path_request_roundtrip_witness:
  "path_request_decode (\<lambda>b. rev b)
     (pk_data (fst (path_requests_generate 5 [] (AddressHash (replicate 16 1)) (Some [7, 8])
        (path_requests_new toy_crypto (Some (AddressHash (3 # replicate 15 2))))))) =
   Some \<lparr>pr_destination = AddressHash (replicate 16 1),
         pr_requesting_transport = Some (AddressHash (replicate 15 2 @ [3])), pr_tag_bytes = [7, 8]\<rparr>"
  using path_request_roundtrip [of "AddressHash (replicate 16 1)"
      "path_requests_new toy_crypto (Some (AddressHash (3 # replicate 15 2)))" "[]" "Some [7, 8]" "\<lambda>b. rev b" 5]
  by (simp add: path_requests_new_def addr_ok_def ADDRESS_HASH_SIZE_def)

section \<open>Repeated requests\<close>

lemma evict_tags_drop: "evict_tags c = drop (length c - (MAX_REMEMBERED_TAGS - 1)) c"
  by (simp add: evict_tags_def trim_front_drop)

lemma path_requests_ok_decode: "path_requests_ok s \<Longrightarrow> path_requests_ok (snd (path_requests_decode sha data s))"
proof -
  assume ok: "path_requests_ok s"
  have "length (bm_insert k () (evict_tags c)) \<le> MAX_REMEMBERED_TAGS" for k c
    using length_bm_insert_le [of k "()" "evict_tags c"]
    by (simp add: evict_tags_drop MAX_REMEMBERED_TAGS_def)
  with ok show ?thesis
    by (auto simp: path_requests_decode_def path_requests_ok_def evict_tags_drop bm_ok_insert bm_ok_drop
        split: option.splits)
qed

text \<open>
  The filter for repeated path requests. A malformed request is dropped; a well-formed
  one is answered exactly when its destination and tag are not remembered after the eviction. It
  is remembered from then on, so the same request is dropped next time while the memory is not
  full; at most 4096 pairs are remembered.
\<close>

theorem path_request_filter:
  assumes ok: "path_requests_ok s" and dec: "path_request_decode sha data = Some r"
    and run: "path_requests_decode sha data s = (res, s')"
  shows "path_requests_ok s'
    \<and> (res = Some r \<longleftrightarrow> hm_get (evict_tags (prs_cache s)) (pr_destination r, pr_tag_bytes r) = None)
    \<and> (res \<noteq> Some r \<longrightarrow> res = None)
    \<and> (length (prs_cache s') < MAX_REMEMBERED_TAGS \<longrightarrow> fst (path_requests_decode sha data s') = None)"
proof -
  have s': "s' = s\<lparr>prs_cache := bm_insert (pr_destination r, pr_tag_bytes r) () (evict_tags (prs_cache s))\<rparr>"
    using run dec by (simp add: path_requests_decode_def)
  have "evict_tags (prs_cache s') = prs_cache s'" if "length (prs_cache s') < MAX_REMEMBERED_TAGS"
    using that by (simp add: evict_tags_drop)
  then have "fst (path_requests_decode sha data s') = None" if "length (prs_cache s') < MAX_REMEMBERED_TAGS"
    using that dec by (simp add: path_requests_decode_def) (simp add: s' map_of_bm_insert)
  then show ?thesis
    using path_requests_ok_decode [OF ok, of sha data] run dec by (auto simp: path_requests_decode_def split: if_splits)
qed

theorem path_request_filter_witness:
  "let s = path_requests_new toy_crypto None;
       s' = snd (path_requests_decode id (replicate 17 4) s)
   in path_requests_ok s' \<and> fst (path_requests_decode id (replicate 17 4) s') = None"
proof -
  have "path_requests_ok (path_requests_new toy_crypto None)"
    by (simp add: path_requests_ok_def path_requests_new_def)
  moreover have "path_request_decode id (replicate 17 4) =
      Some \<lparr>pr_destination = AddressHash (replicate 16 4), pr_requesting_transport = None, pr_tag_bytes = [4]\<rparr>"
    by (simp add: path_request_decode_def ADDRESS_HASH_SIZE_def)
  moreover have "length (prs_cache (snd (path_requests_decode id (replicate 17 4) (path_requests_new toy_crypto None)))) = 1"
    by (simp add: path_requests_decode_def path_requests_new_def path_request_decode_def ADDRESS_HASH_SIZE_def
        evict_tags_drop)
  ultimately show ?thesis
    using path_request_filter [OF _ _ prod.collapse [symmetric], of "path_requests_new toy_crypto None" id "replicate 17 4"]
    by (simp add: MAX_REMEMBERED_TAGS_def)
qed

section \<open>Discovery on behalf of others\<close>

primrec discover_run ::
  "address_hash \<Rightarrow> (nanos \<times> address_hash \<times> nanos) list \<Rightarrow> path_requests \<Rightarrow> bool list \<times> path_requests" where
  "discover_run d [] s = ([], s)"
| "discover_run d (x # xs) s =
     (let (b, s) = register_discovery_with_timeout (fst x) d (Some (fst (snd x))) (snd (snd x)) s;
          (bs, s) = discover_run d xs s
      in (b # bs, s))"

lemma lengthen_discovery_wait_props [simp]:
  "pd_ifaces (lengthen_discovery_wait m e) = pd_ifaces e"
  "pd_deadline e \<le> pd_deadline (lengthen_discovery_wait m e)"
  by (auto simp: lengthen_discovery_wait_def)

lemma discover_batch:
  assumes "hm_get (prs_discovery s) d = Some e" and "distinct (pd_ifaces e)"
    and "list_all (\<lambda>x. fst x < pd_deadline e) xs"
  shows "fst (discover_run d xs s) = replicate (length xs) False
    \<and> (\<exists>e'. hm_get (prs_discovery (snd (discover_run d xs s))) d = Some e' \<and> distinct (pd_ifaces e')
         \<and> set (pd_ifaces e') = set (pd_ifaces e) \<union> set (map (fst \<circ> snd) xs))"
  using assms
proof (induction xs arbitrary: s e)
  case Nil
  then show ?case by simp
next
  case (Cons x xs)
  let ?e = "lengthen_discovery_wait (snd (snd x))
    (if fst (snd x) \<in> set (pd_ifaces e) then e else e\<lparr>pd_ifaces := pd_ifaces e @ [fst (snd x)]\<rparr>)"
  define s1 where "s1 = snd (register_discovery_with_timeout (fst x) d (Some (fst (snd x))) (snd (snd x)) s)"
  have reg: "register_discovery_with_timeout (fst x) d (Some (fst (snd x))) (snd (snd x)) s = (False, s1)"
    using Cons.prems by (simp add: s1_def register_discovery_with_timeout_def)
  have get: "hm_get (prs_discovery s1) d = Some ?e"
    using Cons.prems by (simp add: s1_def register_discovery_with_timeout_def map_of_hm_modify)
  have dl: "pd_deadline e \<le> pd_deadline ?e"
    using lengthen_discovery_wait_props(2) [of e] lengthen_discovery_wait_props(2) [of "e\<lparr>pd_ifaces := _\<rparr>"]
    by auto
  have "list_all (\<lambda>x. fst x < pd_deadline ?e) xs"
  proof -
    have "list_all (\<lambda>x. fst x < pd_deadline e) xs" using Cons.prems(3) by simp
    then show ?thesis by (rule list.pred_mono_strong) (rule less_le_trans [OF _ dl])
  qed
  moreover have "distinct (pd_ifaces ?e)" "set (pd_ifaces ?e) = insert (fst (snd x)) (set (pd_ifaces e))"
    using Cons.prems(2) by auto
  ultimately show ?case
    using Cons.IH [OF get] by (auto simp: reg case_prod_beta)
qed

text \<open>
  Discovery is searched once and answered to everyone: when requests for an unknown
  destination arrive within the timeout of the first, only the first starts a search, and when
  the path becomes known every requesting interface is answered exactly once.
\<close>

theorem discovery_answers_all:
  assumes new: "\<not> discovery_pending now d s"
    and soon: "list_all (\<lambda>x. fst x < now + PATH_REQUEST_TIMEOUT) later"
    and run: "discover_run d ((now, i, m) # later) s = (started, s')"
  shows "started = True # replicate (length later) False
    \<and> (\<exists>is. fst (clear_discovery d s') = Some is \<and> distinct is \<and> set is = insert i (set (map (fst \<circ> snd) later)))"
proof -
  let ?e = "\<lparr>pd_deadline = now + discovery_wait m, pd_wait = discovery_wait m, pd_ifaces = [i]\<rparr>"
  define s1 where "s1 = s\<lparr>prs_discovery := bm_insert d ?e (prs_discovery s)\<rparr>"
  have reg: "register_discovery_with_timeout now d (Some i) m s = (True, s1)"
    using new by (auto simp: register_discovery_with_timeout_def discovery_pending_def s1_def split: option.splits)
  have get: "hm_get (prs_discovery s1) d = Some ?e"
    by (simp add: s1_def map_of_bm_insert)
  have "list_all (\<lambda>x. fst x < pd_deadline ?e) later"
    using soon by (auto simp: list_all_iff discovery_wait_def)
  from discover_batch [OF get _ this] show ?thesis
    using run by (auto simp: reg clear_discovery_def case_prod_beta)
qed

theorem discovery_answers_all_witness:
  "\<exists>is. fst (clear_discovery (AddressHash []) (snd (discover_run (AddressHash [])
       [(1, AddressHash [1], 0), (2, AddressHash [2], 0), (3, AddressHash [1], 0)] (path_requests_new toy_crypto None)))) = Some is
     \<and> distinct is \<and> set is = {AddressHash [1], AddressHash [2]}"
  using discovery_answers_all [of 1 "AddressHash []" "path_requests_new toy_crypto None"
      "[(2, AddressHash [2], 0), (3, AddressHash [1], 0)]" "AddressHash [1]" 0, OF _ _ prod.collapse [symmetric]]
  by (auto simp: path_requests_new_def discovery_pending_def PATH_REQUEST_TIMEOUT_def simp del: discover_run.simps)

end
