(* ===== verification/Rns_Path_Table.thy ===== *)
theory Rns_Path_Table
  imports Rns_Control
begin

text \<open>
  The path table, \<^verbatim>\<open>src/transport/path_table.rs\<close>: which announce becomes the path to a destination,
  how paths age, and how packets are rewritten on the way to the next hop.

  The clock \<^verbatim>\<open>(self.now)()\<close> and the wall clock are arguments. \<^verbatim>\<open>i64\<close> timestamps are integers with the
  saturating arithmetic written out; unix times are rationals. The theory shows that the table
  always holds a shortest path among the announces heard, that a replayed announce changes
  nothing, when paths expire, and that routing rewrites only the routing fields of a packet.
\<close>

section \<open>Entries\<close>

definition PATHFINDER_E :: nanos where "PATHFINDER_E = secs (60 * 60 * 24 * 7)"
definition AP_PATH_TIME :: nanos where "AP_PATH_TIME = secs (60 * 60 * 24)"
definition ROAMING_PATH_TIME :: nanos where "ROAMING_PATH_TIME = secs (60 * 60 * 6)"
definition RANDOM_BLOB_LEN :: nat where "RANDOM_BLOB_LEN = 10"
definition MAX_RANDOM_BLOBS :: nat where "MAX_RANDOM_BLOBS = 64"

text \<open>\<^verbatim>\<open>i64::MIN\<close>, \<^verbatim>\<open>i64::MAX\<close> and \<^verbatim>\<open>i64::saturating_sub\<close>.\<close>

definition I64_MIN :: int where "I64_MIN = - (2 ^ 63)"
definition I64_MAX :: int where "I64_MAX = 2 ^ 63 - 1"

definition sat_sub_i64 :: "int \<Rightarrow> int \<Rightarrow> int" where
  "sat_sub_i64 a b = max I64_MIN (min I64_MAX (a - b))"

record path_entry =
  pe_received_from :: address_hash
  pe_hops :: u8
  pe_iface :: address_hash
  pe_timestamp :: int
  pe_unresponsive :: bool
  pe_packet_hash :: rns_hash
  pe_mode :: interface_mode
  pe_expires_unix :: rat
  pe_random_blobs :: "bytes list"
  pe_gravity :: "int option"

definition timebase_from_random_blob :: "bytes \<Rightarrow> nat" where
  "timebase_from_random_blob blob =
     (if length blob < RANDOM_BLOB_LEN then 0
      else be_decode (replicate 3 0 @ take (RANDOM_BLOB_LEN - 5) (drop 5 blob)))"

definition timebase_from_random_blobs :: "bytes list \<Rightarrow> nat" where
  "timebase_from_random_blobs blobs = fold max (map timebase_from_random_blob blobs) 0"

definition path_lifetime :: "interface_mode \<Rightarrow> nanos" where
  "path_lifetime mode = (case mode of AccessPoint \<Rightarrow> AP_PATH_TIME | Roaming \<Rightarrow> ROAMING_PATH_TIME
     | _ \<Rightarrow> PATHFINDER_E)"

definition path_expires_unix :: "rat \<Rightarrow> interface_mode \<Rightarrow> rat" where
  "path_expires_unix unix_secs mode = unix_secs + of_nat (path_lifetime mode) / 1000000000"

definition monotonic_ns :: "nanos \<Rightarrow> int" where
  "monotonic_ns now = min (int now) I64_MAX"

definition path_age :: "nanos \<Rightarrow> int \<Rightarrow> nanos" where
  "path_age now timestamp_ns =
     (let delta = sat_sub_i64 (monotonic_ns now) timestamp_ns
      in if delta \<le> 0 then 0 else nat delta)"

definition announce_random_blob :: "packet \<Rightarrow> bytes option" where
  "announce_random_blob p =
     (let data = pk_data p; start = RANDOM_BLOB_OFFSET in
      if length data < start + RANDOM_BLOB_LEN then None
      else Some (take RANDOM_BLOB_LEN (drop start data)))"

definition remember_blob :: "bytes list \<Rightarrow> bytes option \<Rightarrow> bytes list" where
  "remember_blob blobs b =
     (case b of None \<Rightarrow> blobs
      | Some blob \<Rightarrow>
          if blob \<in> set blobs then blobs
          else let blobs = blobs @ [blob] in
               if length blobs > MAX_RANDOM_BLOBS
               then drop (length blobs - MAX_RANDOM_BLOBS) blobs else blobs)"

section \<open>The table\<close>

record path_table =
  pt_map :: "(address_hash, path_entry) hash_map"
  pt_reroute_eager :: bool

definition path_table_new :: "bool \<Rightarrow> path_table" where
  "path_table_new eager = \<lparr>pt_map = [], pt_reroute_eager = eager\<rparr>"

definition expire_paths :: "nanos \<Rightarrow> path_table \<Rightarrow> nat \<times> path_table" where
  "expire_paths now t =
     (let before = length (pt_map t);
          m = hm_retain (\<lambda>_ e. path_age now (pe_timestamp e) < path_lifetime (pe_mode e)) (pt_map t)
      in (before - length m, t\<lparr>pt_map := m\<rparr>))"

text \<open>\<^verbatim>\<open>match self.map.get_mut(destination)\<close>: rewrite a present entry and answer whether it was there.\<close>

definition pt_modify :: "address_hash \<Rightarrow> (path_entry \<Rightarrow> path_entry) \<Rightarrow> path_table \<Rightarrow> bool \<times> path_table" where
  "pt_modify d f t = (hm_get (pt_map t) d \<noteq> None, t\<lparr>pt_map := hm_modify d f (pt_map t)\<rparr>)"

definition mark_path_unresponsive :: "address_hash \<Rightarrow> path_table \<Rightarrow> bool \<times> path_table" where
  "mark_path_unresponsive d t = pt_modify d (pe_unresponsive_update (\<lambda>_. True)) t"

definition mark_path_responsive :: "address_hash \<Rightarrow> path_table \<Rightarrow> bool \<times> path_table" where
  "mark_path_responsive d t = pt_modify d (pe_unresponsive_update (\<lambda>_. False)) t"

definition path_is_unresponsive :: "address_hash \<Rightarrow> path_table \<Rightarrow> bool" where
  "path_is_unresponsive d t =
     (case hm_get (pt_map t) d of Some e \<Rightarrow> pe_unresponsive e | None \<Rightarrow> False)"

definition drop_path :: "address_hash \<Rightarrow> path_table \<Rightarrow> bool \<times> path_table" where
  "drop_path d t = (hm_get (pt_map t) d \<noteq> None, t\<lparr>pt_map := hm_remove d (pt_map t)\<rparr>)"

definition drop_all_via :: "address_hash \<Rightarrow> path_table \<Rightarrow> nat \<times> path_table" where
  "drop_all_via iface t =
     (let m = hm_retain (\<lambda>_ e. pe_iface e \<noteq> iface) (pt_map t)
      in (length (pt_map t) - length m, t\<lparr>pt_map := m\<rparr>))"

definition drop_ifaces_not_in :: "address_hash list \<Rightarrow> path_table \<Rightarrow> nat \<times> path_table" where
  "drop_ifaces_not_in live t =
     (let m = hm_retain (\<lambda>_ e. pe_iface e \<in> set live) (pt_map t)
      in (length (pt_map t) - length m, t\<lparr>pt_map := m\<rparr>))"

definition path_table_clear :: "path_table \<Rightarrow> path_table" where
  "path_table_clear t = t\<lparr>pt_map := []\<rparr>"

definition path_table_restore :: "address_hash \<Rightarrow> path_entry \<Rightarrow> path_table \<Rightarrow> path_table" where
  "path_table_restore d e t = t\<lparr>pt_map := hm_insert d e (pt_map t)\<rparr>"

definition path_table_get :: "address_hash \<Rightarrow> path_table \<Rightarrow> path_entry option" where
  "path_table_get d t = hm_get (pt_map t) d"

definition expire_path :: "nanos \<Rightarrow> address_hash \<Rightarrow> path_table \<Rightarrow> bool \<times> path_table" where
  "expire_path now d t = pt_modify d (\<lambda>e.
     let now_ns = monotonic_ns now;
         life_ns = min (int (path_lifetime (pe_mode e))) I64_MAX
     in e\<lparr>pe_timestamp := sat_sub_i64 (sat_sub_i64 now_ns life_ns) 1\<rparr>) t"

definition path_table_contains :: "address_hash \<Rightarrow> path_table \<Rightarrow> bool" where
  "path_table_contains d t = (hm_get (pt_map t) d \<noteq> None)"

definition insert_restored ::
  "nanos \<Rightarrow> rat \<Rightarrow> address_hash \<Rightarrow> address_hash \<Rightarrow> u8 \<Rightarrow> address_hash \<Rightarrow> rns_hash \<Rightarrow> path_table \<Rightarrow> path_table" where
  "insert_restored now unix_secs d received_from hops iface ph t =
     t\<lparr>pt_map := hm_insert d
        \<lparr>pe_received_from = received_from, pe_hops = hops, pe_iface = iface,
         pe_timestamp = monotonic_ns now, pe_unresponsive = False, pe_packet_hash = ph,
         pe_mode = Full, pe_expires_unix = path_expires_unix unix_secs Full,
         pe_random_blobs = [], pe_gravity = None\<rparr> (pt_map t)\<rparr>"

definition next_hop_full :: "address_hash \<Rightarrow> path_table \<Rightarrow> (address_hash \<times> address_hash) option" where
  "next_hop_full d t = map_option (\<lambda>e. (pe_received_from e, pe_iface e)) (hm_get (pt_map t) d)"

definition should_replace_path ::
  "bool \<Rightarrow> path_entry \<Rightarrow> u8 \<Rightarrow> bytes option \<Rightarrow> nat \<Rightarrow> int option \<Rightarrow> bool" where
  "should_replace_path reroute_eager existing hops new_blob emitted gravity =
     (if hops > pe_hops existing then False
      else if hops < pe_hops existing then True
      else
        let path_timebase = timebase_from_random_blobs (pe_random_blobs existing)
        in (case new_blob of
              None \<Rightarrow> False
            | Some blob \<Rightarrow>
                blob \<notin> set (pe_random_blobs existing) \<and> emitted > path_timebase
                \<or> emitted = path_timebase
                  \<and> (case (gravity, pe_gravity existing) of
                       (Some announce_gravity, Some current_gravity) \<Rightarrow> announce_gravity > current_gravity
                     | _ \<Rightarrow> False))
           \<or> pe_unresponsive existing \<or> reroute_eager)"

text \<open>The entry an accepted announce is stored as.\<close>

definition new_path_entry ::
  "sha \<Rightarrow> nanos \<Rightarrow> rat \<Rightarrow> packet \<Rightarrow> address_hash option \<Rightarrow> address_hash \<Rightarrow> interface_mode
     \<Rightarrow> int option \<Rightarrow> bytes list \<Rightarrow> path_entry" where
  "new_path_entry sha now unix_secs announce transport_id iface mode gravity random_blobs =
     \<lparr>pe_received_from = (case transport_id of Some i \<Rightarrow> i | None \<Rightarrow> pk_destination announce),
      pe_hops = hd_hops (pk_header announce) + 1, pe_iface = iface,
      pe_timestamp = monotonic_ns now, pe_unresponsive = False,
      pe_packet_hash = packet_hash sha announce, pe_mode = mode,
      pe_expires_unix = path_expires_unix unix_secs mode,
      pe_random_blobs = random_blobs, pe_gravity = gravity\<rparr>"

definition handle_announce_with_mode ::
  "sha \<Rightarrow> nanos \<Rightarrow> rat \<Rightarrow> packet \<Rightarrow> address_hash option \<Rightarrow> address_hash \<Rightarrow> interface_mode
     \<Rightarrow> int option \<Rightarrow> path_table \<Rightarrow> path_table" where
  "handle_announce_with_mode sha now unix_secs announce transport_id iface mode gravity t =
     (let hops = hd_hops (pk_header announce) + 1;
          new_blob = announce_random_blob announce;
          emitted = announce_emitted announce;
          accept = (\<lambda>random_blobs. t\<lparr>pt_map := hm_insert (pk_destination announce)
            (new_path_entry sha now unix_secs announce transport_id iface mode gravity
              (remember_blob random_blobs new_blob)) (pt_map t)\<rparr>)
      in case hm_get (pt_map t) (pk_destination announce) of
           None \<Rightarrow> accept []
         | Some existing \<Rightarrow>
             if should_replace_path (pt_reroute_eager t) existing hops new_blob emitted gravity
             then accept (pe_random_blobs existing) else t)"

section \<open>Routing packets\<close>

definition pt_touch :: "nanos \<Rightarrow> address_hash \<Rightarrow> path_table \<Rightarrow> path_table" where
  "pt_touch now d t = t\<lparr>pt_map := hm_modify d (pe_timestamp_update (\<lambda>_. monotonic_ns now)) (pt_map t)\<rparr>"

definition handle_inbound_packet ::
  "nanos \<Rightarrow> packet \<Rightarrow> address_hash option \<Rightarrow> path_table \<Rightarrow> (packet \<times> address_hash option) \<times> path_table" where
  "handle_inbound_packet now p lookup t =
     (let lookup = (case lookup of Some d \<Rightarrow> d | None \<Rightarrow> pk_destination p)
      in case hm_get (pt_map t) lookup of
           None \<Rightarrow> ((p, None), t)
         | Some e \<Rightarrow>
             let last_hop = pe_hops e \<le> 1
             in ((\<lparr>pk_header = (pk_header p)
                     \<lparr>hd_ifac_flag := Open,
                      hd_header_type := if last_hop then Type1 else Type2,
                      hd_propagation_type := if last_hop then Broadcast else Transport,
                      hd_hops := hd_hops (pk_header p) + 1\<rparr>,
                   pk_ifac = None, pk_destination = pk_destination p,
                   pk_transport = (if last_hop then None else Some (pe_received_from e)),
                   pk_context = pk_context p, pk_data = pk_data p\<rparr>, Some (pe_iface e)),
                 pt_touch now lookup t))"

definition rebalance_hops :: "address_hash \<Rightarrow> u8 \<Rightarrow> path_table \<Rightarrow> bool \<times> path_table" where
  "rebalance_hops d hops t = pt_modify d (pe_hops_update (\<lambda>_. hops)) t"

definition handle_local_packet ::
  "nanos \<Rightarrow> packet \<Rightarrow> path_table \<Rightarrow> (packet \<times> address_hash option) \<times> path_table" where
  "handle_local_packet now p t =
     (case hm_get (pt_map t) (pk_destination p) of
        None \<Rightarrow> ((p, None), t)
      | Some e \<Rightarrow>
          let t' = pt_touch now (pk_destination p) t
          in if pe_hops e \<le> 1 then ((p, Some (pe_iface e)), t')
             else ((\<lparr>pk_header = (pk_header p)
                       \<lparr>hd_ifac_flag := Open, hd_header_type := Type2,
                        hd_propagation_type := Transport, hd_hops := hd_hops (pk_header p)\<rparr>,
                     pk_ifac = None, pk_destination = pk_destination p,
                     pk_transport = Some (pe_received_from e),
                     pk_context = pk_context p, pk_data = pk_data p\<rparr>, Some (pe_iface e)), t'))"

definition path_table_handle_packet :: "packet \<Rightarrow> path_table \<Rightarrow> packet \<times> address_hash option" where
  "path_table_handle_packet p t =
     (if hd_header_type (pk_header p) = Type2 then (p, None)
      else if hd_packet_type (pk_header p) = Announce then (p, None)
      else if hd_destination_type (pk_header p) = Plain
            \<or> hd_destination_type (pk_header p) = Group then (p, None)
      else case hm_get (pt_map t) (pk_destination p) of
             None \<Rightarrow> (p, None)
           | Some e \<Rightarrow>
               if pe_hops e \<le> 1 then (p, Some (pe_iface e))
               else (\<lparr>pk_header = (pk_header p)\<lparr>hd_header_type := Type2\<rparr>,
                      pk_ifac = pk_ifac p, pk_destination = pk_destination p,
                      pk_transport = Some (pe_received_from e),
                      pk_context = pk_context p, pk_data = pk_data p\<rparr>, Some (pe_iface e)))"

section \<open>Runs of operations\<close>

datatype path_op =
    HeardAnnounce nanos rat packet "address_hash option" address_hash interface_mode "int option"
  | InsertRestored nanos rat address_hash address_hash u8 address_hash rns_hash
  | MarkUnresponsive address_hash | MarkResponsive address_hash
  | ExpirePath nanos address_hash | RebalanceHops address_hash u8
  | RouteInbound nanos packet "address_hash option" | RouteLocal nanos packet
  | ExpirePaths nanos | DropPath address_hash | DropAllVia address_hash
  | DropIfacesNotIn "address_hash list" | ClearPaths

fun path_step :: "sha \<Rightarrow> path_op \<Rightarrow> path_table \<Rightarrow> path_table" where
  "path_step sha (HeardAnnounce now unix p tid iface mode g) t =
     handle_announce_with_mode sha now unix p tid iface mode g t"
| "path_step sha (InsertRestored now unix d rf hops iface ph) t =
     insert_restored now unix d rf hops iface ph t"
| "path_step sha (MarkUnresponsive d) t = snd (mark_path_unresponsive d t)"
| "path_step sha (MarkResponsive d) t = snd (mark_path_responsive d t)"
| "path_step sha (ExpirePath now d) t = snd (expire_path now d t)"
| "path_step sha (RebalanceHops d h) t = snd (rebalance_hops d h t)"
| "path_step sha (RouteInbound now p l) t = snd (handle_inbound_packet now p l t)"
| "path_step sha (RouteLocal now p) t = snd (handle_local_packet now p t)"
| "path_step sha (ExpirePaths now) t = snd (expire_paths now t)"
| "path_step sha (DropPath d) t = snd (drop_path d t)"
| "path_step sha (DropAllVia i) t = snd (drop_all_via i t)"
| "path_step sha (DropIfacesNotIn live) t = snd (drop_ifaces_not_in live t)"
| "path_step sha ClearPaths t = path_table_clear t"

definition path_run :: "sha \<Rightarrow> path_op list \<Rightarrow> path_table \<Rightarrow> path_table" where
  "path_run sha ops t = fold (path_step sha) ops t"

lemma path_run_simps [simp]:
  "path_run sha [] t = t"
  "path_run sha (ops @ [op]) t = path_step sha op (path_run sha ops t)"
  by (simp_all add: path_run_def)

lemmas path_op_defs = handle_announce_with_mode_def insert_restored_def mark_path_unresponsive_def
  mark_path_responsive_def expire_path_def rebalance_hops_def handle_inbound_packet_def
  handle_local_packet_def expire_paths_def drop_path_def drop_all_via_def drop_ifaces_not_in_def
  path_table_clear_def pt_modify_def pt_touch_def

subsection \<open>Invariant\<close>

definition path_entry_ok :: "path_entry \<Rightarrow> bool" where
  "path_entry_ok e = (addr_ok (pe_received_from e) \<and> distinct (pe_random_blobs e)
     \<and> length (pe_random_blobs e) \<le> MAX_RANDOM_BLOBS
     \<and> list_all (\<lambda>b. length b = RANDOM_BLOB_LEN) (pe_random_blobs e)
     \<and> I64_MIN \<le> pe_timestamp e \<and> pe_timestamp e \<le> I64_MAX)"

definition path_table_ok :: "path_table \<Rightarrow> bool" where
  "path_table_ok t = (hm_ok (pt_map t) \<and> tbl_all (\<lambda>_. path_entry_ok) (pt_map t))"

text \<open>The addresses an operation brings in have the length of an address.\<close>

fun path_op_ok :: "path_op \<Rightarrow> bool" where
  "path_op_ok (HeardAnnounce now unix p tid iface mode g) =
     (addr_ok (pk_destination p) \<and> (case tid of None \<Rightarrow> True | Some a \<Rightarrow> addr_ok a))"
| "path_op_ok (InsertRestored now unix d rf hops iface ph) = addr_ok rf"
| "path_op_ok _ = True"

lemma remember_blob_None [simp]: "remember_blob bs None = bs"
  by (simp add: remember_blob_def)

lemma remember_blob_Some:
  "remember_blob bs (Some b) =
     (if b \<in> set bs then bs else drop (Suc (length bs) - MAX_RANDOM_BLOBS) (bs @ [b]))"
  by (cases "MAX_RANDOM_BLOBS < Suc (length bs)") (simp_all add: remember_blob_def)

lemma set_remember_blob: "set (remember_blob bs (Some b)) \<subseteq> insert b (set bs)"
proof -
  have "set (drop n (bs @ [b])) \<subseteq> set (bs @ [b])" for n
    by (rule set_drop_subset)
  then show ?thesis
    by (auto simp: remember_blob_Some simp del: drop_append)
qed

lemma remember_blob_ok:
  assumes "distinct bs" "length bs \<le> MAX_RANDOM_BLOBS"
    "list_all (\<lambda>b. length b = RANDOM_BLOB_LEN) bs" and "\<And>b. blob = Some b \<Longrightarrow> length b = RANDOM_BLOB_LEN"
  shows "distinct (remember_blob bs blob)"
    "length (remember_blob bs blob) \<le> MAX_RANDOM_BLOBS"
    "list_all (\<lambda>b. length b = RANDOM_BLOB_LEN) (remember_blob bs blob)"
proof -
  show "distinct (remember_blob bs blob)"
    using assms(1) by (cases blob) (simp_all add: remember_blob_Some distinct_drop del: drop_append)
  show "length (remember_blob bs blob) \<le> MAX_RANDOM_BLOBS"
    using assms(2) by (cases blob) (auto simp add: remember_blob_Some simp del: drop_append)
  show "list_all (\<lambda>b. length b = RANDOM_BLOB_LEN) (remember_blob bs blob)"
  proof (cases blob)
    case (Some b)
    then show ?thesis
      using assms(3) assms(4) [OF Some] set_remember_blob [of bs b] by (auto simp: list_all_iff)
  qed (simp add: assms(3))
qed

lemma announce_random_blob_length: "announce_random_blob p = Some b \<Longrightarrow> length b = RANDOM_BLOB_LEN"
  by (auto simp: announce_random_blob_def split: if_splits)

lemma monotonic_ns_bounds: "I64_MIN \<le> monotonic_ns now" "monotonic_ns now \<le> I64_MAX"
  by (simp_all add: monotonic_ns_def I64_MIN_def I64_MAX_def)

lemma sat_sub_i64_bounds: "I64_MIN \<le> sat_sub_i64 a b" "sat_sub_i64 a b \<le> I64_MAX"
  by (simp_all add: sat_sub_i64_def I64_MIN_def I64_MAX_def)

lemma path_table_ok_modify:
  assumes "path_table_ok t" and "\<And>e. path_entry_ok e \<Longrightarrow> path_entry_ok (f e)"
  shows "path_table_ok (t\<lparr>pt_map := hm_modify d f (pt_map t)\<rparr>)"
  using assms by (auto simp: path_table_ok_def intro: tbl_all_modify)

lemma path_table_ok_pt_modify:
  assumes "path_table_ok t" and "\<And>e. path_entry_ok e \<Longrightarrow> path_entry_ok (f e)"
  shows "path_table_ok (snd (pt_modify d f t))"
  using path_table_ok_modify [OF assms] by (simp add: pt_modify_def)

lemma path_table_ok_touch: "path_table_ok t \<Longrightarrow> path_table_ok (pt_touch now d t)"
  unfolding pt_touch_def
  by (rule path_table_ok_modify) (simp_all add: path_entry_ok_def monotonic_ns_bounds)

lemma path_table_ok_insert:
  assumes "path_table_ok t" and "path_entry_ok e"
  shows "path_table_ok (t\<lparr>pt_map := hm_insert d e (pt_map t)\<rparr>)"
  using assms by (simp add: path_table_ok_def hm.inv_ins tbl_all_update)

lemma path_table_ok_retain:
  "path_table_ok t \<Longrightarrow> path_table_ok (t\<lparr>pt_map := hm_retain P (pt_map t)\<rparr>)"
  by (simp add: path_table_ok_def hm.inv_keep tbl_all_retain)

lemma path_table_ok_announce:
  assumes "path_table_ok t" and "path_op_ok (HeardAnnounce now unix p tid iface mode g)"
  shows "path_table_ok (handle_announce_with_mode sha now unix p tid iface mode g t)"
proof -
  have entry: "path_entry_ok (new_path_entry sha now unix p tid iface mode g
      (remember_blob bs (announce_random_blob p)))"
    if "distinct bs" "length bs \<le> MAX_RANDOM_BLOBS" "list_all (\<lambda>b. length b = RANDOM_BLOB_LEN) bs" for bs
    using assms(2) remember_blob_ok [OF that, of "announce_random_blob p"]
      announce_random_blob_length [of p] monotonic_ns_bounds [of now]
    by (simp add: path_entry_ok_def new_path_entry_def split: option.splits)
  show ?thesis
  proof (cases "hm_get (pt_map t) (pk_destination p)")
    case None
    then show ?thesis
      using assms(1) entry [of "[]"] by (simp add: handle_announce_with_mode_def path_table_ok_insert)
  next
    case (Some e)
    then have "path_entry_ok e"
      using assms(1) tbl_all_get unfolding path_table_ok_def by fast
    then show ?thesis
      using Some assms(1) entry [of "pe_random_blobs e"]
      by (simp add: handle_announce_with_mode_def path_table_ok_insert path_entry_ok_def)
  qed
qed

lemma path_table_ok_step:
  assumes ok: "path_table_ok t" and op: "path_op_ok op"
  shows "path_table_ok (path_step sha op t)"
proof (cases op)
  case (HeardAnnounce now unix p tid iface mode g)
  with assms path_table_ok_announce show ?thesis by simp
next
  case (InsertRestored now unix d rf hops iface ph)
  with assms monotonic_ns_bounds [of now] show ?thesis
    by (simp add: insert_restored_def path_table_ok_insert path_entry_ok_def)
next
  case (DropPath d)
  with ok show ?thesis
    by (simp add: drop_path_def path_table_ok_def hm.inv_rem tbl_all_delete)
next
  case (RouteInbound now p l)
  with ok path_table_ok_touch show ?thesis
    by (simp add: handle_inbound_packet_def split: option.split)
next
  case (RouteLocal now p)
  with ok path_table_ok_touch show ?thesis
    by (simp add: handle_local_packet_def split: option.split)
next
  case (ExpirePath now d)
  with ok show ?thesis
    by (auto simp: expire_path_def path_entry_ok_def sat_sub_i64_bounds intro!: path_table_ok_pt_modify)
next
  case ClearPaths
  then show ?thesis by (simp add: path_table_clear_def path_table_ok_def)
qed (use ok in \<open>auto simp: mark_path_unresponsive_def mark_path_responsive_def rebalance_hops_def
      path_entry_ok_def expire_paths_def drop_all_via_def drop_ifaces_not_in_def
      intro!: path_table_ok_pt_modify path_table_ok_retain\<close>)

interpretation path_sys: step_system "path_step sha" path_table_ok path_op_ok for sha
  by unfold_locales (rule path_table_ok_step)


text \<open>A relay address, an announce heard from it, and a run that learns, uses and ages the path.\<close>

definition relay_example :: address_hash where "relay_example = AddressHash (replicate 16 9)"
definition iface_example :: address_hash where "iface_example = AddressHash (replicate 16 5)"

definition run_example :: "path_op list" where
  "run_example =
     [HeardAnnounce 10 0 (announce_example 3) (Some relay_example) iface_example Full None,
      HeardAnnounce 20 0 ((announce_example 3)\<lparr>pk_header := header_default\<lparr>hd_packet_type := Announce, hd_hops := 1\<rparr>\<rparr>)
        None iface_example Roaming None,
      MarkUnresponsive (AddressHash (replicate 16 3))]"

lemmas path_examples = run_example_def announce_example_def relay_example_def iface_example_def
  packet_default_def header_default_def addr_ok_def ADDRESS_HASH_SIZE_def


section \<open>Path selection\<close>

text \<open>Operations that neither remove a path nor overwrite its hop count.\<close>

fun keeps_paths :: "path_op \<Rightarrow> bool" where
  "keeps_paths (HeardAnnounce now unix p tid iface mode g) = True"
| "keeps_paths (MarkUnresponsive d) = True"
| "keeps_paths (MarkResponsive d) = True"
| "keeps_paths (ExpirePath now d) = True"
| "keeps_paths (RouteInbound now p l) = True"
| "keeps_paths (RouteLocal now p) = True"
| "keeps_paths _ = False"

text \<open>Hop counts, as the table counts them, of the announces for a destination in a run.\<close>

fun heard_hops :: "address_hash \<Rightarrow> path_op \<Rightarrow> u8 set" where
  "heard_hops d (HeardAnnounce now unix p tid iface mode g) =
     (if pk_destination p = d then {hd_hops (pk_header p) + 1} else {})"
| "heard_hops d _ = {}"

text \<open>The entry is what the table records for one of the announces of the run.\<close>

fun entry_from :: "sha \<Rightarrow> address_hash \<Rightarrow> path_entry \<Rightarrow> path_op \<Rightarrow> bool" where
  "entry_from sha d e (HeardAnnounce now unix p tid iface mode g) =
     (pk_destination p = d \<and> pe_hops e = hd_hops (pk_header p) + 1
      \<and> pe_packet_hash e = packet_hash sha p \<and> pe_iface e = iface \<and> pe_mode e = mode
      \<and> pe_gravity e = g \<and> pe_received_from e = (case tid of Some i \<Rightarrow> i | None \<Rightarrow> d))"
| "entry_from sha d e _ = False"

definition path_entry_view :: "path_entry \<Rightarrow> u8 \<times> rns_hash \<times> address_hash \<times> interface_mode \<times> int option \<times> address_hash" where
  "path_entry_view e = (pe_hops e, pe_packet_hash e, pe_iface e, pe_mode e, pe_gravity e, pe_received_from e)"

lemma entry_from_view:
  "path_entry_view e = path_entry_view e' \<Longrightarrow> entry_from sha d e op = entry_from sha d e' op"
  by (cases op) (auto simp: path_entry_view_def)

lemma path_entry_view_frame [simp]:
  "path_entry_view (e\<lparr>pe_unresponsive := b\<rparr>) = path_entry_view e"
  "path_entry_view (e\<lparr>pe_timestamp := n\<rparr>) = path_entry_view e"
  by (simp_all add: path_entry_view_def)

lemma other_ops_keep_view:
  assumes "keeps_paths op" and "\<nexists>now unix p tid iface mode g. op = HeardAnnounce now unix p tid iface mode g"
  shows "map_option path_entry_view (hm_get (pt_map (path_step sha op t)) d) =
         map_option path_entry_view (hm_get (pt_map t) d)"
proof (cases op)
  case (HeardAnnounce now unix p tid iface mode g)
  with assms(2) show ?thesis by blast
qed (use assms(1) in \<open>simp_all add: mark_path_unresponsive_def mark_path_responsive_def expire_path_def
      pt_modify_def handle_inbound_packet_def handle_local_packet_def pt_touch_def
      map_of_hm_modify option.map_comp comp_def split: option.split\<close>)

lemma announce_get:
  "hm_get (pt_map (handle_announce_with_mode sha now unix p tid iface mode g t)) d =
     (if d = pk_destination p
       \<and> (case hm_get (pt_map t) d of None \<Rightarrow> True
          | Some e \<Rightarrow> should_replace_path (pt_reroute_eager t) e (hd_hops (pk_header p) + 1)
                    (announce_random_blob p) (announce_emitted p) g)
      then Some (new_path_entry sha now unix p tid iface mode g
             (remember_blob (case hm_get (pt_map t) d of None \<Rightarrow> [] | Some e \<Rightarrow> pe_random_blobs e)
                (announce_random_blob p)))
      else hm_get (pt_map t) d)"
  by (cases "d = pk_destination p")
    (simp_all add: handle_announce_with_mode_def update_conv' split: option.split)

lemma should_replace_hops:
  "should_replace_path eager e h b em g \<Longrightarrow> h \<le> pe_hops e"
  "\<not> should_replace_path eager e h b em g \<Longrightarrow> pe_hops e \<le> h"
  by (auto simp: should_replace_path_def split: if_splits)

definition all_heard_hops :: "address_hash \<Rightarrow> path_op list \<Rightarrow> u8 set" where
  "all_heard_hops d ops = (\<Union>op\<in>set ops. heard_hops d op)"

definition shortest_heard :: "sha \<Rightarrow> path_op list \<Rightarrow> address_hash \<Rightarrow> path_entry option \<Rightarrow> bool" where
  "shortest_heard sha ops d r =
     (case r of
        None \<Rightarrow> all_heard_hops d ops = {}
      | Some e \<Rightarrow> (\<forall>h\<in>all_heard_hops d ops. pe_hops e \<le> h) \<and> list_ex (entry_from sha d e) ops)"

lemma all_heard_hops_snoc: "all_heard_hops d (ops @ [op]) = all_heard_hops d ops \<union> heard_hops d op"
  by (auto simp: all_heard_hops_def)

lemma shortest_heard_view:
  assumes "shortest_heard sha ops d r" and "map_option path_entry_view r' = map_option path_entry_view r"
    and "heard_hops d op = {}"
  shows "shortest_heard sha (ops @ [op]) d r'"
proof (cases r)
  case None
  then have "r' = None" using assms(2) by simp
  with None assms(1,3) show ?thesis
    by (simp add: shortest_heard_def all_heard_hops_snoc)
next
  case (Some e)
  then obtain e' where e': "r' = Some e'" "path_entry_view e' = path_entry_view e"
    using assms(2) by auto
  have "entry_from sha d e' = entry_from sha d e"
    by (rule ext) (rule entry_from_view [OF e'(2)])
  moreover have "pe_hops e' = pe_hops e"
    using e'(2) by (simp add: path_entry_view_def)
  ultimately show ?thesis
    using Some e'(1) assms(1,3) by (simp add: shortest_heard_def all_heard_hops_snoc)
qed

lemma shortest_heard_announce:
  assumes IH: "shortest_heard sha ops d (hm_get (pt_map t) d)"
    and op_def: "op = HeardAnnounce now unix p tid iface mode g"
  shows "shortest_heard sha (ops @ [op]) d (hm_get (pt_map (path_step sha op t)) d)"
proof (cases "pk_destination p = d")
  case False
  then have "hm_get (pt_map (path_step sha op t)) d = hm_get (pt_map t) d"
    by (auto simp: op_def announce_get)
  with IH False show ?thesis
    using shortest_heard_view [OF IH, of "hm_get (pt_map t) d" op] by (simp add: op_def)
next
  case True
  let ?new = "new_path_entry sha now unix p tid iface mode g"
  let ?h = "hd_hops (pk_header p) + 1"
  have hops: "all_heard_hops d (ops @ [op]) = insert ?h (all_heard_hops d ops)"
    using True by (auto simp: all_heard_hops_snoc op_def)
  have new: "shortest_heard sha (ops @ [op]) d (Some (?new bs))"
    if "\<forall>h\<in>all_heard_hops d ops. ?h \<le> h" for bs
    using that hops True unfolding shortest_heard_def option.case
    by (auto simp: op_def new_path_entry_def split: option.split)
  have old: "shortest_heard sha (ops @ [op]) d (Some e)"
    if "shortest_heard sha ops d (Some e)" "pe_hops e \<le> ?h" for e
    using that by (simp add: shortest_heard_def hops)
  show ?thesis
  proof (cases "hm_get (pt_map t) d")
    case None
    then have "hm_get (pt_map (path_step sha op t)) d = Some (?new (remember_blob [] (announce_random_blob p)))"
      using True by (simp add: op_def announce_get)
    moreover have "all_heard_hops d ops = {}"
      using None IH by (simp add: shortest_heard_def)
    ultimately show ?thesis
      using new by simp
  next
    case (Some e)
    have le: "\<forall>h\<in>all_heard_hops d ops. pe_hops e \<le> h"
      using IH Some by (simp add: shortest_heard_def)
    have step: "hm_get (pt_map (path_step sha op t)) d =
        (if should_replace_path (pt_reroute_eager t) e ?h (announce_random_blob p) (announce_emitted p) g
         then Some (?new (remember_blob (pe_random_blobs e) (announce_random_blob p))) else Some e)"
      using True Some by (simp add: op_def announce_get)
    show ?thesis
    proof (cases "should_replace_path (pt_reroute_eager t) e ?h (announce_random_blob p) (announce_emitted p) g")
      case r: True
      have "\<forall>h\<in>all_heard_hops d ops. ?h \<le> h"
        using le should_replace_hops(1) [OF r] order.trans by blast
      with r show ?thesis
        unfolding step by (simp only: if_True new)
    next
      case r: False
      with IH Some old should_replace_hops(2) [OF r] show ?thesis
        unfolding step by simp
    qed
  qed
qed



section \<open>Replays\<close>

text \<open>The second copy is not heavier than the first, or has no gravity at all.\<close>

definition not_heavier :: "int option \<Rightarrow> int option \<Rightarrow> bool" where
  "not_heavier g' g =
     (case (g', g) of (None, _) \<Rightarrow> True | (Some x, Some y) \<Rightarrow> x \<le> y | (Some x, None) \<Rightarrow> False)"

lemma remembered: "b \<in> set (remember_blob bs (Some b))"
proof (cases "b \<in> set bs")
  case False
  moreover have "Suc (length bs) - MAX_RANDOM_BLOBS \<le> length bs"
    by (simp add: MAX_RANDOM_BLOBS_def)
  ultimately show ?thesis
    by (simp add: remember_blob_Some)
qed (simp add: remember_blob_Some)

lemma replay_rejected:
  assumes "not_heavier g' (pe_gravity e)" and "\<not> pe_unresponsive e" and "h = pe_hops e"
    and "\<And>b. blob = Some b \<Longrightarrow> b \<in> set (pe_random_blobs e)"
  shows "\<not> should_replace_path False e h blob em g'"
  using assms by (auto simp: should_replace_path_def not_heavier_def split: option.splits)

lemma replay_still_rejected:
  assumes "\<not> should_replace_path False e h blob em g" and "not_heavier g' g"
  shows "\<not> should_replace_path False e h blob em g'"
  using assms by (auto simp: should_replace_path_def not_heavier_def split: option.splits if_splits)

lemma handle_announce_rejected:
  assumes "hm_get (pt_map t) (pk_destination p) = Some e"
    and "\<not> should_replace_path (pt_reroute_eager t) e (hd_hops (pk_header p) + 1)
            (announce_random_blob p) (announce_emitted p) g"
  shows "handle_announce_with_mode sha now unix p tid iface mode g t = t"
  using assms by (simp add: handle_announce_with_mode_def)

lemma handle_announce_eager [simp]:
  "pt_reroute_eager (handle_announce_with_mode sha now unix p tid iface mode g t) = pt_reroute_eager t"
  by (simp add: handle_announce_with_mode_def split: option.split)



section \<open>Expiry\<close>

lemma path_age_monotonic:
  assumes "t0 \<le> now" and "int now \<le> I64_MAX"
  shows "path_age now (monotonic_ns t0) = now - t0"
  using assms by (auto simp: path_age_def monotonic_ns_def sat_sub_i64_def I64_MAX_def I64_MIN_def)

lemma path_lifetime_bounds: "0 < path_lifetime m" "int (path_lifetime m) < 10 ^ 15"
  by (cases m; simp add: path_lifetime_def AP_PATH_TIME_def ROAMING_PATH_TIME_def PATHFINDER_E_def)+

lemma path_age_expired:
  assumes "t0 \<le> now" and "int now \<le> I64_MAX"
  shows "path_lifetime m \<le> path_age now
           (sat_sub_i64 (sat_sub_i64 (monotonic_ns t0) (min (int (path_lifetime m)) I64_MAX)) 1)"
proof -
  have "int t0 \<le> I64_MAX" using assms by simp
  then have "sat_sub_i64 (sat_sub_i64 (monotonic_ns t0) (min (int (path_lifetime m)) I64_MAX)) 1
      = int t0 - int (path_lifetime m) - 1"
    using path_lifetime_bounds [of m]
    by (simp add: sat_sub_i64_def monotonic_ns_def I64_MAX_def I64_MIN_def)
  then show ?thesis
    using assms path_lifetime_bounds [of m]
    by (auto simp: path_age_def monotonic_ns_def sat_sub_i64_def I64_MAX_def I64_MIN_def)
qed

lemma expire_paths_get:
  assumes "path_table_ok t"
  shows "path_table_get d (snd (expire_paths now t)) =
    (case path_table_get d t of None \<Rightarrow> None
     | Some e \<Rightarrow> if path_age now (pe_timestamp e) < path_lifetime (pe_mode e) then Some e else None)"
  using assms by (simp add: path_table_get_def expire_paths_def hm.get_keep path_table_ok_def)

text \<open>
  Expiry: a path last used at \<open>t0\<close> is still there at a cull at \<open>now\<close> exactly while less
  than the lifetime of its interface mode has passed, and a path expired by hand at \<open>t0\<close> is gone
  at the next cull, even in the first moments after boot.
\<close>

theorem path_expiry:
  assumes ok: "path_table_ok t" and e: "path_table_get d t = Some e"
    and time: "t0 \<le> now" "int now \<le> I64_MAX"
  shows "path_table_get d (snd (expire_paths now (snd (handle_inbound_packet t0 p (Some d) t)))) =
           (if now - t0 < path_lifetime (pe_mode e) then Some (e\<lparr>pe_timestamp := int t0\<rparr>) else None)
         \<and> path_table_get d (snd (expire_paths now (snd (expire_path t0 d t)))) = None"
proof
  have "snd (handle_inbound_packet t0 p (Some d) t) = pt_touch t0 d t"
    using e by (simp add: handle_inbound_packet_def path_table_get_def)
  moreover have "path_table_get d (pt_touch t0 d t) = Some (e\<lparr>pe_timestamp := int t0\<rparr>)"
    using e time by (simp add: path_table_get_def pt_touch_def map_of_hm_modify monotonic_ns_def)
  moreover have "int t0 = monotonic_ns t0"
    using time by (simp add: monotonic_ns_def)
  ultimately show "path_table_get d (snd (expire_paths now (snd (handle_inbound_packet t0 p (Some d) t)))) =
           (if now - t0 < path_lifetime (pe_mode e) then Some (e\<lparr>pe_timestamp := int t0\<rparr>) else None)"
    using path_age_monotonic [OF time]
    by (simp add: expire_paths_get [OF path_table_ok_touch [OF ok]])
  have "path_table_ok (snd (expire_path t0 d t))"
    using path_table_ok_step [OF ok, of "ExpirePath t0 d"] by simp
  then show "path_table_get d (snd (expire_paths now (snd (expire_path t0 d t)))) = None"
    using e path_age_expired [OF time, of "pe_mode e"]
    by (simp add: expire_paths_get)
      (simp add: path_table_get_def expire_path_def pt_modify_def map_of_hm_modify not_less)
qed

section \<open>Relaying\<close>

text \<open>
  Claim C22. Relaying rewrites only the routing fields. The relayed packet keeps the payload, the
  destination, the context and hence the packet hash; its hop count grows by one; with more than
  one hop to go it is a well-formed packet for the next relay, on the last hop it is a plain
  broadcast packet.
\<close>

theorem relay_keeps_packet:
  assumes ok: "path_table_ok t" and p: "packet_ok p" "hd_hops (pk_header p) < 128"
    and e: "path_table_get (case lookup of Some d \<Rightarrow> d | None \<Rightarrow> pk_destination p) t = Some e"
    and q: "fst (handle_inbound_packet now p lookup t) = (q, out)"
  shows "out = Some (pe_iface e) \<and> packet_ok q
    \<and> packet_hash sha q = packet_hash sha p
    \<and> pk_data q = pk_data p \<and> pk_destination q = pk_destination p \<and> pk_context q = pk_context p
    \<and> unat (hd_hops (pk_header q)) = unat (hd_hops (pk_header p)) + 1
    \<and> pk_transport q = (if pe_hops e \<le> 1 then None else Some (pe_received_from e))"
proof -
  have "addr_ok (pe_received_from e)"
    using ok e tbl_all_get [of "\<lambda>_. path_entry_ok"]
    by (force simp: path_table_ok_def path_table_get_def path_entry_ok_def)
  moreover have "packet_hash sha q = packet_hash sha p"
    using q e by (intro packet_hash_cong) (auto simp: handle_inbound_packet_def path_table_get_def)
  ultimately show ?thesis
    using q e p by (auto simp: handle_inbound_packet_def path_table_get_def packet_ok_def unat_inc8)
qed

text \<open>A table that knows one path, over three hops through the relay.\<close>

definition table_example :: path_table where
  "table_example = handle_announce_with_mode (\<lambda>_. []) 10 0 (announce_example 2)
     (Some relay_example) iface_example Roaming None (path_table_new False)"

definition entry_example :: path_entry where
  "entry_example = new_path_entry (\<lambda>_. []) 10 0 (announce_example 2) (Some relay_example)
     iface_example Roaming None []"

lemma table_example_ok: "path_table_ok table_example"
  unfolding table_example_def
  by (rule path_table_ok_announce) (simp_all add: path_table_ok_def path_table_new_def path_examples)

lemma table_example_get: "path_table_get (AddressHash (replicate 16 2)) table_example = Some entry_example"
  by (simp add: table_example_def entry_example_def path_table_get_def handle_announce_with_mode_def
      path_table_new_def announce_example_def announce_random_blob_def packet_default_def RANDOM_BLOB_OFFSET_def)

theorem path_expiry_witness:
  "path_table_get (AddressHash (replicate 16 2)) (snd (expire_paths (secs 21600)
      (snd (handle_inbound_packet 20 packet_default (Some (AddressHash (replicate 16 2))) table_example)))) =
     Some (entry_example\<lparr>pe_timestamp := 20\<rparr>)
   \<and> path_table_get (AddressHash (replicate 16 2))
       (snd (expire_paths 20 (snd (expire_path 20 (AddressHash (replicate 16 2)) table_example)))) = None"
proof -
  have time: "20 \<le> (secs 21600 :: nat)" "int (secs 21600) \<le> I64_MAX" "int 20 \<le> I64_MAX"
    by (simp_all add: I64_MAX_def)
  have "pe_mode entry_example = Roaming"
    by (simp add: entry_example_def new_path_entry_def)
  then show ?thesis
    using path_expiry [OF table_example_ok table_example_get time(1,2), of packet_default]
      path_expiry [OF table_example_ok table_example_get order.refl time(3), of packet_default]
    by (simp add: path_lifetime_def ROAMING_PATH_TIME_def)
qed

theorem relay_keeps_packet_witness:
  "let p = packet_default\<lparr>pk_destination := AddressHash (replicate 16 2), pk_data := [1, 2, 3]\<rparr>;
       (q, out) = fst (handle_inbound_packet 20 p None table_example)
   in out = Some iface_example \<and> packet_hash (\<lambda>_. []) q = packet_hash (\<lambda>_. []) p
      \<and> pk_transport q = Some relay_example"
proof -
  let ?p = "packet_default\<lparr>pk_destination := AddressHash (replicate 16 2), pk_data := [1, 2, 3]\<rparr>"
  obtain q out where q: "fst (handle_inbound_packet 20 ?p None table_example) = (q, out)"
    by fastforce
  have "packet_ok ?p" "hd_hops (pk_header ?p) < 128"
    by (simp_all add: packet_ok_def path_examples PACKET_MDU_def)
  from relay_keeps_packet [OF table_example_ok this _ q, of entry_example "\<lambda>_. []"]
  show ?thesis
    using q table_example_get
    by (simp add: entry_example_def new_path_entry_def announce_example_def word_le_nat_alt)
qed

end
