(* ===== verification/Rns_Tunnels.thy ===== *)
theory Rns_Tunnels
  imports Rns_Path_Requests Rns_Path_Table
begin

text \<open>
  Tunnels, \<^verbatim>\<open>src/transport/tunnels.rs\<close>, and their handler in \<^verbatim>\<open>src/transport.rs\<close>: paths learned over a
  short-lived interface are kept under a tunnel identifier and restored when the peer appears
  again. The random hash and the clocks are arguments.

  The theory shows that a synthesis packet is accepted with the tunnel identifier of its sender
  and interface, whatever the random part, and which paths a reappearing tunnel restores.
\<close>

section \<open>The tunnel table\<close>

definition TUNNEL_TIMEOUT :: nanos where "TUNNEL_TIMEOUT = secs (60 * 60 * 8)"
definition TUNNEL_SYNTHESIZE_LENGTH :: nat where "TUNNEL_SYNTHESIZE_LENGTH = 64 + 32 + 16 + 64"

definition create_tunnel_synthesize_destination :: "crypto \<Rightarrow> group_dest" where
  "create_tunnel_synthesize_destination C =
     plain_dest_new C (destination_name_new C (ascii_bytes ''rnstransport'') (ascii_bytes ''tunnel.synthesize''))"

record tunnel_path =
  tp_received_from :: address_hash
  tp_hops :: u8
  tp_expires :: nanos
  tp_packet_hash :: rns_hash

record tunnel_entry =
  te_iface :: "address_hash option"
  te_paths :: "(address_hash, tunnel_path) btree_map"
  te_expires :: nanos

datatype tunnel_handling =
    Established
  | Restored (tunnel_candidates: "(address_hash \<times> tunnel_path) list")

type_synonym tunnels = "(address_hash, tunnel_entry) btree_map"

definition tunnels_new :: tunnels where "tunnels_new = []"

definition tunnel_for_iface :: "tunnels \<Rightarrow> address_hash \<Rightarrow> address_hash option" where
  "tunnel_for_iface ts iface =
     map_option fst (List.find (\<lambda>(_, e). te_iface e = Some iface) ts)"

definition handle_tunnel :: "address_hash \<Rightarrow> address_hash \<Rightarrow> nanos \<Rightarrow> tunnels \<Rightarrow> tunnel_handling \<times> tunnels" where
  "handle_tunnel tunnel_id iface now ts =
     (let expires = now + TUNNEL_TIMEOUT
      in case hm_get ts tunnel_id of
           None \<Rightarrow> (Established,
             bm_insert tunnel_id \<lparr>te_iface = Some iface, te_paths = [], te_expires = expires\<rparr> ts)
         | Some e \<Rightarrow> (Restored (te_paths e),
             hm_modify tunnel_id (\<lambda>e. e\<lparr>te_iface := Some iface, te_expires := expires\<rparr>) ts))"

definition finish_restore :: "address_hash \<Rightarrow> address_hash list \<Rightarrow> tunnels \<Rightarrow> tunnels" where
  "finish_restore tunnel_id declined ts =
     hm_modify tunnel_id (te_paths_update (fold hm_remove declined)) ts"

definition associate_path ::
  "address_hash \<Rightarrow> address_hash \<Rightarrow> tunnel_path \<Rightarrow> nanos \<Rightarrow> tunnels \<Rightarrow> bool \<times> tunnels" where
  "associate_path tunnel_id destination path now ts =
     (hm_get ts tunnel_id \<noteq> None,
      hm_modify tunnel_id (\<lambda>e. e\<lparr>te_paths := bm_insert destination path (te_paths e),
                                 te_expires := now + TUNNEL_TIMEOUT\<rparr>) ts)"

definition tunnel_void :: "address_hash \<Rightarrow> tunnels \<Rightarrow> bool \<times> tunnels" where
  "tunnel_void tunnel_id ts =
     (hm_get ts tunnel_id \<noteq> None, hm_modify tunnel_id (te_iface_update (\<lambda>_. None)) ts)"

definition tunnels_clean :: "nanos \<Rightarrow> tunnels \<Rightarrow> nat \<times> tunnels" where
  "tunnels_clean now ts =
     (let ts' = hm_retain (\<lambda>_ e. now < te_expires e) ts in (length ts - length ts', ts'))"

definition tunnels_clear :: "tunnels \<Rightarrow> tunnels" where
  "tunnels_clear t = []"

definition tunnels_insert :: "address_hash \<Rightarrow> tunnel_entry \<Rightarrow> tunnels \<Rightarrow> tunnels" where
  "tunnels_insert tunnel_id e ts = bm_insert tunnel_id e ts"

definition tunnels_drop_iface :: "address_hash \<Rightarrow> tunnels \<Rightarrow> tunnels" where
  "tunnels_drop_iface iface ts = hm_retain (\<lambda>_ e. te_iface e \<noteq> Some iface) ts"

section \<open>Synthesis packets\<close>

record tunnel_synthesis =
  ts_tunnel_id :: address_hash
  ts_iface_hash :: rns_hash

text \<open>\<open>dflt\<close> is the key that stands in for an invalid one, as for identities.\<close>

definition decode_tunnel_synthesize :: "crypto \<Rightarrow> bytes \<Rightarrow> bytes \<Rightarrow> tunnel_synthesis option" where
  "decode_tunnel_synthesize C dflt data =
     (if length data \<noteq> TUNNEL_SYNTHESIZE_LENGTH then None
      else
        let public_key_bytes = take 64 data;
            iface_hash_bytes = take 32 (drop 64 data);
            signature_bytes = take 64 (drop 112 data);
            signed_data = take 112 data
        in case identity_new_from_slices C dflt (take 32 public_key_bytes) (drop 32 public_key_bytes) of
             None \<Rightarrow> None
           | Some remote \<Rightarrow>
               if identity_verify C remote signed_data signature_bytes \<noteq> Inr () then None
               else Some \<lparr>ts_tunnel_id = address_hash_new_from_hash
                            (hash_new_from_slice (cr_sha C) (public_key_bytes @ iface_hash_bytes)),
                          ts_iface_hash = Hash iface_hash_bytes\<rparr>)"

definition synthesize_tunnel_packet ::
  "crypto \<Rightarrow> rns_hash \<Rightarrow> private_identity \<Rightarrow> address_hash \<Rightarrow> address_hash \<Rightarrow> address_hash option \<Rightarrow> packet" where
  "synthesize_tunnel_packet C rand p iface destination transport_id =
     (let public_key = identity_to_bytes (pi_identity p);
          iface_hash = hash_bytes (hash_new_from_slice (cr_sha C) (addr_bytes iface));
          random_truncated = take 16 (hash_bytes rand);
          signed_data = public_key @ iface_hash @ random_truncated;
          signature = private_identity_sign C p signed_data
      in \<lparr>pk_header = \<lparr>hd_ifac_flag = Open, hd_context_flag = False, hd_header_type = Type1,
            hd_propagation_type = Broadcast, hd_destination_type = Plain, hd_packet_type = Data, hd_hops = 0\<rparr>,
          pk_ifac = None, pk_destination = destination, pk_transport = transport_id, pk_context = Ctx_None,
          pk_data = safe_concat [signed_data, signature]\<rparr>)"

section \<open>Restoring paths\<close>

definition should_restore :: "nanos \<Rightarrow> path_table \<Rightarrow> address_hash \<Rightarrow> tunnel_path \<Rightarrow> bool" where
  "should_restore now paths destination path =
     (case path_table_get destination paths of
        None \<Rightarrow> True
      | Some e \<Rightarrow> path_age now (pe_timestamp e) \<ge> PATHFINDER_E \<or> tp_hops path \<le> pe_hops e)"

fun restore_candidates ::
  "nanos \<Rightarrow> rat \<Rightarrow> address_hash \<Rightarrow> (address_hash \<times> tunnel_path) list \<Rightarrow> path_table
     \<Rightarrow> address_hash list \<times> path_table" where
  "restore_candidates now unix iface [] paths = ([], paths)"
| "restore_candidates now unix iface ((destination, path) # cs) paths =
     (if should_restore now paths destination path
      then restore_candidates now unix iface cs
             (insert_restored now unix destination (tp_received_from path) (tp_hops path) iface (tp_packet_hash path) paths)
      else let (declined, paths) = restore_candidates now unix iface cs paths
           in (destination # declined, paths))"

text \<open>The result tells the caller which tunnel to set on the interface.\<close>

definition handle_tunnel_synthesize ::
  "crypto \<Rightarrow> bytes \<Rightarrow> nanos \<Rightarrow> rat \<Rightarrow> bytes \<Rightarrow> address_hash \<Rightarrow> path_table \<times> tunnels
     \<Rightarrow> address_hash option \<times> path_table \<times> tunnels" where
  "handle_tunnel_synthesize C dflt now unix data iface st =
     (case decode_tunnel_synthesize C dflt data of
        None \<Rightarrow> (None, st)
      | Some synthesis \<Rightarrow>
          let (paths, ts) = st;
              tunnel_id = ts_tunnel_id synthesis;
              (handling, ts) = handle_tunnel tunnel_id iface now ts
          in case handling of
               Established \<Rightarrow> (Some tunnel_id, paths, ts)
             | Restored candidates \<Rightarrow>
                 let (declined, paths) = restore_candidates now unix iface candidates paths
                 in (Some tunnel_id, paths, finish_restore tunnel_id declined ts))"

section \<open>Properties\<close>

definition tunnel_id_of :: "crypto \<Rightarrow> identity \<Rightarrow> address_hash \<Rightarrow> address_hash" where
  "tunnel_id_of C i iface = AddressHash (take 16 (cr_sha C
     (id_public_key i @ id_verifying_key i @ cr_sha C (addr_bytes iface))))"

lemma decode_synthesized:
  assumes p: "private_identity_ok C p" and C: "exchange_ok C" "signature_ok C" "sha_ok (cr_sha C)"
    and rand: "hash_ok rand"
  shows "decode_tunnel_synthesize C dflt (pk_data (synthesize_tunnel_packet C rand p iface dest tid)) =
    Some \<lparr>ts_tunnel_id = tunnel_id_of C (pi_identity p) iface,
          ts_iface_hash = Hash (cr_sha C (addr_bytes iface))\<rparr>"
proof -
  note k = identity_keys [OF p C(1,2)]
  let ?h = "cr_sha C (addr_bytes iface)" and ?r = "take 16 (hash_bytes rand)"
    and ?pk = "id_public_key (pi_identity p)" and ?vk = "id_verifying_key (pi_identity p)"
  let ?sd = "?pk @ ?vk @ ?h @ ?r"
  have len: "length ?h = 32" "length ?r = 16"
    using C(3) rand by (simp_all add: sha_ok_def hash_ok_def HASH_SIZE_def)
  have data: "pk_data (synthesize_tunnel_packet C rand p iface dest tid) = ?sd @ private_identity_sign C p ?sd"
    using k len C(3) by (simp add: synthesize_tunnel_packet_def identity_to_bytes_def hash_new_from_slice_def
        create_hash_def safe_concat_def PACKET_MDU_def sha_ok_def HASH_SIZE_def)
  have "identity_new_from_slices C dflt ?pk ?vk = Some (pi_identity p)"
    using k by (simp add: identity_new_from_slices_def PUBLIC_KEY_LENGTH_def)
  then show ?thesis
    using k len C(3) by (simp add: data decode_tunnel_synthesize_def TUNNEL_SYNTHESIZE_LENGTH_def identity_verify_def
        tunnel_id_of_def address_hash_new_from_hash_def hash_new_from_slice_def create_hash_def
        sha_ok_def HASH_SIZE_def ADDRESS_HASH_SIZE_def)
qed

lemma restore_candidates_get:
  assumes "distinct (map fst cs)"
  shows "path_table_get d (snd (restore_candidates now unix iface cs paths)) =
    (case map_of cs d of
       Some path \<Rightarrow> if should_restore now paths d path
         then Some \<lparr>pe_received_from = tp_received_from path, pe_hops = tp_hops path, pe_iface = iface,
           pe_timestamp = monotonic_ns now, pe_unresponsive = False, pe_packet_hash = tp_packet_hash path,
           pe_mode = Full, pe_expires_unix = path_expires_unix unix Full, pe_random_blobs = [], pe_gravity = None\<rparr>
         else path_table_get d paths
     | None \<Rightarrow> path_table_get d paths)"
  using assms
proof (induction cs arbitrary: paths)
  case (Cons c cs)
  obtain k path where c: "c = (k, path)" by fastforce
  have get: "path_table_get d (insert_restored now unix k rf h i ph paths) =
      (if d = k then path_table_get d (insert_restored now unix k rf h i ph paths) else path_table_get d paths)" for rf h i ph
    by (simp add: insert_restored_def path_table_get_def update_conv')
  have sr: "d \<noteq> k \<Longrightarrow> should_restore now (insert_restored now unix k rf h i ph paths) d q = should_restore now paths d q" for rf h i ph q
    by (simp add: should_restore_def insert_restored_def path_table_get_def update_conv')
  have "d = k \<Longrightarrow> map_of cs d = None"
    using Cons.prems c by (simp add: map_of_eq_None_iff)
  then show ?case
    using Cons c get sr
    by (cases "d = k") (auto simp: case_prod_beta insert_restored_def path_table_get_def update_conv' split: option.splits)
qed simp

lemma restore_candidates_declined:
  assumes "distinct (map fst cs)"
  shows "set (fst (restore_candidates now unix iface cs paths)) =
    {d. \<exists>path. map_of cs d = Some path \<and> \<not> should_restore now paths d path}"
  using assms
proof (induction cs arbitrary: paths)
  case (Cons c cs)
  obtain k path where c: "c = (k, path)" by fastforce
  have sr: "d \<noteq> k \<Longrightarrow> should_restore now (insert_restored now unix k rf h i ph paths) d q = should_restore now paths d q" for d rf h i ph q
    by (simp add: should_restore_def insert_restored_def path_table_get_def update_conv')
  have "map_of cs k = None"
    using Cons.prems c by (simp add: map_of_eq_None_iff)
  then show ?case
    using Cons c sr by (auto simp: case_prod_beta)
qed simp

text \<open>
  Claim C30. A reappearing tunnel restores its paths. A synthesis packet of the same identity and
  interface is recognised by the same tunnel identifier whatever its random part; then every
  path kept for the tunnel is installed again over the new interface unless a live path with
  fewer hops exists, in which case the kept path is discarded; all other paths stay as they are.
\<close>

theorem tunnel_restores_paths:
  assumes p: "private_identity_ok C p" and C: "exchange_ok C" "signature_ok C" "sha_ok (cr_sha C)"
    and rand: "hash_ok rand"
    and e: "hm_get ts (tunnel_id_of C (pi_identity p) peer_iface) = Some e" "bm_ok (te_paths e)"
    and run: "handle_tunnel_synthesize C dflt now unix
      (pk_data (synthesize_tunnel_packet C rand p peer_iface dest tid)) iface (paths, ts) = (res, paths', ts')"
  shows "res = Some (tunnel_id_of C (pi_identity p) peer_iface)
    \<and> (\<forall>d. path_table_get d paths' = (case hm_get (te_paths e) d of
         Some path \<Rightarrow> if should_restore now paths d path
           then Some \<lparr>pe_received_from = tp_received_from path, pe_hops = tp_hops path, pe_iface = iface,
             pe_timestamp = monotonic_ns now, pe_unresponsive = False, pe_packet_hash = tp_packet_hash path,
             pe_mode = Full, pe_expires_unix = path_expires_unix unix Full, pe_random_blobs = [], pe_gravity = None\<rparr>
           else path_table_get d paths
       | None \<Rightarrow> path_table_get d paths))
    \<and> (\<exists>e'. hm_get ts' (tunnel_id_of C (pi_identity p) peer_iface) = Some e' \<and> te_iface e' = Some iface
         \<and> (\<forall>d. hm_get (te_paths e') d = (case hm_get (te_paths e) d of
              Some path \<Rightarrow> if should_restore now paths d path then Some path else None | None \<Rightarrow> None)))"
proof -
  let ?k = "tunnel_id_of C (pi_identity p) peer_iface"
  have hm: "hm_ok (te_paths e)" and dist: "distinct (map fst (te_paths e))"
    using e(2) bm_ok_hm_ok by (auto simp: hm_ok_def)
  obtain declined where rc: "restore_candidates now unix iface (te_paths e) paths = (declined, paths')"
    and res: "res = Some ?k" and ts': "ts' = finish_restore ?k declined
        (hm_modify ?k (\<lambda>e. e\<lparr>te_iface := Some iface, te_expires := now + TUNNEL_TIMEOUT\<rparr>) ts)"
    using run e(1) unfolding handle_tunnel_synthesize_def decode_synthesized [OF p C rand]
    by (auto simp: handle_tunnel_def split: prod.splits)
  have dec: "set declined = {d. \<exists>path. map_of (te_paths e) d = Some path \<and> \<not> should_restore now paths d path}"
    using restore_candidates_declined [OF dist, of now unix iface paths] by (simp add: rc)
  have "hm_get ts' ?k = Some (e\<lparr>te_iface := Some iface, te_expires := now + TUNNEL_TIMEOUT,
      te_paths := fold hm_remove declined (te_paths e)\<rparr>)"
    using e(1) by (simp add: ts' finish_restore_def map_of_hm_modify)
  moreover have "hm_get (fold hm_remove declined (te_paths e)) d = (case hm_get (te_paths e) d of
      Some path \<Rightarrow> if should_restore now paths d path then Some path else None | None \<Rightarrow> None)" for d
    using dec by (auto simp: hm.get_fold_rem [OF hm] split: option.split)
  moreover have "path_table_get d paths' = path_table_get d (snd (restore_candidates now unix iface (te_paths e) paths))" for d
    by (simp add: rc)
  ultimately show ?thesis
    using res restore_candidates_get [OF dist, of _ now unix iface paths] by simp
qed

text \<open>A tunnel with one remembered path, in front of an empty path table.\<close>

definition tunnel_path_example :: tunnel_path where
  "tunnel_path_example =
     \<lparr>tp_received_from = relay_example, tp_hops = 3, tp_expires = 0, tp_packet_hash = Hash (replicate 32 0)\<rparr>"

definition tunnels_example :: tunnels where
  "tunnels_example = [(tunnel_id_of toy_crypto (pi_identity private_identity_example) iface_example,
     \<lparr>te_iface = None, te_paths = [(AddressHash (replicate 16 1), tunnel_path_example)], te_expires = 9\<rparr>)]"

theorem tunnel_restores_paths_witness:
  "case handle_tunnel_synthesize toy_crypto [] 5 0
      (pk_data (synthesize_tunnel_packet toy_crypto (Hash (replicate 32 4)) private_identity_example iface_example
         (AddressHash []) None)) relay_example (path_table_new False, tunnels_example) of
     (res, paths', ts') \<Rightarrow> map_option pe_iface (path_table_get (AddressHash (replicate 16 1)) paths') = Some relay_example"
proof -
  obtain res paths' ts' where run: "handle_tunnel_synthesize toy_crypto [] 5 0
      (pk_data (synthesize_tunnel_packet toy_crypto (Hash (replicate 32 4)) private_identity_example iface_example
         (AddressHash []) None)) relay_example (path_table_new False, tunnels_example) = (res, paths', ts')"
    using prod_cases3 by blast
  have rand: "hash_ok (Hash (replicate 32 4))" by (simp add: hash_ok_def HASH_SIZE_def)
  have e: "hm_get tunnels_example (tunnel_id_of toy_crypto (pi_identity private_identity_example) iface_example) =
      Some \<lparr>te_iface = None, te_paths = [(AddressHash (replicate 16 1), tunnel_path_example)], te_expires = 9\<rparr>"
    by (simp add: tunnels_example_def)
  have "bm_ok [(AddressHash (replicate 16 1), tunnel_path_example)]" by (simp add: bm_ok_def)
  moreover have "should_restore 5 (path_table_new False) d path" for d path
    by (simp add: should_restore_def path_table_get_def path_table_new_def)
  ultimately show ?thesis
    using tunnel_restores_paths [OF private_identity_example_ok toy_crypto_ok(2,3,5) rand e _ run] by (simp add: run)
qed



end
