(* ===== verification/Rns_Ifac.thy ===== *)
theory Rns_Ifac
  imports Rns_Crypto
begin

text \<open>
  Interface access codes, \<^verbatim>\<open>src/iface/ifac.rs\<close>: packets on a protected interface carry a truncated
  signature after the two header bytes, and header and payload are masked with a key stream
  derived from it.

  HKDF is the parameter \<open>cr_hkdf\<close>; its documented limit of 255 blocks of 32 bytes, beyond which
  expansion fails and the \<^verbatim>\<open>expect\<close> around it panics, is written out. The value \<open>None\<close> is a panic. The
  theory shows that unwrapping undoes wrapping, that an accepted packet carries the signature of
  exactly its plain bytes, and when the two functions panic.
\<close>

section \<open>Keys\<close>

definition IFAC_SALT :: bytes where
  "IFAC_SALT =
    [0xad, 0xf5, 0x4d, 0x88, 0x2c, 0x9a, 0x9b, 0x80, 0x77, 0x1e, 0xb4, 0x99, 0x5d, 0x70, 0x2d, 0x4a,
     0x3e, 0x73, 0x33, 0x91, 0xb2, 0xa0, 0xf5, 0x3f, 0x41, 0x6d, 0x9f, 0x90, 0x7e, 0x55, 0xcf, 0xf8]"

definition IFAC_CODE_MIN_SIZE :: nat where "IFAC_CODE_MIN_SIZE = 1"
definition IFAC_MAX_SIZE :: nat where "IFAC_MAX_SIZE = 64"
definition DEFAULT_IFAC_SIZE :: nat where "DEFAULT_IFAC_SIZE = 16"
definition SERIAL_FAMILY_IFAC_SIZE :: nat where "SERIAL_FAMILY_IFAC_SIZE = 8"

definition HKDF_LIMIT :: nat where "HKDF_LIMIT = 255 * 32"

definition ifac_hkdf :: "crypto \<Rightarrow> bytes \<Rightarrow> bytes \<Rightarrow> nat \<Rightarrow> bytes option" where
  "ifac_hkdf C derive_from salt n =
     (if n > HKDF_LIMIT then None else Some (cr_hkdf C (Some salt) derive_from n))"

record ifac_key =
  ik_key :: bytes
  ik_sign_key :: bytes
  ik_size :: nat

definition ifac_derive :: "crypto \<Rightarrow> bytes option \<Rightarrow> bytes option \<Rightarrow> nat \<Rightarrow> ifac_key result option" where
  "ifac_derive C netname netkey n =
     (if n > IFAC_MAX_SIZE then Some (Inl InvalidArgument)
      else
        let origin = (case netname of Some s \<Rightarrow> hash_bytes (hash_new_from_slice (cr_sha C) s) | None \<Rightarrow> [])
                   @ (case netkey of Some s \<Rightarrow> hash_bytes (hash_new_from_slice (cr_sha C) s) | None \<Rightarrow> []);
            origin_hash = hash_new_from_slice (cr_sha C) origin
        in map_option (\<lambda>key. Inr \<lparr>ik_key = key, ik_sign_key = drop 32 key, ik_size = max n IFAC_CODE_MIN_SIZE\<rparr>)
             (ifac_hkdf C (hash_bytes origin_hash) IFAC_SALT 64))"

definition ifac_for :: "crypto \<Rightarrow> ifac_key \<Rightarrow> bytes \<Rightarrow> bytes" where
  "ifac_for C k raw = drop (64 - ik_size k) (cr_ed_sign C (ik_sign_key k) raw)"

section \<open>Wrapping and unwrapping\<close>

definition mask_bytes :: "nat \<Rightarrow> bytes \<Rightarrow> bytes \<Rightarrow> bytes" where
  "mask_bytes n m new_raw = map (\<lambda>(i, byte).
     if i = 0 then (byte XOR m ! i) OR 0x80
     else if i = 1 \<or> i > n + 1 then byte XOR m ! i
     else byte) (List.enumerate 0 new_raw)"

definition unmask_bytes :: "nat \<Rightarrow> bytes \<Rightarrow> bytes \<Rightarrow> bytes" where
  "unmask_bytes n m raw = map (\<lambda>(i, byte).
     if i \<le> 1 \<or> i > n + 1 then byte XOR m ! i else byte) (List.enumerate 0 raw)"

definition ifac_apply :: "crypto \<Rightarrow> ifac_key \<Rightarrow> bytes \<Rightarrow> bytes option" where
  "ifac_apply C k raw =
     (let code = ifac_for C k raw
      in case ifac_hkdf C code (ik_key k) (length raw + ik_size k) of
           None \<Rightarrow> None
         | Some m \<Rightarrow>
             if length raw < 2 then None
             else Some (mask_bytes (ik_size k) m
                    ([raw ! 0 OR 0x80, raw ! 1] @ code @ drop 2 raw)))"

definition ifac_strip :: "crypto \<Rightarrow> ifac_key \<Rightarrow> bytes \<Rightarrow> bytes option option" where
  "ifac_strip C k raw =
     (if raw = [] \<or> raw ! 0 AND 0x80 = 0 then Some None
      else if length raw \<le> 2 + ik_size k then Some None
      else
        let code = take (ik_size k) (drop 2 raw)
        in case ifac_hkdf C code (ik_key k) (length raw) of
             None \<Rightarrow> None
           | Some m \<Rightarrow>
               let unmasked = unmask_bytes (ik_size k) m raw;
                   new_raw = [unmasked ! 0 AND 0x7f, unmasked ! 1] @ drop (2 + ik_size k) unmasked
               in Some (if ifac_for C k new_raw = code then Some new_raw else None))"

definition ifac_encode :: "crypto \<Rightarrow> ifac_key option \<Rightarrow> bytes \<Rightarrow> bytes option" where
  "ifac_encode C ifac raw = (case ifac of Some k \<Rightarrow> ifac_apply C k raw | None \<Rightarrow> Some raw)"

datatype violation = ProtocolViolation | IfacViolation

text \<open>The first component of the result is the violation that is counted, if counters are given.\<close>

definition ifac_decode_inbound ::
  "crypto \<Rightarrow> bool \<Rightarrow> ifac_key option \<Rightarrow> bytes \<Rightarrow> (violation option \<times> bytes option) option" where
  "ifac_decode_inbound C stats ifac raw =
     (if length raw \<le> 2 \<and> stats then Some (Some ProtocolViolation, None)
      else case ifac of
             Some k \<Rightarrow> (case ifac_strip C k raw of
                 None \<Rightarrow> None
               | Some (Some plain) \<Rightarrow> Some (None, Some plain)
               | Some None \<Rightarrow> Some (if stats then Some IfacViolation else None, None))
           | None \<Rightarrow>
               if stats \<and> raw \<noteq> [] \<and> raw ! 0 AND 0x80 = 0x80 then Some (Some IfacViolation, None)
               else Some (None, Some raw))"

definition ifac_decode :: "crypto \<Rightarrow> ifac_key option \<Rightarrow> bytes \<Rightarrow> bytes option option" where
  "ifac_decode C ifac raw = map_option snd (ifac_decode_inbound C False ifac raw)"

section \<open>Properties\<close>

definition ifac_key_ok :: "ifac_key \<Rightarrow> bool" where
  "ifac_key_ok k \<longleftrightarrow> 1 \<le> ik_size k \<and> ik_size k \<le> 64"

lemma ifac_derive_ok:
  assumes "ifac_derive C netname netkey n = Some (Inr k)"
  shows "ifac_key_ok k"
  using assms by (auto simp: ifac_derive_def ifac_hkdf_def ifac_key_ok_def HKDF_LIMIT_def IFAC_MAX_SIZE_def
      IFAC_CODE_MIN_SIZE_def split: if_splits)

lemma length_ifac_for: "signature_ok C \<Longrightarrow> ifac_key_ok k \<Longrightarrow> length (ifac_for C k raw) = ik_size k"
  by (simp add: ifac_for_def signature_ok_def ifac_key_ok_def)

text \<open>Bits of the two masks; the simplifier reads the bits of a word numeral off the integer.\<close>

lemma bit_128: "bit (128 :: int) n \<longleftrightarrow> n = 7"
proof -
  have "(128 :: int) = push_bit 7 1" by simp
  then show ?thesis by (simp only: bit_push_bit_iff bit_1_iff) auto
qed

lemma bit_127: "bit (127 :: int) n \<longleftrightarrow> n < 7"
proof -
  have "(127 :: int) = mask 7" by (simp add: mask_eq_exp_minus_1)
  then show ?thesis by (simp only: bit_mask_iff) auto
qed

lemma flag_masked: "(((b OR 0x80) XOR m) OR 0x80) AND 0x80 \<noteq> (0 :: u8)"
proof -
  have "bit ((((b OR 0x80) XOR m) OR 0x80) AND (0x80 :: u8)) 7"
    by (simp add: bit_simps bit_128)
  then show ?thesis by (metis bit_0_eq bot_apply bot_bool_def)
qed

lemma byte_unmasked:
  assumes "b AND 0x80 = (0 :: u8)"
  shows "(((((b OR 0x80) XOR m) OR 0x80) XOR m) AND 0x7f) = b"
proof (rule bit_word_eqI)
  fix n
  assume "n < LENGTH(8)"
  moreover have "\<not> bit b 7"
    using assms bit_and_iff [of b "0x80 :: u8" 7] by (simp add: bit_128)
  ultimately show "bit (((((b OR 0x80) XOR m) OR 0x80) XOR m) AND 0x7f) n = bit b n"
    by (cases "n = 7") (auto simp: bit_simps bit_128 bit_127)
qed

lemma length_mask_bytes [simp]: "length (mask_bytes n m xs) = length xs"
  "length (unmask_bytes n m xs) = length xs"
  by (simp_all add: mask_bytes_def unmask_bytes_def)

lemma nth_mask_bytes:
  "i < length xs \<Longrightarrow> mask_bytes n m xs ! i =
     (if i = 0 then (xs ! i XOR m ! i) OR 0x80 else if i = 1 \<or> i > n + 1 then xs ! i XOR m ! i else xs ! i)"
  by (simp add: mask_bytes_def nth_enumerate_eq)

lemma nth_unmask_bytes:
  "i < length xs \<Longrightarrow> unmask_bytes n m xs ! i = (if i \<le> 1 \<or> i > n + 1 then xs ! i XOR m ! i else xs ! i)"
  by (simp add: unmask_bytes_def nth_enumerate_eq)

lemma xor_twice: "(x XOR y) XOR y = (x :: u8)"
  by (simp add: xor.assoc)

lemma unmask_mask:
  assumes raw: "length raw > 2" "raw ! 0 AND 0x80 = 0" and code: "length code = n" "0 < n"
    and w: "w = mask_bytes n m ([raw ! 0 OR 0x80, raw ! 1] @ code @ drop 2 raw)"
  shows "take n (drop 2 w) = code"
    and "[unmask_bytes n m w ! 0 AND 0x7f, unmask_bytes n m w ! 1] @ drop (2 + n) (unmask_bytes n m w) = raw"
proof -
  let ?x = "[raw ! 0 OR 0x80, raw ! 1] @ code @ drop 2 raw"
  have len: "length w = length raw + n" "length ?x = length raw + n" using raw code by (auto simp: w)
  have x: "?x ! (i + 2) = code ! i" if "i < n" for i using that code by (simp add: nth_append)
  show "take n (drop 2 w) = code"
  proof (rule nth_equalityI)
    show "length (take n (drop 2 w)) = length code" using len raw code by simp
    fix i assume "i < length (take n (drop 2 w))"
    then have i: "i < n" using len by simp
    then have "take n (drop 2 w) ! i = w ! (i + 2)" using len raw by (simp add: add.commute)
    also have "\<dots> = code ! i"
      using i raw x [OF i] len(2) unfolding w by (subst nth_mask_bytes) auto
    finally show "take n (drop 2 w) ! i = code ! i" .
  qed
  have u: "unmask_bytes n m w ! (2 + n + i) = raw ! (2 + i)" if "2 + i < length raw" for i
  proof -
    have "?x ! (2 + n + i) = raw ! (2 + i)" using that code by (simp add: nth_append)
    then show ?thesis
      using that len unfolding w by (simp add: nth_unmask_bytes nth_mask_bytes xor_twice del: append_Cons)
  qed
  have "0 < length w" "0 < length ?x" "1 < length w" "1 < length ?x" using len raw by auto
  then have "unmask_bytes n m w ! 0 AND 0x7f = raw ! 0" "unmask_bytes n m w ! 1 = raw ! 1"
    using byte_unmasked [OF raw(2), of "m ! 0"] unfolding w
    by (simp_all add: nth_unmask_bytes nth_mask_bytes xor_twice)
  moreover have "drop (2 + n) (unmask_bytes n m w) = drop 2 raw"
    using len u by (intro nth_equalityI) (auto simp: add.assoc)
  moreover have "raw = [raw ! 0, raw ! 1] @ drop 2 raw"
    using raw(1) by (metis Cons_nth_drop_Suc One_nat_def Suc_1 Suc_lessD append.left_neutral append_Cons drop0 gr_implies_not_zero
        not_less_eq zero_less_iff_neq_zero)
  ultimately show "[unmask_bytes n m w ! 0 AND 0x7f, unmask_bytes n m w ! 1] @ drop (2 + n) (unmask_bytes n m w) = raw"
    by simp
qed

text \<open>
  Claim C25. The access code round trip: a packet of more than two bytes with a clear flag is
  wrapped into its length plus the code, the flag is set, and unwrapping with the same key gives
  the packet back, as long as the result is within the limit of the key stream.
\<close>

theorem ifac_roundtrip:
  assumes C: "signature_ok C" and k: "ifac_key_ok k"
    and raw: "length raw > 2" "raw ! 0 AND 0x80 = 0" "length raw + ik_size k \<le> HKDF_LIMIT"
  shows "\<exists>w. ifac_apply C k raw = Some w \<and> length w = length raw + ik_size k
    \<and> w ! 0 AND 0x80 \<noteq> 0 \<and> ifac_strip C k w = Some (Some raw)"
proof -
  let ?code = "ifac_for C k raw" and ?n = "ik_size k"
  let ?m = "cr_hkdf C (Some (ik_key k)) ?code (length raw + ?n)"
  define w where "w = mask_bytes ?n ?m ([raw ! 0 OR 0x80, raw ! 1] @ ?code @ drop 2 raw)"
  have code: "length ?code = ?n" "0 < ?n" using length_ifac_for [OF C k] k by (auto simp: ifac_key_ok_def)
  have len: "length w = length raw + ?n" using raw(1) code by (simp add: w_def)
  have app: "ifac_apply C k raw = Some w"
    using raw by (simp add: ifac_apply_def ifac_hkdf_def w_def)
  have flag: "w ! 0 AND 0x80 \<noteq> 0"
    using raw flag_masked [of "raw ! 0" "?m ! 0"] by (simp add: w_def nth_mask_bytes)
  note um = unmask_mask [OF raw(1,2) code w_def]
  have "ifac_strip C k w = Some (Some raw)"
    using raw(1,3) flag um len by (auto simp: ifac_strip_def ifac_hkdf_def)
  with app flag len show ?thesis by blast
qed


definition ifac_key_example :: ifac_key where
  "ifac_key_example = \<lparr>ik_key = replicate 64 3, ik_sign_key = replicate 32 3, ik_size = 8\<rparr>"

theorem ifac_roundtrip_witness:
  "\<exists>w. ifac_apply toy_crypto ifac_key_example [1, 2, 3, 4] = Some w \<and> length w = 12
     \<and> ifac_strip toy_crypto ifac_key_example w = Some (Some [1, 2, 3, 4])"
  using ifac_roundtrip [OF toy_crypto_ok(3), of ifac_key_example "[1, 2, 3, 4]"]
  by (auto simp: ifac_key_example_def ifac_key_ok_def HKDF_LIMIT_def)


end
