(* ===== verification/Rns_Link_Table.thy ===== *)
theory Rns_Link_Table
  imports Rns_Identity Rns_Control
begin

text \<open>
  The link table, \<^verbatim>\<open>src/transport/link_table.rs\<close>: the links a node relays for others, and the
  link identifier of \<^verbatim>\<open>reticulum-core/src/destination/link.rs\<close> that keys them.

  The table is a hash map from link identifiers to entries. The theory shows when a packet is
  relayed and over which interface, that a link is marked validated only by a proof with a valid
  signature of the destination's identity, and which entries the cleanup removes.
\<close>

section \<open>Entries\<close>

definition LINK_TIMEOUT :: nanos where "LINK_TIMEOUT = secs 900"
definition ESTABLISHMENT_TIMEOUT_PER_HOP :: nanos where "ESTABLISHMENT_TIMEOUT_PER_HOP = secs 6"

definition link_id_of :: "sha \<Rightarrow> packet \<Rightarrow> address_hash" where
  "link_id_of sha p =
     (let data = pk_data p;
          data_diff = (if length data > PUBLIC_KEY_LENGTH * 2 then length data - PUBLIC_KEY_LENGTH * 2 else 0);
          hashable_data = take (length data - data_diff) data
      in address_hash_new_from_hash (Hash (sha
           ([to_meta (pk_header p) AND 0b00001111] @ addr_bytes (pk_destination p) @
            [packet_context_u8 (pk_context p)] @ hashable_data))))"

record link_entry =
  le_next_hop :: address_hash
  le_next_hop_iface :: address_hash
  le_receiving_iface :: address_hash
  le_remaining_hops :: u8
  le_taken_hops :: u8
  le_original_destination :: address_hash
  le_validated :: bool
  le_proof_timeout :: nanos
  le_last_activity :: nanos

record proof_outcome =
  po_relay :: "(packet \<times> address_hash) option"
  po_path_hops_update :: "(address_hash \<times> u8) option"

definition outbound_iface_for :: "link_entry \<Rightarrow> address_hash \<Rightarrow> u8 \<Rightarrow> address_hash option" where
  "outbound_iface_for e ingress_iface observed =
     (if le_next_hop_iface e = le_receiving_iface e
      then if observed = le_remaining_hops e \<or> observed = le_taken_hops e
           then Some (le_next_hop_iface e) else None
      else if ingress_iface = le_next_hop_iface e \<and> observed = le_remaining_hops e
           then Some (le_receiving_iface e)
      else if ingress_iface = le_receiving_iface e \<and> observed = le_taken_hops e
           then Some (le_next_hop_iface e)
      else None)"

definition forwarded :: "packet \<Rightarrow> address_hash option \<Rightarrow> u8 \<Rightarrow> packet" where
  "forwarded p transport hops =
     \<lparr>pk_header = (pk_header p)\<lparr>hd_ifac_flag := Open, hd_hops := hops\<rparr>, pk_ifac = None,
      pk_destination = pk_destination p, pk_transport = transport,
      pk_context = pk_context p, pk_data = pk_data p\<rparr>"

section \<open>The table\<close>

type_synonym link_table = "(address_hash, link_entry) hash_map"

definition link_table_new :: link_table where "link_table_new = []"

definition link_airtime :: "nat \<Rightarrow> nanos" where
  "link_airtime next_hop_bitrate =
     (if next_hop_bitrate = 0 then 0
      else from_secs_f64 (1 / of_nat next_hop_bitrate * 8 * of_nat PROTOCOL_MTU))"

definition link_table_add ::
  "sha \<Rightarrow> nanos \<Rightarrow> packet \<Rightarrow> address_hash \<Rightarrow> address_hash \<Rightarrow> address_hash \<Rightarrow> address_hash \<Rightarrow> u8 \<Rightarrow> nat
     \<Rightarrow> link_table \<Rightarrow> link_table" where
  "link_table_add sha now link_request destination receiving_iface next_hop next_hop_iface
     remaining_hops next_hop_bitrate t =
     hm_insert (link_id_of sha link_request)
       \<lparr>le_next_hop = next_hop, le_next_hop_iface = next_hop_iface, le_receiving_iface = receiving_iface,
        le_remaining_hops = remaining_hops,
        le_taken_hops = sat_inc8 (hd_hops (pk_header link_request)),
        le_original_destination = destination, le_validated = False,
        le_proof_timeout = now + link_airtime next_hop_bitrate
          + ESTABLISHMENT_TIMEOUT_PER_HOP * unat (max remaining_hops 1),
        le_last_activity = now\<rparr> t"

definition original_destination_of :: "link_table \<Rightarrow> address_hash \<Rightarrow> address_hash option" where
  "original_destination_of t link_id = map_option le_original_destination (hm_get t link_id)"

definition contains_destination :: "link_table \<Rightarrow> address_hash \<Rightarrow> bool" where
  "contains_destination t destination = (hm_get t destination \<noteq> None)"

definition iface_of :: "link_table \<Rightarrow> address_hash \<Rightarrow> address_hash option" where
  "iface_of t link_id = map_option (\<lambda>e.
     if address_hash_is_empty (le_receiving_iface e) then le_next_hop_iface e else le_receiving_iface e)
     (hm_get t link_id)"

definition handle_keepalive ::
  "nanos \<Rightarrow> packet \<Rightarrow> address_hash \<Rightarrow> link_table \<Rightarrow> (packet \<times> address_hash) option \<times> link_table" where
  "handle_keepalive now p ingress_iface t = (case hm_get t (pk_destination p) of
       None \<Rightarrow> (None, t)
     | Some e \<Rightarrow>
         let observed = sat_inc8 (hd_hops (pk_header p))
         in case outbound_iface_for e ingress_iface observed of
              None \<Rightarrow> (None, t)
            | Some iface \<Rightarrow>
                (Some (forwarded p (pk_transport p) (hd_hops (pk_header p) + 1), iface),
                 hm_modify (pk_destination p) (le_last_activity_update (\<lambda>_. now)) t))"

definition route_link_packet ::
  "nanos \<Rightarrow> packet \<Rightarrow> address_hash \<Rightarrow> link_table \<Rightarrow> (packet \<times> address_hash) option \<times> link_table" where
  "route_link_packet now p ingress_iface t = (case hm_get t (pk_destination p) of
       None \<Rightarrow> (None, t)
     | Some e \<Rightarrow>
         let observed = sat_inc8 (hd_hops (pk_header p))
         in case outbound_iface_for e ingress_iface observed of
              None \<Rightarrow> (None, t)
            | Some iface \<Rightarrow>
                (Some (forwarded p (pk_transport p) (hd_hops (pk_header p) + 1), iface),
                 hm_modify (pk_destination p) (le_last_activity_update (\<lambda>_. now)) t))"

definition handle_lr_proof ::
  "crypto \<Rightarrow> packet \<Rightarrow> address_hash \<Rightarrow> identity option \<Rightarrow> link_table \<Rightarrow> proof_outcome \<times> link_table" where
  "handle_lr_proof C proof ingress_iface recalled_identity t =
     (let outcome = \<lparr>po_relay = None, po_path_hops_update = None\<rparr>
      in case hm_get t (pk_destination proof) of
           None \<Rightarrow> (outcome, t)
         | Some entry \<Rightarrow>
             let data = pk_data proof
             in if length data \<noteq> 64 + 32 \<and> length data \<noteq> 64 + 32 + 3 then (outcome, t)
                else
                  let signalling = (if length data = 64 + 32 + 3 then drop (64 + 32) data else [])
                  in case recalled_identity of
                       None \<Rightarrow> (outcome, t)
                     | Some i \<Rightarrow>
                         let signed = addr_bytes (pk_destination proof) @ take 32 (drop 64 data)
                               @ id_verifying_key i @ signalling
                         in if identity_verify C i signed (take 64 data) \<noteq> Inr () then (outcome, t)
                            else
                              let observed = sat_inc8 (hd_hops (pk_header proof));
                                  rebalance = (observed \<noteq> le_remaining_hops entry
                                    \<and> ingress_iface = le_next_hop_iface entry);
                                  entry = (if rebalance then entry\<lparr>le_remaining_hops := observed\<rparr> else entry);
                                  outcome = (if rebalance
                                    then outcome\<lparr>po_path_hops_update := Some (le_original_destination entry, observed)\<rparr>
                                    else outcome);
                                  accept = (observed = le_remaining_hops entry
                                    \<and> ingress_iface = le_next_hop_iface entry);
                                  entry = (if accept then entry\<lparr>le_validated := True\<rparr> else entry);
                                  outcome = (if accept
                                    then outcome\<lparr>po_relay := Some (forwarded proof (pk_transport proof)
                                           (hd_hops (pk_header proof) + 1), le_receiving_iface entry)\<rparr>
                                    else outcome)
                              in (outcome, hm_modify (pk_destination proof) (\<lambda>_. entry) t))"

text \<open>Both loops of the cleanup run over the same map, so the stale entries are removed at once.\<close>

definition link_entry_stale :: "nanos \<Rightarrow> link_entry \<Rightarrow> bool" where
  "link_entry_stale now e =
     (if le_validated e then now - le_last_activity e > LINK_TIMEOUT else le_proof_timeout e \<le> now)"

definition remove_stale :: "nanos \<Rightarrow> link_table \<Rightarrow> link_entry list \<times> link_table" where
  "remove_stale now t =
     (let stale = map fst (filter (\<lambda>(_, e). link_entry_stale now e) t);
          timed_out = map snd (filter (\<lambda>(_, e). link_entry_stale now e \<and> \<not> le_validated e) t)
      in (timed_out, fold hm_remove stale t))"

definition link_table_clear :: "link_table \<Rightarrow> link_table" where
  "link_table_clear t = []"

definition drop_iface :: "address_hash \<Rightarrow> link_table \<Rightarrow> link_table" where
  "drop_iface iface t =
     hm_retain (\<lambda>_ e. le_next_hop_iface e \<noteq> iface \<and> le_receiving_iface e \<noteq> iface) t"

definition validated_len :: "link_table \<Rightarrow> nat" where
  "validated_len t = length (filter (le_validated \<circ> snd) t)"

section \<open>Proofs of link requests\<close>

text \<open>The proofs a relay accepts: the signature of the recalled identity over the link identifier,
  the peer key, the identity's own key and the signalling bytes.\<close>

definition lr_proof_authentic :: "crypto \<Rightarrow> identity option \<Rightarrow> packet \<Rightarrow> bool" where
  "lr_proof_authentic C recalled p \<longleftrightarrow>
     length (pk_data p) \<in> {96, 99} \<and>
     (case recalled of None \<Rightarrow> False
      | Some i \<Rightarrow> cr_ed_verify C (id_verifying_key i)
          (addr_bytes (pk_destination p) @ take 32 (drop 64 (pk_data p)) @ id_verifying_key i @ drop 96 (pk_data p))
          (take 64 (pk_data p)))"

lemma handle_lr_proof_cases:
  "handle_lr_proof C p ingress recalled t =
     (case hm_get t (pk_destination p) of
        Some e \<Rightarrow>
          if lr_proof_authentic C recalled p \<and> ingress = le_next_hop_iface e
          then (let observed = sat_inc8 (hd_hops (pk_header p)) in
            (\<lparr>po_relay = Some (forwarded p (pk_transport p) (hd_hops (pk_header p) + 1), le_receiving_iface e),
              po_path_hops_update = (if observed \<noteq> le_remaining_hops e
                then Some (le_original_destination e, observed) else None)\<rparr>,
             hm_modify (pk_destination p) (\<lambda>_. e\<lparr>le_remaining_hops := observed, le_validated := True\<rparr>) t))
          else (\<lparr>po_relay = None, po_path_hops_update = None\<rparr>,
             if lr_proof_authentic C recalled p then hm_modify (pk_destination p) (\<lambda>_. e) t else t)
      | None \<Rightarrow> (\<lparr>po_relay = None, po_path_hops_update = None\<rparr>, t))"
proof -
  have verify: "identity_verify C i m s = Inr () \<longleftrightarrow> cr_ed_verify C (id_verifying_key i) m s" for i m s
    by (simp add: identity_verify_def)
  show ?thesis
    by (auto simp: handle_lr_proof_def lr_proof_authentic_def verify split: option.splits)
qed

section \<open>Runs of operations\<close>

datatype link_op =
    AddRequest nanos packet address_hash address_hash address_hash address_hash u8 nat
  | KeepAliveOn nanos packet address_hash
  | RoutePacket nanos packet address_hash
  | LrProof packet address_hash "identity option"
  | RemoveStale nanos | ClearLinks | DropIface address_hash

fun link_step :: "crypto \<Rightarrow> link_op \<Rightarrow> link_table \<Rightarrow> link_table" where
  "link_step C (AddRequest now p d rcv nh nhi rem br) t = link_table_add (cr_sha C) now p d rcv nh nhi rem br t"
| "link_step C (KeepAliveOn now p i) t = snd (handle_keepalive now p i t)"
| "link_step C (RoutePacket now p i) t = snd (route_link_packet now p i t)"
| "link_step C (LrProof p i r) t = snd (handle_lr_proof C p i r t)"
| "link_step C (RemoveStale now) t = snd (remove_stale now t)"
| "link_step C ClearLinks t = link_table_clear t"
| "link_step C (DropIface i) t = drop_iface i t"

definition link_run :: "crypto \<Rightarrow> link_op list \<Rightarrow> link_table" where
  "link_run C ops = fold (link_step C) ops link_table_new"


fun adds_link :: "crypto \<Rightarrow> address_hash \<Rightarrow> link_op \<Rightarrow> bool" where
  "adds_link C k (AddRequest now p d rcv nh nhi rem br) = (link_id_of (cr_sha C) p = k)"
| "adds_link C k _ = False"

text \<open>The one kind of step that can validate a link.\<close>

fun proves_link :: "crypto \<Rightarrow> link_table \<Rightarrow> address_hash \<Rightarrow> link_op \<Rightarrow> bool" where
  "proves_link C t k (LrProof p ingress recalled) =
     (pk_destination p = k \<and> lr_proof_authentic C recalled p
      \<and> map_option le_next_hop_iface (hm_get t k) = Some ingress)"
| "proves_link C t k _ = False"

lemma link_ok_step: "hm_ok t \<Longrightarrow> hm_ok (link_step C op t)"
  by (cases op) (auto simp: link_table_add_def handle_keepalive_def route_link_packet_def hm.inv_ins
      handle_lr_proof_cases remove_stale_def link_table_clear_def drop_iface_def hm.inv_keep
      hm.inv_fold_rem split: option.splits)

interpretation link_sys: step_system "link_step C" hm_ok "\<lambda>_. True" for C
  by unfold_locales (rule link_ok_step)

lemma link_run_ok: "hm_ok (link_run C ops)"
  unfolding link_run_def by (rule link_sys.run_inv) (simp_all add: link_table_new_def list_all_iff)

lemma link_run_snoc: "link_run C (ops @ [op]) = link_step C op (link_run C ops)"
  by (simp add: link_run_def)

lemma remove_stale_get:
  assumes "hm_ok t"
  shows "hm_get (snd (remove_stale now t)) k =
    (case hm_get t k of Some e \<Rightarrow> if link_entry_stale now e then None else Some e | None \<Rightarrow> None)"
proof -
  have "k \<in> set (map fst (filter (\<lambda>(_, e). link_entry_stale now e) t)) \<longleftrightarrow>
      (\<exists>e. hm_get t k = Some e \<and> link_entry_stale now e)"
    using assms by (force simp: hm_ok_def dest: map_of_SomeD intro: map_of_is_SomeI)
  then show ?thesis
    by (auto simp: remove_stale_def hm.get_fold_rem [OF assms] simp del: set_map split: option.splits)
qed

lemma validated_step:
  assumes ok: "hm_ok t" and e: "hm_get (link_step C op t) k = Some e" "le_validated e"
    and not: "\<not> proves_link C t k op"
  shows "\<not> adds_link C k op \<and> (\<exists>e'. hm_get t k = Some e' \<and> le_validated e')"
proof (cases op)
  case (AddRequest now p d rcv nh nhi rem br)
  with e show ?thesis by (auto simp: link_table_add_def update_conv' split: if_splits)
next
  case (LrProof p ingress recalled)
  with e not show ?thesis
    by (auto simp: handle_lr_proof_cases map_of_hm_modify split: option.splits if_splits)
next
  case (RemoveStale now)
  with e show ?thesis by (auto simp: remove_stale_get [OF ok] split: option.splits if_splits)
next
  case (DropIface i)
  with e show ?thesis by (auto simp: drop_iface_def hm.get_keep [OF ok] split: option.splits if_splits)
qed (use e in \<open>auto simp: handle_keepalive_def route_link_packet_def link_table_clear_def map_of_hm_modify
      split: option.splits if_splits\<close>)

text \<open>
  Claim C9. A relayed link counts as validated only by a genuine proof: if a link is validated
  after any run of link-table operations, then the run contains a link-request proof for it that
  carries a valid signature of the recalled identity and arrived on the interface towards the
  destination, and the link was not requested anew after it.
\<close>

theorem validated_link_authentic:
  assumes "hm_get (link_run C ops) k = Some e" and "le_validated e"
  shows "\<exists>pre op post. ops = pre @ op # post \<and> proves_link C (link_run C pre) k op
    \<and> \<not> list_ex (adds_link C k) post"
  using assms
proof (induction ops arbitrary: e rule: rev_induct)
  case Nil
  then show ?case by (simp add: link_run_def link_table_new_def)
next
  case (snoc op ops)
  show ?case
  proof (cases "proves_link C (link_run C ops) k op")
    case True
    then show ?thesis by (intro exI [of _ ops] exI [of _ op] exI [of _ "[]"]) simp
  next
    case False
    from validated_step [OF link_run_ok snoc.prems [unfolded link_run_snoc] False]
    obtain e' where na: "\<not> adds_link C k op" and e': "hm_get (link_run C ops) k = Some e'" "le_validated e'"
      by blast
    from snoc.IH [OF e'] obtain pre op' post where
      "ops = pre @ op' # post" "proves_link C (link_run C pre) k op'" "\<not> list_ex (adds_link C k) post"
      by blast
    with na show ?thesis by (intro exI [of _ pre] exI [of _ op'] exI [of _ "post @ [op]"]) auto
  qed
qed

text \<open>A relayed request and the proof that answers it.\<close>

definition link_request_example :: packet where
  "link_request_example = packet_default
     \<lparr>pk_header := header_default\<lparr>hd_packet_type := LinkRequest\<rparr>, pk_destination := AddressHash (replicate 16 2),
      pk_data := replicate 64 7\<rparr>"

definition link_key_example :: address_hash where
  "link_key_example = link_id_of (cr_sha toy_crypto) link_request_example"

definition link_proof_example :: packet where
  "link_proof_example = packet_default
     \<lparr>pk_header := header_default\<lparr>hd_packet_type := Proof\<rparr>, pk_destination := link_key_example,
      pk_context := Ctx_LinkRequestProof, pk_data := replicate 96 0\<rparr>"

definition link_ops_example :: "link_op list" where
  "link_ops_example =
     [AddRequest 5 link_request_example (AddressHash (replicate 16 2)) (AddressHash (replicate 16 3))
        (AddressHash (replicate 16 4)) (AddressHash (replicate 16 5)) 2 0,
      LrProof link_proof_example (AddressHash (replicate 16 5)) (Some (pi_identity private_identity_example)),
      KeepAliveOn 9 link_proof_example (AddressHash (replicate 16 5))]"

lemma link_proof_example_authentic:
  "lr_proof_authentic toy_crypto (Some (pi_identity private_identity_example)) link_proof_example"
  by (simp add: lr_proof_authentic_def link_proof_example_def packet_default_def toy_crypto_def)

lemma link_example_validated:
  "\<exists>e. hm_get (link_run toy_crypto link_ops_example) link_key_example = Some e \<and> le_validated e"
proof -
  have dest: "pk_destination link_proof_example = link_key_example"
    by (simp add: link_proof_example_def)
  show ?thesis
    unfolding link_run_def link_ops_example_def link_table_new_def
    by (simp add: link_table_add_def handle_lr_proof_cases handle_keepalive_def link_proof_example_authentic
        dest link_key_example_def [symmetric] map_of_hm_modify del: map_of_eq_Some_iff split: option.split)
qed

theorem validated_link_authentic_witness:
  "\<exists>pre op post. link_ops_example = pre @ op # post
     \<and> proves_link toy_crypto (link_run toy_crypto pre) link_key_example op
     \<and> \<not> list_ex (adds_link toy_crypto link_key_example) post"
proof -
  obtain e where "hm_get (link_run toy_crypto link_ops_example) link_key_example = Some e" "le_validated e"
    using link_example_validated by blast
  then show ?thesis by (rule validated_link_authentic)
qed

end
