(* ===== verification/Rns_Link.thy ===== *)
theory Rns_Link
  imports Rns_Destination Rns_Link_Table
begin

text \<open>
  Links, \<^verbatim>\<open>reticulum-core/src/destination/link.rs\<close>: the three-packet handshake that gives both ends
  the same key, encrypted packets in both directions, proofs of delivery, keepalives and the
  states of a link.

  Clock readings of one call are one argument; the initialisation vector a random generator
  delivers is the argument \<open>iv\<close>, an ephemeral key the argument \<open>eph\<close>; \<open>dflt\<close> is the verifying key
  that stands in for an invalid one. Events and channel payloads a handler sends are part of its
  result. The reader of MessagePack floats is the parameter \<open>rd\<close>, the writer \<open>wr\<close>; times in seconds
  are rationals.
\<close>

section \<open>States and records\<close>

definition LINK_MTU_SIZE :: nat where "LINK_MTU_SIZE = 3"

datatype link_status = Pending | Handshake | Active | Stale | Closed

definition not_yet_active :: "link_status \<Rightarrow> bool" where
  "not_yet_active s \<longleftrightarrow> s = Pending \<or> s = Handshake"

definition link_payload_new_from_slice :: "bytes \<Rightarrow> bytes" where
  "link_payload_new_from_slice data = take (min (length data) PACKET_MDU) data"

datatype link_handle_result =
    HandledNone | HandledActivated | HandledKeepAlive | MessageReceived "packet option"

datatype link_event =
    Activated | DataEvent bytes | ProofEvent rns_hash | RemoteIdentified identity | ClosedEvent

record link =
  lk_id :: address_hash
  lk_destination :: single_out
  lk_priv_identity :: private_identity
  lk_peer_identity :: identity
  lk_remote_identity :: "identity option"
  lk_derived_key :: bytes
  lk_status :: link_status
  lk_request_time :: nanos
  lk_last_inbound :: nanos
  lk_last_outbound :: nanos
  lk_rtt :: nanos
  lk_rtt_known :: bool
  lk_keepalive :: nanos
  lk_last_keepalive :: nanos
  lk_proves_messages :: bool
  lk_mtu :: nat
  lk_establishment_cost :: nat
  lk_expected_rate :: "rat option"
  lk_last_resource_window :: "nat option"
  lk_last_resource_eifr :: "rat option"

definition LINK_MODE_AES256_CBC :: u8 where "LINK_MODE_AES256_CBC = 0x01"
definition LINK_MODE_BYTEMASK :: u8 where "LINK_MODE_BYTEMASK = 0xE0"
definition KEEPALIVE_MAX_RTT :: rat where "KEEPALIVE_MAX_RTT = 1.75"
definition KEEPALIVE_TIMEOUT_FACTOR :: nat where "KEEPALIVE_TIMEOUT_FACTOR = 4"
definition STALE_GRACE :: nanos where "STALE_GRACE = secs 5"
definition KEEPALIVE_MAX :: nanos where "KEEPALIVE_MAX = secs 360"
definition KEEPALIVE_MIN :: nanos where "KEEPALIVE_MIN = secs 5"
definition KEEPALIVE :: nanos where "KEEPALIVE = KEEPALIVE_MAX"
definition STALE_FACTOR :: nat where "STALE_FACTOR = 2"
definition WATCHDOG_MAX_SLEEP :: nanos where "WATCHDOG_MAX_SLEEP = secs 5"

section \<open>Creation\<close>

text \<open>The low three bytes of \<^verbatim>\<open>(mtu & 0x1F_FFFF) + (((mode << 5) & 0xE0) << 16)\<close>.\<close>

definition signalling_bytes :: "nat \<Rightarrow> bytes" where
  "signalling_bytes mtu =
     be_encode 3 (mtu mod 0x200000 + unat (push_bit 5 LINK_MODE_AES256_CBC AND 0xE0) * 0x10000)"

definition link_fresh ::
  "nanos \<Rightarrow> address_hash \<Rightarrow> single_out \<Rightarrow> private_identity \<Rightarrow> identity \<Rightarrow> nat \<Rightarrow> link" where
  "link_fresh now link_id destination priv peer mtu =
     \<lparr>lk_id = link_id, lk_destination = destination, lk_priv_identity = priv, lk_peer_identity = peer,
      lk_remote_identity = None, lk_derived_key = derived_key_new_empty, lk_status = Pending,
      lk_request_time = now, lk_last_inbound = now, lk_last_outbound = now, lk_rtt = 0,
      lk_rtt_known = False, lk_keepalive = KEEPALIVE, lk_last_keepalive = now,
      lk_proves_messages = False, lk_mtu = mtu, lk_establishment_cost = 0, lk_expected_rate = None,
      lk_last_resource_window = None, lk_last_resource_eifr = None\<rparr>"

definition link_new ::
  "crypto \<Rightarrow> bytes \<Rightarrow> nanos \<Rightarrow> private_identity \<Rightarrow> single_out \<Rightarrow> link" where
  "link_new C dflt now rand_identity destination =
     link_fresh now address_hash_new_empty destination rand_identity
       (identity_new C (replicate PUBLIC_KEY_LENGTH 0) dflt) PROTOCOL_MTU"

definition prove_messages :: "bool \<Rightarrow> link \<Rightarrow> link" where
  "prove_messages setting l = l\<lparr>lk_proves_messages := setting\<rparr>"

definition link_handshake :: "crypto \<Rightarrow> identity \<Rightarrow> link \<Rightarrow> link" where
  "link_handshake C peer_identity l =
     l\<lparr>lk_status := Handshake, lk_peer_identity := peer_identity,
       lk_derived_key := derived_key_new_from_private_key C (pi_private_key (lk_priv_identity l))
         (id_public_key peer_identity) (Some (addr_bytes (lk_id l)))\<rparr>"

definition reject_disabled_link_mode :: "packet \<Rightarrow> unit result" where
  "reject_disabled_link_mode p =
     (let keys = PUBLIC_KEY_LENGTH * 2 in
      if length (pk_data p) \<le> keys then Inr ()
      else if drop_bit 5 (pk_data p ! keys AND LINK_MODE_BYTEMASK) = LINK_MODE_AES256_CBC then Inr ()
      else Inl InvalidArgument)"

definition mtu_from_request :: "bytes \<Rightarrow> nat result" where
  "mtu_from_request data =
     (if length data \<ge> PUBLIC_KEY_LENGTH * 2 + LINK_MTU_SIZE
      then
        let mtu = be_decode (take LINK_MTU_SIZE (drop (PUBLIC_KEY_LENGTH * 2) data)) mod 0x200000
        in if mtu \<noteq> 0 \<and> mtu < LINK_MTU_MIN then Inl InvalidArgument
           else Inr (if mtu = 0 then PROTOCOL_MTU else mtu)
      else Inr PROTOCOL_MTU)"

text \<open>
  The two slices have the length of keys, so the branch where reading the peer's identity fails is
  never taken; the same holds where identities are read below.
\<close>

definition link_new_from_request ::
  "crypto \<Rightarrow> bytes \<Rightarrow> nanos \<Rightarrow> bytes \<Rightarrow> packet \<Rightarrow> bytes \<Rightarrow> single_out \<Rightarrow> link result" where
  "link_new_from_request C dflt now eph p signing_key destination =
     (if length (pk_data p) < PUBLIC_KEY_LENGTH * 2 then Inl InvalidArgument
      else case reject_disabled_link_mode p of
             Inl e \<Rightarrow> Inl e
           | Inr _ \<Rightarrow>
               (case identity_new_from_slices C dflt (take PUBLIC_KEY_LENGTH (pk_data p))
                       (take PUBLIC_KEY_LENGTH (drop PUBLIC_KEY_LENGTH (pk_data p))) of
                  None \<Rightarrow> Inl InvalidArgument
                | Some peer_identity \<Rightarrow>
                    (case mtu_from_request (pk_data p) of
                       Inl e \<Rightarrow> Inl e
                     | Inr mtu \<Rightarrow>
                         Inr (link_handshake C peer_identity
                           (link_fresh now (link_id_of (cr_sha C) p) destination
                             (private_identity_new C eph signing_key) peer_identity mtu)))))"

definition link_touch :: "nanos \<Rightarrow> link \<Rightarrow> link" where
  "link_touch now l =
     (let l = l\<lparr>lk_last_inbound := now\<rparr>
      in if lk_status l = Stale then l\<lparr>lk_status := Active\<rparr> else l)"

definition link_request :: "crypto \<Rightarrow> nanos \<Rightarrow> link \<Rightarrow> packet \<times> link" where
  "link_request C now l =
     (let i = pi_identity (lk_priv_identity l);
          p = \<lparr>pk_header = header_default\<lparr>hd_packet_type := LinkRequest\<rparr>, pk_ifac = None,
               pk_destination = so_address_hash (lk_destination l), pk_transport = None,
               pk_context = Ctx_None,
               pk_data = safe_concat [id_public_key i, id_verifying_key i, signalling_bytes (lk_mtu l)]\<rparr>
      in (p, link_touch now (l\<lparr>lk_status := Pending, lk_id := link_id_of (cr_sha C) p, lk_request_time := now\<rparr>)))"

section \<open>Packets on a link\<close>

definition link_ready :: "link \<Rightarrow> unit result" where
  "link_ready l = (case lk_status l of
       Pending \<Rightarrow> Inl LinkNotReady | Handshake \<Rightarrow> Inl LinkNotReady
     | Closed \<Rightarrow> Inl LinkClosed | Active \<Rightarrow> Inr () | Stale \<Rightarrow> Inr ())"

definition pi_encrypt :: "crypto \<Rightarrow> bytes \<Rightarrow> bytes \<Rightarrow> bytes \<Rightarrow> nat \<Rightarrow> bytes result option" where
  "pi_encrypt C iv txt derived_key buf = fernet_encrypt C (derived_cipher derived_key) iv txt buf"

definition pi_decrypt :: "crypto \<Rightarrow> bytes \<Rightarrow> bytes \<Rightarrow> nat \<Rightarrow> bytes result" where
  "pi_decrypt C data derived_key buf =
     (if length data \<le> PUBLIC_KEY_LENGTH then Inl InvalidArgument
      else case fernet_verify C (derived_cipher derived_key) data of
             Inl e \<Rightarrow> Inl e
           | Inr token \<Rightarrow> fernet_decrypt C (derived_cipher derived_key) token buf)"

definition link_encrypt :: "crypto \<Rightarrow> bytes \<Rightarrow> link \<Rightarrow> bytes \<Rightarrow> nat \<Rightarrow> bytes result option" where
  "link_encrypt C iv l txt buf = pi_encrypt C iv txt (lk_derived_key l) buf"

definition link_decrypt :: "crypto \<Rightarrow> link \<Rightarrow> bytes \<Rightarrow> nat \<Rightarrow> bytes result" where
  "link_decrypt C l txt buf = pi_decrypt C txt (lk_derived_key l) buf"

definition link_packet :: "link \<Rightarrow> packet_type \<Rightarrow> packet_context \<Rightarrow> bytes \<Rightarrow> packet" where
  "link_packet l ptype context data =
     \<lparr>pk_header = header_default\<lparr>hd_destination_type := Link, hd_packet_type := ptype\<rparr>, pk_ifac = None,
      pk_destination = lk_id l, pk_transport = None, pk_context = context, pk_data = data\<rparr>"

definition context_packet :: "crypto \<Rightarrow> bytes \<Rightarrow> bytes \<Rightarrow> packet_context \<Rightarrow> link \<Rightarrow> packet result option" where
  "context_packet C iv data context l = (case link_ready l of
       Inl e \<Rightarrow> Some (Inl e)
     | Inr _ \<Rightarrow> (case link_encrypt C iv l data PACKET_MDU of
           None \<Rightarrow> None
         | Some (Inl e) \<Rightarrow> Some (Inl e)
         | Some (Inr cipher_text) \<Rightarrow> Some (Inr (link_packet l Data context cipher_text))))"

definition data_packet :: "crypto \<Rightarrow> bytes \<Rightarrow> bytes \<Rightarrow> link \<Rightarrow> packet result option" where
  "data_packet C iv data l = (case link_ready l of
       Inl e \<Rightarrow> Some (Inl e)
     | Inr _ \<Rightarrow> (case link_encrypt C iv l data PACKET_MDU of
           None \<Rightarrow> None
         | Some (Inl e) \<Rightarrow> Some (Inl e)
         | Some (Inr cipher_text) \<Rightarrow> Some (Inr (link_packet l Data Ctx_None cipher_text))))"

definition link_identify :: "crypto \<Rightarrow> bytes \<Rightarrow> private_identity \<Rightarrow> link \<Rightarrow> packet result option" where
  "link_identify C iv identity l = (case link_ready l of
       Inl e \<Rightarrow> Some (Inl e)
     | Inr _ \<Rightarrow>
         let i = pi_identity identity;
             signed_data = addr_bytes (lk_id l) @ id_public_key i @ id_verifying_key i;
             proof_data = id_public_key i @ id_verifying_key i @ private_identity_sign C identity signed_data
         in case link_encrypt C iv l proof_data PACKET_MDU of
              None \<Rightarrow> None
            | Some (Inl e) \<Rightarrow> Some (Inl e)
            | Some (Inr cipher_text) \<Rightarrow> Some (Inr (link_packet l Data Ctx_LinkIdentify cipher_text)))"

definition keep_alive_packet :: "u8 \<Rightarrow> link \<Rightarrow> packet" where
  "keep_alive_packet data l = link_packet l Data Ctx_KeepAlive (safe_concat [[data]])"

definition raw_packet :: "bytes \<Rightarrow> packet_type \<Rightarrow> packet_context \<Rightarrow> link \<Rightarrow> packet result" where
  "raw_packet data ptype context l = (case link_ready l of
       Inl e \<Rightarrow> Inl e
     | Inr _ \<Rightarrow> Inr (link_packet l ptype context (safe_concat [data])))"

text \<open>The grown output buffer; the function returns its length.\<close>

definition encrypt_alloc :: "crypto \<Rightarrow> bytes \<Rightarrow> bytes \<Rightarrow> bytes \<Rightarrow> link \<Rightarrow> bytes result option" where
  "encrypt_alloc C iv txt out l =
     (case link_encrypt C iv l txt (length txt + TOKEN_OVERHEAD + 64) of
        None \<Rightarrow> None
      | Some (Inl e) \<Rightarrow> Some (Inl e)
      | Some (Inr chunk) \<Rightarrow> Some (Inr (out @ chunk)))"

definition set_mtu :: "nat \<Rightarrow> link \<Rightarrow> link" where
  "set_mtu mtu l = l\<lparr>lk_mtu := (if mtu = 0 then PROTOCOL_MTU else max mtu LINK_MTU_MIN)\<rparr>"

definition link_mdu :: "link \<Rightarrow> nat" where
  "link_mdu l =
     (let mdu = lk_mtu l - (IFAC_MIN_SIZE + HEADER_MINSIZE + TOKEN_OVERHEAD)
      in mdu div AES128_BLOCKSIZE * AES128_BLOCKSIZE - 1)"

definition link_sdu :: "link \<Rightarrow> nat" where
  "link_sdu l = lk_mtu l - (HEADER_MAXSIZE + IFAC_MIN_SIZE)"

definition add_establishment_cost :: "nat \<Rightarrow> link \<Rightarrow> link" where
  "add_establishment_cost cost l = l\<lparr>lk_establishment_cost := lk_establishment_cost l + cost\<rparr>"

definition set_expected_rate :: "rat option \<Rightarrow> link \<Rightarrow> link" where
  "set_expected_rate rate l = l\<lparr>lk_expected_rate := rate\<rparr>"

definition set_last_resource_window :: "nat option \<Rightarrow> link \<Rightarrow> link" where
  "set_last_resource_window window l = l\<lparr>lk_last_resource_window := window\<rparr>"

definition set_last_resource_eifr :: "rat option \<Rightarrow> link \<Rightarrow> link" where
  "set_last_resource_eifr eifr l = l\<lparr>lk_last_resource_eifr := eifr\<rparr>"

definition message_proof :: "crypto \<Rightarrow> rns_hash \<Rightarrow> link \<Rightarrow> packet" where
  "message_proof C hash l = link_packet l Proof Ctx_None
     (safe_concat [hash_bytes hash, private_identity_sign C (lk_priv_identity l) (hash_bytes hash)])"

text \<open>A failing encryption panics here through \<^verbatim>\<open>expect\<close>.\<close>

definition create_rtt :: "crypto \<Rightarrow> (nanos \<Rightarrow> bytes) \<Rightarrow> bytes \<Rightarrow> link \<Rightarrow> packet option" where
  "create_rtt C wr iv l = (case link_encrypt C iv l (wr (lk_rtt l)) PACKET_MDU of
       Some (Inr token) \<Rightarrow> Some (link_packet l Data Ctx_LinkRTT token)
     | _ \<Rightarrow> None)"

section \<open>Timing\<close>

definition link_stale :: "link \<Rightarrow> link" where "link_stale l = l\<lparr>lk_status := Stale\<rparr>"
definition link_restart :: "link \<Rightarrow> link" where "link_restart l = l\<lparr>lk_status := Pending\<rparr>"

definition link_elapsed :: "nanos \<Rightarrow> link \<Rightarrow> nanos" where
  "link_elapsed now l = now - lk_last_inbound l"

definition since_request :: "nanos \<Rightarrow> link \<Rightarrow> nanos" where
  "since_request now l = now - lk_request_time l"

definition stale_time :: "link \<Rightarrow> nanos" where
  "stale_time l = lk_keepalive l * STALE_FACTOR"

definition effective_stale :: "nanos \<Rightarrow> link \<Rightarrow> nanos" where
  "effective_stale unknown_rtt l = (if lk_rtt_known l then stale_time l else unknown_rtt)"

definition close_grace :: "link \<Rightarrow> nanos" where
  "close_grace l =
     min (if lk_rtt_known l then lk_rtt l * KEEPALIVE_TIMEOUT_FACTOR + STALE_GRACE else STALE_GRACE)
       WATCHDOG_MAX_SLEEP"

definition keepalive_interval :: "nanos \<Rightarrow> link \<Rightarrow> nanos" where
  "keepalive_interval unknown_rtt l = (if lk_rtt_known l then lk_keepalive l else unknown_rtt)"

definition keepalive_due :: "nanos \<Rightarrow> nanos \<Rightarrow> link \<Rightarrow> bool" where
  "keepalive_due now unknown_rtt l =
     (if lk_status l \<noteq> Active then False
      else
        let interval = keepalive_interval unknown_rtt l;
            inbound_idle = (now - lk_last_inbound l \<ge> interval);
            outbound_idle = (now - lk_last_outbound l \<ge> interval);
            keepalive_idle = (now - lk_last_keepalive l \<ge> interval)
        in (inbound_idle \<or> outbound_idle) \<and> keepalive_idle)"

definition keepalive_reply_due :: "nanos \<Rightarrow> nanos \<Rightarrow> link \<Rightarrow> bool" where
  "keepalive_reply_due now unknown_rtt l =
     (if lk_status l \<noteq> Active \<and> lk_status l \<noteq> Stale then False
      else now - lk_last_outbound l \<ge> keepalive_interval unknown_rtt l)"

definition mark_outbound :: "nanos \<Rightarrow> bool \<Rightarrow> link \<Rightarrow> link" where
  "mark_outbound now is_keepalive l =
     (let l = l\<lparr>lk_last_outbound := now\<rparr>
      in if is_keepalive then l\<lparr>lk_last_keepalive := now\<rparr> else l)"

definition mark_keepalive_sent :: "nanos \<Rightarrow> link \<Rightarrow> link" where
  "mark_keepalive_sent now l = mark_outbound now True l"

definition note_rtt :: "nanos \<Rightarrow> link \<Rightarrow> link" where
  "note_rtt rtt l =
     (let scaled = of_nat rtt / 1000000000 * (360 / KEEPALIVE_MAX_RTT);
          s = max 5 (min 360 scaled)
      in l\<lparr>lk_rtt := rtt, lk_rtt_known := True, lk_keepalive := from_secs_f64 s\<rparr>)"

definition note_responder_rtt :: "nanos \<Rightarrow> nanos \<Rightarrow> link \<Rightarrow> link" where
  "note_responder_rtt now advertised l = note_rtt (max (since_request now l) advertised) l"

section \<open>Incoming packets\<close>

definition link_close :: "link \<Rightarrow> link_event list \<times> link" where
  "link_close l = ([ClosedEvent], l\<lparr>lk_status := Closed\<rparr>)"

text \<open>The result, the events posted, the payloads handed to the channel, and the link.\<close>

type_synonym link_outcome = "link_handle_result \<times> link_event list \<times> bytes list \<times> link"

definition handle_identify :: "crypto \<Rightarrow> bytes \<Rightarrow> bool \<Rightarrow> bytes \<Rightarrow> link \<Rightarrow> link_event list \<times> link" where
  "handle_identify C dflt out_link plain l =
     (if \<not> out_link \<and> length plain = PUBLIC_KEY_LENGTH * 2 + SIGNATURE_LENGTH
      then
        let public_key = take PUBLIC_KEY_LENGTH plain;
            verifying_key = take PUBLIC_KEY_LENGTH (drop PUBLIC_KEY_LENGTH plain);
            signed_data = addr_bytes (lk_id l) @ public_key @ verifying_key;
            signature = drop (PUBLIC_KEY_LENGTH * 2) plain
        in case identity_new_from_slices C dflt public_key verifying_key of
             None \<Rightarrow> ([], l)
           | Some identity \<Rightarrow>
               if identity_verify C identity signed_data signature = Inr () \<and> lk_remote_identity l = None
               then ([RemoteIdentified identity], l\<lparr>lk_remote_identity := Some identity\<rparr>)
               else ([], l)
      else ([], l))"

definition handle_data_packet ::
  "crypto \<Rightarrow> bytes \<Rightarrow> (bytes \<Rightarrow> rat option) \<Rightarrow> nanos \<Rightarrow> bool \<Rightarrow> packet \<Rightarrow> bool \<Rightarrow> link \<Rightarrow> link_outcome" where
  "handle_data_packet C dflt rd now has_channel p out_link l =
     (if not_yet_active (lk_status l) then (HandledNone, [], [], l)
      else
        let plain_text = link_decrypt C l (pk_data p) PACKET_MDU
        in case pk_context p of
             Ctx_None \<Rightarrow>
               (case plain_text of
                  Inl _ \<Rightarrow> (HandledNone, [], [], l)
                | Inr plain \<Rightarrow>
                    let l = link_touch now l
                    in (MessageReceived (if lk_proves_messages l
                          then Some (message_proof C (packet_hash (cr_sha C) p) l) else None),
                        [DataEvent (link_payload_new_from_slice plain)], [], l))
           | Ctx_LinkIdentify \<Rightarrow>
               (case plain_text of
                  Inl _ \<Rightarrow> (HandledNone, [], [], l)
                | Inr plain \<Rightarrow>
                    let (evs, l) = handle_identify C dflt out_link plain (link_touch now l)
                    in (HandledNone, evs, [], l))
           | Ctx_KeepAlive \<Rightarrow>
               if pk_data p \<noteq> [] \<and> hd (pk_data p) = 0xFF
               then if out_link then (HandledNone, [], [], l)
                    else (HandledKeepAlive, [], [], link_touch now l)
               else if pk_data p \<noteq> [] \<and> hd (pk_data p) = 0xFE
               then (HandledNone, [], [], link_touch now l)
               else (HandledNone, [], [], l)
           | Ctx_LinkRTT \<Rightarrow>
               if out_link then (HandledNone, [], [], l)
               else (case plain_text of
                  Inl _ \<Rightarrow> (HandledNone, [], [], l)
                | Inr plain \<Rightarrow>
                    (case rd plain of
                       Some rtt \<Rightarrow>
                         if 0 \<le> rtt \<and> rtt < 86400
                         then (HandledNone, [], [], link_touch now (note_responder_rtt now (from_secs_f64 rtt) l))
                         else (HandledNone, [], [], l)
                     | None \<Rightarrow> (HandledNone, [], [], l)))
           | Ctx_LinkClose \<Rightarrow>
               (case plain_text of
                  Inl _ \<Rightarrow> (HandledNone, [], [], l)
                | Inr plain \<Rightarrow>
                    if length plain = ADDRESS_HASH_SIZE \<and> lk_id l = AddressHash plain
                    then let (evs, l) = link_close l in (HandledNone, evs, [], l)
                    else (HandledNone, [], [], l))
           | Ctx_Channel \<Rightarrow>
               if \<not> has_channel then (HandledNone, [], [], l)
               else (case plain_text of
                  Inl _ \<Rightarrow> (HandledNone, [], [], l)
                | Inr plain \<Rightarrow>
                    let l = link_touch now l
                    in (MessageReceived (Some (message_proof C (packet_hash (cr_sha C) p) l)),
                        [DataEvent (link_payload_new_from_slice plain)],
                        [link_payload_new_from_slice plain], l))
           | _ \<Rightarrow> (HandledNone, [], [], l))"

definition mode_from_lp_packet :: "bytes \<Rightarrow> u8" where
  "mode_from_lp_packet data =
     (let offset = SIGNATURE_LENGTH + PUBLIC_KEY_LENGTH
      in if length data > offset then drop_bit 5 (data ! offset) else LINK_MODE_AES256_CBC)"

definition validate_proof_packet :: "crypto \<Rightarrow> bytes \<Rightarrow> single_out \<Rightarrow> address_hash \<Rightarrow> packet \<Rightarrow> identity result" where
  "validate_proof_packet C dflt destination link_id p =
     (let data = pk_data p;
          peer_key = take PUBLIC_KEY_LENGTH (drop SIGNATURE_LENGTH data);
          verifying_key = id_verifying_key (so_identity destination);
          mtu_bytes = (if length data \<ge> SIGNATURE_LENGTH + PUBLIC_KEY_LENGTH + LINK_MTU_SIZE
                       then drop (SIGNATURE_LENGTH + PUBLIC_KEY_LENGTH) data else [])
      in if length data < SIGNATURE_LENGTH + PUBLIC_KEY_LENGTH then Inl PacketError
         else if length mtu_bytes > LINK_MTU_SIZE then Inl OutOfMemory
         else case identity_new_from_slices C dflt peer_key verifying_key of
                None \<Rightarrow> Inl CryptoError
              | Some identity \<Rightarrow>
                  if identity_verify C identity (addr_bytes link_id @ peer_key @ verifying_key @ mtu_bytes)
                       (take SIGNATURE_LENGTH data) = Inr ()
                  then Inr identity else Inl IncorrectSignature)"

definition validate_message_proof :: "crypto \<Rightarrow> identity \<Rightarrow> bytes \<Rightarrow> rns_hash result" where
  "validate_message_proof C identity data =
     (if length data \<le> HASH_SIZE then Inl PacketError
      else if length (drop HASH_SIZE data) \<noteq> SIGNATURE_LENGTH then Inl PacketError
      else if cr_ed_verify C (id_verifying_key identity) (take HASH_SIZE data) (drop HASH_SIZE data)
      then Inr (Hash (take HASH_SIZE data)) else Inl IncorrectSignature)"

definition handle_message_proof :: "crypto \<Rightarrow> nanos \<Rightarrow> packet \<Rightarrow> link \<Rightarrow> link_outcome" where
  "handle_message_proof C now p l =
     (if (lk_status l = Active \<or> lk_status l = Stale) \<and> pk_context p = Ctx_None
      then (case validate_message_proof C (lk_peer_identity l) (pk_data p) of
              Inr hash \<Rightarrow> (HandledNone, [ProofEvent hash], [], link_touch now l)
            | Inl _ \<Rightarrow> (HandledNone, [], [], l))
      else (HandledNone, [], [], l))"

definition handle_proof_packet :: "crypto \<Rightarrow> bytes \<Rightarrow> nanos \<Rightarrow> packet \<Rightarrow> link \<Rightarrow> link_outcome" where
  "handle_proof_packet C dflt now p l =
     (if lk_status l = Pending \<and> pk_context p = Ctx_LinkRequestProof
      then if mode_from_lp_packet (pk_data p) \<noteq> LINK_MODE_AES256_CBC
           then let (evs, l) = link_close l in (HandledNone, evs, [], l)
           else (case validate_proof_packet C dflt (lk_destination l) (lk_id l) p of
                   Inr identity \<Rightarrow>
                     let l = link_handshake C identity l;
                         l = l\<lparr>lk_remote_identity := Some (so_identity (lk_destination l)), lk_status := Active\<rparr>;
                         l = note_rtt (since_request now l) l;
                         l = link_touch now (l\<lparr>lk_last_keepalive := now\<rparr>)
                     in (HandledActivated, [Activated], [], l)
                 | Inl _ \<Rightarrow> handle_message_proof C now p l)
      else handle_message_proof C now p l)"

definition link_handle_packet ::
  "crypto \<Rightarrow> bytes \<Rightarrow> (bytes \<Rightarrow> rat option) \<Rightarrow> nanos \<Rightarrow> bool \<Rightarrow> packet \<Rightarrow> bool \<Rightarrow> link \<Rightarrow> link_outcome" where
  "link_handle_packet C dflt rd now has_channel p out_link l =
     (if pk_destination p \<noteq> lk_id l then (HandledNone, [], [], l)
      else case hd_packet_type (pk_header p) of
             Data \<Rightarrow> handle_data_packet C dflt rd now has_channel p out_link l
           | Proof \<Rightarrow> handle_proof_packet C dflt now p l
           | _ \<Rightarrow> (HandledNone, [], [], l))"

definition link_prove :: "crypto \<Rightarrow> link \<Rightarrow> packet \<times> link_event list \<times> link" where
  "link_prove C l =
     (let (evs, l) = (if lk_status l \<noteq> Active then ([Activated], l\<lparr>lk_status := Active\<rparr>) else ([], l));
          i = pi_identity (lk_priv_identity l);
          sig_bytes = signalling_bytes (lk_mtu l);
          signature = private_identity_sign C (lk_priv_identity l)
            (safe_concat [addr_bytes (lk_id l), id_public_key i, id_verifying_key i, sig_bytes])
      in (\<lparr>pk_header = header_default\<lparr>hd_packet_type := Proof\<rparr>, pk_ifac = None, pk_destination = lk_id l,
           pk_transport = None, pk_context = Ctx_LinkRequestProof,
           pk_data = safe_concat [signature, id_public_key i, sig_bytes]\<rparr>, evs, l))"

text \<open>The token of the close packet uses the all-zero initialisation vector.\<close>

definition link_teardown :: "crypto \<Rightarrow> link \<Rightarrow> (packet option result \<times> link_event list \<times> link) option" where
  "link_teardown C l =
     (if lk_status l \<noteq> Pending \<and> lk_status l \<noteq> Closed
      then (case data_packet C (replicate IV_KEY_SIZE 0) (addr_bytes (lk_id l)) l of
              None \<Rightarrow> None
            | Some (Inl e) \<Rightarrow> Some (Inl e, [], l)
            | Some (Inr p) \<Rightarrow>
                let (evs, l) = link_close l in Some (Inr (Some (p\<lparr>pk_context := Ctx_LinkClose\<rparr>)), evs, l))
      else let (evs, l) = link_close l in Some (Inr None, evs, l))"

section \<open>Link map\<close>

type_synonym link_map = "(address_hash, address_hash) btree_map"

definition link_map_resolve :: "link_map \<Rightarrow> address_hash \<Rightarrow> address_hash option" where
  "link_map_resolve m address = hm_get m address"

definition link_map_insert :: "address_hash \<Rightarrow> address_hash \<Rightarrow> link_map \<Rightarrow> link_map" where
  "link_map_insert address link_id m = bm_insert address link_id m"

definition link_map_remove :: "address_hash \<Rightarrow> link_map \<Rightarrow> link_map" where
  "link_map_remove address m = hm_remove address m"

section \<open>Establishing a link\<close>

text \<open>
  A packet on its way: relays rewrite the header type, the hops, the transport address and the
  interface access code, and keep what the receiver reads.
\<close>

definition same_payload :: "packet \<Rightarrow> packet \<Rightarrow> bool" where
  "same_payload p q \<longleftrightarrow>
     hd_destination_type (pk_header p) = hd_destination_type (pk_header q) \<and>
     hd_packet_type (pk_header p) = hd_packet_type (pk_header q) \<and>
     pk_destination p = pk_destination q \<and> pk_context p = pk_context q \<and> pk_data p = pk_data q"

lemma same_payload_hash: "same_payload p q \<Longrightarrow> packet_hash sha p = packet_hash sha q"
  unfolding same_payload_def by (elim conjE) (rule packet_hash_cong)

text \<open>Two ends of one link: the same identifier and key, and each knows the other's signing key.\<close>

definition links_paired :: "crypto \<Rightarrow> link \<Rightarrow> link \<Rightarrow> bool" where
  "links_paired C a b \<longleftrightarrow>
     lk_id a = lk_id b \<and> lk_derived_key a = lk_derived_key b \<and>
     link_ready a = Inr () \<and> link_ready b = Inr () \<and>
     id_verifying_key (lk_peer_identity a) = cr_ed_public C (pi_sign_key (lk_priv_identity b)) \<and>
     id_verifying_key (lk_peer_identity b) = cr_ed_public C (pi_sign_key (lk_priv_identity a))"

lemma links_paired_sym: "links_paired C a b \<Longrightarrow> links_paired C b a"
  by (simp add: links_paired_def)

lemma link_touch_frame [simp]:
  "lk_id (link_touch now l) = lk_id l" "lk_derived_key (link_touch now l) = lk_derived_key l"
  "lk_peer_identity (link_touch now l) = lk_peer_identity l"
  "lk_priv_identity (link_touch now l) = lk_priv_identity l"
  "lk_destination (link_touch now l) = lk_destination l"
  "lk_proves_messages (link_touch now l) = lk_proves_messages l"
  "lk_remote_identity (link_touch now l) = lk_remote_identity l"
  "lk_mtu (link_touch now l) = lk_mtu l"
  "lk_status (link_touch now l) = (if lk_status l = Stale then Active else lk_status l)"
  by (simp_all add: link_touch_def Let_def)

lemma note_rtt_frame [simp]:
  "lk_id (note_rtt r l) = lk_id l" "lk_derived_key (note_rtt r l) = lk_derived_key l"
  "lk_peer_identity (note_rtt r l) = lk_peer_identity l"
  "lk_priv_identity (note_rtt r l) = lk_priv_identity l"
  "lk_destination (note_rtt r l) = lk_destination l"
  "lk_status (note_rtt r l) = lk_status l" "lk_remote_identity (note_rtt r l) = lk_remote_identity l"
  by (simp_all add: note_rtt_def Let_def)

lemma link_ready_iff: "link_ready l = Inr () \<longleftrightarrow> lk_status l = Active \<or> lk_status l = Stale"
  by (cases "lk_status l") (simp_all add: link_ready_def)

lemma links_paired_touch: "links_paired C a b \<Longrightarrow> links_paired C a (link_touch now b)"
  by (auto simp: links_paired_def link_ready_iff)

lemma signalling_mode: "drop_bit 5 (hd (signalling_bytes mtu)) = LINK_MODE_AES256_CBC"
proof -
  define k where "k = (mtu mod 0x200000 + 0x200000) div 0x10000"
  have k: "32 \<le> k" "k < 64"
  proof -
    have "mtu mod 0x200000 < 0x200000" by simp
    then have "0x10000 * 32 \<le> mtu mod 0x200000 + 0x200000" "mtu mod 0x200000 + 0x200000 < 0x10000 * 64"
      by linarith+
    then show "32 \<le> k" "k < 64"
      unfolding k_def by (simp_all add: less_eq_div_iff_mult_less_eq less_mult_imp_div_less)
  qed
  have "hd (signalling_bytes mtu) = word_of_nat k"
    using k by (simp add: signalling_bytes_def numeral_3_eq_3 LINK_MODE_AES256_CBC_def k_def)
  moreover have "unat (drop_bit 5 (word_of_nat k :: u8)) = k div 32"
    using k by (simp add: drop_bit_eq_div unat_div_distrib unat_of_nat)
  moreover have "k div 32 = 1"
    using k by linarith
  ultimately have "unat (drop_bit 5 (hd (signalling_bytes mtu))) = 1"
    by simp
  then show ?thesis
    by (simp add: LINK_MODE_AES256_CBC_def word_unat_eq_iff)
qed

lemma length_signalling [simp]: "length (signalling_bytes mtu) = 3"
  by (simp add: signalling_bytes_def)

lemma link_id_of_cong:
  assumes "hd_destination_type (pk_header p) = hd_destination_type (pk_header q)"
    and "hd_packet_type (pk_header p) = hd_packet_type (pk_header q)"
    and "pk_destination p = pk_destination q" "pk_context p = pk_context q"
    and "take 64 (pk_data p) = take 64 (pk_data q)"
  shows "link_id_of sha p = link_id_of sha q"
proof -
  have *: "take (length d - (if PUBLIC_KEY_LENGTH * 2 < length d then length d - PUBLIC_KEY_LENGTH * 2 else 0)) d
      = take 64 d" for d :: bytes
    by (simp add: PUBLIC_KEY_LENGTH_def)
  show ?thesis
    using assms unfolding link_id_of_def Let_def * by (simp add: low_nibble_bits)
qed

lemma mode_of_proof:
  assumes "length s = 64" "length k = 32"
  shows "mode_from_lp_packet (s @ k @ signalling_bytes mtu) = LINK_MODE_AES256_CBC"
proof -
  obtain b bs where b: "signalling_bytes mtu = b # bs"
    by (cases "signalling_bytes mtu") (use length_signalling [of mtu] in simp_all)
  with signalling_mode [of mtu] assms show ?thesis
    by (simp add: mode_from_lp_packet_def PUBLIC_KEY_LENGTH_def SIGNATURE_LENGTH_def nth_append)
qed

text \<open>The request, the responder's link and its proof, written out.\<close>

lemma link_request_data:
  assumes "private_identity_ok C (lk_priv_identity l)" "exchange_ok C" "signature_ok C"
    and "link_request C now l = (req, l')"
  shows "take 32 (pk_data req) = id_public_key (pi_identity (lk_priv_identity l))"
    "take 32 (drop 32 (pk_data req)) = id_verifying_key (pi_identity (lk_priv_identity l))"
    "lk_id l' = link_id_of (cr_sha C) req" "lk_status l' = Pending" "lk_destination l' = lk_destination l"
    "lk_priv_identity l' = lk_priv_identity l"
  using assms(4) identity_keys(1,2) [OF assms(1-3)]
  by (auto simp: link_request_def Let_def safe_concat_def PACKET_MDU_def)

lemma link_new_from_request_Inr:
  assumes "link_new_from_request C dflt now eph p key dest = Inr r"
  shows "64 \<le> length (pk_data p)"
    "r = link_handshake C
       (identity_new C (take 32 (pk_data p))
         (if cr_ed_valid C (take 32 (drop 32 (pk_data p))) then take 32 (drop 32 (pk_data p)) else dflt))
       (link_fresh now (link_id_of (cr_sha C) p) dest (private_identity_new C eph key)
         (lk_peer_identity r) (lk_mtu r))"
  using assms
  by (auto simp: link_new_from_request_def identity_new_from_slices_def PUBLIC_KEY_LENGTH_def
      link_handshake_def link_fresh_def split: if_splits sum.splits)

lemma link_prove_data:
  assumes "addr_ok (lk_id l)" "private_identity_ok C (lk_priv_identity l)" "exchange_ok C" "signature_ok C"
    and "link_prove C l = (prf, evs, l')"
  defines "i \<equiv> pi_identity (lk_priv_identity l)" and "sg \<equiv> signalling_bytes (lk_mtu l)"
  shows "pk_data prf = private_identity_sign C (lk_priv_identity l)
      (addr_bytes (lk_id l) @ id_public_key i @ id_verifying_key i @ sg) @ id_public_key i @ sg"
    "pk_destination prf = lk_id l" "pk_context prf = Ctx_LinkRequestProof"
    "hd_packet_type (pk_header prf) = Proof" "l' = l\<lparr>lk_status := Active\<rparr>"
  using assms(5) identity_keys [OF assms(2-4)] assms(1)
  by (auto simp: link_prove_def Let_def safe_concat_def PACKET_MDU_def i_def sg_def addr_ok_def
      ADDRESS_HASH_SIZE_def split: if_splits)

lemma validate_proof_packet_ok:
  assumes "pk_data p = sig @ k @ sg" "length sig = 64" "length k = 32" "length sg = 3"
    and "length (id_verifying_key (so_identity dest)) = 32" "cr_ed_valid C (id_verifying_key (so_identity dest))"
    and "cr_ed_verify C (id_verifying_key (so_identity dest))
          (addr_bytes a @ k @ id_verifying_key (so_identity dest) @ sg) sig"
  shows "validate_proof_packet C dflt dest a p = Inr (identity_new C k (id_verifying_key (so_identity dest)))"
  using assms
  by (simp add: validate_proof_packet_def Let_def PUBLIC_KEY_LENGTH_def SIGNATURE_LENGTH_def LINK_MTU_SIZE_def
      identity_new_from_slices_def identity_verify_def identity_new_def)

text \<open>What the initiator does with a valid proof.\<close>

definition link_activated :: "crypto \<Rightarrow> nanos \<Rightarrow> identity \<Rightarrow> link \<Rightarrow> link" where
  "link_activated C now i l =
     (let l = (link_handshake C i l)\<lparr>lk_remote_identity := Some (so_identity (lk_destination l)), lk_status := Active\<rparr>;
          l = note_rtt (since_request now l) l
      in link_touch now (l\<lparr>lk_last_keepalive := now\<rparr>))"

lemma handle_valid_proof:
  assumes "lk_status l = Pending" "pk_destination p = lk_id l" "hd_packet_type (pk_header p) = Proof"
    and "pk_context p = Ctx_LinkRequestProof" "mode_from_lp_packet (pk_data p) = LINK_MODE_AES256_CBC"
    and "validate_proof_packet C dflt (lk_destination l) (lk_id l) p = Inr i"
  shows "link_handle_packet C dflt rd now ch p out l = (HandledActivated, [Activated], [], link_activated C now i l)"
  using assms by (simp add: link_handle_packet_def handle_proof_packet_def link_activated_def Let_def
      link_handshake_def)

lemma link_id_ok: "sha_ok (cr_sha C) \<Longrightarrow> addr_ok (link_id_of (cr_sha C) p)"
  by (simp add: link_id_of_def Let_def address_hash_new_from_hash_def addr_ok_def sha_ok_def
      ADDRESS_HASH_SIZE_def)

lemma identity_sign_key:
  "id_verifying_key (pi_identity (private_identity_new C a b)) = cr_ed_public C b"
  by (simp add: private_identity_new_def identity_new_def)

lemma identity_own_keys:
  assumes "private_identity_ok C p"
  shows "id_public_key (pi_identity p) = cr_x_public C (pi_private_key p)"
    "id_verifying_key (pi_identity p) = cr_ed_public C (pi_sign_key p)"
proof -
  have p: "p = private_identity_new C (pi_private_key p) (pi_sign_key p)"
    using assms by (simp add: private_identity_ok_def)
  show "id_public_key (pi_identity p) = cr_x_public C (pi_private_key p)"
    "id_verifying_key (pi_identity p) = cr_ed_public C (pi_sign_key p)"
    by (subst p, simp add: private_identity_new_def identity_new_def)+
qed

text \<open>The responder's link, from a relayed request.\<close>

lemma responder_link:
  assumes C: "exchange_ok C" "signature_ok C" and ini: "private_identity_ok C (lk_priv_identity l0)"
    and req: "link_request C t1 l0 = (req, l1)"
    and relayed: "same_payload (req'\<lparr>pk_data := []\<rparr>) (req\<lparr>pk_data := []\<rparr>)"
      "take (PUBLIC_KEY_LENGTH * 2) (pk_data req') = take (PUBLIC_KEY_LENGTH * 2) (pk_data req)"
    and res: "link_new_from_request C dflt t2 eph req' key dest = Inr r0"
  shows "lk_id r0 = lk_id l1" "lk_priv_identity r0 = private_identity_new C eph key"
    "lk_peer_identity r0 = pi_identity (lk_priv_identity l0)"
    "lk_derived_key r0 = derived_key_new C
       (cr_x_dh C eph (id_public_key (pi_identity (lk_priv_identity l0)))) (Some (addr_bytes (lk_id l1)))"
proof -
  let ?ini = "pi_identity (lk_priv_identity l0)" and ?rp = "private_identity_new C eph key"
  note rq = link_request_data [OF ini C req] and ik = identity_keys [OF ini C]
  have d: "take 64 (pk_data req') = take 64 (pk_data req)"
    using relayed(2) by (simp add: PUBLIC_KEY_LENGTH_def)
  have keys: "take 32 (pk_data req') = id_public_key ?ini" "take 32 (drop 32 (pk_data req')) = id_verifying_key ?ini"
    using rq(1,2) arg_cong [OF d, of "take 32"] arg_cong [OF d, of "\<lambda>x. take 32 (drop 32 x)"]
    by (simp_all add: drop_take ik(2))
  have lid: "link_id_of (cr_sha C) req' = lk_id l1"
    unfolding rq(3) by (rule link_id_of_cong) (use relayed(1) d in \<open>simp_all add: same_payload_def\<close>)
  have r0: "r0 = link_handshake C ?ini (link_fresh t2 (lk_id l1) dest ?rp (lk_peer_identity r0) (lk_mtu r0))"
    using link_new_from_request_Inr(2) [OF res] by (simp add: keys ik(3,4) lid)
  show "lk_id r0 = lk_id l1" "lk_priv_identity r0 = ?rp" "lk_peer_identity r0 = ?ini"
    "lk_derived_key r0 = derived_key_new C (cr_x_dh C eph (id_public_key ?ini)) (Some (addr_bytes (lk_id l1)))"
    by (subst r0, simp add: link_handshake_def link_fresh_def derived_key_new_from_private_key_def
        private_identity_new_def)+
qed

text \<open>
  Claim C1. The handshake gives both ends the same link. Whatever relays did to the headers of the
  request and the proof, and even if the signalling bytes of the request were cut off or replaced, if
  the responder accepts the request then the initiator accepts its proof, and both hold the same link
  identifier and key, are ready to send, and know each other's signing keys; the initiator knows the
  owner of the destination.
\<close>

theorem link_established:
  assumes C: "exchange_ok C" "signature_ok C" "sha_ok (cr_sha C)"
    and ini: "private_identity_ok C (lk_priv_identity l0)"
    and own: "private_identity_ok C owner" "so_identity (lk_destination l0) = pi_identity owner"
    and req: "link_request C t1 l0 = (req, l1)"
    and relayed: "same_payload (req'\<lparr>pk_data := []\<rparr>) (req\<lparr>pk_data := []\<rparr>)"
      "take (PUBLIC_KEY_LENGTH * 2) (pk_data req') = take (PUBLIC_KEY_LENGTH * 2) (pk_data req)"
    and eph: "length eph = PUBLIC_KEY_LENGTH"
    and res: "link_new_from_request C dflt t2 eph req' (pi_sign_key owner) dest = Inr r0"
    and pr: "link_prove C r0 = (prf, evs, r1)" "same_payload prf' prf"
  shows "\<exists>l2. link_handle_packet C dflt rd t3 ch prf' True l1 = (HandledActivated, [Activated], [], l2)
    \<and> links_paired C l2 r1 \<and> lk_remote_identity l2 = Some (pi_identity owner)"
proof -
  note R = responder_link [OF C(1,2) ini req relayed res]
  note rq = link_request_data [OF ini C(1,2) req] and ok = identity_keys [OF own(1) C(1,2)]
  have sk: "length (pi_sign_key owner) = PUBLIC_KEY_LENGTH"
    using own(1) by (simp add: private_identity_ok_def)
  have rp: "private_identity_ok C (lk_priv_identity r0)"
    unfolding R(2) using eph sk by (rule private_identity_new_ok)
  have vk: "id_verifying_key (pi_identity owner) = cr_ed_public C (pi_sign_key owner)"
    using own(1) by (rule identity_own_keys)
  have aid: "addr_ok (lk_id r0)"
    using link_id_ok [OF C(3), of req] by (simp add: R(1) rq(3))
  note P = link_prove_data [OF aid rp C(1,2) pr(1)] and rk = identity_keys [OF rp C(1,2)]
  have vk': "id_verifying_key (pi_identity (lk_priv_identity r0)) = id_verifying_key (pi_identity owner)"
    unfolding R(2) vk by (rule identity_sign_key)
  have pd: "pk_data prf' = pk_data prf" "pk_destination prf' = lk_id l1" "hd_packet_type (pk_header prf') = Proof"
    "pk_context prf' = Ctx_LinkRequestProof"
    using pr(2) P(2-4) R(1) by (simp_all add: same_payload_def)
  let ?k = "id_public_key (pi_identity (lk_priv_identity r0))" and ?i = "pi_identity owner"
  have val: "validate_proof_packet C dflt (lk_destination l1) (lk_id l1) prf' =
      Inr (identity_new C ?k (id_verifying_key ?i))"
    unfolding rq(5) own(2) [symmetric]
    by (rule validate_proof_packet_ok)
      (use P(1) rk ok in \<open>auto simp: pd own(2) vk' R(1) simp flip: vk'\<close>)
  have mode: "mode_from_lp_packet (pk_data prf') = LINK_MODE_AES256_CBC"
    unfolding pd(1) P(1) using rk(6,1) by (rule mode_of_proof)
  have dh: "cr_x_dh C (pi_private_key (lk_priv_identity l0)) (cr_x_public C eph) =
      cr_x_dh C eph (cr_x_public C (pi_private_key (lk_priv_identity l0)))"
    using C(1) by (simp add: exchange_ok_def)
  have "links_paired C (link_activated C t3 (identity_new C ?k (id_verifying_key ?i)) l1) r1"
    using R own vk vk' P(5) rq dh identity_own_keys(1) [OF rp]
    by (simp add: links_paired_def link_activated_def Let_def link_ready_iff link_handshake_def
        identity_own_keys(1,2) [OF ini]
        identity_new_def derived_key_new_from_private_key_def private_identity_new_def)
  moreover have "lk_remote_identity (link_activated C t3 (identity_new C ?k (id_verifying_key ?i)) l1) = Some ?i"
    by (simp add: link_activated_def Let_def rq(5) own(2) link_handshake_def)
  ultimately show ?thesis
    using handle_valid_proof [OF rq(4) pd(2-4) mode val] by blast
qed

section \<open>Data on an established link\<close>

lemma link_encrypt_Inr:
  assumes "cipher_ok C" "length iv = 16" "link_encrypt C iv a d buf = Some (Inr ct)"
  shows "ct = fernet_token C (derived_cipher (lk_derived_key a)) iv d" "length d div 16 * 16 + 64 \<le> buf"
  using assms(3) fernet_encrypt_cases [OF assms(1,2)]
  by (auto simp: link_encrypt_def pi_encrypt_def split: if_splits)

lemma link_decrypt_token:
  assumes "cipher_ok C" "length iv = 16" "length d div 16 * 16 + 64 \<le> buf"
  shows "link_decrypt C l (fernet_token C (derived_cipher (lk_derived_key l)) iv d) buf = Inr d"
  using assms fernet_verify_token [OF assms(1,2)] fernet_decrypt_token [OF assms(1,2), of d buf]
    length_fernet_token [OF assms(1,2)]
  by (simp add: link_decrypt_def pi_decrypt_def PUBLIC_KEY_LENGTH_def)

lemma context_packet_Inr:
  assumes "cipher_ok C" "length iv = 16" "context_packet C iv d ctx a = Some (Inr p)"
  shows "p = link_packet a Data ctx (fernet_token C (derived_cipher (lk_derived_key a)) iv d)"
    "length d div 16 * 16 + 64 \<le> PACKET_MDU" "link_ready a = Inr ()"
  using assms(3) link_encrypt_Inr [OF assms(1,2), of a d PACKET_MDU]
  by (auto simp: context_packet_def split: sum.splits option.splits)

lemma data_packet_context: "data_packet C iv d a = context_packet C iv d Ctx_None a"
  by (simp add: data_packet_def context_packet_def)

lemma shared_decrypt:
  assumes C: "cipher_ok C" "length iv = 16" and ab: "lk_id a = lk_id b" "lk_derived_key a = lk_derived_key b"
    and p: "context_packet C iv d ctx a = Some (Inr p)" and same: "same_payload p' p"
  shows "pk_destination p' = lk_id b" "hd_packet_type (pk_header p') = Data" "pk_context p' = ctx"
    "link_decrypt C b (pk_data p') PACKET_MDU = Inr d" "link_payload_new_from_slice d = d"
  using context_packet_Inr [OF C p] ab same link_decrypt_token [OF C, of d PACKET_MDU b]
  by (auto simp: same_payload_def link_packet_def link_payload_new_from_slice_def PACKET_MDU_def)

lemma links_paired_shared:
  assumes "links_paired C a b"
  shows "lk_id a = lk_id b" "lk_derived_key a = lk_derived_key b" "\<not> not_yet_active (lk_status b)"
  using assms by (auto simp: links_paired_def link_ready_iff not_yet_active_def)

lemma message_proof_accepted:
  assumes C: "signature_ok C" and pair: "links_paired C a b" and h: "hash_ok h"
    and same: "same_payload q (message_proof C h b)"
  shows "link_handle_packet C dflt rd now ch q out a = (HandledNone, [ProofEvent h], [], link_touch now a)"
proof -
  let ?sig = "private_identity_sign C (lk_priv_identity b) (hash_bytes h)"
  have lens: "length (hash_bytes h) = 32" "length ?sig = 64"
    using h C by (simp_all add: hash_ok_def HASH_SIZE_def signature_ok_def private_identity_sign_def)
  have q: "pk_data q = hash_bytes h @ ?sig" "pk_destination q = lk_id a" "hd_packet_type (pk_header q) = Proof"
    "pk_context q = Ctx_None"
    using same lens pair
    by (simp_all add: same_payload_def message_proof_def link_packet_def safe_concat_def PACKET_MDU_def
        links_paired_def)
  have "cr_ed_verify C (id_verifying_key (lk_peer_identity a)) (hash_bytes h) ?sig"
    using pair C by (simp add: links_paired_def signature_ok_def private_identity_sign_def)
  then have "validate_message_proof C (lk_peer_identity a) (pk_data q) = Inr h"
    using lens by (simp add: validate_message_proof_def q HASH_SIZE_def SIGNATURE_LENGTH_def)
  moreover have "lk_status a = Active \<or> lk_status a = Stale"
    using pair by (simp add: links_paired_def link_ready_iff)
  ultimately show ?thesis
    by (auto simp: link_handle_packet_def handle_proof_packet_def handle_message_proof_def q)
qed

text \<open>
  Claim C2. Data on an established link arrives and is acknowledged. A data packet one end builds,
  however its headers were rewritten on the way, is decrypted by the other end and delivered as
  exactly one data event with the sender's bytes; if the receiver proves messages, its proof is
  accepted by the sender as the proof of the packet it sent; and both ends stay paired.
\<close>

theorem link_delivers:
  assumes C: "cipher_ok C" "signature_ok C" "sha_ok (cr_sha C)" and pair: "links_paired C a b"
    and iv: "length iv = IV_KEY_SIZE"
    and p: "data_packet C iv d a = Some (Inr p)" and same: "same_payload p' p"
  shows "\<exists>mp b'. link_handle_packet C dflt rd now ch p' out b = (MessageReceived mp, [DataEvent d], [], b')
    \<and> links_paired C a b'
    \<and> (lk_proves_messages b \<longrightarrow> (\<exists>q. mp = Some q \<and> (\<forall>q'. same_payload q' q \<longrightarrow>
         (\<exists>a'. link_handle_packet C dflt rd now' ch' q' out' a =
            (HandledNone, [ProofEvent (packet_hash (cr_sha C) p)], [], a') \<and> links_paired C a' b'))))"
proof -
  have iv16: "length iv = 16"
    using iv by (simp add: fernet_sizes)
  let ?b = "link_touch now b"
  let ?q = "message_proof C (packet_hash (cr_sha C) p') ?b"
  note D = shared_decrypt [OF C(1) iv16 links_paired_shared(1,2) [OF pair] p [unfolded data_packet_context] same]
  have rcv: "link_handle_packet C dflt rd now ch p' out b =
      (MessageReceived (if lk_proves_messages b then Some ?q else None), [DataEvent d], [], ?b)"
    using D links_paired_shared(3) [OF pair] by (simp add: link_handle_packet_def handle_data_packet_def Let_def)
  have pair': "links_paired C a ?b"
    using pair by (rule links_paired_touch)
  have h: "packet_hash (cr_sha C) p' = packet_hash (cr_sha C) p"
    using same by (rule same_payload_hash)
  have "link_handle_packet C dflt rd now' ch' q' out' a =
      (HandledNone, [ProofEvent (packet_hash (cr_sha C) p)], [], link_touch now' a)
      \<and> links_paired C (link_touch now' a) ?b" if "same_payload q' ?q" for q'
    using message_proof_accepted [OF C(2) pair' packet_hash_ok [OF C(3)] that] pair'
    by (simp add: h links_paired_sym links_paired_touch [OF links_paired_sym])
  with rcv pair' show ?thesis by auto
qed

text \<open>An unmodified request is accepted, with the initiator's MTU.\<close>

lemma mtu_of_signalling:
  assumes "length k = 64"
  shows "mtu_from_request (k @ signalling_bytes mtu) =
    (let m = mtu mod 0x200000 in
     if m \<noteq> 0 \<and> m < LINK_MTU_MIN then Inl InvalidArgument else Inr (if m = 0 then PROTOCOL_MTU else m))"
proof -
  have "mtu mod 0x200000 < 0x200000" by simp
  then have "mtu mod 0x200000 + 0x200000 < 256 ^ 3" by simp
  then have "be_decode (signalling_bytes mtu) mod 0x200000 = mtu mod 0x200000"
    by (simp add: signalling_bytes_def be_decode_encode LINK_MODE_AES256_CBC_def)
  then show ?thesis
    using assms by (simp add: mtu_from_request_def PUBLIC_KEY_LENGTH_def LINK_MTU_SIZE_def Let_def)
qed

lemma mode_of_request:
  assumes "length k = 64" "pk_data p = k @ signalling_bytes mtu"
  shows "reject_disabled_link_mode p = Inr ()"
proof -
  have "signalling_bytes mtu \<noteq> []"
    using length_signalling [of mtu] by (metis list.size(3) zero_neq_numeral)
  then have "pk_data p ! 64 = hd (signalling_bytes mtu)"
    using assms by (simp add: nth_append hd_conv_nth)
  then show ?thesis
    using assms signalling_mode [of mtu]
    by (simp add: reject_disabled_link_mode_def PUBLIC_KEY_LENGTH_def drop_bit_and LINK_MODE_BYTEMASK_def
        LINK_MODE_AES256_CBC_def)
qed

lemma request_accepted:
  assumes "private_identity_ok C (lk_priv_identity l)" "exchange_ok C" "signature_ok C"
    and "LINK_MTU_MIN \<le> lk_mtu l" "lk_mtu l < 0x200000" "link_request C t l = (req, l')"
  shows "\<exists>r. link_new_from_request C dflt now eph req key dest = Inr r \<and> lk_mtu r = lk_mtu l"
proof -
  let ?i = "pi_identity (lk_priv_identity l)"
  have len: "length (id_public_key ?i @ id_verifying_key ?i) = 64"
    using identity_keys(1,2) [OF assms(1-3)] by simp
  have d: "pk_data req = (id_public_key ?i @ id_verifying_key ?i) @ signalling_bytes (lk_mtu l)"
    using assms(6) len by (auto simp: link_request_def Let_def safe_concat_def PACKET_MDU_def)
  show ?thesis
    using mode_of_request [OF len d] mtu_of_signalling [OF len, of "lk_mtu l"] assms(4,5) len
    by (auto simp: link_new_from_request_def d identity_new_from_slices_def PUBLIC_KEY_LENGTH_def
        link_handshake_def link_fresh_def Let_def LINK_MTU_MIN_def packet_consts)
qed

section \<open>Examples\<close>

definition link_owner_example :: private_identity where
  "link_owner_example = private_identity_new toy_crypto (replicate 32 5) (replicate 32 6)"

definition link_example :: link where
  "link_example = link_new toy_crypto [] 0 private_identity_example
     (single_out_new toy_crypto (pi_identity link_owner_example) (DestinationName (Hash (replicate 32 1))))"

definition link_in_example :: link where
  "link_in_example = projr (link_new_from_request toy_crypto [] 0 (replicate 32 7)
     (fst (link_request toy_crypto 0 link_example)) (pi_sign_key link_owner_example)
     (lk_destination link_example))"

lemma link_in_example_accepted:
  "link_new_from_request toy_crypto [] 0 (replicate 32 7) (fst (link_request toy_crypto 0 link_example))
     (pi_sign_key link_owner_example) (lk_destination link_example) = Inr link_in_example"
proof -
  have "private_identity_ok toy_crypto (lk_priv_identity link_example)"
    "LINK_MTU_MIN \<le> lk_mtu link_example" "lk_mtu link_example < 0x200000"
    by (simp_all add: link_example_def link_new_def link_fresh_def private_identity_example_ok packet_consts
        LINK_MTU_MIN_def)
  from request_accepted [OF this(1) toy_crypto_ok(2,3) this(2,3) prod.collapse [symmetric]]
  show ?thesis
    unfolding link_in_example_def by (metis sum.sel(2))
qed

theorem link_established_witness:
  "\<exists>l2. link_handle_packet toy_crypto [] (\<lambda>_. None) 1 False (fst (link_prove toy_crypto link_in_example)) True
      (snd (link_request toy_crypto 0 link_example)) = (HandledActivated, [Activated], [], l2)
    \<and> links_paired toy_crypto l2 (snd (snd (link_prove toy_crypto link_in_example)))
    \<and> lk_remote_identity l2 = Some (pi_identity link_owner_example)"
proof -
  have ini: "private_identity_ok toy_crypto (lk_priv_identity link_example)"
    by (simp add: link_example_def link_new_def link_fresh_def private_identity_example_ok)
  have own: "private_identity_ok toy_crypto link_owner_example"
    "so_identity (lk_destination link_example) = pi_identity link_owner_example"
    by (simp_all add: link_owner_example_def private_identity_new_ok PUBLIC_KEY_LENGTH_def
        link_example_def link_new_def link_fresh_def single_out_new_def)
  obtain pr evs r1 where pr: "link_prove toy_crypto link_in_example = (pr, evs, r1)"
    by (cases "link_prove toy_crypto link_in_example") auto
  show ?thesis
    using link_established [OF toy_crypto_ok(2,3,5) ini own prod.collapse [symmetric] _ refl _
        link_in_example_accepted pr, of pr "\<lambda>_. None" 1 False]
    by (simp add: pr same_payload_def PUBLIC_KEY_LENGTH_def)
qed

definition link_ready_example :: link where
  "link_ready_example = link_example\<lparr>lk_status := Active, lk_proves_messages := True,
     lk_peer_identity := pi_identity private_identity_example\<rparr>"

lemma link_ready_example_paired: "links_paired toy_crypto link_ready_example link_ready_example"
  by (simp add: links_paired_def link_ready_example_def link_ready_iff link_example_def link_new_def
      link_fresh_def identity_own_keys [OF private_identity_example_ok])

lemma link_data_example:
  "data_packet toy_crypto (replicate 16 0) [1, 2, 3] link_ready_example =
     Some (Inr (link_packet link_ready_example Data Ctx_None
       (fernet_token toy_crypto (derived_cipher (lk_derived_key link_ready_example)) (replicate 16 0) [1, 2, 3])))"
  using fernet_encrypt_cases [OF toy_crypto_ok(1), of "replicate 16 0"]
  by (simp add: data_packet_def link_ready_example_def link_ready_def link_encrypt_def pi_encrypt_def PACKET_MDU_def)

theorem link_delivers_witness:
  "\<exists>p mp b'. data_packet toy_crypto (replicate 16 0) [1, 2, 3] link_ready_example = Some (Inr p)
    \<and> link_handle_packet toy_crypto [] (\<lambda>_. None) 1 False p True link_ready_example =
         (MessageReceived mp, [DataEvent [1, 2, 3]], [], b')
    \<and> mp \<noteq> None"
proof -
  obtain p where p: "data_packet toy_crypto (replicate 16 0) [1, 2, 3] link_ready_example = Some (Inr p)"
    using link_data_example by blast
  have "same_payload p p" "length (replicate 16 0 :: bytes) = IV_KEY_SIZE" "lk_proves_messages link_ready_example"
    by (simp_all add: same_payload_def fernet_sizes link_ready_example_def)
  then show ?thesis
    using link_delivers [OF toy_crypto_ok(1,3,5) link_ready_example_paired _ p, of p "[]" "\<lambda>_. None" 1 False True] p
    by blast
qed

end
