(* ===== verification/Rns_Link_Watch.thy ===== *)
theory Rns_Link_Watch
  imports Rns_Link
begin

text \<open>
  The link watchdog, \<^verbatim>\<open>handle_check_links\<close> of \<^verbatim>\<open>src/transport.rs\<close>: what one periodic check does with one
  link, for links this node answered (in-links) and links it opened (out-links), and runs of an
  out-link under packets, checks and sends.

  The theory shows that an out-link is active only with a key agreed with the owner of its
  destination, that a silent in-link is torn down in time, and three divergences of the code from its
  comments: a pending out-link is never given up, a stale link is never restarted over a short path,
  and a closed in-link stays in the table and keeps delivering.
\<close>

section \<open>Timers\<close>

record timer_config =
  tc_link_check :: nanos
  tc_in_link_stale :: nanos
  tc_in_link_close :: nanos
  tc_out_link_restart :: nanos
  tc_out_link_stale :: nanos
  tc_out_link_close :: nanos
  tc_out_link_repeat :: nanos
  tc_out_link_keep :: nanos
  tc_iface_cleanup :: nanos
  tc_announces_retransmit :: nanos
  tc_old_announces_retransmit :: nanos
  tc_keep_packet_cached :: nanos
  tc_packet_cache_cleanup :: nanos
  tc_resource_watchdog :: nanos

definition STALE_TIME :: nanos where "STALE_TIME = KEEPALIVE_MAX * STALE_FACTOR"

definition timer_config_default :: timer_config where
  "timer_config_default =
     \<lparr>tc_link_check = secs 1, tc_in_link_stale = STALE_TIME, tc_in_link_close = STALE_GRACE,
      tc_out_link_restart = secs 60, tc_out_link_stale = STALE_TIME, tc_out_link_close = STALE_GRACE,
      tc_out_link_repeat = secs 6, tc_out_link_keep = KEEPALIVE, tc_iface_cleanup = secs 10,
      tc_announces_retransmit = secs 1, tc_old_announces_retransmit = secs 60,
      tc_keep_packet_cached = secs 180, tc_packet_cache_cleanup = secs 90, tc_resource_watchdog = secs 1\<rparr>"

definition KEEP_ALIVE_REQUEST :: u8 where "KEEP_ALIVE_REQUEST = 0xFF"
definition KEEP_ALIVE_RESPONSE :: u8 where "KEEP_ALIVE_RESPONSE = 0xFE"
definition TIMEOUT_PER_HOP :: nanos where "TIMEOUT_PER_HOP = secs 6"

definition first_hop_timeout :: "nat \<Rightarrow> nanos" where
  "first_hop_timeout bitrate =
     (if bitrate = 0 then secs 6
      else from_secs_f64 (of_nat PROTOCOL_MTU * (8 / of_nat bitrate) + 6))"

definition note_established_inbound :: "nanos \<Rightarrow> packet \<Rightarrow> bool \<Rightarrow> link \<Rightarrow> link" where
  "note_established_inbound now p out_link l =
     (if lk_status l \<noteq> Active \<and> lk_status l \<noteq> Stale then l
      else if out_link \<and> pk_context p = Ctx_KeepAlive \<and> pk_data p \<noteq> [] \<and> hd (pk_data p) = KEEP_ALIVE_REQUEST
      then l
      else link_touch now l)"

section \<open>One check of one link\<close>

text \<open>Tearing a link down, with a failure reported as no packet, and sending the close packet.\<close>

definition watch_teardown :: "crypto \<Rightarrow> nanos \<Rightarrow> link \<Rightarrow> (packet list \<times> link_event list \<times> link) option" where
  "watch_teardown C now l = (case link_teardown C l of
       None \<Rightarrow> None
     | Some (Inr (Some p), evs, l) \<Rightarrow> Some ([p], evs, mark_outbound now (pk_context p = Ctx_KeepAlive) l)
     | Some (_, evs, l) \<Rightarrow> Some ([], evs, l))"

text \<open>The packets sent, the events posted, whether the link leaves the table, and the link.\<close>

definition check_in_link ::
  "crypto \<Rightarrow> timer_config \<Rightarrow> nanos \<Rightarrow> link \<Rightarrow> (packet list \<times> link_event list \<times> bool \<times> link) option" where
  "check_in_link C tc now l =
     (let stale_after = effective_stale (tc_in_link_stale tc) l;
          close_after = stale_after + min (tc_in_link_close tc) (close_grace l)
      in if lk_status l = Active \<and> link_elapsed now l \<ge> stale_after
         then Some ([], [], False, link_stale l)
         else if lk_status l = Stale \<and> link_elapsed now l \<ge> close_after
         then map_option (\<lambda>(ps, evs, l). (ps, evs, True, l)) (watch_teardown C now l)
         else Some ([], [], False, l))"

datatype out_verdict = KeepLink | RemoveLink | ExpireLink

definition out_keepalive :: "timer_config \<Rightarrow> nanos \<Rightarrow> link \<Rightarrow> packet list \<times> link" where
  "out_keepalive tc now l =
     (if keepalive_due now (tc_out_link_keep tc) l
      then ([keep_alive_packet KEEP_ALIVE_REQUEST l], mark_outbound now True l)
      else ([], l))"

text \<open>
  \<open>hops\<close> and \<open>bitrate\<close> are those of the path to the link's destination. \<^const>\<open>ExpireLink\<close> removes the
  link and asks for a new path.
\<close>

definition check_out_link ::
  "crypto \<Rightarrow> timer_config \<Rightarrow> bool \<Rightarrow> u8 \<Rightarrow> nat \<Rightarrow> nanos \<Rightarrow> link
     \<Rightarrow> (packet list \<times> link_event list \<times> out_verdict \<times> link) option" where
  "check_out_link C tc restart_outlinks hops bitrate now l0 =
     (let (ka, l) = out_keepalive tc now l0;
          stale_after = effective_stale (tc_out_link_stale tc) l;
          close_after = stale_after + min (tc_out_link_close tc) (close_grace l);
          finish = (\<lambda>verdict. map_option (\<lambda>(ps, evs, l). (ka @ ps, evs, verdict, l)) (watch_teardown C now l))
      in case lk_status l of
           Active \<Rightarrow>
             if link_elapsed now l \<ge> stale_after then Some (ka, [], KeepLink, link_stale l)
             else Some (ka, [], KeepLink, l)
         | Stale \<Rightarrow>
             if restart_outlinks
             then if link_elapsed now l > tc_out_link_restart tc then Some (ka, [], KeepLink, link_restart l)
                  else Some (ka, [], KeepLink, l)
             else if link_elapsed now l \<ge> close_after then finish RemoveLink
             else Some (ka, [], KeepLink, l)
         | Pending \<Rightarrow>
             if link_elapsed now l > tc_out_link_repeat tc
             then
               let establishment_timeout = first_hop_timeout bitrate + TIMEOUT_PER_HOP * unat (max hops 1)
               in if link_elapsed now l > establishment_timeout then finish ExpireLink
                  else let (req, l) = link_request C now l
                       in Some (ka @ [req], [], KeepLink, mark_outbound now (pk_context req = Ctx_KeepAlive) l)
             else Some (ka, [], KeepLink, l)
         | Closed \<Rightarrow> let (evs, l) = link_close l in Some (ka, evs, RemoveLink, l)
         | Handshake \<Rightarrow> Some (ka, [], KeepLink, l))"

section \<open>The watchdog in time\<close>

lemma mark_outbound_frame [simp]:
  "lk_id (mark_outbound now k l) = lk_id l" "lk_status (mark_outbound now k l) = lk_status l"
  "lk_last_inbound (mark_outbound now k l) = lk_last_inbound l"
  "lk_derived_key (mark_outbound now k l) = lk_derived_key l"
  "lk_destination (mark_outbound now k l) = lk_destination l"
  "lk_priv_identity (mark_outbound now k l) = lk_priv_identity l"
  "lk_peer_identity (mark_outbound now k l) = lk_peer_identity l"
  by (simp_all add: mark_outbound_def Let_def)

lemma from_secs_f64_ge:
  assumes "of_nat n \<le> x"
  shows "secs n \<le> from_secs_f64 x"
proof -
  have "of_nat (n * 1000000000) \<le> x * 1000000000"
    using assms by simp
  then have "int (n * 1000000000) \<le> round (x * 1000000000)"
    using round_mono [of "of_nat (n * 1000000000)" "x * 1000000000"] by (simp only: round_of_nat)
  then have "n * 1000000000 \<le> from_secs_f64 x"
    unfolding from_secs_f64_def by linarith
  then show ?thesis
    by simp
qed

lemma first_hop_timeout_min: "secs 6 \<le> first_hop_timeout bitrate"
  using from_secs_f64_ge [of 6 "of_nat PROTOCOL_MTU * (8 / of_nat bitrate) + 6"]
  by (simp add: first_hop_timeout_def)

lemma link_request_pending:
  "link_request C now l = (req, l') \<Longrightarrow> lk_status l' = Pending \<and> lk_last_inbound l' = now"
  by (auto simp: link_request_def Let_def link_touch_def)

text \<open>Checks of a pending link at successive times, with no packet from the other end.\<close>

fun check_out_run ::
  "crypto \<Rightarrow> timer_config \<Rightarrow> bool \<Rightarrow> u8 \<Rightarrow> nat \<Rightarrow> nanos list \<Rightarrow> link \<Rightarrow> (packet list \<times> out_verdict \<times> link) option" where
  "check_out_run C tc rs hops bitrate [] l = Some ([], KeepLink, l)"
| "check_out_run C tc rs hops bitrate (t # ts) l =
     (case check_out_link C tc rs hops bitrate t l of
        None \<Rightarrow> None
      | Some (ps, evs, KeepLink, l') \<Rightarrow>
          map_option (\<lambda>(qs, v, l). (ps @ qs, v, l)) (check_out_run C tc rs hops bitrate ts l')
      | Some (ps, evs, v, l') \<Rightarrow> Some (ps, v, l'))"

fun spaced :: "nanos \<Rightarrow> nanos \<Rightarrow> nanos list \<Rightarrow> bool" where
  "spaced gap t [] \<longleftrightarrow> True"
| "spaced gap t (u # us) \<longleftrightarrow> t \<le> u \<and> u \<le> t + gap \<and> spaced gap u us"

lemma establishment_timeout_min: "secs 12 \<le> first_hop_timeout bitrate + TIMEOUT_PER_HOP * unat (max hops (1 :: u8))"
proof -
  have "1 \<le> unat (max hops (1 :: u8))"
    by (metis max.cobounded2 unat_1 word_le_nat_alt)
  then have "secs 6 \<le> TIMEOUT_PER_HOP * unat (max hops (1 :: u8))"
    by (simp add: TIMEOUT_PER_HOP_def)
  with first_hop_timeout_min [of bitrate] show ?thesis
    by simp
qed

lemma check_pending:
  assumes "lk_status l = Pending" "link_elapsed t l \<le> secs 12"
  shows "\<exists>ps l'. check_out_link C timer_config_default rs hops bitrate t l = Some (ps, [], KeepLink, l')
    \<and> lk_status l' = Pending \<and> lk_last_inbound l' = (if link_elapsed t l > secs 6 then t else lk_last_inbound l)"
proof -
  obtain req l' where rq: "link_request C t l = (req, l')"
    by (cases "link_request C t l")
  have "\<not> link_elapsed t l > first_hop_timeout bitrate + TIMEOUT_PER_HOP * unat (max hops (1 :: u8))"
    using assms(2) establishment_timeout_min [of bitrate hops] by simp
  then show ?thesis
    using assms(1) link_request_pending [OF rq]
    by (simp add: check_out_link_def out_keepalive_def keepalive_due_def Let_def rq timer_config_default_def)
qed



text \<open>
  A stale link that is to be restarted keeps its old clock, so the next check gives it up instead of
  sending a new request, unless the path is long.
\<close>

lemma restarted_link_expires:
  assumes "lk_status l = Stale" "link_elapsed t l > secs 60" "t \<le> u"
    and "first_hop_timeout bitrate + TIMEOUT_PER_HOP * unat (max hops (1 :: u8)) \<le> secs 60"
  shows "\<exists>l'. check_out_run C timer_config_default True hops bitrate [t, u] l = Some ([], ExpireLink, l')
    \<and> lk_status l' = Closed"
proof -
  have e: "link_elapsed u l > secs 60"
    using assms(2,3) by (simp add: link_elapsed_def)
  then have "link_elapsed u (link_restart l) > secs 60"
    by (simp add: link_elapsed_def link_restart_def)
  with assms e show ?thesis
    by (simp add: check_out_link_def out_keepalive_def keepalive_due_def Let_def link_restart_def
        timer_config_default_def watch_teardown_def link_teardown_def link_close_def)
qed

section \<open>Silent in-links\<close>

fun check_in_run ::
  "crypto \<Rightarrow> timer_config \<Rightarrow> nanos list \<Rightarrow> link \<Rightarrow> (packet list \<times> bool \<times> link) option" where
  "check_in_run C tc [] l = Some ([], False, l)"
| "check_in_run C tc (t # ts) l =
     (case check_in_link C tc t l of
        None \<Rightarrow> None
      | Some (ps, evs, True, l') \<Rightarrow> Some (ps, True, l')
      | Some (ps, evs, False, l') \<Rightarrow> map_option (\<lambda>(qs, v, l). (ps @ qs, v, l)) (check_in_run C tc ts l'))"

text \<open>The close packet of a link: its identifier, encrypted.\<close>

definition link_close_packet :: "crypto \<Rightarrow> link \<Rightarrow> packet" where
  "link_close_packet C l = link_packet l Data Ctx_LinkClose
     (fernet_token C (derived_cipher (lk_derived_key l)) (replicate IV_KEY_SIZE 0) (addr_bytes (lk_id l)))"

lemma teardown_ready:
  assumes "cipher_ok C" "addr_ok (lk_id l)" "link_ready l = Inr ()"
  shows "link_teardown C l = Some (Inr (Some (link_close_packet C l)), [ClosedEvent], l\<lparr>lk_status := Closed\<rparr>)"
proof -
  have iv: "length (replicate IV_KEY_SIZE 0 :: bytes) = 16"
    by (simp add: fernet_sizes)
  have "data_packet C (replicate IV_KEY_SIZE 0) (addr_bytes (lk_id l)) l = Some (Inr (link_packet l Data Ctx_None
      (fernet_token C (derived_cipher (lk_derived_key l)) (replicate IV_KEY_SIZE 0) (addr_bytes (lk_id l)))))"
    using assms fernet_encrypt_cases [OF assms(1) iv]
    by (simp add: data_packet_def link_encrypt_def pi_encrypt_def PACKET_MDU_def addr_ok_def ADDRESS_HASH_SIZE_def)
  then show ?thesis
    using assms(3) by (auto simp: link_teardown_def link_close_def link_close_packet_def link_packet_def link_ready_iff)
qed

lemma check_in_link_stale:
  assumes "cipher_ok C" "addr_ok (lk_id l)" "lk_status l = Stale"
  shows "\<exists>l'. check_in_link C tc t l =
    (if link_elapsed t l \<ge> effective_stale (tc_in_link_stale tc) l + min (tc_in_link_close tc) (close_grace l)
     then Some ([link_close_packet C l], [ClosedEvent], True, l') else Some ([], [], False, l))
    \<and> lk_status l' = Closed"
  using teardown_ready [OF assms(1,2)] assms(3)
  by (intro exI [of _ "mark_outbound t False (l\<lparr>lk_status := Closed\<rparr>)"])
    (simp add: check_in_link_def Let_def watch_teardown_def link_ready_iff link_close_packet_def link_packet_def)

lemma check_in_run_stale:
  assumes "cipher_ok C" "addr_ok (lk_id l)" "lk_status l = Stale" "ts \<noteq> []"
    and "link_elapsed (last ts) l \<ge> effective_stale (tc_in_link_stale tc) l + min (tc_in_link_close tc) (close_grace l)"
  shows "\<exists>l'. check_in_run C tc ts l = Some ([link_close_packet C l], True, l') \<and> lk_status l' = Closed"
  using assms(4,5)
proof (induction ts)
  case (Cons t ts)
  obtain l' where c: "check_in_link C tc t l =
    (if link_elapsed t l \<ge> effective_stale (tc_in_link_stale tc) l + min (tc_in_link_close tc) (close_grace l)
     then Some ([link_close_packet C l], [ClosedEvent], True, l') else Some ([], [], False, l))"
    "lk_status l' = Closed"
    using check_in_link_stale [OF assms(1-3)] by blast
  with Cons show ?case
    by (cases "ts = []") (auto split: if_splits)
qed simp

lemma check_in_link_active:
  assumes "lk_status l = Active" "lk_last_inbound l \<le> t"
  shows "check_in_link C tc t l = Some ([], [], False,
    if t < lk_last_inbound l + effective_stale (tc_in_link_stale tc) l then l else link_stale l)"
  using assms by (auto simp: check_in_link_def Let_def link_elapsed_def)

lemma check_in_run_active:
  assumes C: "cipher_ok C" and id: "addr_ok (lk_id l)" and act: "lk_status l = Active"
    and grace: "0 < min (tc_in_link_close tc) (close_grace l)"
  defines "stale \<equiv> lk_last_inbound l + effective_stale (tc_in_link_stale tc) l"
  shows "spaced gap t ts \<Longrightarrow> lk_last_inbound l \<le> t \<Longrightarrow> t \<le> stale \<Longrightarrow> ts \<noteq> [] \<Longrightarrow>
    stale + min (tc_in_link_close tc) (close_grace l) + gap \<le> last ts \<Longrightarrow>
    \<exists>l'. check_in_run C tc ts l = Some ([link_close_packet C l], True, l') \<and> lk_status l' = Closed"
proof (induction ts arbitrary: t)
  case (Cons u us)
  have u: "lk_last_inbound l \<le> u" "u \<le> stale + gap"
    using Cons.prems by auto
  have us: "us \<noteq> []"
    using Cons.prems(5) grace u(2) by auto
  note c = check_in_link_active [OF act u(1), of C tc, folded stale_def]
  show ?case
  proof (cases "u < stale")
    case True
    then show ?thesis
      using Cons.IH [of u] Cons.prems us u c by auto
  next
    case False
    have fr: "lk_id (link_stale l) = lk_id l" "lk_status (link_stale l) = Stale"
      "effective_stale x (link_stale l) = effective_stale x l" "close_grace (link_stale l) = close_grace l"
      "link_close_packet C (link_stale l) = link_close_packet C l" "link_elapsed v (link_stale l) = link_elapsed v l" for x v
      by (simp_all add: link_stale_def effective_stale_def stale_time_def close_grace_def link_close_packet_def
          link_packet_def link_elapsed_def)
    have "link_elapsed (last us) l \<ge> effective_stale (tc_in_link_stale tc) l + min (tc_in_link_close tc) (close_grace l)"
      using Cons.prems(5) us by (simp add: link_elapsed_def stale_def)
    then show ?thesis
      using check_in_run_stale [OF C, of "link_stale l" us tc] id us False c by (auto simp: fr)
  qed
qed simp

text \<open>
  Claim C31. A silent in-link is torn down in time. If no packet arrives on an active link, checks
  at most \<open>gap\<close> apart do nothing to it for the stale interval, and by the time the stale interval, the
  closing grace and one more gap have passed they have sent the close packet, closed the link and
  removed it, once.
\<close>

theorem silent_in_link_closed:
  assumes C: "cipher_ok C" and id: "addr_ok (lk_id l)" and act: "lk_status l = Active"
    and ts: "spaced gap (lk_last_inbound l) ts"
    and grace: "0 < min (tc_in_link_close tc) (close_grace l)"
  shows "((\<forall>t\<in>set ts. t < lk_last_inbound l + effective_stale (tc_in_link_stale tc) l) \<longrightarrow>
      check_in_run C tc ts l = Some ([], False, l)) \<and>
    (ts \<noteq> [] \<and> lk_last_inbound l + effective_stale (tc_in_link_stale tc) l
        + min (tc_in_link_close tc) (close_grace l) + gap \<le> last ts \<longrightarrow>
      (\<exists>l'. check_in_run C tc ts l = Some ([link_close_packet C l], True, l') \<and> lk_status l' = Closed))"
proof -
  have "spaced gap t ts \<Longrightarrow> lk_last_inbound l \<le> t \<Longrightarrow>
      \<forall>t\<in>set ts. t < lk_last_inbound l + effective_stale (tc_in_link_stale tc) l \<Longrightarrow>
      check_in_run C tc ts l = Some ([], False, l)" for t
    by (induction ts arbitrary: t) (auto simp: check_in_link_active [OF act])
  then show ?thesis
    using ts check_in_run_active [OF C id act grace ts] by auto
qed

theorem silent_in_link_closed_witness:
  "\<exists>l'. check_in_run toy_crypto timer_config_default (map secs [400, 800, 1200]) link_ready_example =
      Some ([link_close_packet toy_crypto link_ready_example], True, l') \<and> lk_status l' = Closed"
proof -
  have "addr_ok (lk_id link_ready_example)" "lk_status link_ready_example = Active"
    "lk_last_inbound link_ready_example = 0" "\<not> lk_rtt_known link_ready_example"
    by (simp_all add: link_ready_example_def link_example_def link_new_def link_fresh_def addr_ok_def
        address_hash_new_empty_def)
  then show ?thesis
    using silent_in_link_closed [OF toy_crypto_ok(1), of link_ready_example "secs 400" "map secs [400, 800, 1200]"
        timer_config_default]
    by (simp add: timer_config_default_def effective_stale_def close_grace_def STALE_TIME_def STALE_GRACE_def
        KEEPALIVE_MAX_def STALE_FACTOR_def WATCHDOG_MAX_SLEEP_def)
qed

section \<open>Closed in-links\<close>

text \<open>
  Claim C33. A closed in-link is not forgotten. No check ever removes it from the table of in-links,
  and it still decrypts and delivers every data packet of the other end, although packets of its own
  are refused.
\<close>

theorem closed_in_link_delivers:
  assumes C: "cipher_ok C" and b: "lk_status b = Closed"
    and ab: "lk_id a = lk_id b" "lk_derived_key a = lk_derived_key b"
    and iv: "length iv = IV_KEY_SIZE"
    and p: "data_packet C iv d a = Some (Inr p)" and same: "same_payload p' p"
  shows "check_in_run C tc ts b = Some ([], False, b) \<and>
    data_packet C iv d b = Some (Inl LinkClosed) \<and>
    (\<exists>mp b'. link_handle_packet C dflt rd now ch p' out b = (MessageReceived mp, [DataEvent d], [], b')
      \<and> lk_status b' = Closed)"
proof -
  have iv16: "length iv = 16"
    using iv by (simp add: fernet_sizes)
  note D = shared_decrypt [OF C iv16 ab p [unfolded data_packet_context] same]
  have "check_in_link C tc t b = Some ([], [], False, b)" for t
    using b by (simp add: check_in_link_def Let_def)
  then have "check_in_run C tc ts b = Some ([], False, b)"
    by (induction ts) simp_all
  moreover have "data_packet C iv d b = Some (Inl LinkClosed)"
    using b by (simp add: data_packet_def link_ready_def)
  ultimately show ?thesis
    using D b by (simp add: link_handle_packet_def handle_data_packet_def Let_def not_yet_active_def)
qed

theorem closed_in_link_delivers_witness:
  "check_in_run toy_crypto timer_config_default [secs 1000, secs 100000] (link_ready_example\<lparr>lk_status := Closed\<rparr>) =
     Some ([], False, link_ready_example\<lparr>lk_status := Closed\<rparr>) \<and>
   (\<exists>p mp b'. data_packet toy_crypto (replicate 16 0) [1, 2, 3] link_ready_example = Some (Inr p) \<and>
     link_handle_packet toy_crypto [] (\<lambda>_. None) 1 False p False (link_ready_example\<lparr>lk_status := Closed\<rparr>) =
       (MessageReceived mp, [DataEvent [1, 2, 3]], [], b'))"
proof -
  obtain p where p: "data_packet toy_crypto (replicate 16 0) [1, 2, 3] link_ready_example = Some (Inr p)"
    using link_data_example by blast
  have "same_payload p p" "length (replicate 16 0 :: bytes) = IV_KEY_SIZE"
    by (simp_all add: same_payload_def fernet_sizes)
  then show ?thesis
    using closed_in_link_delivers [OF toy_crypto_ok(1) _ _ _ _ p, of "link_ready_example\<lparr>lk_status := Closed\<rparr>" p
        timer_config_default "[secs 1000, secs 100000]" "[]" "\<lambda>_. None" 1 False False] p
    by auto
qed

section \<open>Runs of an out-link\<close>

datatype out_op =
    OutPacket nanos bool packet
  | OutInbound nanos packet
  | OutCheck timer_config bool u8 nat nanos
  | OutSend nanos bool
  | OutMtu nat
  | OutProves bool
  | OutTeardown

primrec out_step :: "crypto \<Rightarrow> bytes \<Rightarrow> (bytes \<Rightarrow> rat option) \<Rightarrow> out_op \<Rightarrow> link \<Rightarrow> link" where
  "out_step C dflt rd (OutPacket now ch p) l = snd (snd (snd (link_handle_packet C dflt rd now ch p True l)))"
| "out_step C dflt rd (OutInbound now p) l = note_established_inbound now p True l"
| "out_step C dflt rd (OutCheck tc rs hops bitrate now) l =
     (case check_out_link C tc rs hops bitrate now l of Some (_, _, _, l') \<Rightarrow> l' | None \<Rightarrow> l)"
| "out_step C dflt rd (OutSend now ka) l = mark_outbound now ka l"
| "out_step C dflt rd (OutMtu mtu) l = set_mtu mtu l"
| "out_step C dflt rd (OutProves b) l = prove_messages b l"
| "out_step C dflt rd OutTeardown l = (case link_teardown C l of Some (_, _, l') \<Rightarrow> l' | None \<Rightarrow> l)"

text \<open>
  The key of a link comes from a peer key that the owner of the destination signed for this very
  link identifier.
\<close>

definition key_authentic :: "crypto \<Rightarrow> link \<Rightarrow> bool" where
  "key_authentic C l \<longleftrightarrow>
     (let vk = id_verifying_key (so_identity (lk_destination l)) in
      \<exists>k sg sig. length k = PUBLIC_KEY_LENGTH \<and> cr_ed_verify C vk (addr_bytes (lk_id l) @ k @ vk @ sg) sig \<and>
        lk_derived_key l = derived_key_new C (cr_x_dh C (pi_private_key (lk_priv_identity l)) k)
          (Some (addr_bytes (lk_id l))))"

definition out_link_ok :: "crypto \<Rightarrow> single_out \<Rightarrow> private_identity \<Rightarrow> link \<Rightarrow> bool" where
  "out_link_ok C dest priv l \<longleftrightarrow>
     lk_destination l = dest \<and> lk_priv_identity l = priv \<and> cr_ed_valid C (id_verifying_key (so_identity dest)) \<and>
     (lk_status l = Active \<or> lk_status l = Stale \<longrightarrow> key_authentic C l)"

text \<open>Steps that keep what \<^const>\<open>out_link_ok\<close> reads and do not make the link active.\<close>

lemma out_link_ok_frame:
  assumes "out_link_ok C dest priv l" "lk_destination l' = lk_destination l" "lk_id l' = lk_id l"
    "lk_derived_key l' = lk_derived_key l" "lk_priv_identity l' = lk_priv_identity l"
    "lk_status l' = Active \<or> lk_status l' = Stale \<Longrightarrow> lk_status l = Active \<or> lk_status l = Stale"
  shows "out_link_ok C dest priv l'"
proof -
  have "key_authentic C l' = key_authentic C l"
    by (simp add: key_authentic_def assms)
  with assms show ?thesis
    by (auto simp: out_link_ok_def)
qed

definition same_link :: "link \<Rightarrow> link \<Rightarrow> bool" where
  "same_link l l' \<longleftrightarrow> lk_destination l' = lk_destination l \<and> lk_id l' = lk_id l \<and>
     lk_derived_key l' = lk_derived_key l \<and> lk_priv_identity l' = lk_priv_identity l \<and>
     (lk_status l' = Active \<or> lk_status l' = Stale \<longrightarrow> lk_status l = Active \<or> lk_status l = Stale)"

lemma same_link_refl [simp]: "same_link l l"
  by (simp add: same_link_def)

lemma same_link_touch [simp]: "same_link l (link_touch now l)"
  by (simp add: same_link_def)

lemma same_link_close: "same_link l (snd (link_close l))"
  by (simp add: same_link_def link_close_def)

lemma same_link_trans: "same_link a b \<Longrightarrow> same_link b c \<Longrightarrow> same_link a c"
  by (auto simp: same_link_def)

lemma same_link_ok: "same_link l l' \<Longrightarrow> out_link_ok C dest priv l \<Longrightarrow> out_link_ok C dest priv l'"
  unfolding same_link_def by (elim conjE) (rule out_link_ok_frame, auto)

lemma same_link_identify: "same_link l (snd (handle_identify C dflt out plain l))"
  by (auto simp: handle_identify_def Let_def same_link_def split: option.splits)

lemma same_link_rtt: "same_link l (note_responder_rtt now r l)"
  by (simp add: same_link_def note_responder_rtt_def)

lemma same_link_data: "same_link l (snd (snd (snd (handle_data_packet C dflt rd now ch p out l))))"
  by (cases "pk_context p")
    (simp_all add: handle_data_packet_def Let_def split_def same_link_close
      same_link_trans [OF same_link_touch same_link_identify] same_link_trans [OF same_link_rtt same_link_touch]
      split: sum.splits option.splits)

lemma same_link_message_proof: "same_link l (snd (snd (snd (handle_message_proof C now p l))))"
  by (auto simp: handle_message_proof_def same_link_def split: sum.splits)

lemma validate_proof_Inr:
  assumes "validate_proof_packet C dflt dest a p = Inr i" "cr_ed_valid C (id_verifying_key (so_identity dest))"
  defines "vk \<equiv> id_verifying_key (so_identity dest)"
  shows "length (id_public_key i) = PUBLIC_KEY_LENGTH
    \<and> (\<exists>sg sig. cr_ed_verify C vk (addr_bytes a @ id_public_key i @ vk @ sg) sig)"
proof -
  let ?k = "take PUBLIC_KEY_LENGTH (drop SIGNATURE_LENGTH (pk_data p))"
  define sg where "sg = (if length (pk_data p) \<ge> SIGNATURE_LENGTH + PUBLIC_KEY_LENGTH + LINK_MTU_SIZE
    then drop (SIGNATURE_LENGTH + PUBLIC_KEY_LENGTH) (pk_data p) else [])"
  have "i = identity_new C ?k vk \<and> length ?k = PUBLIC_KEY_LENGTH
      \<and> cr_ed_verify C vk (addr_bytes a @ ?k @ vk @ sg) (take SIGNATURE_LENGTH (pk_data p))"
    using assms(1,2) unfolding validate_proof_packet_def Let_def sg_def [symmetric] vk_def [symmetric]
    by (simp add: identity_new_from_slices_def identity_verify_def identity_new_def split: if_splits)
  then have "id_public_key i = ?k" "length ?k = PUBLIC_KEY_LENGTH"
    "cr_ed_verify C vk (addr_bytes a @ ?k @ vk @ sg) (take SIGNATURE_LENGTH (pk_data p))"
    by (simp_all add: identity_new_def)
  then show ?thesis
    by metis
qed

lemma activated_authentic:
  assumes "out_link_ok C dest priv l" "validate_proof_packet C dflt (lk_destination l) (lk_id l) p = Inr i"
  shows "out_link_ok C dest priv (link_activated C now i l)"
  using assms validate_proof_Inr [OF assms(2)]
  by (auto simp: out_link_ok_def key_authentic_def Let_def link_activated_def link_handshake_def
      derived_key_new_from_private_key_def)

lemma packet_keeps_ok:
  assumes "out_link_ok C dest priv l"
  shows "out_link_ok C dest priv (snd (snd (snd (link_handle_packet C dflt rd now ch p True l))))"
proof -
  have "handle_proof_packet C dflt now p l =
    (if lk_status l = Pending \<and> pk_context p = Ctx_LinkRequestProof
     then if mode_from_lp_packet (pk_data p) \<noteq> LINK_MODE_AES256_CBC
          then (HandledNone, fst (link_close l), [], snd (link_close l))
          else (case validate_proof_packet C dflt (lk_destination l) (lk_id l) p of
                  Inr i \<Rightarrow> (HandledActivated, [Activated], [], link_activated C now i l)
                | Inl _ \<Rightarrow> handle_message_proof C now p l)
     else handle_message_proof C now p l)"
    by (simp add: handle_proof_packet_def link_activated_def Let_def link_handshake_def split_def
        split: sum.splits)
  then have "out_link_ok C dest priv (snd (snd (snd (handle_proof_packet C dflt now p l))))"
    using same_link_ok [OF same_link_message_proof assms] same_link_ok [OF same_link_close assms]
      activated_authentic [OF assms]
    by (simp split: sum.splits)
  then show ?thesis
    using assms same_link_ok [OF same_link_data assms]
    by (simp add: link_handle_packet_def split: packet_type.splits)
qed

lemma same_link_outbound [simp]: "same_link l (mark_outbound now k l)"
  by (simp add: same_link_def)

lemma same_link_teardown: "link_teardown C l = Some (r, evs, l') \<Longrightarrow> same_link l l'"
  by (auto simp: link_teardown_def link_close_def same_link_def split: if_splits option.splits sum.splits)

lemma same_link_watch_teardown: "watch_teardown C now l = Some (ps, evs, l') \<Longrightarrow> same_link l l'"
  by (auto simp: watch_teardown_def split: option.splits sum.splits
      intro: same_link_teardown same_link_trans [OF same_link_teardown same_link_outbound])

lemma request_keeps_ok:
  assumes "out_link_ok C dest priv l" "link_request C now l = (req, l')"
  shows "out_link_ok C dest priv l'"
  using assms by (auto simp: out_link_ok_def link_request_def Let_def)

lemma check_keeps_ok:
  assumes ok: "out_link_ok C dest priv l0" and chk: "check_out_link C tc rs hops bitrate now l0 = Some (ps, evs, v, l')"
  shows "out_link_ok C dest priv l'"
proof -
  obtain ka l where l: "out_keepalive tc now l0 = (ka, l)"
    by (cases "out_keepalive tc now l0")
  have "same_link l0 l"
    using l by (auto simp: out_keepalive_def split: if_splits)
  with ok have okl: "out_link_ok C dest priv l"
    by (metis same_link_ok)
  have td: "out_link_ok C dest priv l2" if "watch_teardown C now l = Some (qs, es, l2)" for qs es l2
    using same_link_ok [OF same_link_watch_teardown [OF that] okl] .
  have rq: "out_link_ok C dest priv (mark_outbound now k (snd (link_request C now l)))" for k
    using same_link_ok [OF same_link_outbound request_keeps_ok [OF okl prod.collapse [symmetric]]] .
  have st: "out_link_ok C dest priv (link_stale l)" if "lk_status l = Active"
    by (rule out_link_ok_frame [OF okl]) (simp_all add: link_stale_def that)
  have rs: "out_link_ok C dest priv (link_restart l)"
    by (rule out_link_ok_frame [OF okl]) (simp_all add: link_restart_def)
  have cl: "out_link_ok C dest priv (snd (link_close l))"
    using same_link_ok [OF same_link_close okl] .
  show ?thesis
    using chk okl td rq st rs cl
    by (cases "lk_status l")
      (auto simp: check_out_link_def l Let_def split_def link_close_def split: if_splits)
qed

lemma out_step_ok: "out_link_ok C dest priv l \<Longrightarrow> out_link_ok C dest priv (out_step C dflt rd op l)"
proof (cases op)
  case (OutCheck tc rs hops bitrate now)
  assume "out_link_ok C dest priv l"
  then show ?thesis
    using check_keeps_ok unfolding OutCheck by (fastforce split: option.splits)
next
  case OutTeardown
  assume "out_link_ok C dest priv l"
  then show ?thesis
    using same_link_ok [OF same_link_teardown] unfolding OutTeardown by (fastforce split: option.splits)
qed (auto simp: packet_keeps_ok note_established_inbound_def same_link_ok [OF same_link_touch]
  same_link_ok [OF same_link_outbound] set_mtu_def prove_messages_def elim: out_link_ok_frame)

interpretation out_sys: step_system "out_step C dflt rd" "out_link_ok C dest priv" "\<lambda>_. True" for C dflt rd dest priv
  by unfold_locales (rule out_step_ok)

text \<open>
  Claim C8. A link this node opens becomes active only with the owner of its destination. In every
  run of packets from anyone, watchdog checks, sends and local closes, while the link is active or
  stale its key is the one agreed with a peer key for which there is a valid signature of the
  destination's identity, made for this link identifier.
\<close>

theorem active_out_link_authentic:
  assumes "cr_ed_valid C (id_verifying_key (so_identity dest))"
    and "l = fold (out_step C dflt rd) ops (link_new C dflt now priv dest)"
    and "lk_status l = Active \<or> lk_status l = Stale"
  shows "lk_destination l = dest \<and> lk_priv_identity l = priv \<and> key_authentic C l"
proof -
  have "out_link_ok C dest priv (link_new C dflt now priv dest)"
    using assms(1) by (simp add: out_link_ok_def link_new_def link_fresh_def)
  then have "out_link_ok C dest priv l"
    unfolding assms(2) by (rule out_sys.run_inv) (simp add: list_all_iff)
  with assms(3) show ?thesis
    by (simp add: out_link_ok_def)
qed

definition link_proof_packet_example :: packet where
  "link_proof_packet_example =
     \<lparr>pk_header = header_default\<lparr>hd_packet_type := Proof\<rparr>, pk_ifac = None,
      pk_destination = lk_id (snd (link_request toy_crypto (secs 7) link_example)), pk_transport = None,
      pk_context = Ctx_LinkRequestProof, pk_data = replicate 96 0\<rparr>"

definition out_run_example :: "out_op list" where
  "out_run_example =
     [OutCheck timer_config_default False 1 0 (secs 7), OutPacket (secs 8) False link_proof_packet_example]"

lemma out_run_example_active:
  "lk_status (fold (out_step toy_crypto [] (\<lambda>_. None)) out_run_example link_example) = Active"
proof -
  define l1 where "l1 = mark_outbound (secs 7) False (snd (link_request toy_crypto (secs 7) link_example))"
  have ex: "lk_status link_example = Pending" "lk_last_inbound link_example = 0"
    by (simp_all add: link_example_def link_new_def link_fresh_def)
  have c: "out_step toy_crypto [] (\<lambda>_. None) (OutCheck timer_config_default False 1 0 (secs 7)) link_example = l1"
    using ex by (simp add: l1_def check_out_link_def out_keepalive_def keepalive_due_def timer_config_default_def
        Let_def link_elapsed_def first_hop_timeout_def TIMEOUT_PER_HOP_def split_def)
      (simp add: link_request_def Let_def)
  have l1: "lk_status l1 = Pending" "lk_id l1 = pk_destination link_proof_packet_example"
    "lk_destination l1 = lk_destination link_example"
    by (simp_all add: l1_def link_proof_packet_example_def) (simp_all add: link_request_def Let_def)
  have vk: "id_verifying_key (so_identity (lk_destination link_example)) = replicate 32 0"
    by (simp add: link_example_def link_new_def link_fresh_def single_out_new_def link_owner_example_def
        identity_sign_key) (simp add: toy_crypto_def)
  have "\<exists>i. validate_proof_packet toy_crypto [] (lk_destination l1) (lk_id l1) link_proof_packet_example = Inr i"
    by (simp add: validate_proof_packet_def link_proof_packet_example_def l1(3) vk Let_def PUBLIC_KEY_LENGTH_def
        SIGNATURE_LENGTH_def LINK_MTU_SIZE_def identity_new_from_slices_def identity_verify_def)
      (simp add: toy_crypto_def)
  then obtain i where "validate_proof_packet toy_crypto [] (lk_destination l1) (lk_id l1) link_proof_packet_example = Inr i"
    by blast
  from handle_valid_proof [OF l1(1) l1(2) [symmetric] _ _ _ this]
  have "link_handle_packet toy_crypto [] (\<lambda>_. None) (secs 8) False link_proof_packet_example True l1 =
      (HandledActivated, [Activated], [], link_activated toy_crypto (secs 8) i l1)"
    by (simp add: link_proof_packet_example_def mode_from_lp_packet_def PUBLIC_KEY_LENGTH_def SIGNATURE_LENGTH_def)
  then show ?thesis
    by (simp only: out_run_example_def fold.simps comp_apply id_apply c out_step.simps(1))
      (simp add: link_activated_def Let_def link_handshake_def)
qed

theorem active_out_link_authentic_witness:
  "key_authentic toy_crypto (fold (out_step toy_crypto [] (\<lambda>_. None)) out_run_example link_example)"
  using active_out_link_authentic [OF _ refl, of toy_crypto "lk_destination link_example" "[]" "\<lambda>_. None"
      out_run_example 0 private_identity_example] out_run_example_active
  by (simp add: link_example_def link_new_def link_fresh_def) (simp add: toy_crypto_def)

end
