(* ===== verification/Rns_Channel.thy ===== *)
theory Rns_Channel
  imports Rns_Link
begin

text \<open>
  Channels, \<^verbatim>\<open>src/channel.rs\<close>: reliable, ordered messages on top of a link. The receiver puts messages
  back into order by their 16-bit sequence number; the sender keeps a window of unconfirmed packets,
  sends a packet again when its timer fires and adapts the window.

  The user's message type is the parameter \<open>unpack\<close>; a message to send is its packed form and its type
  number. Subscribers, tasks and locks are left out: what a handler broadcasts, sends or schedules is
  part of its result. Rates and times that the code keeps as \<^verbatim>\<open>f32\<close> are rationals.
\<close>

section \<open>Envelopes\<close>

definition CHANNEL_MDU :: nat where "CHANNEL_MDU = LINK_MDU - 6"

definition max_link_plaintext :: nat where
  "max_link_plaintext =
     (let room = PACKET_MDU - TOKEN_OVERHEAD;
          max_cipher = room div AES128_BLOCKSIZE * AES128_BLOCKSIZE
      in max_cipher - 1)"

definition MSGTYPE_SYSTEM_MIN :: u16 where "MSGTYPE_SYSTEM_MIN = 0xf000"

definition u16_be :: "u16 \<Rightarrow> bytes" where
  "u16_be w = be_encode 2 (unat w)"

definition u16_from_be :: "bytes \<Rightarrow> u16" where
  "u16_from_be bs = word_of_nat (be_decode bs)"

definition envelope_raw :: "bytes \<Rightarrow> u16 \<Rightarrow> u16 option \<Rightarrow> bytes" where
  "envelope_raw data message_type sequence =
     u16_be message_type @ u16_be (case sequence of Some s \<Rightarrow> s | None \<Rightarrow> 0)
       @ u16_be (word_of_nat (length data)) @ data"

definition deenvelope_raw :: "bytes \<Rightarrow> (u16 \<times> u16 \<times> u16) result" where
  "deenvelope_raw data =
     (if length data < 6 then Inl ChannelError
      else Inr (u16_from_be (take 2 data), u16_from_be (take 2 (drop 2 data)), u16_from_be (take 2 (drop 4 data))))"

section \<open>Window parameters\<close>

definition WINDOW :: u16 where "WINDOW = 2"
definition WINDOW_MIN :: u16 where "WINDOW_MIN = 2"
definition WINDOW_MIN_LIMIT_MEDIUM :: u16 where "WINDOW_MIN_LIMIT_MEDIUM = 5"
definition WINDOW_MIN_LIMIT_FAST :: u16 where "WINDOW_MIN_LIMIT_FAST = 16"
definition WINDOW_MAX_SLOW :: u16 where "WINDOW_MAX_SLOW = 5"
definition WINDOW_MAX_MEDIUM :: u16 where "WINDOW_MAX_MEDIUM = 12"
definition WINDOW_MAX_FAST :: u16 where "WINDOW_MAX_FAST = 48"
definition WINDOW_MAX :: u16 where "WINDOW_MAX = WINDOW_MAX_FAST"
definition FAST_RATE_THRESHOLD :: u16 where "FAST_RATE_THRESHOLD = 10"
definition RTT_FAST :: rat where "RTT_FAST = 0.18"
definition RTT_MEDIUM :: rat where "RTT_MEDIUM = 0.75"
definition RTT_SLOW :: rat where "RTT_SLOW = 1.45"
definition WINDOW_FLEXIBILITY :: u16 where "WINDOW_FLEXIBILITY = 4"

lemmas window_consts = WINDOW_def WINDOW_MIN_def WINDOW_MIN_LIMIT_MEDIUM_def WINDOW_MIN_LIMIT_FAST_def
  WINDOW_MAX_SLOW_def WINDOW_MAX_MEDIUM_def WINDOW_MAX_FAST_def WINDOW_MAX_def FAST_RATE_THRESHOLD_def
  WINDOW_FLEXIBILITY_def

record channel_params =
  cp_max_tries :: u16
  cp_fast_rate_rounds :: u16
  cp_medium_rate_rounds :: u16
  cp_window :: u16
  cp_window_max :: u16
  cp_window_min :: u16
  cp_window_flexibility :: u16

definition channel_params_new :: "bool \<Rightarrow> channel_params" where
  "channel_params_new slow =
     (if slow
      then \<lparr>cp_max_tries = 5, cp_fast_rate_rounds = 0, cp_medium_rate_rounds = 0, cp_window = 1,
            cp_window_max = 1, cp_window_min = 1, cp_window_flexibility = 1\<rparr>
      else \<lparr>cp_max_tries = 5, cp_fast_rate_rounds = 0, cp_medium_rate_rounds = 0, cp_window = WINDOW,
            cp_window_max = WINDOW_MAX_SLOW, cp_window_min = WINDOW_MIN,
            cp_window_flexibility = WINDOW_FLEXIBILITY\<rparr>)"

definition rtt_secs :: "nanos \<Rightarrow> rat" where
  "rtt_secs rtt = of_nat rtt / 1000000000"

text \<open>The two round counters wrap around after 65536 confirmations, where overflow is not checked.\<close>

definition adjust_params :: "nanos \<Rightarrow> channel_params \<Rightarrow> channel_params" where
  "adjust_params rtt p =
     (let p = (if cp_window p < cp_window_max p then p\<lparr>cp_window := cp_window p + 1\<rparr> else p);
          r = rtt_secs rtt
      in if r \<noteq> 0 then
           if r > RTT_FAST then
             let p = p\<lparr>cp_fast_rate_rounds := 0\<rparr>
             in if r > RTT_MEDIUM then p\<lparr>cp_medium_rate_rounds := 0\<rparr>
                else
                  let p = p\<lparr>cp_medium_rate_rounds := cp_medium_rate_rounds p + 1\<rparr>
                  in if cp_window_max p < WINDOW_MAX_MEDIUM \<and> cp_medium_rate_rounds p = FAST_RATE_THRESHOLD
                     then p\<lparr>cp_window_max := WINDOW_MAX_MEDIUM, cp_window_min := WINDOW_MIN_LIMIT_MEDIUM\<rparr>
                     else p
           else
             let p = p\<lparr>cp_fast_rate_rounds := cp_fast_rate_rounds p + 1\<rparr>
             in if cp_window_max p < WINDOW_MAX_FAST \<and> cp_fast_rate_rounds p = FAST_RATE_THRESHOLD
                then p\<lparr>cp_window_max := WINDOW_MAX_FAST, cp_window_min := WINDOW_MIN_LIMIT_FAST\<rparr>
                else p
         else p)"

definition packet_timeout_time :: "nanos \<Rightarrow> nat \<Rightarrow> u16 \<Rightarrow> nanos" where
  "packet_timeout_time rtt ring_len tries =
     (let rtt_factor = (if rtt_secs rtt \<ge> 0.01 then 2.5 * rtt_secs rtt else 0.025);
          tries_factor = 1.5 ^ (unat tries - 1)
      in from_secs_f64 (tries_factor * rtt_factor * (of_nat ring_len + 1.5)))"

section \<open>Receiving\<close>

text \<open>A message in sequence: of the channel's own type, or the payload of a registered type.\<close>

datatype 'm held = HeldPrimary 'm | HeldRegistered u16 bytes

type_synonym type_registry = "(u16, unit) btree_map"

record 'm inbound =
  in_on_hold :: "(u16, 'm held) btree_map"
  in_registry :: type_registry
  in_sequence :: u16

definition inbound_new :: "type_registry \<Rightarrow> 'm inbound" where
  "inbound_new registry = \<lparr>in_on_hold = [], in_registry = registry, in_sequence = 0\<rparr>"

text \<open>The loop that hands out held messages while the next one in sequence is there.\<close>

function drain :: "'m inbound \<Rightarrow> 'm held list \<times> 'm inbound" where
  "drain ib = (case hm_get (in_on_hold ib) (in_sequence ib) of
       None \<Rightarrow> ([], ib)
     | Some held \<Rightarrow>
         let (delivered, ib') = drain (ib\<lparr>in_on_hold := hm_remove (in_sequence ib) (in_on_hold ib),
               in_sequence := in_sequence ib + 1\<rparr>)
         in (held # delivered, ib'))"
  by pat_completeness auto

termination drain
  by (relation "measure (length \<circ> in_on_hold)") (auto intro: length_delete_present)

declare drain.simps [simp del]

definition sat_add16 :: "u16 \<Rightarrow> u16 \<Rightarrow> u16" where
  "sat_add16 a b = (if unat a + unat b < 65536 then a + b else 65535)"

definition hold_message :: "(bytes \<Rightarrow> u16 \<Rightarrow> 'm option) \<Rightarrow> type_registry \<Rightarrow> u16 \<Rightarrow> bytes \<Rightarrow> 'm held option" where
  "hold_message unpack registry message_type payload =
     (if hm_get registry message_type \<noteq> None then Some (HeldRegistered message_type payload)
      else map_option HeldPrimary (unpack payload message_type))"

text \<open>
  The length field is compared with the length of the envelope for a log message only, but the sum
  overflows for lengths from 65530 on: with overflow checks (\<open>checks\<close>) that is a panic.
\<close>

definition inbound_receive ::
  "bool \<Rightarrow> (bytes \<Rightarrow> u16 \<Rightarrow> 'm option) \<Rightarrow> bytes \<Rightarrow> 'm inbound \<Rightarrow> ('m held list \<times> 'm inbound) option" where
  "inbound_receive checks unpack raw ib = (case deenvelope_raw raw of
       Inl _ \<Rightarrow> Some ([], ib)
     | Inr (message_type, sequence, len) \<Rightarrow>
         if checks \<and> unat len + 6 \<ge> 65536 then None
         else
           let payload = drop 6 raw;
               overflow = sat_add16 sequence WINDOW_MAX
           in if sequence < in_sequence ib \<and> (overflow \<ge> in_sequence ib \<or> sequence > overflow)
              then Some ([], ib)
              else case hold_message unpack (in_registry ib) message_type payload of
                     None \<Rightarrow> Some ([], ib)
                   | Some held \<Rightarrow> Some (drain (ib\<lparr>in_on_hold := bm_insert sequence held (in_on_hold ib)\<rparr>)))"

definition register_message_type :: "u16 \<Rightarrow> bool \<Rightarrow> type_registry \<Rightarrow> unit result \<times> type_registry" where
  "register_message_type message_type system registry =
     (if message_type \<ge> MSGTYPE_SYSTEM_MIN \<and> \<not> system then (Inl ChannelError, registry)
      else if hm_get registry message_type \<noteq> None then (Inr (), registry)
      else (Inr (), bm_insert message_type () registry))"

section \<open>Sending\<close>

record sent_message =
  sm_packet :: packet
  sm_tries :: u16

datatype message_status = StatusUnknown | StatusWaiting | StatusSent u16 | StatusDelivered

record outbound =
  ob_sent :: "(rns_hash, sent_message) btree_map"
  ob_delivered :: "(rns_hash, unit) btree_map"
  ob_next_sequence :: u16
  ob_params :: channel_params
  ob_cancelled :: bool
  ob_last_pending :: "rns_hash option"

text \<open>What the sender does besides changing its state.\<close>

datatype channel_effect = Transmit packet | StartTimer rns_hash nanos | CloseLink

definition outbound_new :: "link \<Rightarrow> outbound" where
  "outbound_new l =
     \<lparr>ob_sent = [], ob_delivered = [], ob_next_sequence = 0,
      ob_params = channel_params_new (rtt_secs (lk_rtt l) > RTT_SLOW), ob_cancelled = False,
      ob_last_pending = None\<rparr>"

definition outlet_send :: "crypto \<Rightarrow> bytes \<Rightarrow> link \<Rightarrow> bytes \<Rightarrow> (packet \<times> bool) result option" where
  "outlet_send C iv l raw = (case data_packet C iv raw l of
       None \<Rightarrow> None
     | Some (Inl e) \<Rightarrow> Some (Inl e)
     | Some (Inr p) \<Rightarrow> Some (Inr (p\<lparr>pk_context := Ctx_Channel\<rparr>, lk_status l = Active)))"

definition outlet_resend :: "link \<Rightarrow> packet \<Rightarrow> bool \<Rightarrow> bool" where
  "outlet_resend l p transport_alive \<longleftrightarrow> lk_status l = Active \<and> transport_alive"

definition is_ready_to_send :: "link \<Rightarrow> outbound \<Rightarrow> bool" where
  "is_ready_to_send l ob =
     (if ob_cancelled ob then False
      else if lk_status l \<noteq> Active then False
      else length (ob_sent ob) < unat (cp_window (ob_params ob)))"

definition channel_send ::
  "crypto \<Rightarrow> bytes \<Rightarrow> bool \<Rightarrow> link \<Rightarrow> bytes \<Rightarrow> u16 \<Rightarrow> outbound
     \<Rightarrow> (rns_hash result \<times> channel_effect list \<times> outbound) option" where
  "channel_send C iv transport_alive l packed message_type ob =
     (if \<not> transport_alive then Some (Inl LinkNotReady, [], ob)
      else if \<not> is_ready_to_send l ob then Some (Inl LinkNotReady, [], ob)
      else
        let raw = envelope_raw packed message_type (Some (ob_next_sequence ob));
            payload_len = length raw - 6;
            envelope_limit = min (min (link_mdu l) max_link_plaintext) (0xFFFF + 6)
        in if payload_len > 0xFFFF \<or> length raw > envelope_limit then Some (Inl ChannelMessageTooBig, [], ob)
           else case outlet_send C iv l raw of
                  None \<Rightarrow> None
                | Some (Inl _) \<Rightarrow> Some (Inl ChannelMessageTooBig, [], ob)
                | Some (Inr (p, sent)) \<Rightarrow>
                    if \<not> sent then Some (Inl LinkNotReady, [], ob)
                    else
                      let h = packet_hash (cr_sha C) p;
                          ob = ob\<lparr>ob_sent := bm_insert h \<lparr>sm_packet = p, sm_tries = 1\<rparr> (ob_sent ob),
                                  ob_next_sequence := ob_next_sequence ob + 1\<rparr>
                      in Some (Inr h,
                           [Transmit p, StartTimer h (packet_timeout_time (lk_rtt l) (length (ob_sent ob)) 1)], ob))"

definition channel_handle_proof :: "link \<Rightarrow> rns_hash \<Rightarrow> outbound \<Rightarrow> outbound" where
  "channel_handle_proof l h ob = (case hm_get (ob_sent ob) h of
       None \<Rightarrow> ob
     | Some _ \<Rightarrow>
         ob\<lparr>ob_sent := hm_remove h (ob_sent ob), ob_params := adjust_params (lk_rtt l) (ob_params ob),
            ob_delivered := bm_insert h () (ob_delivered ob),
            ob_last_pending := (if ob_last_pending ob = Some h then None else ob_last_pending ob)\<rparr>)"

definition shrink_window :: "channel_params \<Rightarrow> channel_params" where
  "shrink_window p =
     (if cp_window p > cp_window_min p
      then
        let p = p\<lparr>cp_window := cp_window p - 1\<rparr>
        in if cp_window_max p > sat_add16 (cp_window_min p) (cp_window_flexibility p)
           then p\<lparr>cp_window_max := cp_window_max p - 1\<rparr> else p
      else p)"

definition channel_handle_timeout :: "bool \<Rightarrow> link \<Rightarrow> rns_hash \<Rightarrow> outbound \<Rightarrow> channel_effect list \<times> outbound" where
  "channel_handle_timeout transport_alive l h ob = (case hm_get (ob_sent ob) h of
       None \<Rightarrow> ([], ob)
     | Some m \<Rightarrow>
         if sm_tries m \<ge> cp_max_tries (ob_params ob)
         then (if transport_alive then [CloseLink] else [], ob)
         else
           let ob = ob\<lparr>ob_params := shrink_window (ob_params ob)\<rparr>;
               sent = outlet_resend l (sm_packet m) transport_alive;
               tries = sm_tries m + 1;
               ob = ob\<lparr>ob_sent := hm_modify h (\<lambda>m. m\<lparr>sm_tries := tries\<rparr>) (ob_sent ob)\<rparr>
           in ((if sent then [Transmit (sm_packet m)] else [])
                @ [StartTimer h (packet_timeout_time (lk_rtt l) (length (ob_sent ob)) tries)], ob))"

definition channel_get_status :: "outbound \<Rightarrow> rns_hash \<Rightarrow> message_status" where
  "channel_get_status ob h = (case hm_get (ob_sent ob) h of
       Some m \<Rightarrow> if sm_tries m = 0 then StatusWaiting else StatusSent (sm_tries m)
     | None \<Rightarrow> if hm_get (ob_delivered ob) h \<noteq> None then StatusDelivered else StatusUnknown)"

definition last_pending_receipt :: "outbound \<Rightarrow> rns_hash option" where
  "last_pending_receipt ob = (case ob_last_pending ob of
       None \<Rightarrow> None
     | Some h \<Rightarrow> if hm_get (ob_sent ob) h \<noteq> None then Some h else None)"

definition channel_mdu :: "link \<Rightarrow> nat" where
  "channel_mdu l = min (link_mdu l - 6) (max_link_plaintext - 6)"

section \<open>Delivery in order\<close>

lemma length_u16_be [simp]: "length (u16_be w) = 2"
  by (simp add: u16_be_def)

lemma u16_from_be_be [simp]: "u16_from_be (u16_be w) = w"
proof -
  have "unat w < 256 ^ 2"
    using unsigned_less [of w] by simp
  then show ?thesis
    by (simp add: u16_from_be_def u16_be_def be_decode_encode)
qed

lemma deenvelope_envelope:
  "deenvelope_raw (envelope_raw d t (Some s)) = Inr (t, s, word_of_nat (length d))"
  "drop 6 (envelope_raw d t (Some s)) = d"
  by (simp_all add: deenvelope_raw_def envelope_raw_def)

text \<open>
  A channel message of the sender: its number, type and packed form. A message with number \<open>i\<close> has
  the sequence number \<open>i\<close> modulo 65536.
\<close>

definition message_raw :: "nat \<Rightarrow> u16 \<times> bytes \<Rightarrow> bytes" where
  "message_raw i m = envelope_raw (snd m) (fst m) (Some (word_of_nat i))"

fun receive_run ::
  "bool \<Rightarrow> (bytes \<Rightarrow> u16 \<Rightarrow> 'm option) \<Rightarrow> bytes list \<Rightarrow> 'm inbound \<Rightarrow> ('m held list \<times> 'm inbound) option" where
  "receive_run checks unpack [] ib = Some ([], ib)"
| "receive_run checks unpack (raw # raws) ib =
     (case inbound_receive checks unpack raw ib of
        None \<Rightarrow> None
      | Some (ds, ib') \<Rightarrow> map_option (\<lambda>(es, ib''). (ds @ es, ib'')) (receive_run checks unpack raws ib'))"

lemma receive_run_append:
  "receive_run checks unpack (xs @ ys) ib =
     (case receive_run checks unpack xs ib of
        None \<Rightarrow> None
      | Some (ds, ib') \<Rightarrow> map_option (\<lambda>(es, ib''). (ds @ es, ib'')) (receive_run checks unpack ys ib'))"
  by (induction xs arbitrary: ib)
    (simp_all add: option.map_comp comp_def split_def option.map_ident split: option.splits)

text \<open>
  The receiver after the messages \<open>X\<close> arrived and \<open>k\<close> were delivered: from \<open>k\<close> on exactly the arrived
  ones are held, and what is held below \<open>k\<close> does not matter before the sequence numbers wrap.
\<close>

definition inbound_inv :: "nat \<Rightarrow> (nat \<Rightarrow> 'm held) \<Rightarrow> nat set \<Rightarrow> nat \<Rightarrow> 'm inbound \<Rightarrow> bool" where
  "inbound_inv n h X k ib \<longleftrightarrow>
     in_sequence ib = word_of_nat k \<and> k \<le> n \<and> {..<k} \<subseteq> X \<and> X \<subseteq> {..<n} \<and>
     (\<forall>i. k \<le> i \<and> i < 65536 \<longrightarrow>
        hm_get (in_on_hold ib) (word_of_nat i) = (if i \<in> X then Some (h i) else None))"

lemma u16_of_nat_eq: "i < 65536 \<Longrightarrow> j < 65536 \<Longrightarrow> (word_of_nat i :: u16) = word_of_nat j \<longleftrightarrow> i = j"
  by (simp add: word_unat_eq_iff unat_of_nat)

lemma drain_inv:
  assumes "inbound_inv n h X k ib" "n < 65536"
  shows "\<exists>k' ib'. drain ib = (map h [k..<k'], ib') \<and> k \<le> k' \<and> k' \<notin> X \<and> inbound_inv n h X k' ib'
    \<and> in_registry ib' = in_registry ib"
  using assms(1)
proof (induction "n - k" arbitrary: k ib)
  case 0
  then have "k = n" "k \<notin> X"
    by (auto simp: inbound_inv_def)
  moreover have "hm_get (in_on_hold ib) (in_sequence ib) = None"
    using 0 \<open>k \<notin> X\<close> assms(2) \<open>k = n\<close> by (auto simp: inbound_inv_def)
  ultimately show ?case
    using 0(2) by (subst drain.simps) (auto intro!: exI [of _ k])
next
  case (Suc d)
  show ?case
  proof (cases "k \<in> X")
    case False
    then have "hm_get (in_on_hold ib) (in_sequence ib) = None"
      using Suc.prems assms(2) by (auto simp: inbound_inv_def)
    with False Suc.prems show ?thesis
      by (subst drain.simps) (auto intro!: exI [of _ k])
  next
    case True
    let ?ib = "ib\<lparr>in_on_hold := hm_remove (in_sequence ib) (in_on_hold ib), in_sequence := in_sequence ib + 1\<rparr>"
    have k: "k < n"
      using True Suc.prems by (auto simp: inbound_inv_def)
    have inv': "inbound_inv n h X (Suc k) ?ib"
      using Suc.prems True k assms(2)
      by (auto simp: inbound_inv_def delete_conv' u16_of_nat_eq lessThan_Suc)
    have "d = n - Suc k"
      using Suc.hyps(2) by simp
    from Suc.hyps(1) [OF this inv'] obtain k' ib' where
      d: "drain ?ib = (map h [Suc k..<k'], ib')" "Suc k \<le> k'" "k' \<notin> X" "inbound_inv n h X k' ib'"
        "in_registry ib' = in_registry ib"
      by auto
    have "hm_get (in_on_hold ib) (in_sequence ib) = Some (h k)"
      using Suc.prems True k assms(2) by (auto simp: inbound_inv_def)
    then have "drain ib = (map h [k..<k'], ib')"
      using d(1,2) by (subst drain.simps) (simp add: upt_conv_Cons)
    with d show ?thesis
      by (auto intro!: exI [of _ k'])
  qed
qed

lemma receive_inv:
  assumes inv: "inbound_inv n h X k ib" "k \<notin> X" and n: "n < 65536" and i: "i < n"
    and m: "hold_message unpack (in_registry ib) (fst m) (snd m) = Some (h i)" "length (snd m) < 65530"
  shows "\<exists>k' ib'. inbound_receive checks unpack (message_raw i m) ib = Some (map h [k..<k'], ib') \<and> k \<le> k'
    \<and> k' \<notin> insert i X \<and> inbound_inv n h (insert i X) k' ib' \<and> in_registry ib' = in_registry ib"
proof -
  let ?s = "word_of_nat i :: u16"
  let ?ib = "ib\<lparr>in_on_hold := bm_insert ?s (h i) (in_on_hold ib)\<rparr>"
  have kn: "k \<le> n" and sq: "in_sequence ib = word_of_nat k" and kX: "{..<k} \<subseteq> X"
    using inv by (auto simp: inbound_inv_def)
  have lt: "?s < in_sequence ib \<longleftrightarrow> i < k"
    using i n kn by (simp add: sq word_less_nat_alt unat_of_nat)
  have open_: "deenvelope_raw (message_raw i m) = Inr (fst m, ?s, word_of_nat (length (snd m)))"
    "drop 6 (message_raw i m) = snd m"
    unfolding message_raw_def by (rule deenvelope_envelope)+
  have len: "\<not> 65536 \<le> unat (word_of_nat (length (snd m)) :: u16) + 6"
    using m(2) by (simp add: unat_of_nat)
  have inv': "inbound_inv n h (insert i X) k ?ib"
    using inv(1) i n kn by (auto simp: inbound_inv_def map_of_bm_insert u16_of_nat_eq)
  show ?thesis
  proof (cases "?s < in_sequence ib \<and> (sat_add16 ?s WINDOW_MAX \<ge> in_sequence ib \<or> ?s > sat_add16 ?s WINDOW_MAX)")
    case True
    then have "i \<in> X"
      using lt kX by auto
    moreover have "inbound_receive checks unpack (message_raw i m) ib = Some ([], ib)"
      using True len by (simp add: inbound_receive_def open_)
    ultimately show ?thesis
      using inv by (auto simp: insert_absorb intro!: exI [of _ k])
  next
    case False
    then have "inbound_receive checks unpack (message_raw i m) ib = Some (drain ?ib)"
      using m(1) len by (auto simp: inbound_receive_def open_)
    with drain_inv [OF inv' n] show ?thesis
      by auto
  qed
qed

lemma receive_run_inv:
  assumes n: "n < 65536"
    and m: "\<And>i. i < n \<Longrightarrow> hold_message unpack registry (fst (msg i)) (snd (msg i)) = Some (h i)"
      "\<And>i. i < n \<Longrightarrow> length (snd (msg i)) < 65530"
  shows "inbound_inv n h X k ib \<Longrightarrow> k \<notin> X \<Longrightarrow> in_registry ib = registry \<Longrightarrow> set xs \<subseteq> {..<n} \<Longrightarrow>
    \<exists>k' ib'. receive_run checks unpack (map (\<lambda>i. message_raw i (msg i)) xs) ib = Some (map h [k..<k'], ib')
      \<and> k \<le> k' \<and> k' \<notin> X \<union> set xs \<and> inbound_inv n h (X \<union> set xs) k' ib'"
proof (induction xs arbitrary: X k ib)
  case (Cons i xs)
  have i: "i < n"
    using Cons.prems(4) by simp
  have "hold_message unpack (in_registry ib) (fst (msg i)) (snd (msg i)) = Some (h i)"
    using m(1) [OF i] Cons.prems(3) by simp
  from receive_inv [OF Cons.prems(1,2) n i this m(2) [OF i]] obtain k1 ib1 where
    r: "inbound_receive checks unpack (message_raw i (msg i)) ib = Some (map h [k..<k1], ib1)" "k \<le> k1"
      "k1 \<notin> insert i X" "inbound_inv n h (insert i X) k1 ib1" "in_registry ib1 = registry"
    using Cons.prems(3) by metis
  from Cons.IH [OF r(4,3,5)] Cons.prems(4) obtain k' ib' where
    s: "receive_run checks unpack (map (\<lambda>i. message_raw i (msg i)) xs) ib1 = Some (map h [k1..<k'], ib')"
      "k1 \<le> k'" "k' \<notin> insert i X \<union> set xs" "inbound_inv n h (insert i X \<union> set xs) k' ib'"
    by auto
  have "map h [k..<k1] @ map h [k1..<k'] = map h [k..<k']"
    using r(2) s(2) by (metis le_Suc_ex map_append upt_add_eq_append)
  with r s show ?case
    by (auto intro!: exI [of _ k'])
qed auto



end
