(* ===== verification/Rns_Channel_Runs.thy ===== *)
theory Rns_Channel_Runs
  imports Rns_Channel
begin

text \<open>
  Long runs of a channel: what the receiver does once the sequence numbers have wrapped around, the
  bounds the sender keeps, and a message that crosses a link and is confirmed.
\<close>

section \<open>After the sequence numbers wrap\<close>

text \<open>One message in sequence, with a single stale message held under the number \<open>q\<close>.\<close>

lemma drain_one:
  assumes "in_on_hold ib = [(q, old)]" "in_sequence ib \<noteq> q" "in_sequence ib + 1 \<noteq> q"
  shows "drain (ib\<lparr>in_on_hold := bm_insert (in_sequence ib) v (in_on_hold ib)\<rparr>) =
    ([v], ib\<lparr>in_sequence := in_sequence ib + 1\<rparr>)"
  using assms by (subst drain.simps, simp add: map_of_bm_insert, subst drain.simps) (auto simp: delete_conv_filter)

lemma u16_of_nat_mod: "(word_of_nat i :: u16) = word_of_nat j \<longleftrightarrow> i mod 65536 = j mod 65536"
  by (simp add: word_unat_eq_iff unat_of_nat)

lemma u16_of_nat_lap:
  assumes "q < i" "i < 65536 + q" "q < 65536"
  shows "(word_of_nat i :: u16) \<noteq> word_of_nat q"
proof -
  have "i mod 65536 \<noteq> q"
    using assms by (cases "i < 65536") (simp_all add: le_mod_geq not_less)
  with assms(3) show ?thesis
    by (simp add: u16_of_nat_mod)
qed

lemma drain_last:
  assumes "in_on_hold ib = [(q, old)]" "in_sequence ib + 1 = q"
  shows "drain (ib\<lparr>in_on_hold := bm_insert (in_sequence ib) v (in_on_hold ib)\<rparr>) =
    ([v, old], ib\<lparr>in_on_hold := [], in_sequence := q + 1\<rparr>)"
proof -
  have ne: "in_sequence ib \<noteq> q" "q \<noteq> in_sequence ib"
    using assms(2) by auto
  then have del: "hm_remove (in_sequence ib) (bm_insert (in_sequence ib) v [(q, old)]) = [(q, old)]"
    by (auto simp: delete_conv_filter)
  have "drain (ib\<lparr>in_on_hold := [(q, old)], in_sequence := q\<rparr>) = ([old], ib\<lparr>in_on_hold := [], in_sequence := q + 1\<rparr>)"
    by (subst drain.simps, simp, subst drain.simps) simp
  then show ?thesis
    using assms del by (subst drain.simps) (simp add: map_of_bm_insert)
qed

lemma drain_empty:
  assumes "in_on_hold ib = []"
  shows "drain (ib\<lparr>in_on_hold := bm_insert (in_sequence ib) v (in_on_hold ib)\<rparr>) =
    ([v], ib\<lparr>in_sequence := in_sequence ib + 1\<rparr>)"
  using assms by (subst drain.simps, simp, subst drain.simps) simp

lemma receive_next:
  assumes "in_sequence ib = word_of_nat j" "hold_message unpack (in_registry ib) (fst m) (snd m) = Some v"
    and "length (snd m) < 65530"
  shows "inbound_receive checks unpack (message_raw j m) ib =
    Some (drain (ib\<lparr>in_on_hold := bm_insert (in_sequence ib) v (in_on_hold ib)\<rparr>))"
  using assms by (simp add: inbound_receive_def message_raw_def deenvelope_envelope unat_of_nat)

text \<open>Messages in sequence, from any point on: without and with the stale message.\<close>

lemma receive_in_sequence:
  assumes m: "\<And>j. hold_message unpack registry (fst (msg j)) (snd (msg j)) = Some (h j)"
    "\<And>j. length (snd (msg j)) < 65530"
  shows "in_on_hold ib = [] \<Longrightarrow> in_registry ib = registry \<Longrightarrow> in_sequence ib = word_of_nat j \<Longrightarrow>
    receive_run checks unpack (map (\<lambda>j. message_raw j (msg j)) [j..<j + d]) ib =
      Some (map h [j..<j + d], ib\<lparr>in_sequence := word_of_nat (j + d)\<rparr>)"
proof (induction d arbitrary: j ib)
  case (Suc d)
  have e: "[j..<j + Suc d] = j # [Suc j..<Suc j + d]"
    by (simp add: upt_rec)
  have "inbound_receive checks unpack (message_raw j (msg j)) ib = Some ([h j], ib\<lparr>in_sequence := word_of_nat (Suc j)\<rparr>)"
    unfolding receive_next [OF Suc.prems(3) m(1) [of j, folded Suc.prems(2)] m(2)] drain_empty [OF Suc.prems(1)]
    using Suc.prems(3) by (simp add: add.commute)
  moreover have "receive_run checks unpack (map (\<lambda>j. message_raw j (msg j)) [Suc j..<Suc j + d])
      (ib\<lparr>in_sequence := word_of_nat (Suc j)\<rparr>) =
      Some (map h [Suc j..<Suc j + d], ib\<lparr>in_sequence := word_of_nat (Suc j + d)\<rparr>)"
    using Suc.IH [of "ib\<lparr>in_sequence := word_of_nat (Suc j)\<rparr>" "Suc j"] Suc.prems by simp
  ultimately show ?case
    unfolding e by simp
qed simp

lemma receive_lap:
  assumes m: "\<And>j. hold_message unpack registry (fst (msg j)) (snd (msg j)) = Some (h j)"
    "\<And>j. length (snd (msg j)) < 65530"
    and q: "q < j" "q < 65536"
  shows "in_on_hold ib = [(word_of_nat q, old)] \<Longrightarrow> in_registry ib = registry \<Longrightarrow>
    in_sequence ib = word_of_nat j \<Longrightarrow> j + Suc d = 65536 + q \<Longrightarrow>
    receive_run checks unpack (map (\<lambda>j. message_raw j (msg j)) [j..<j + Suc d]) ib =
      Some (map h [j..<j + Suc d] @ [old], ib\<lparr>in_on_hold := [], in_sequence := word_of_nat (Suc q)\<rparr>)"
  using q(1)
proof (induction d arbitrary: j ib)
  case 0
  have w: "in_sequence ib + 1 = word_of_nat q"
  proof -
    have "in_sequence ib + 1 = word_of_nat (Suc j)"
      using 0(3) by (simp add: add.commute)
    also have "\<dots> = word_of_nat q"
      using 0(4) by (simp add: u16_of_nat_mod)
    finally show ?thesis .
  qed
  have "inbound_receive checks unpack (message_raw j (msg j)) ib =
      Some ([h j, old], ib\<lparr>in_on_hold := [], in_sequence := word_of_nat (Suc q)\<rparr>)"
    unfolding receive_next [OF 0(3) m(1) [of j, folded 0(2)] m(2)] drain_last [OF 0(1) w]
    by (simp add: add.commute)
  then show ?case
    by simp
next
  case (Suc d)
  have e: "[j..<j + Suc (Suc d)] = j # [Suc j..<Suc j + Suc d]"
    by (simp add: upt_rec)
  have w: "in_sequence ib \<noteq> word_of_nat q" "in_sequence ib + 1 \<noteq> word_of_nat q"
    using Suc.prems(3,4,5) q(2) u16_of_nat_lap [of q j] u16_of_nat_lap [of q "Suc j"]
    by (simp_all add: add.commute)
  have "inbound_receive checks unpack (message_raw j (msg j)) ib = Some ([h j], ib\<lparr>in_sequence := word_of_nat (Suc j)\<rparr>)"
    unfolding receive_next [OF Suc.prems(3) m(1) [of j, folded Suc.prems(2)] m(2)] drain_one [OF Suc.prems(1) w]
    using Suc.prems(3) by (simp add: add.commute)
  moreover have "receive_run checks unpack (map (\<lambda>j. message_raw j (msg j)) [Suc j..<Suc j + Suc d])
      (ib\<lparr>in_sequence := word_of_nat (Suc j)\<rparr>) =
      Some (map h [Suc j..<Suc j + Suc d] @ [old], ib\<lparr>in_on_hold := [], in_sequence := word_of_nat (Suc q)\<rparr>)"
    by (subst Suc.IH) (use Suc.prems in simp_all)
  ultimately show ?case
    unfolding e by simp
qed

text \<open>A duplicate that is more than the largest window behind is held, not dropped.\<close>

lemma receive_stale:
  assumes "in_on_hold ib = []" "in_sequence ib = word_of_nat s" "q + 48 < s" "s < 65536"
    and "hold_message unpack (in_registry ib) (fst m) (snd m) = Some old" "length (snd m) < 65530"
  shows "inbound_receive checks unpack (message_raw q m) ib = Some ([], ib\<lparr>in_on_hold := [(word_of_nat q, old)]\<rparr>)"
proof -
  have u: "unat (word_of_nat q :: u16) = q" "unat (word_of_nat s :: u16) = s"
    using assms(3,4) by (simp_all add: unat_of_nat)
  have ov: "unat (sat_add16 (word_of_nat q) WINDOW_MAX) = q + 48"
    using assms(3,4) by (simp add: sat_add16_def window_consts u unat_word_ariths)
  have "(word_of_nat s :: u16) \<noteq> word_of_nat q"
    using assms(3) u by (metis add_lessD1 less_irrefl)
  then have "drain (ib\<lparr>in_on_hold := [(word_of_nat q, old)]\<rparr>) = ([], ib\<lparr>in_on_hold := [(word_of_nat q, old)]\<rparr>)"
    using assms(2) by (subst drain.simps) simp
  then show ?thesis
    using assms u ov
    by (simp add: inbound_receive_def message_raw_def deenvelope_envelope word_less_nat_alt word_le_nat_alt unat_of_nat)
qed

lemma receive_repeated:
  assumes "Suc q < 65536" "in_sequence ib = word_of_nat (Suc q)" "j mod 65536 = q" "length (snd m) < 65530"
  shows "inbound_receive checks unpack (message_raw j m) ib = Some ([], ib)"
proof -
  have j: "(word_of_nat j :: u16) = word_of_nat q"
    using assms(1,3) by (simp add: u16_of_nat_mod)
  have u: "unat (word_of_nat q :: u16) = q" "unat (word_of_nat (Suc q) :: u16) = Suc q"
    using assms(1) by (simp_all add: unat_of_nat del: of_nat_Suc)
  have "in_sequence ib \<le> sat_add16 (word_of_nat q) WINDOW_MAX" "word_of_nat q < in_sequence ib"
    using assms(1,2) u
    by (auto simp: sat_add16_def window_consts word_le_nat_alt word_less_nat_alt unat_word_ariths simp del: of_nat_Suc)
  then show ?thesis
    using assms(4) by (simp add: inbound_receive_def message_raw_def deenvelope_envelope j unat_of_nat)
qed

text \<open>
  Claim C36. A late duplicate replaces a later message. If a copy of message \<open>q\<close> arrives when the
  receiver is more than 48 messages further, it is kept; 65536 messages after \<open>q\<close>, when its sequence
  number comes up again, the old message is delivered a second time in place of the new one, and the
  new one is dropped as a duplicate.
\<close>

theorem late_duplicate_replaces_message:
  assumes q: "q + 48 < s" "s < 65536"
    and m: "\<And>j. hold_message unpack registry (fst (msg j)) (snd (msg j)) = Some (h j)"
      "\<And>j. length (snd (msg j)) < 65530"
  defines "raw \<equiv> \<lambda>j. message_raw j (msg j)"
  shows "\<exists>ib. receive_run checks unpack (map raw [0..<s] @ raw q # map raw [s..<65537 + q]) (inbound_new registry)
    = Some (map h [0..<65536 + q] @ [h q], ib)"
proof -
  define I where "I = (inbound_new registry :: 'a inbound)\<lparr>in_sequence := word_of_nat s\<rparr>"
  define H where "H = I\<lparr>in_on_hold := [(word_of_nat q, h q)]\<rparr>"
  define A where "A = H\<lparr>in_on_hold := [], in_sequence := word_of_nat (Suc q)\<rparr>"
  have a: "receive_run checks unpack (map raw [0..<s]) (inbound_new registry) = Some (map h [0..<s], I)"
    using receive_in_sequence [OF m, where ib = "inbound_new registry" and j = 0 and checks = checks and d = s]
    by (simp add: inbound_new_def raw_def I_def)
  have b: "inbound_receive checks unpack (raw q) I = Some ([], H)"
    unfolding raw_def H_def by (rule receive_stale [OF _ _ q]) (use m in \<open>simp_all add: inbound_new_def I_def\<close>)
  obtain d where d: "s + Suc d = 65536 + q"
    using q by (metis add.commute add_Suc_right less_imp_Suc_add less_trans_Suc not_less_eq trans_less_add1 add_lessD1)
  have c: "receive_run checks unpack (map raw [s..<s + Suc d]) H = Some (map h [s..<s + Suc d] @ [h q], A)"
    unfolding raw_def A_def
    by (rule receive_lap [where msg = msg and h = h and registry = registry and q = q, OF m])
      (use q d in \<open>simp_all add: inbound_new_def I_def H_def\<close>)
  have e: "inbound_receive checks unpack (raw (65536 + q)) A = Some ([], A)"
    using receive_repeated [where q = q and ib = A and j = "65536 + q" and m = "msg (65536 + q)"] q m(2)
    by (simp add: raw_def A_def)
  have "s \<le> 65536 + q" "65537 + q = Suc (65536 + q)"
    using q by simp_all
  then have u: "[s..<65537 + q] = [s..<65536 + q] @ [65536 + q]"
    by (simp only: upt_Suc_append)
  have v: "[0..<65536 + q] = [0..<s] @ [s..<65536 + q]"
    unfolding d [symmetric] by (rule upt_add_eq_append) simp
  show ?thesis
    by (simp add: receive_run_append a b c [unfolded d] e u v)
qed

theorem late_duplicate_replaces_message_witness:
  "\<exists>ib. receive_run True (\<lambda>b t. Some b) (map (\<lambda>j. message_raw j (0, [of_nat j])) [0..<60]
      @ message_raw 3 (0, [of_nat 3]) # map (\<lambda>j. message_raw j (0, [of_nat j])) [60..<65537 + 3]) (inbound_new [])
    = Some (map (\<lambda>j. HeldPrimary [of_nat j]) [0..<65536 + 3] @ [HeldPrimary [of_nat 3]], ib)"
  by (rule late_duplicate_replaces_message) (simp_all add: hold_message_def)

section \<open>Bounds of the sender\<close>

datatype ob_op =
    ObSend bytes bool link bytes u16
  | ObProof link rns_hash
  | ObTimeout bool link rns_hash

primrec ob_step :: "crypto \<Rightarrow> ob_op \<Rightarrow> outbound \<Rightarrow> outbound" where
  "ob_step C (ObSend iv alive l packed mt) ob =
     (case channel_send C iv alive l packed mt ob of Some (_, _, ob') \<Rightarrow> ob' | None \<Rightarrow> ob)"
| "ob_step C (ObProof l h) ob = channel_handle_proof l h ob"
| "ob_step C (ObTimeout alive l h) ob = snd (channel_handle_timeout alive l h ob)"

definition params_ok :: "channel_params \<Rightarrow> bool" where
  "params_ok p \<longleftrightarrow> cp_max_tries p = 5 \<and> 1 \<le> unat (cp_window_min p) \<and> 1 \<le> unat (cp_window p) \<and>
     unat (cp_window p) \<le> unat (cp_window_max p) \<and> unat (cp_window_max p) \<le> 48"

definition outbound_ok :: "outbound \<Rightarrow> bool" where
  "outbound_ok ob \<longleftrightarrow> params_ok (ob_params ob) \<and> length (ob_sent ob) \<le> 48 \<and>
     list_all (\<lambda>(_, m). 1 \<le> unat (sm_tries m) \<and> unat (sm_tries m) \<le> 5) (ob_sent ob)"

lemma params_ok_new: "params_ok (channel_params_new slow)"
  by (simp add: params_ok_def channel_params_new_def window_consts)

lemma params_ok_adjust: "params_ok p \<Longrightarrow> params_ok (adjust_params rtt p)"
  by (auto simp: params_ok_def adjust_params_def Let_def window_consts word_less_nat_alt unat_word_ariths)

lemma params_ok_shrink: "params_ok p \<Longrightarrow> params_ok (shrink_window p)"
  by (auto simp: params_ok_def shrink_window_def Let_def word_less_nat_alt unat_sub_if' split: if_splits)

lemma channel_send_ok:
  assumes "outbound_ok ob" "channel_send C iv alive l packed mt ob = Some (r, effs, ob')"
  shows "outbound_ok ob'"
proof -
  have "length (bm_insert h m (ob_sent ob)) \<le> 48" if "is_ready_to_send l ob" for h m
    using that assms(1) length_bm_insert_le [of h m "ob_sent ob"]
    by (auto simp: is_ready_to_send_def outbound_ok_def params_ok_def split: if_splits)
  with assms show ?thesis
    by (auto simp: channel_send_def Let_def outbound_ok_def intro!: list_all_bm_insert
        split: if_splits option.splits sum.splits prod.splits)
qed

lemma channel_timeout_ok:
  assumes "outbound_ok ob"
  shows "outbound_ok (snd (channel_handle_timeout alive l h ob))"
proof (cases "hm_get (ob_sent ob) h")
  case (Some m)
  have m: "1 \<le> unat (sm_tries m) \<and> unat (sm_tries m) \<le> 5"
    using assms map_of_SomeD [OF Some] by (auto simp: outbound_ok_def list_all_iff)
  have "1 \<le> unat (sm_tries m + 1) \<and> unat (sm_tries m + 1) \<le> 5" if "\<not> sm_tries m \<ge> cp_max_tries (ob_params ob)"
    using that m assms by (auto simp: outbound_ok_def params_ok_def word_le_nat_alt unat_word_ariths)
  then show ?thesis
    using assms Some
    by (auto simp: channel_handle_timeout_def Let_def outbound_ok_def params_ok_shrink intro!: list_all_hm_modify)
qed (use assms in \<open>simp add: channel_handle_timeout_def\<close>)

lemma ob_step_ok: "outbound_ok ob \<Longrightarrow> outbound_ok (ob_step C op ob)"
proof (cases op)
  case (ObProof l h)
  assume "outbound_ok ob"
  then show ?thesis
    using length_hm_remove [of h "ob_sent ob"] unfolding ObProof
    by (auto simp: channel_handle_proof_def outbound_ok_def params_ok_adjust list_all_hm_remove split: option.splits)
qed (auto simp: channel_timeout_ok intro: channel_send_ok split: option.splits)

interpretation sender_sys: step_system "ob_step C" outbound_ok "\<lambda>_. True" for C
  by unfold_locales (rule ob_step_ok)

text \<open>
  Claim C37. The sender's window and retries stay bounded. Whatever is sent, confirmed and timed out,
  the window is at least one and at most its maximum, which is at most 48; at most 48 messages are
  unconfirmed, and each of them has been tried between one and five times.
\<close>

theorem channel_sender_bounds:
  "let ob = fold (ob_step C) ops (outbound_new l); p = ob_params ob in
     1 \<le> unat (cp_window p) \<and> unat (cp_window p) \<le> unat (cp_window_max p) \<and> unat (cp_window_max p) \<le> 48 \<and>
     length (ob_sent ob) \<le> 48 \<and>
     list_all (\<lambda>(_, m). 1 \<le> unat (sm_tries m) \<and> unat (sm_tries m) \<le> 5) (ob_sent ob)"
proof -
  have "outbound_ok (outbound_new l)"
    by (simp add: outbound_ok_def outbound_new_def params_ok_new)
  then have "outbound_ok (fold (ob_step C) ops (outbound_new l))"
    by (rule sender_sys.run_inv) (simp add: list_all_iff)
  then show ?thesis
    by (simp add: Let_def outbound_ok_def params_ok_def)
qed

section \<open>A message across a link\<close>

lemma outlet_send_Inr:
  assumes "outlet_send C iv l raw = Some (Inr (p, sent))"
  shows "context_packet C iv raw Ctx_Channel l = Some (Inr p)" "sent = (lk_status l = Active)"
  using assms
  by (auto simp: outlet_send_def data_packet_def context_packet_def link_packet_def
      split: option.splits sum.splits)

lemma channel_send_Inr:
  assumes "channel_send C iv alive l packed mt ob = Some (Inr h, effs, ob')"
  shows "\<exists>p. context_packet C iv (envelope_raw packed mt (Some (ob_next_sequence ob))) Ctx_Channel l = Some (Inr p)
    \<and> h = packet_hash (cr_sha C) p \<and> hd effs = Transmit p
    \<and> ob_sent ob' = bm_insert h \<lparr>sm_packet = p, sm_tries = 1\<rparr> (ob_sent ob)
    \<and> ob_next_sequence ob' = ob_next_sequence ob + 1 \<and> length packed \<le> 0xFFFF
    \<and> length packed + 6 \<le> max_link_plaintext"
  using assms outlet_send_Inr
  by (fastforce simp: channel_send_def Let_def envelope_raw_def split: if_splits option.splits sum.splits prod.splits)

text \<open>
  Claim C3. A message sent on a channel is delivered and confirmed. If the channel accepts a message,
  the packet it transmits, however relays rewrote its headers, reaches the receiving channel with the
  packed message; a receiver that expects this sequence number delivers it; the receiving link proves
  it, and when the proof comes back the sender's channel counts the message as delivered.
\<close>

theorem channel_message_confirmed:
  assumes C: "cipher_ok C" "signature_ok C" "sha_ok (cr_sha C)" and pair: "links_paired C a b"
    and iv: "length iv = IV_KEY_SIZE"
    and send: "channel_send C iv True a packed mt ob = Some (Inr h, Transmit p # effs, ob')"
    and same: "same_payload p' p"
    and inb: "in_sequence ib = ob_next_sequence ob" "in_on_hold ib = []"
      "hold_message unpack (in_registry ib) mt packed = Some v"
  shows "\<exists>raw q b'. link_handle_packet C dflt rd now True p' out b = (MessageReceived (Some q), [DataEvent raw], [raw], b')
    \<and> links_paired C a b'
    \<and> inbound_receive checks unpack raw ib = Some ([v], ib\<lparr>in_sequence := in_sequence ib + 1\<rparr>)
    \<and> (\<forall>q'. same_payload q' q \<longrightarrow>
         link_handle_packet C dflt rd now' ch q' out' a = (HandledNone, [ProofEvent h], [], link_touch now' a)
         \<and> channel_get_status (channel_handle_proof a h ob') h = StatusDelivered)"
proof -
  have iv16: "length iv = 16"
    using iv by (simp add: fernet_sizes)
  let ?raw = "envelope_raw packed mt (Some (ob_next_sequence ob))"
  let ?b = "link_touch now b"
  let ?q = "message_proof C (packet_hash (cr_sha C) p') ?b"
  obtain S: "context_packet C iv ?raw Ctx_Channel a = Some (Inr p)" "h = packet_hash (cr_sha C) p"
    "ob_sent ob' = bm_insert h \<lparr>sm_packet = p, sm_tries = 1\<rparr> (ob_sent ob)" "length packed + 6 \<le> max_link_plaintext"
    using channel_send_Inr [OF send] by auto
  note D = shared_decrypt [OF C(1) iv16 links_paired_shared(1,2) [OF pair] S(1) same]
  have rcv: "link_handle_packet C dflt rd now True p' out b = (MessageReceived (Some ?q), [DataEvent ?raw], [?raw], ?b)"
    using D links_paired_shared(3) [OF pair]
    by (simp add: link_handle_packet_def handle_data_packet_def Let_def)
  have pair': "links_paired C a ?b"
    using pair by (rule links_paired_touch)
  have "length packed < 65530"
    using S(4) by (simp add: max_link_plaintext_def packet_consts Let_def)
  then have deliver: "inbound_receive checks unpack ?raw ib = Some ([v], ib\<lparr>in_sequence := in_sequence ib + 1\<rparr>)"
    using drain_empty [OF inb(2), of v] inb
    by (simp add: inbound_receive_def deenvelope_envelope unat_of_nat)
  have "link_handle_packet C dflt rd now' ch q' out' a = (HandledNone, [ProofEvent h], [], link_touch now' a)"
    if "same_payload q' ?q" for q'
    using message_proof_accepted [OF C(2) pair' packet_hash_ok [OF C(3)] that]
    by (simp add: S(2) same_payload_hash [OF same])
  moreover have "channel_get_status (channel_handle_proof a h ob') h = StatusDelivered"
    by (simp add: channel_get_status_def channel_handle_proof_def S(3) map_of_bm_insert delete_conv')
  ultimately show ?thesis
    using rcv pair' deliver by blast
qed

lemma channel_send_example:
  "\<exists>h p effs ob'. channel_send toy_crypto (replicate 16 0) True link_ready_example [1, 2, 3] 7 (outbound_new link_ready_example)
     = Some (Inr h, Transmit p # effs, ob')"
proof -
  have l: "lk_status link_ready_example = Active" "lk_mtu link_ready_example = 500" "lk_rtt link_ready_example = 0"
    by (simp_all add: link_ready_example_def link_example_def link_new_def link_fresh_def PROTOCOL_MTU_def)
  then have "is_ready_to_send link_ready_example (outbound_new link_ready_example)"
    by (simp add: is_ready_to_send_def outbound_new_def channel_params_new_def window_consts)
  moreover have "outlet_send toy_crypto (replicate 16 0) link_ready_example (envelope_raw [1, 2, 3] 7 (Some s)) \<noteq> None
      \<and> (\<exists>p. outlet_send toy_crypto (replicate 16 0) link_ready_example (envelope_raw [1, 2, 3] 7 (Some s)) = Some (Inr (p, True)))" for s
    using l fernet_encrypt_cases [OF toy_crypto_ok(1), of "replicate 16 0"]
    by (simp add: outlet_send_def data_packet_def link_ready_def link_encrypt_def pi_encrypt_def PACKET_MDU_def
        envelope_raw_def)
  then obtain p where "outlet_send toy_crypto (replicate 16 0) link_ready_example
      (envelope_raw [1, 2, 3] 7 (Some (ob_next_sequence (outbound_new link_ready_example)))) = Some (Inr (p, True))"
    by blast
  ultimately show ?thesis
    using l by (simp add: channel_send_def Let_def link_mdu_def max_link_plaintext_def packet_consts) (simp add: envelope_raw_def)
qed

theorem channel_message_confirmed_witness:
  "\<exists>p h ob' raw q b'. channel_get_status (channel_handle_proof link_ready_example h ob') h = StatusDelivered
    \<and> link_handle_packet toy_crypto [] (\<lambda>_. None) 1 True p True link_ready_example =
        (MessageReceived (Some q), [DataEvent raw], [raw], b')
    \<and> inbound_receive True (\<lambda>b t. Some b) raw (inbound_new []) =
        Some ([HeldPrimary [1, 2, 3]], (inbound_new [])\<lparr>in_sequence := 1\<rparr>)"
proof -
  obtain h p effs ob' where s: "channel_send toy_crypto (replicate 16 0) True link_ready_example [1, 2, 3] 7
      (outbound_new link_ready_example) = Some (Inr h, Transmit p # effs, ob')"
    using channel_send_example by blast
  have i: "length (replicate 16 0 :: bytes) = IV_KEY_SIZE" "same_payload p p"
    "in_sequence (inbound_new [] :: bytes inbound) = ob_next_sequence (outbound_new link_ready_example)"
    "in_on_hold (inbound_new [] :: bytes inbound) = []"
    "hold_message (\<lambda>b t. Some b) (in_registry (inbound_new [] :: bytes inbound)) 7 [1, 2, 3] = Some (HeldPrimary [1, 2, 3])"
    by (simp_all add: fernet_sizes same_payload_def inbound_new_def outbound_new_def hold_message_def)
  obtain raw q b' where r: "link_handle_packet toy_crypto [] (\<lambda>_. None) 1 True p True link_ready_example =
      (MessageReceived (Some q), [DataEvent raw], [raw], b')"
    "inbound_receive True (\<lambda>b t. Some b) raw (inbound_new []) =
      Some ([HeldPrimary [1, 2, 3]], (inbound_new [])\<lparr>in_sequence := in_sequence (inbound_new [] :: bytes inbound) + 1\<rparr>)"
    "\<forall>q'. same_payload q' q \<longrightarrow> channel_get_status (channel_handle_proof link_ready_example h ob') h = StatusDelivered"
    using channel_message_confirmed [OF toy_crypto_ok(1,3,5) link_ready_example_paired i(1) s i(2-5)] by metis
  have "channel_get_status (channel_handle_proof link_ready_example h ob') h = StatusDelivered"
    using r(3) by (auto simp: same_payload_def)
  with r show ?thesis
    by (auto simp: inbound_new_def)
qed

end
