(* ===== verification/Rns_Inbound.thy ===== *)
theory Rns_Inbound
  imports Rns_Identity Rns_Control
begin

text \<open>
  The inbound side of \<^verbatim>\<open>src/transport.rs\<close>: the prioritised queues of received packets, the early
  packet filter and the per-packet radio statistics.

  An array of four queues is a list of four lists, in class order. The counters of dropped packets
  are natural numbers. The theory shows that the queues implement one stable priority queue with a
  bound per class, and that draining them ends and hands out everything, highest class first.
\<close>

section \<open>Queues\<close>

record rx_message =
  rx_address :: address_hash
  rx_packet :: packet

datatype traffic_class = DataClass | AnnounceClass | PathRequestClass | IngressLimitedClass

fun class_index :: "traffic_class \<Rightarrow> nat" where
  "class_index DataClass = 0"
| "class_index AnnounceClass = 1"
| "class_index PathRequestClass = 2"
| "class_index IngressLimitedClass = 3"

definition INBOUND_QUEUE_LENGTHS :: "nat list" where
  "INBOUND_QUEUE_LENGTHS = [1024, 128, 128, 8]"

record inbound_queues =
  iq_queues :: "rx_message list list"
  iq_sizes :: "nat list"
  iq_dropped :: "nat list"

definition inbound_queues_new :: "nat list \<Rightarrow> inbound_queues" where
  "inbound_queues_new sizes =
     \<lparr>iq_queues = replicate 4 [],
      iq_sizes = map (\<lambda>(index, n). if n = 0 then INBOUND_QUEUE_LENGTHS ! index else n) (enumerate 0 sizes),
      iq_dropped = replicate 4 0\<rparr>"

definition inbound_queues_default :: inbound_queues where
  "inbound_queues_default = inbound_queues_new INBOUND_QUEUE_LENGTHS"

definition queues_put :: "traffic_class \<Rightarrow> rx_message \<Rightarrow> inbound_queues \<Rightarrow> bool \<times> inbound_queues" where
  "queues_put class item iq =
     (let idx = class_index class; queue = iq_queues iq ! idx
      in if length queue \<ge> iq_sizes iq ! idx
         then (False, iq\<lparr>iq_dropped := (iq_dropped iq)[idx := iq_dropped iq ! idx + 1]\<rparr>)
         else (True, iq\<lparr>iq_queues := (iq_queues iq)[idx := queue @ [item]]\<rparr>))"

text \<open>The loop over the queues that pops the first item it finds.\<close>

fun pop_first :: "'a list list \<Rightarrow> ('a \<times> 'a list list) option" where
  "pop_first [] = None"
| "pop_first ([] # qs) = map_option (\<lambda>(x, qs'). (x, [] # qs')) (pop_first qs)"
| "pop_first ((x # xs) # qs) = Some (x, xs # qs)"

definition queues_get :: "inbound_queues \<Rightarrow> rx_message option \<times> inbound_queues" where
  "queues_get iq = (case pop_first (iq_queues iq) of
       None \<Rightarrow> (None, iq)
     | Some (item, qs) \<Rightarrow> (Some item, iq\<lparr>iq_queues := qs\<rparr>))"

definition queues_snapshot :: "inbound_queues \<Rightarrow> nat \<times> nat list \<times> nat list" where
  "queues_snapshot iq = (sum_list (map length (iq_queues iq)), map length (iq_queues iq), iq_dropped iq)"

definition classify :: "packet \<Rightarrow> address_hash \<Rightarrow> bool \<Rightarrow> traffic_class" where
  "classify p path_request_dest ingress_limited =
     (if hd_packet_type (pk_header p) = Announce then AnnounceClass
      else if hd_packet_type (pk_header p) = Data \<and> pk_destination p = path_request_dest
      then if ingress_limited then IngressLimitedClass else PathRequestClass
      else DataClass)"

lemma pop_first_length: "pop_first qs = Some (x, qs') \<Longrightarrow> sum_list (map length qs) = Suc (sum_list (map length qs'))"
  by (induction qs arbitrary: x qs' rule: pop_first.induct) auto

text \<open>\<^verbatim>\<open>while let Some(item) = self.get()\<close>.\<close>

function drain_queues :: "inbound_queues \<Rightarrow> rx_message list \<times> inbound_queues" where
  "drain_queues iq = (case queues_get iq of
       (None, iq') \<Rightarrow> ([], iq')
     | (Some item, iq') \<Rightarrow> let (out, iq'') = drain_queues iq' in (item # out, iq''))"
  by pat_completeness auto
termination
  by (relation "measure (\<lambda>iq. sum_list (map length (iq_queues iq)))")
    (auto simp: queues_get_def split: option.splits dest: pop_first_length)

declare drain_queues.simps [simp del]

definition enqueue_and_drain :: "rx_message \<Rightarrow> inbound_queues \<Rightarrow> rx_message list \<times> inbound_queues" where
  "enqueue_and_drain incoming iq =
     (let class = classify (rx_packet incoming) (AddressHash (replicate 16 0)) False
      in drain_queues (snd (queues_put class incoming iq)))"

section \<open>The packet filter\<close>

definition packet_filter_violation :: "packet \<Rightarrow> string option" where
  "packet_filter_violation p =
     (let h = pk_header p in
      case hd_destination_type h of
        Plain \<Rightarrow>
          if hd_packet_type h \<noteq> Announce
          then if hd_hops h > 1 then Some ''Transported PLAIN packet with hops > 1'' else None
          else Some ''Announce packet with PLAIN type''
      | Group \<Rightarrow>
          if hd_packet_type h \<noteq> Announce
          then if hd_hops h > 1 then Some ''Transported GROUP packet with hops > 1'' else None
          else Some ''Announce packet with GROUP type''
      | _ \<Rightarrow> None)"

definition packet_filter :: "packet \<Rightarrow> bool" where
  "packet_filter p \<longleftrightarrow> packet_filter_violation p = None"

definition ingress_exempt_kind :: "string \<Rightarrow> bool" where
  "ingress_exempt_kind kind \<longleftrightarrow>
     kind \<in> set [''KissInterface'', ''SerialInterface'', ''RnodeInterface'', ''RnodeMultiInterface'']"

definition announced_identity_hash :: "crypto \<Rightarrow> bytes \<Rightarrow> packet \<Rightarrow> address_hash option" where
  "announced_identity_hash C dflt p =
     (if length (pk_data p) < 64 then None
      else map_option id_address_hash
        (identity_new_from_slices C dflt (take 32 (pk_data p)) (take 32 (drop 32 (pk_data p)))))"

section \<open>Radio statistics\<close>

record phy_cache =
  phy_capacity :: nat
  phy_rssi :: "(rns_hash \<times> rat) list"
  phy_snr :: "(rns_hash \<times> rat) list"
  phy_q :: "(rns_hash \<times> rat) list"

definition phy_cache_new :: "nat \<Rightarrow> phy_cache" where
  "phy_cache_new capacity = \<lparr>phy_capacity = capacity, phy_rssi = [], phy_snr = [], phy_q = []\<rparr>"

definition push_phy :: "nat \<Rightarrow> rns_hash \<Rightarrow> rat \<Rightarrow> (rns_hash \<times> rat) list \<Rightarrow> (rns_hash \<times> rat) list" where
  "push_phy capacity hash v cache =
     (if length cache = capacity then drop 1 cache else cache) @ [(hash, v)]"

definition phy_record ::
  "rns_hash \<Rightarrow> int option \<Rightarrow> rat option \<Rightarrow> rat option \<Rightarrow> phy_cache \<Rightarrow> phy_cache" where
  "phy_record hash rssi snr quality c =
     (if phy_capacity c = 0 then c
      else
        let c = (case rssi of Some r \<Rightarrow> c\<lparr>phy_rssi := push_phy (phy_capacity c) hash (of_int r) (phy_rssi c)\<rparr> | None \<Rightarrow> c);
            c = (case snr of Some s \<Rightarrow> c\<lparr>phy_snr := push_phy (phy_capacity c) hash s (phy_snr c)\<rparr> | None \<Rightarrow> c);
            c = (case quality of Some q \<Rightarrow> c\<lparr>phy_q := push_phy (phy_capacity c) hash q (phy_q c)\<rparr> | None \<Rightarrow> c)
        in c)"

definition phy_lookup :: "(rns_hash \<times> rat) list \<Rightarrow> rns_hash \<Rightarrow> rat option" where
  "phy_lookup cache hash = map_of (rev cache) hash"

section \<open>The queues are one stable priority queue\<close>

text \<open>
  The specification: all queued items in the order they arrived, with their class. An item is refused
  when its class is full, and the next item is the first one of the least class.
\<close>

type_synonym pq_spec = "(nat \<times> rx_message) list"

definition spec_put :: "nat list \<Rightarrow> nat \<Rightarrow> rx_message \<Rightarrow> pq_spec \<Rightarrow> bool \<times> pq_spec" where
  "spec_put sizes c x q =
     (if length (filter (\<lambda>(d, _). d = c) q) \<ge> sizes ! c then (False, q) else (True, q @ [(c, x)]))"

definition spec_get :: "pq_spec \<Rightarrow> rx_message option \<times> pq_spec" where
  "spec_get q = (case min_by_key fst q of
       None \<Rightarrow> (None, q)
     | Some (c, x) \<Rightarrow> (Some x, remove1 (c, x) q))"

datatype iq_op = IqPut traffic_class rx_message | IqGet

datatype iq_result = Accepted bool | Popped "rx_message option"

primrec iq_step :: "iq_op \<Rightarrow> inbound_queues \<Rightarrow> iq_result \<times> inbound_queues" where
  "iq_step (IqPut c x) iq = (let (b, iq') = queues_put c x iq in (Accepted b, iq'))"
| "iq_step IqGet iq = (let (r, iq') = queues_get iq in (Popped r, iq'))"

primrec spec_step :: "nat list \<Rightarrow> iq_op \<Rightarrow> pq_spec \<Rightarrow> iq_result \<times> pq_spec" where
  "spec_step sizes (IqPut c x) q = (let (b, q') = spec_put sizes (class_index c) x q in (Accepted b, q'))"
| "spec_step sizes IqGet q = (let (r, q') = spec_get q in (Popped r, q'))"

fun run_ops :: "('op \<Rightarrow> 's \<Rightarrow> 'r \<times> 's) \<Rightarrow> 'op list \<Rightarrow> 's \<Rightarrow> 'r list" where
  "run_ops step [] s = []"
| "run_ops step (x # xs) s = (let (r, s') = step x s in r # run_ops step xs s')"

definition queue_of :: "nat \<Rightarrow> pq_spec \<Rightarrow> rx_message list" where
  "queue_of c q = map snd (filter (\<lambda>(d, _). d = c) q)"

definition queues_refine :: "pq_spec \<Rightarrow> inbound_queues \<Rightarrow> bool" where
  "queues_refine q iq \<longleftrightarrow> list_all (\<lambda>(c, _). c < 4) q \<and> iq_queues iq = map (\<lambda>c. queue_of c q) [0..<4]"

lemma class_index_less: "class_index c < 4"
  by (cases c) simp_all

lemma queue_of_append: "queue_of c (q @ [(d, x)]) = (if d = c then queue_of c q @ [x] else queue_of c q)"
  by (simp add: queue_of_def)

lemma put_refines:
  assumes "queues_refine q iq" "iq_sizes iq = sizes"
  shows "fst (spec_put sizes (class_index c) x q) = fst (queues_put c x iq)
    \<and> queues_refine (snd (spec_put sizes (class_index c) x q)) (snd (queues_put c x iq))
    \<and> iq_sizes (snd (queues_put c x iq)) = sizes"
proof -
  have i: "iq_queues iq ! class_index c = queue_of (class_index c) q"
    using assms class_index_less [of c] by (simp add: queues_refine_def del: upt.simps)
  have "(map (\<lambda>c. queue_of c q) [0..<4])[d := queue_of d q @ [x]] = map (\<lambda>c. queue_of c (q @ [(d, x)])) [0..<4]"
    if "d < 4" for d
    using that by (intro nth_equalityI) (auto simp: nth_list_update queue_of_append simp del: upt.simps)
  with assms i class_index_less [of c] show ?thesis
    by (auto simp: spec_put_def queues_put_def Let_def queues_refine_def queue_of_def simp del: upt.simps)
qed

lemma pop_first_at:
  "\<lbrakk>i < length qs; \<forall>j<i. qs ! j = []; qs ! i = x # xs\<rbrakk> \<Longrightarrow> pop_first qs = Some (x, qs[i := xs])"
proof (induction qs arbitrary: i rule: pop_first.induct)
  case (2 qs)
  then obtain k where k: "i = Suc k"
    by (cases i) auto
  have "\<forall>j<k. qs ! j = []"
    using 2(3) k by (metis Suc_less_eq nth_Cons_Suc)
  with 2 k show ?case
    by simp
next
  case (3 y ys qs)
  then have "i = 0"
    by (cases i) auto
  with 3 show ?case
    by simp
qed simp

lemma pop_first_empty: "\<forall>q\<in>set qs. q = [] \<Longrightarrow> pop_first qs = None"
  by (induction qs rule: pop_first.induct) auto

lemma min_by_key_split:
  "min_by_key f q = Some y \<Longrightarrow> \<exists>pre suf. q = pre @ y # suf \<and> (\<forall>z\<in>set pre. f y < f z) \<and> (\<forall>z\<in>set suf. f y \<le> f z)"
proof (induction q arbitrary: y)
  case (Cons x q)
  show ?case
  proof (cases "min_by_key f q")
    case None
    then show ?thesis
      using Cons.prems by (intro exI [of _ "[]"]) simp
  next
    case (Some z)
    from Cons.IH [OF Some] obtain pre suf where z: "q = pre @ z # suf" "\<forall>w\<in>set pre. f z < f w" "\<forall>w\<in>set suf. f z \<le> f w"
      by blast
    show ?thesis
    proof (cases "f x \<le> f z")
      case True
      then have "y = x" "\<forall>w\<in>set q. f y \<le> f w"
        using Cons.prems Some z by auto
      then show ?thesis
        by (intro exI [of _ "[]"] exI [of _ q]) simp
    next
      case False
      then have "y = z"
        using Cons.prems Some by simp
      with z False show ?thesis
        by (intro exI [of _ "x # pre"] exI [of _ suf]) auto
    qed
  qed
qed simp

lemma get_refines:
  assumes R: "queues_refine q iq"
  shows "fst (spec_get q) = fst (queues_get iq) \<and> queues_refine (snd (spec_get q)) (snd (queues_get iq))
    \<and> iq_sizes (snd (queues_get iq)) = iq_sizes iq"
proof (cases "min_by_key fst q")
  case None
  then have "q = []"
    by simp
  with R have "pop_first (iq_queues iq) = None"
    by (intro pop_first_empty) (auto simp: queues_refine_def queue_of_def)
  with R None show ?thesis
    by (simp add: spec_get_def queues_get_def)
next
  case (Some y)
  obtain c x where y: "y = (c, x)"
    by (cases y)
  from min_by_key_split [OF Some] y obtain pre suf
    where q: "q = pre @ (c, x) # suf" "\<forall>z\<in>set pre. c < fst z" "\<forall>z\<in>set suf. c \<le> fst z"
    by auto
  have c4: "c < 4"
    using R q(1) by (simp add: queues_refine_def)
  have low: "queue_of d q = []" if "d < c" for d
    using q that by (fastforce simp: queue_of_def filter_empty_conv)
  have "filter (\<lambda>(d, _). d = c) pre = []"
    using q(2) by (fastforce simp: filter_empty_conv)
  then have qc: "queue_of c q = x # queue_of c (pre @ suf)"
    using q(1) by (simp add: queue_of_def)
  have other: "queue_of d q = queue_of d (pre @ suf)" if "d \<noteq> c" for d
    using q(1) that by (simp add: queue_of_def)
  have rm: "remove1 (c, x) q = pre @ suf"
    using q(1,2) by (auto simp: remove1_append)
  let ?qs = "map (\<lambda>c. queue_of c q) [0..<4]"
  have "pop_first ?qs = Some (x, ?qs[c := queue_of c (pre @ suf)])"
    by (rule pop_first_at) (use c4 low qc in \<open>simp_all del: upt.simps\<close>)
  moreover have "?qs[c := queue_of c (pre @ suf)] = map (\<lambda>c. queue_of c (pre @ suf)) [0..<4]"
    using c4 other by (intro nth_equalityI) (auto simp: nth_list_update simp del: upt.simps)
  ultimately show ?thesis
    using R Some y q(1) rm by (auto simp: spec_get_def queues_get_def queues_refine_def simp del: upt.simps)
qed

lemma step_refines:
  assumes "queues_refine q iq" "iq_sizes iq = sizes"
  shows "fst (spec_step sizes x q) = fst (iq_step x iq)
    \<and> queues_refine (snd (spec_step sizes x q)) (snd (iq_step x iq))
    \<and> iq_sizes (snd (iq_step x iq)) = sizes"
  using put_refines [OF assms] get_refines [OF assms(1)] assms(2)
  by (cases x) (simp_all add: split_beta)

lemma run_refines:
  "\<lbrakk>queues_refine q iq; iq_sizes iq = sizes\<rbrakk> \<Longrightarrow> run_ops (spec_step sizes) xs q = run_ops iq_step xs iq"
proof (induction xs arbitrary: q iq)
  case (Cons x xs)
  with step_refines [OF Cons.prems, of x] show ?case
    by (simp add: split_beta)
qed simp

text \<open>
  Claim C34. Whatever sequence of arrivals and removals the inbound queues go through, they answer
  exactly as one priority queue kept in arrival order: an arrival is refused only when its own class
  is full, and a removal takes the earliest arrival of the most urgent class present.
\<close>

theorem inbound_queues_refine:
  "run_ops iq_step xs (inbound_queues_new sizes)
     = run_ops (spec_step (iq_sizes (inbound_queues_new sizes))) xs []"
  by (rule run_refines [symmetric])
    (simp_all add: queues_refine_def inbound_queues_new_def queue_of_def numeral_eq_Suc)

section \<open>Draining\<close>

lemma pop_first_Some: "pop_first qs = Some (x, qs') \<Longrightarrow> concat qs = x # concat qs' \<and> length qs' = length qs"
  by (induction qs arbitrary: x qs' rule: pop_first.induct) auto

lemma pop_first_None: "pop_first qs = None \<Longrightarrow> qs = replicate (length qs) []"
  by (induction qs rule: pop_first.induct) auto

lemma drain_queues_all:
  "drain_queues iq = (concat (iq_queues iq), iq\<lparr>iq_queues := replicate (length (iq_queues iq)) []\<rparr>)"
proof (induction iq rule: drain_queues.induct)
  case (1 iq)
  show ?case
  proof (cases "pop_first (iq_queues iq)")
    case None
    from pop_first_None [OF None] have e: "iq_queues iq = replicate (length (iq_queues iq)) []" .
    then have "concat (iq_queues iq) = []"
      by (metis concat_replicate_trivial)
    moreover from e have "iq\<lparr>iq_queues := replicate (length (iq_queues iq)) []\<rparr> = iq"
      by (cases iq) simp
    ultimately show ?thesis
      using None by (subst drain_queues.simps) (simp add: queues_get_def)
  next
    case (Some r)
    obtain x qs where r: "r = (x, qs)"
      by (cases r)
    let ?iq = "iq\<lparr>iq_queues := qs\<rparr>"
    have g: "queues_get iq = (Some x, ?iq)"
      using Some r by (simp add: queues_get_def)
    have "drain_queues ?iq = (concat qs, ?iq\<lparr>iq_queues := replicate (length qs) []\<rparr>)"
      using 1 [OF g [symmetric] refl] by simp
    then show ?thesis
      using pop_first_Some [of _ x qs] Some r g by (subst drain_queues.simps) simp
  qed
qed

text \<open>
  Claim C35. Draining ends, with every queue empty, and hands out every queued packet once, in class
  order and in arrival order within a class. The packet just received is among them, at the end of
  its class, unless that class was full.
\<close>

theorem enqueue_and_drain_complete:
  "enqueue_and_drain m iq =
     (let i = class_index (classify (rx_packet m) (AddressHash (replicate 16 0)) False);
          full = length (iq_queues iq ! i) \<ge> iq_sizes iq ! i
      in (concat (if full then iq_queues iq else (iq_queues iq)[i := iq_queues iq ! i @ [m]]),
          iq\<lparr>iq_queues := replicate (length (iq_queues iq)) [],
             iq_dropped := if full then (iq_dropped iq)[i := Suc (iq_dropped iq ! i)] else iq_dropped iq\<rparr>))"
  by (simp add: enqueue_and_drain_def drain_queues_all queues_put_def Let_def)

end
