(* ===== verification/Rns_Iface.thy ===== *)
theory Rns_Iface
  imports Rns_Announce_Table Rns_Ifac
begin

text \<open>
  The interface manager, \<^verbatim>\<open>src/iface.rs\<close>: the registry of interfaces with their counters and
  control states, sending messages to interfaces, and stopping interfaces with what they spawned.

  Counters are 64-bit words, and a radio reading that was not reported is \<open>None\<close>. A message handed to
  an interface is a pair of its address and the message; the queues to the workers are taken to
  accept it. The random part of a new address and the clock are arguments. The theory shows which
  interfaces get a message and in what form, and what stopping an interface removes.
\<close>

section \<open>Counters\<close>

record iface_counters =
  ict_sent :: u64
  ict_received :: u64
  ict_tx_bytes :: u64
  ict_rx_bytes :: u64
  ict_online :: bool
  ict_announces_received :: u64
  ict_announces_sent :: u64
  ict_announce_bytes_received :: u64
  ict_announce_bytes_sent :: u64
  ict_path_requests_received :: u64
  ict_path_requests_sent :: u64
  ict_protocol_violations :: u64
  ict_ifac_violations :: u64
  ict_packet_filter_hits :: u64
  ict_rssi :: "16 word option"
  ict_snr :: "rat option"
  ict_quality :: "rat option"
  ict_airtime_short :: "rat option"
  ict_airtime_long :: "rat option"
  ict_channel_load_short :: "rat option"
  ict_channel_load_long :: "rat option"

definition iface_counters_default :: iface_counters where
  "iface_counters_default =
     \<lparr>ict_sent = 0, ict_received = 0, ict_tx_bytes = 0, ict_rx_bytes = 0, ict_online = False,
      ict_announces_received = 0, ict_announces_sent = 0, ict_announce_bytes_received = 0,
      ict_announce_bytes_sent = 0, ict_path_requests_received = 0, ict_path_requests_sent = 0,
      ict_protocol_violations = 0, ict_ifac_violations = 0, ict_packet_filter_hits = 0,
      ict_rssi = None, ict_snr = None, ict_quality = None, ict_airtime_short = None,
      ict_airtime_long = None, ict_channel_load_short = None, ict_channel_load_long = None\<rparr>"

definition count_tx :: "nat \<Rightarrow> iface_counters \<Rightarrow> iface_counters" where
  "count_tx n c = c\<lparr>ict_sent := ict_sent c + 1, ict_tx_bytes := ict_tx_bytes c + word_of_nat n\<rparr>"

definition count_rx :: "nat \<Rightarrow> iface_counters \<Rightarrow> iface_counters" where
  "count_rx n c = c\<lparr>ict_received := ict_received c + 1, ict_rx_bytes := ict_rx_bytes c + word_of_nat n\<rparr>"

definition count_announce_rx :: "nat \<Rightarrow> iface_counters \<Rightarrow> iface_counters" where
  "count_announce_rx n c = c\<lparr>ict_announces_received := ict_announces_received c + 1,
     ict_announce_bytes_received := ict_announce_bytes_received c + word_of_nat n\<rparr>"

definition count_announce_tx :: "nat \<Rightarrow> iface_counters \<Rightarrow> iface_counters" where
  "count_announce_tx n c = c\<lparr>ict_announces_sent := ict_announces_sent c + 1,
     ict_announce_bytes_sent := ict_announce_bytes_sent c + word_of_nat n\<rparr>"

definition count_path_request_rx :: "iface_counters \<Rightarrow> iface_counters" where
  "count_path_request_rx c = c\<lparr>ict_path_requests_received := ict_path_requests_received c + 1\<rparr>"

definition count_path_request_tx :: "iface_counters \<Rightarrow> iface_counters" where
  "count_path_request_tx c = c\<lparr>ict_path_requests_sent := ict_path_requests_sent c + 1\<rparr>"

definition keep_or :: "'a option \<Rightarrow> 'a option \<Rightarrow> 'a option" where
  "keep_or new old = (case new of Some v \<Rightarrow> Some v | None \<Rightarrow> old)"

definition set_radio_quality ::
  "16 word option \<Rightarrow> rat option \<Rightarrow> rat option \<Rightarrow> iface_counters \<Rightarrow> iface_counters" where
  "set_radio_quality rssi snr quality c =
     c\<lparr>ict_rssi := keep_or rssi (ict_rssi c), ict_snr := keep_or snr (ict_snr c),
       ict_quality := keep_or quality (ict_quality c)\<rparr>"

definition set_radio_channel ::
  "rat option \<Rightarrow> rat option \<Rightarrow> rat option \<Rightarrow> rat option \<Rightarrow> iface_counters \<Rightarrow> iface_counters" where
  "set_radio_channel as al ls ll c =
     c\<lparr>ict_airtime_short := keep_or as (ict_airtime_short c),
       ict_airtime_long := keep_or al (ict_airtime_long c),
       ict_channel_load_short := keep_or ls (ict_channel_load_short c),
       ict_channel_load_long := keep_or ll (ict_channel_load_long c)\<rparr>"

section \<open>The registry\<close>

record local_interface =
  li_address :: address_hash
  li_name :: string
  li_kind :: string
  li_endpoint :: string
  li_parent :: "address_hash option"
  li_stopped :: bool
  li_stats :: iface_counters
  li_ifac :: "ifac_key option"

record iface_manager =
  im_counter :: nat
  im_ifaces :: "local_interface list"
  im_controls :: "(address_hash, iface_control) hash_map"
  im_local_hops_delta :: u8
  im_transport_identity :: "address_hash option"

text \<open>What the manager asks an interface of a given type, the trait \<^verbatim>\<open>Interface\<close>.\<close>

record interface_type =
  it_type_name :: string
  it_constructor_bitrate :: "nat option"
  it_should_ingress_limit :: bool
  it_endpoint :: string

definition iface_manager_new :: iface_manager where
  "iface_manager_new =
     \<lparr>im_counter = 0, im_ifaces = [], im_controls = [], im_local_hops_delta = 0,
      im_transport_identity = None\<rparr>"

definition im_set_local_hops_delta :: "u8 \<Rightarrow> address_hash option \<Rightarrow> iface_manager \<Rightarrow> iface_manager" where
  "im_set_local_hops_delta delta transport_id m =
     m\<lparr>im_local_hops_delta := delta, im_transport_identity := transport_id\<rparr>"

definition im_drop_announce_queues :: "iface_manager \<Rightarrow> iface_manager" where
  "im_drop_announce_queues m =
     m\<lparr>im_controls := map (\<lambda>(a, c). (a, clear_announce_queue c)) (im_controls m)\<rparr>"

definition find_iface :: "address_hash \<Rightarrow> iface_manager \<Rightarrow> local_interface option" where
  "find_iface a m = find (\<lambda>i. li_address i = a) (im_ifaces m)"

definition update_iface ::
  "address_hash \<Rightarrow> (local_interface \<Rightarrow> local_interface) \<Rightarrow> iface_manager \<Rightarrow> iface_manager" where
  "update_iface a f m = m\<lparr>im_ifaces := update_first (\<lambda>i. li_address i = a) f (im_ifaces m)\<rparr>"

definition with_stats ::
  "address_hash \<Rightarrow> (iface_counters \<Rightarrow> iface_counters) \<Rightarrow> iface_manager \<Rightarrow> iface_manager" where
  "with_stats a f = update_iface a (\<lambda>i. i\<lparr>li_stats := f (li_stats i)\<rparr>)"

text \<open>\<^verbatim>\<open>with_control\<close>, for a call that writes: whether the interface has a control state, and the manager.\<close>

definition with_control ::
  "address_hash \<Rightarrow> (iface_control \<Rightarrow> iface_control) \<Rightarrow> iface_manager \<Rightarrow> bool \<times> iface_manager" where
  "with_control a f m =
     (hm_get (im_controls m) a \<noteq> None, m\<lparr>im_controls := hm_modify a f (im_controls m)\<rparr>)"

definition is_local_client_iface :: "iface_manager \<Rightarrow> address_hash \<Rightarrow> bool" where
  "is_local_client_iface m a =
     (case hm_get (im_controls m) a of Some c \<Rightarrow> ctl_is_local_client c | None \<Rightarrow> False)"

definition connected_to_shared_instance :: "iface_manager \<Rightarrow> bool" where
  "connected_to_shared_instance m \<longleftrightarrow>
     list_ex (\<lambda>i. li_kind i = ''LocalClient'' \<and> ict_online (li_stats i) \<and> \<not> li_stopped i
        \<and> \<not> is_local_client_iface m (li_address i)) (im_ifaces m)"

definition new_iface_address :: "sha \<Rightarrow> bytes \<Rightarrow> nat \<Rightarrow> address_hash" where
  "new_iface_address sha seed counter =
     address_hash_new_from_hash (hash_new_from_slice sha (rev (be_encode 8 counter) @ drop 8 seed))"

definition new_channel_named ::
  "sha \<Rightarrow> bytes \<Rightarrow> nanos \<Rightarrow> string \<Rightarrow> string \<Rightarrow> iface_manager \<Rightarrow> address_hash \<times> iface_manager" where
  "new_channel_named sha seed now name kind m =
     (let counter = im_counter m + 1;
          address = new_iface_address sha seed counter;
          iface = \<lparr>li_address = address, li_name = name, li_kind = kind, li_endpoint = [], li_parent = None,
                   li_stopped = False, li_stats = iface_counters_default, li_ifac = None\<rparr>
      in (address, m\<lparr>im_counter := counter, im_ifaces := im_ifaces m @ [iface],
            im_controls := hm_insert address (iface_control_new now) (im_controls m)\<rparr>))"

definition apply_type_ingress_policy :: "interface_type \<Rightarrow> address_hash \<Rightarrow> iface_manager \<Rightarrow> iface_manager" where
  "apply_type_ingress_policy T a m =
     (if \<not> it_should_ingress_limit T then snd (with_control a (set_announce_ingress_limit False) m) else m)"

text \<open>The part of a type name after the last \<open>::\<close>.\<close>

definition interface_kind_name :: "string \<Rightarrow> string" where
  "interface_kind_name full =
     (case filter (\<lambda>i. take 2 (drop i full) = ''::'') [0..<length full] of
        [] \<Rightarrow> full | is \<Rightarrow> drop (last is + 2) full)"

definition new_context ::
  "sha \<Rightarrow> bytes \<Rightarrow> nanos \<Rightarrow> interface_type \<Rightarrow> iface_manager \<Rightarrow> address_hash \<times> iface_manager" where
  "new_context sha seed now T m =
     (let kind = interface_kind_name (it_type_name T);
          (address, m) = new_channel_named sha seed now kind kind m;
          m = update_iface address (\<lambda>i. i\<lparr>li_endpoint := it_endpoint T\<rparr>) m
      in (address, apply_type_ingress_policy T address m))"

definition set_iface_name :: "address_hash \<Rightarrow> string \<Rightarrow> iface_manager \<Rightarrow> iface_manager" where
  "set_iface_name a name = update_iface a (\<lambda>i. i\<lparr>li_name := name\<rparr>)"

definition open_named ::
  "sha \<Rightarrow> bytes \<Rightarrow> nanos \<Rightarrow> string \<Rightarrow> interface_type \<Rightarrow> iface_manager \<Rightarrow> address_hash \<times> iface_manager" where
  "open_named sha seed now name T m =
     (let (address, m) = new_context sha seed now T m in (address, set_iface_name address name m))"

definition open_with_ifac ::
  "sha \<Rightarrow> bytes \<Rightarrow> nanos \<Rightarrow> interface_type \<Rightarrow> ifac_key \<Rightarrow> iface_manager \<Rightarrow> address_hash \<times> iface_manager" where
  "open_with_ifac sha seed now T key m =
     (let kind = interface_kind_name (it_type_name T);
          (address, m) = new_channel_named sha seed now kind kind m;
          m = update_iface address (\<lambda>i. i\<lparr>li_ifac := Some key\<rparr>) m;
          m = apply_type_ingress_policy T address m
      in (address, update_iface address
            (\<lambda>i. i\<lparr>li_name := if it_endpoint T \<noteq> [] then it_endpoint T else li_name i,
                   li_endpoint := it_endpoint T\<rparr>) m))"

definition set_iface_bitrate :: "address_hash \<Rightarrow> nat \<Rightarrow> iface_manager \<Rightarrow> bool \<times> iface_manager" where
  "set_iface_bitrate a bitrate = with_control a (\<lambda>c. c\<lparr>ctl_bitrate := bitrate\<rparr>)"

definition set_iface_mode :: "address_hash \<Rightarrow> interface_mode \<Rightarrow> iface_manager \<Rightarrow> bool \<times> iface_manager" where
  "set_iface_mode a mode = with_control a (\<lambda>c. c\<lparr>ctl_mode := mode\<rparr>)"

definition set_iface_local_client :: "address_hash \<Rightarrow> iface_manager \<Rightarrow> bool \<times> iface_manager" where
  "set_iface_local_client a = with_control a (\<lambda>c. c\<lparr>ctl_is_local_client := True\<rparr>)"

definition set_iface_tunnel :: "address_hash \<Rightarrow> address_hash option \<Rightarrow> iface_manager \<Rightarrow> bool \<times> iface_manager" where
  "set_iface_tunnel a tunnel_id = with_control a (\<lambda>c. c\<lparr>ctl_tunnel_id := tunnel_id\<rparr>)"

definition set_iface_wants_tunnel :: "address_hash \<Rightarrow> bool \<Rightarrow> iface_manager \<Rightarrow> bool \<times> iface_manager" where
  "set_iface_wants_tunnel a wants = with_control a (\<lambda>c. c\<lparr>ctl_wants_tunnel := wants\<rparr>)"

definition set_iface_ifac ::
  "crypto \<Rightarrow> address_hash \<Rightarrow> bytes option \<Rightarrow> bytes option \<Rightarrow> nat \<Rightarrow> iface_manager
     \<Rightarrow> (bool result \<times> iface_manager) option" where
  "set_iface_ifac C a netname netkey n m = (case ifac_derive C netname netkey n of
       None \<Rightarrow> None
     | Some (Inl e) \<Rightarrow> Some (Inl e, m)
     | Some (Inr key) \<Rightarrow>
         Some (Inr (find_iface a m \<noteq> None), update_iface a (\<lambda>i. i\<lparr>li_ifac := Some key\<rparr>) m))"

text \<open>Starting a worker publishes the bitrate of its type; the worker itself is not modelled.\<close>

definition iface_launch :: "interface_type \<Rightarrow> address_hash \<Rightarrow> iface_manager \<Rightarrow> iface_manager" where
  "iface_launch T a m = (case it_constructor_bitrate T of
       Some rate \<Rightarrow> snd (set_iface_bitrate a rate m) | None \<Rightarrow> m)"

definition iface_spawn ::
  "sha \<Rightarrow> bytes \<Rightarrow> nanos \<Rightarrow> interface_type \<Rightarrow> iface_manager \<Rightarrow> address_hash \<times> iface_manager" where
  "iface_spawn sha seed now T m =
     (let (address, m) = new_context sha seed now T m in (address, iface_launch T address m))"

definition note_spawned :: "address_hash \<Rightarrow> address_hash \<Rightarrow> iface_manager \<Rightarrow> iface_manager" where
  "note_spawned parent child = update_iface child (\<lambda>i. i\<lparr>li_parent := Some parent\<rparr>)"

definition copy_spawned_control :: "address_hash \<Rightarrow> address_hash \<Rightarrow> iface_manager \<Rightarrow> iface_manager" where
  "copy_spawned_control parent child m = (case hm_get (im_controls m) parent of
       None \<Rightarrow> m
     | Some source \<Rightarrow> snd (with_control child
         (\<lambda>dest. set_params (ctl_params source) (dest
            \<lparr>ctl_mode := ctl_mode source, ctl_gravity := ctl_gravity source,
             ctl_bitrate := ctl_bitrate source, ctl_announce_cap := ctl_announce_cap source,
             ctl_announce_rate_target := ctl_announce_rate_target source,
             ctl_announce_rate_grace := ctl_announce_rate_grace source,
             ctl_announce_rate_penalty := ctl_announce_rate_penalty source,
             ctl_ingress_control := ctl_ingress_control source,
             ctl_egress_control := ctl_egress_control source,
             ctl_recursive_prs := ctl_recursive_prs source,
             ctl_announces_from_internal := ctl_announces_from_internal source,
             ctl_announces_to_internal := ctl_announces_to_internal source\<rparr>)) m))"

section \<open>Questions about interfaces\<close>

definition spawned_parent_name :: "iface_manager \<Rightarrow> address_hash \<Rightarrow> string option" where
  "spawned_parent_name m a = (case find_iface a m of
       None \<Rightarrow> None
     | Some i \<Rightarrow> (case li_parent i of None \<Rightarrow> None | Some p \<Rightarrow> map_option li_name (find_iface p m)))"

definition local_server_clients :: "iface_manager \<Rightarrow> address_hash \<Rightarrow> nat option" where
  "local_server_clients m a = (case find_iface a m of
       None \<Rightarrow> None
     | Some i \<Rightarrow> if li_kind i \<noteq> ''LocalServer'' then None
         else Some (length (filter (\<lambda>i. li_parent i = Some a \<and> \<not> li_stopped i) (im_ifaces m))))"

definition control_flag :: "(iface_control \<Rightarrow> bool) \<Rightarrow> iface_manager \<Rightarrow> local_interface \<Rightarrow> bool" where
  "control_flag f m i = (case hm_get (im_controls m) (li_address i) of Some c \<Rightarrow> f c | None \<Rightarrow> False)"

definition interfaces_wanting_tunnel :: "iface_manager \<Rightarrow> address_hash list" where
  "interfaces_wanting_tunnel m =
     map li_address (filter (\<lambda>i. \<not> li_stopped i \<and> control_flag ctl_wants_tunnel m i) (im_ifaces m))"

definition iface_tunnel :: "iface_manager \<Rightarrow> address_hash \<Rightarrow> address_hash option" where
  "iface_tunnel m a = Option.bind (hm_get (im_controls m) a) ctl_tunnel_id"

definition local_client_iface_addresses :: "iface_manager \<Rightarrow> address_hash list" where
  "local_client_iface_addresses m =
     map li_address (filter (\<lambda>i. \<not> li_stopped i \<and> control_flag ctl_is_local_client m i) (im_ifaces m))"

definition iface_mode :: "iface_manager \<Rightarrow> address_hash \<Rightarrow> interface_mode" where
  "iface_mode m a = (case hm_get (im_controls m) a of Some c \<Rightarrow> ctl_mode c | None \<Rightarrow> Full)"

definition live_iface_addresses :: "iface_manager \<Rightarrow> (address_hash \<times> bool) list" where
  "live_iface_addresses m =
     map (\<lambda>i. (li_address i, ict_online (li_stats i))) (filter (\<lambda>i. \<not> li_stopped i) (im_ifaces m))"

definition iface_kind :: "iface_manager \<Rightarrow> address_hash \<Rightarrow> string option" where
  "iface_kind m a = map_option li_kind (find (\<lambda>i. li_address i = a \<and> \<not> li_stopped i) (im_ifaces m))"

definition lowest_interface_bitrate :: "iface_manager \<Rightarrow> nat option" where
  "lowest_interface_bitrate m =
     min_by_key id (List.map_filter (\<lambda>i. map_option ctl_bitrate (hm_get (im_controls m) (li_address i)))
        (filter (\<lambda>i. \<not> li_stopped i \<and> ict_online (li_stats i)) (im_ifaces m)))"

definition first_iface_address :: "iface_manager \<Rightarrow> address_hash option" where
  "first_iface_address m = (case im_ifaces m of
       [] \<Rightarrow> None | i # _ \<Rightarrow> if li_stopped i then None else Some (li_address i))"

definition WEAVE_HW_MTU :: nat where "WEAVE_HW_MTU = 1024"

definition mtu_tier :: "nat \<Rightarrow> nat option" where
  "mtu_tier bitrate =
     (if bitrate \<ge> 1000000000 then Some 524288
      else if bitrate \<ge> 750000000 then Some 262144
      else if bitrate \<ge> 400000000 then Some 131072
      else if bitrate \<ge> 200000000 then Some 65536
      else if bitrate \<ge> 100000000 then Some 32768
      else if bitrate \<ge> 10000000 then Some 16384
      else if bitrate \<ge> 5000000 then Some 8192
      else if bitrate \<ge> 2000000 then Some 4096
      else if bitrate \<ge> 1000000 then Some 2048
      else if bitrate \<ge> 62500 then Some 1024
      else None)"

definition iface_hw_mtu :: "iface_manager \<Rightarrow> address_hash \<Rightarrow> nat option" where
  "iface_hw_mtu m a = (case iface_kind m a of
       None \<Rightarrow> None
     | Some kind \<Rightarrow>
         if kind = ''AutoInterface'' \<or> kind = ''AutoPeer'' then Some 1196
         else if kind = ''WeaveInterface'' \<or> kind = ''WeaveInterfacePeer'' then Some WEAVE_HW_MTU
         else case (if kind \<in> set [''LocalServer'', ''LocalClient''] then Some 524288
                    else if kind \<in> set [''TcpClient'', ''TcpServer''] then Some 262144
                    else if kind \<in> set [''BackboneClient'', ''BackboneServer''] then Some 1048576
                    else None) of
                None \<Rightarrow> None
              | Some limit \<Rightarrow> (case hm_get (im_controls m) a of
                    None \<Rightarrow> None
                  | Some c \<Rightarrow> map_option (min limit) (mtu_tier (ctl_bitrate c))))"

definition first_iface_hw_mtu :: "iface_manager \<Rightarrow> nat option" where
  "first_iface_hw_mtu m = (case im_ifaces m of
       [] \<Rightarrow> None | i # _ \<Rightarrow> if li_stopped i then None else iface_hw_mtu m (li_address i))"

section \<open>Stable identities\<close>

text \<open>The bytes of a Rust string with ASCII characters.\<close>

definition string_bytes :: "string \<Rightarrow> bytes" where
  "string_bytes s = map (\<lambda>c. word_of_nat (of_char c)) s"

definition stable_interface_id :: "sha \<Rightarrow> string \<Rightarrow> string \<Rightarrow> string \<Rightarrow> address_hash" where
  "stable_interface_id sha kind name endpoint =
     address_hash_new_from_slice sha (string_bytes kind @ [0] @ string_bytes name
       @ (if endpoint \<noteq> [] then 0 # string_bytes endpoint else []))"

definition iface_stable_id :: "sha \<Rightarrow> local_interface \<Rightarrow> address_hash" where
  "iface_stable_id sha i = stable_interface_id sha (li_kind i) (li_name i) (li_endpoint i)"

definition stable_iface_map :: "sha \<Rightarrow> iface_manager \<Rightarrow> (address_hash, address_hash) hash_map" where
  "stable_iface_map sha m =
     fold (\<lambda>i acc. if li_stopped i then acc else hm_insert (li_address i) (iface_stable_id sha i) acc)
       (im_ifaces m) []"

definition count_stable ::
  "sha \<Rightarrow> local_interface \<Rightarrow> (address_hash, nat) hash_map \<times> (address_hash, address_hash) hash_map
     \<Rightarrow> (address_hash, nat) hash_map \<times> (address_hash, address_hash) hash_map" where
  "count_stable sha i = (\<lambda>(counts, firsts).
     if li_stopped i then (counts, firsts)
     else
       let sid = iface_stable_id sha i
       in (hm_insert sid ((case hm_get counts sid of Some n \<Rightarrow> n | None \<Rightarrow> 0) + 1) counts,
           case hm_get firsts sid of Some _ \<Rightarrow> firsts | None \<Rightarrow> hm_insert sid (li_address i) firsts))"

definition classify_stable_ids ::
  "sha \<Rightarrow> iface_manager \<Rightarrow> (address_hash, address_hash) hash_map \<times> address_hash list" where
  "classify_stable_ids sha m =
     (let (counts, firsts) = fold (count_stable sha) (im_ifaces m) ([], [])
      in (List.map_filter (\<lambda>(sid, n). if n = 1 then map_option (Pair sid) (hm_get firsts sid) else None) counts,
          map fst (filter (\<lambda>(_, n). n \<noteq> 1) counts)))"

section \<open>Accounting\<close>

definition im_received_announce :: "nanos \<Rightarrow> address_hash \<Rightarrow> nat \<Rightarrow> iface_manager \<Rightarrow> iface_manager" where
  "im_received_announce now a n m = with_stats a (count_announce_rx n) (snd (with_control a (received_announce now) m))"

definition im_sent_announce :: "nanos \<Rightarrow> address_hash \<Rightarrow> nat \<Rightarrow> iface_manager \<Rightarrow> iface_manager" where
  "im_sent_announce now a n m = with_stats a (count_announce_tx n) (snd (with_control a (sent_announce now) m))"

definition im_received_path_request :: "nanos \<Rightarrow> address_hash \<Rightarrow> iface_manager \<Rightarrow> iface_manager" where
  "im_received_path_request now a m = with_stats a count_path_request_rx (snd (with_control a (received_path_request now) m))"

definition im_sent_path_request :: "nanos \<Rightarrow> address_hash \<Rightarrow> iface_manager \<Rightarrow> iface_manager" where
  "im_sent_path_request now a m = with_stats a count_path_request_tx (snd (with_control a (sent_path_request now) m))"

definition im_count_packet_filter_hit :: "address_hash \<Rightarrow> iface_manager \<Rightarrow> iface_manager" where
  "im_count_packet_filter_hit a = with_stats a (\<lambda>c. c\<lparr>ict_packet_filter_hits := ict_packet_filter_hits c + 1\<rparr>)"

definition im_count_protocol_violation :: "address_hash \<Rightarrow> iface_manager \<Rightarrow> iface_manager" where
  "im_count_protocol_violation a = with_stats a (\<lambda>c. c\<lparr>ict_protocol_violations := ict_protocol_violations c + 1\<rparr>)"

definition im_count_ifac_violation :: "address_hash \<Rightarrow> iface_manager \<Rightarrow> iface_manager" where
  "im_count_ifac_violation a = with_stats a (\<lambda>c. c\<lparr>ict_ifac_violations := ict_ifac_violations c + 1\<rparr>)"


lemma release_held_announce_shrinks:
  assumes "release_held_announce now s = (Some p, s')"
  shows "length (held_announces s') < length (held_announces s)"
proof -
  have "length (AList.delete k m) < length m" if "map_of m k = Some v" for k m and v :: packet
    using that by (auto intro: length_delete_present)
  then show ?thesis
    using assms by (auto simp: release_held_announce_def incoming_announce_frequency_def Let_def split_beta
        split: if_splits option.splits)
qed

text \<open>\<^verbatim>\<open>while let Some(packet) = control.release_held_announce(now)\<close>.\<close>

function release_all :: "nanos \<Rightarrow> iface_control \<Rightarrow> packet list \<times> iface_control" where
  "release_all now s = (case release_held_announce now s of
       (None, s') \<Rightarrow> ([], s')
     | (Some p, s') \<Rightarrow> let (ps, s'') = release_all now s' in (p # ps, s''))"
  by pat_completeness auto
termination
  by (relation "measure (\<lambda>(_, s). length (held_announces s))")
    (auto intro: release_held_announce_shrinks [OF sym])

declare release_all.simps [simp del]

definition release_held_announces :: "nanos \<Rightarrow> iface_manager \<Rightarrow> (address_hash \<times> packet) list \<times> iface_manager" where
  "release_held_announces now m =
     (concat (map (\<lambda>(a, c). map (Pair a) (fst (release_all now c))) (im_controls m)),
      m\<lparr>im_controls := map (\<lambda>(a, c). (a, snd (release_all now c))) (im_controls m)\<rparr>)"

section \<open>Sending\<close>

type_synonym iface_output = "address_hash \<times> tx_message"

definition take_queued :: "nanos \<Rightarrow> iface_control \<Rightarrow> packet option \<times> iface_control" where
  "take_queued now c = (case take_queued_announce now c of
       (Some p, c') \<Rightarrow> (Some p, sent_announce now c') | (None, c') \<Rightarrow> (None, c'))"

definition transmit_queued ::
  "address_hash \<times> packet \<Rightarrow> iface_output list \<times> iface_manager \<Rightarrow> iface_output list \<times> iface_manager" where
  "transmit_queued = (\<lambda>(a, p) (outs, m).
     case find (\<lambda>i. li_address i = a \<and> \<not> li_stopped i) (im_ifaces m) of
       None \<Rightarrow> (outs, m)
     | Some i \<Rightarrow> (outs @ [(a, \<lparr>tm_tx_type = DirectTx a, tm_packet = p\<rparr>)],
         m\<lparr>im_ifaces := update_first (\<lambda>i. li_address i = a \<and> \<not> li_stopped i)
             (\<lambda>i. i\<lparr>li_stats := count_announce_tx (packet_wire_len p) (li_stats i)\<rparr>) (im_ifaces m)\<rparr>))"

definition process_announce_queues :: "nanos \<Rightarrow> iface_manager \<Rightarrow> iface_output list \<times> iface_manager" where
  "process_announce_queues now m =
     (let drained = List.map_filter (\<lambda>(a, c). map_option (Pair a) (fst (take_queued now c))) (im_controls m);
          m = m\<lparr>im_controls := map (\<lambda>(a, c). (a, snd (take_queued now c))) (im_controls m)\<rparr>
      in fold transmit_queued drained ([], m))"

definition announce_forwarding_allowed :: "iface_manager \<Rightarrow> address_hash \<Rightarrow> address_hash option \<Rightarrow> bool" where
  "announce_forwarding_allowed m to_iface from_iface = (case iface_mode m to_iface of
       Internal \<Rightarrow> (case from_iface of
           None \<Rightarrow> True
         | Some a \<Rightarrow> iface_mode m a = Boundary
             \<or> (case hm_get (im_controls m) a of Some c \<Rightarrow> ctl_announces_to_internal c = Some True | None \<Rightarrow> False))
     | Roaming \<Rightarrow> (case from_iface of
           None \<Rightarrow> True
         | Some a \<Rightarrow> iface_mode m a \<noteq> Roaming \<and> iface_mode m a \<noteq> Boundary)
     | Boundary \<Rightarrow> (case from_iface of None \<Rightarrow> True | Some a \<Rightarrow> iface_mode m a \<noteq> Roaming)
     | _ \<Rightarrow> True)"

definition is_announce :: "tx_message \<Rightarrow> bool" where
  "is_announce msg \<longleftrightarrow> hd_packet_type (pk_header (tm_packet msg)) = Announce"

text \<open>An announce of somebody else, which the policy between modes and the airtime budget apply to.\<close>

definition is_forwarded :: "tx_message \<Rightarrow> bool" where
  "is_forwarded msg \<longleftrightarrow> is_announce msg \<and> hd_hops (pk_header (tm_packet msg)) > 0"

definition should_send :: "iface_manager \<Rightarrow> tx_message \<Rightarrow> local_interface \<Rightarrow> bool" where
  "should_send m msg i = (case tm_tx_type msg of
       BroadcastTx origin \<Rightarrow>
         origin \<noteq> Some (li_address i)
         \<and> (is_forwarded msg \<longrightarrow> announce_forwarding_allowed m (li_address i) origin)
     | DirectTx a \<Rightarrow> a = li_address i)"

text \<open>The announce either takes airtime now or is queued.\<close>

definition budget_announce :: "nanos \<Rightarrow> packet \<Rightarrow> iface_control \<Rightarrow> bool \<times> iface_control" where
  "budget_announce now p c = (case try_transmit_announce (packet_wire_len p) now c of
       (True, c') \<Rightarrow> (True, sent_announce now c')
     | (False, c') \<Rightarrow> (False, queue_announce p now c'))"

definition airtime_allows :: "nanos \<Rightarrow> tx_message \<Rightarrow> iface_manager \<Rightarrow> address_hash \<Rightarrow> bool \<times> iface_manager" where
  "airtime_allows now msg m a =
     (if is_forwarded msg
      then (case hm_get (im_controls m) a of
              None \<Rightarrow> (True, m)
            | Some c \<Rightarrow> let (allowed, c') = budget_announce now (tm_packet msg) c
                       in (allowed, m\<lparr>im_controls := hm_modify a (\<lambda>_. c') (im_controls m)\<rparr>))
      else (True, m))"

definition outbound_packet ::
  "bool \<Rightarrow> u8 \<Rightarrow> address_hash option \<Rightarrow> bool \<Rightarrow> local_interface \<Rightarrow> packet \<Rightarrow> packet" where
  "outbound_packet rewrite_hops hops_delta transport_id local_client i p =
     (let h = pk_header p in
      if rewrite_hops \<and> hd_hops h = 0 \<and> hd_destination_type h \<noteq> Plain \<and> hd_destination_type h \<noteq> Group
         \<and> \<not> local_client \<and> li_kind i \<noteq> ''LocalServer''
      then
        let upgrade = (hd_packet_type h = Announce \<and> hd_header_type h = Type1);
            p = p\<lparr>pk_header := h\<lparr>hd_hops := hops_delta\<rparr>\<rparr>
        in case (if upgrade then transport_id else None) of
             Some t \<Rightarrow> p\<lparr>pk_header := (pk_header p)\<lparr>hd_header_type := Type2,
                           hd_propagation_type := Transport\<rparr>, pk_transport := Some t\<rparr>
           | None \<Rightarrow> p
      else p)"

definition rewrites_hops :: "iface_manager \<Rightarrow> bool" where
  "rewrites_hops m \<longleftrightarrow> im_local_hops_delta m \<noteq> 0 \<and> \<not> connected_to_shared_instance m"

text \<open>One turn of the loop over the interfaces.\<close>

definition send_one ::
  "nanos \<Rightarrow> tx_message \<Rightarrow> bool \<Rightarrow> address_hash option \<Rightarrow> local_interface
     \<Rightarrow> iface_output list \<times> iface_manager \<Rightarrow> iface_output list \<times> iface_manager" where
  "send_one now msg rewrite_hops transport_id i = (\<lambda>(outs, m).
     if should_send m msg i \<and> \<not> li_stopped i
     then
       let (allowed, m) = airtime_allows now msg m (li_address i)
       in if \<not> allowed then (outs, m)
          else
            let m = (if is_announce msg
                     then with_stats (li_address i) (count_announce_tx (packet_wire_len (tm_packet msg))) m else m);
                p = outbound_packet rewrite_hops (im_local_hops_delta m) transport_id
                      (is_local_client_iface m (li_address i)) i (tm_packet msg)
            in (outs @ [(li_address i, msg\<lparr>tm_packet := p\<rparr>)], m)
     else (outs, m))"

definition im_send :: "nanos \<Rightarrow> tx_message \<Rightarrow> iface_manager \<Rightarrow> iface_output list \<times> iface_manager" where
  "im_send now msg m =
     fold (send_one now msg (rewrites_hops m) (if rewrites_hops m then im_transport_identity m else None))
       (im_ifaces m) ([], m)"

section \<open>Stopping\<close>

definition im_cleanup :: "iface_manager \<Rightarrow> iface_manager" where
  "im_cleanup m = m\<lparr>im_ifaces := filter (\<lambda>i. \<not> li_stopped i) (im_ifaces m)\<rparr>"

primrec remove_first :: "('a \<Rightarrow> bool) \<Rightarrow> 'a list \<Rightarrow> 'a list" where
  "remove_first P [] = []"
| "remove_first P (x # xs) = (if P x then xs else x # remove_first P xs)"

definition remove_iface :: "address_hash \<Rightarrow> iface_manager \<Rightarrow> bool \<times> iface_manager" where
  "remove_iface a m =
     (if find_iface a m = None then (False, m)
      else (True, m\<lparr>im_ifaces := remove_first (\<lambda>i. li_address i = a) (im_ifaces m),
                    im_controls := hm_remove a (im_controls m)\<rparr>))"

definition iface_children :: "address_hash \<Rightarrow> iface_manager \<Rightarrow> address_hash list" where
  "iface_children a m = map li_address (filter (\<lambda>i. li_parent i = Some a) (im_ifaces m))"

text \<open>
  The call stops the children recursively before the interface itself, without marking the interface
  first, so it does not end if an interface is among its own descendants. The first argument bounds
  the depth of the recursion, and \<open>None\<close> is a deeper one.
\<close>

fun stop_iface :: "nat \<Rightarrow> address_hash \<Rightarrow> iface_manager \<Rightarrow> (bool \<times> iface_manager) option" where
  "stop_iface 0 a m = None"
| "stop_iface (Suc n) a m =
     map_option (remove_iface a)
       (fold (\<lambda>c r. Option.bind r (\<lambda>m. map_option snd (stop_iface n c m))) (iface_children a m) (Some m))"

section \<open>What reaches the interfaces\<close>

text \<open>The part of a control state that sending reads and never changes.\<close>

definition ctl_policy :: "iface_control \<Rightarrow> interface_mode \<times> bool option \<times> bool" where
  "ctl_policy c = (ctl_mode c, ctl_announces_to_internal c, ctl_is_local_client c)"

definition same_policy :: "iface_manager \<Rightarrow> iface_manager \<Rightarrow> bool" where
  "same_policy m m' \<longleftrightarrow> im_local_hops_delta m' = im_local_hops_delta m
     \<and> (\<forall>a. map_option ctl_policy (hm_get (im_controls m') a) = map_option ctl_policy (hm_get (im_controls m) a))"

lemma ctl_policy_ops:
  "ctl_policy (queue_announce p now c) = ctl_policy c"
  "ctl_policy (sent_announce now c) = ctl_policy c"
  "ctl_policy (snd (try_transmit_announce n now c)) = ctl_policy c"
  by (simp_all add: queue_announce_def sent_announce_def try_transmit_announce_def ctl_policy_def Let_def)

lemma ctl_policy_budget: "ctl_policy (snd (budget_announce now p c)) = ctl_policy c"
  using ctl_policy_ops(3) [of "packet_wire_len p" now c]
  by (auto simp: budget_announce_def ctl_policy_ops(1,2) split: prod.split bool.split)

lemma same_policyD:
  assumes "same_policy m m'"
  shows "iface_mode m' a = iface_mode m a" "is_local_client_iface m' a = is_local_client_iface m a"
    "announce_forwarding_allowed m' a origin = announce_forwarding_allowed m a origin"
    "should_send m' msg i = should_send m msg i"
proof -
  have v: "map_option ctl_policy (hm_get (im_controls m') a) = map_option ctl_policy (hm_get (im_controls m) a)" for a
    using assms by (simp add: same_policy_def)
  have "iface_mode m' a = iface_mode m a" for a
    using v [of a] by (auto simp: iface_mode_def ctl_policy_def split: option.splits)
  moreover have "(case hm_get (im_controls m') a of Some c \<Rightarrow> ctl_announces_to_internal c = Some True | None \<Rightarrow> False)
      = (case hm_get (im_controls m) a of Some c \<Rightarrow> ctl_announces_to_internal c = Some True | None \<Rightarrow> False)" for a
    using v [of a] by (auto simp: ctl_policy_def split: option.splits)
  ultimately show "iface_mode m' a = iface_mode m a"
    and f: "announce_forwarding_allowed m' a origin = announce_forwarding_allowed m a origin" for a origin
    unfolding announce_forwarding_allowed_def by (cases origin; simp split: interface_mode.split)+
  show "is_local_client_iface m' a = is_local_client_iface m a"
    using v [of a] by (auto simp: is_local_client_iface_def ctl_policy_def split: option.splits)
  show "should_send m' msg i = should_send m msg i"
    by (simp add: should_send_def f split: tx_message_type.split)
qed

lemma with_stats_simps [simp]:
  "im_controls (with_stats a f m) = im_controls m" "im_local_hops_delta (with_stats a f m) = im_local_hops_delta m"
  by (simp_all add: with_stats_def update_iface_def)

text \<open>What one interface gets, and its control state afterwards.\<close>

definition send_result ::
  "nanos \<Rightarrow> tx_message \<Rightarrow> bool \<Rightarrow> address_hash option \<Rightarrow> iface_manager \<Rightarrow> local_interface \<Rightarrow> iface_output list" where
  "send_result now msg rewrite_hops transport_id m i =
     (if should_send m msg i \<and> \<not> li_stopped i \<and> fst (airtime_allows now msg m (li_address i))
      then [(li_address i, msg\<lparr>tm_packet := outbound_packet rewrite_hops (im_local_hops_delta m) transport_id
               (is_local_client_iface m (li_address i)) i (tm_packet msg)\<rparr>)]
      else [])"

lemma airtime_allows_state:
  fixes now msg m a
  defines "m' \<equiv> snd (airtime_allows now msg m a)"
  shows "same_policy m m'"
    and "hm_get (im_controls m') b = (if b = a \<and> is_forwarded msg
      then map_option (\<lambda>c. snd (budget_announce now (tm_packet msg) c)) (hm_get (im_controls m) a)
      else hm_get (im_controls m) b)"
    and "im_ifaces m' = im_ifaces m" and "im_local_hops_delta m' = im_local_hops_delta m"
proof -
  show c: "hm_get (im_controls m') b = (if b = a \<and> is_forwarded msg
      then map_option (\<lambda>c. snd (budget_announce now (tm_packet msg) c)) (hm_get (im_controls m) a)
      else hm_get (im_controls m) b)" for b
    by (auto simp: m'_def airtime_allows_def map_of_hm_modify split_beta Let_def split: option.split)
  show d: "im_ifaces m' = im_ifaces m" "im_local_hops_delta m' = im_local_hops_delta m"
    by (simp_all add: m'_def airtime_allows_def split_beta Let_def split: option.split)
  show "same_policy m m'"
    unfolding same_policy_def
    by (simp add: c d option.map_comp comp_def ctl_policy_budget)
qed

lemma airtime_allows_cong:
  "hm_get (im_controls m') a = hm_get (im_controls m) a \<Longrightarrow>
     fst (airtime_allows now msg m' a) = fst (airtime_allows now msg m a)"
  by (simp add: airtime_allows_def split_beta Let_def split: option.split)

lemma send_one_eq:
  fixes now msg r t i outs m
  defines "m' \<equiv> snd (send_one now msg r t i (outs, m))"
  shows "fst (send_one now msg r t i (outs, m)) = outs @ send_result now msg r t m i"
    and "same_policy m m'"
    and "hm_get (im_controls m') b = (if b = li_address i \<and> is_forwarded msg \<and> should_send m msg i \<and> \<not> li_stopped i
      then map_option (\<lambda>c. snd (budget_announce now (tm_packet msg) c)) (hm_get (im_controls m) b)
      else hm_get (im_controls m) b)"
proof -
  note A = airtime_allows_state [where m = m and now = now and msg = msg and a = "li_address i"]
  note P = same_policyD [OF A(1)]
  have l: "is_local_client_iface (with_stats a f m1) b = is_local_client_iface m1 b" for a f m1 b
    by (simp add: is_local_client_iface_def)
  show "fst (send_one now msg r t i (outs, m)) = outs @ send_result now msg r t m i"
    by (cases "should_send m msg i \<and> \<not> li_stopped i")
      (simp_all add: send_one_def send_result_def split_beta Let_def A(4) P(2) l)
  have c: "im_controls m' = im_controls (if should_send m msg i \<and> \<not> li_stopped i
      then snd (airtime_allows now msg m (li_address i)) else m)
    \<and> im_local_hops_delta m' = im_local_hops_delta m"
    by (simp add: m'_def send_one_def split_beta Let_def A(4))
  then show "hm_get (im_controls m') b = (if b = li_address i \<and> is_forwarded msg \<and> should_send m msg i \<and> \<not> li_stopped i
      then map_option (\<lambda>c. snd (budget_announce now (tm_packet msg) c)) (hm_get (im_controls m) b)
      else hm_get (im_controls m) b)" for b
    by (auto simp: A(2))
  from c show "same_policy m m'"
    using A(1) by (auto simp: same_policy_def)
qed

lemma same_policy_refl: "same_policy m m"
  by (simp add: same_policy_def)

lemma same_policy_trans: "same_policy m m' \<Longrightarrow> same_policy m' m'' \<Longrightarrow> same_policy m m''"
  by (simp add: same_policy_def)

lemma send_result_cong:
  assumes "same_policy m m'" and "hm_get (im_controls m') (li_address i) = hm_get (im_controls m) (li_address i)"
  shows "send_result now msg r t m' i = send_result now msg r t m i"
  using same_policyD [OF assms(1)] airtime_allows_cong [OF assms(2)] assms(1)
  by (simp add: send_result_def same_policy_def)

lemma send_fold:
  assumes "distinct (map li_address is)"
  shows "fst (fold (send_one now msg r t) is (outs, m)) = outs @ concat (map (send_result now msg r t m) is)
    \<and> (\<forall>b. hm_get (im_controls (snd (fold (send_one now msg r t) is (outs, m)))) b =
        (if is_forwarded msg \<and> (\<exists>i\<in>set is. li_address i = b \<and> should_send m msg i \<and> \<not> li_stopped i)
         then map_option (\<lambda>c. snd (budget_announce now (tm_packet msg) c)) (hm_get (im_controls m) b)
         else hm_get (im_controls m) b))"
  using assms
proof (induction "is" arbitrary: outs m)
  case (Cons i "is")
  obtain outs' m' where s: "send_one now msg r t i (outs, m) = (outs', m')"
    by fastforce
  note E = send_one_eq [where now = now and msg = msg and r = r and t = t and i = i and outs = outs and m = m,
      unfolded s fst_conv snd_conv]
  have fresh: "hm_get (im_controls m') (li_address j) = hm_get (im_controls m) (li_address j)" if "j \<in> set is" for j
  proof -
    have "li_address j \<noteq> li_address i"
      using Cons.prems that by (metis distinct.simps(2) image_eqI list.set_map list.simps(9))
    then show ?thesis
      by (simp add: E(3))
  qed
  have eq: "map (send_result now msg r t m') is = map (send_result now msg r t m) is"
    using send_result_cong [OF E(2) fresh] by simp
  have ss: "should_send m' msg j = should_send m msg j" for j
    using same_policyD(4) [OF E(2)] .
  have ni: "li_address j \<noteq> li_address i" if "j \<in> set is" for j
    using Cons.prems that by (metis distinct.simps(2) image_eqI list.set_map list.simps(9))
  have d: "distinct (map li_address is)"
    using Cons.prems by simp
  note IH = Cons.IH [OF d, of outs' m', unfolded eq ss]
  have "fst (fold (send_one now msg r t) (i # is) (outs, m)) = outs @ concat (map (send_result now msg r t m) (i # is))"
    using IH s E(1) by simp
  moreover have "hm_get (im_controls (snd (fold (send_one now msg r t) (i # is) (outs, m)))) b =
      (if is_forwarded msg \<and> (\<exists>i\<in>set (i # is). li_address i = b \<and> should_send m msg i \<and> \<not> li_stopped i)
       then map_option (\<lambda>c. snd (budget_announce now (tm_packet msg) c)) (hm_get (im_controls m) b)
       else hm_get (im_controls m) b)" for b
  proof (cases "b = li_address i")
    case True
    then have "\<not> (\<exists>j\<in>set is. li_address j = b \<and> should_send m msg j \<and> \<not> li_stopped j)"
      using ni by blast
    then show ?thesis
      using conjunct2 [OF IH] s True by (auto simp: E(3))
  next
    case False
    then show ?thesis
      using conjunct2 [OF IH] s by (auto simp: E(3))
  qed
  ultimately show ?case
    by simp
qed simp

lemma im_send_eq:
  assumes "distinct (map li_address (im_ifaces m))"
  shows "fst (im_send now msg m) = concat (map (send_result now msg (rewrites_hops m)
      (if rewrites_hops m then im_transport_identity m else None) m) (im_ifaces m))"
    and "hm_get (im_controls (snd (im_send now msg m))) b =
      (if is_forwarded msg \<and> (\<exists>i\<in>set (im_ifaces m). li_address i = b \<and> should_send m msg i \<and> \<not> li_stopped i)
       then map_option (\<lambda>c. snd (budget_announce now (tm_packet msg) c)) (hm_get (im_controls m) b)
       else hm_get (im_controls m) b)"
  using send_fold [OF assms, of now msg _ _ "[]" m] by (simp_all add: im_send_def)

lemma outbound_packet_keeps:
  "packet_hash sha (outbound_packet r d t l i p) = packet_hash sha p"
  "pk_data (outbound_packet r d t l i p) = pk_data p"
  "hd_hops (pk_header p) > 0 \<Longrightarrow> outbound_packet r d t l i p = p"
proof -
  show "packet_hash sha (outbound_packet r d t l i p) = packet_hash sha p"
    by (rule packet_hash_cong) (auto simp: outbound_packet_def Let_def split: option.split)
  show "pk_data (outbound_packet r d t l i p) = pk_data p"
    by (simp add: outbound_packet_def Let_def split: option.split)
  show "hd_hops (pk_header p) > 0 \<Longrightarrow> outbound_packet r d t l i p = p"
    by (auto simp: outbound_packet_def Let_def word_gt_0)
qed

lemma send_result_mem:
  assumes "distinct (map li_address (im_ifaces m))" "i \<in> set (im_ifaces m)"
  shows "(li_address i, out) \<in> set (fst (im_send now msg m)) \<longleftrightarrow>
    (li_address i, out) \<in> set (send_result now msg (rewrites_hops m)
      (if rewrites_hops m then im_transport_identity m else None) m i)"
proof -
  have "j = i" if "j \<in> set (im_ifaces m)" "li_address j = li_address i" for j
    using assms that by (auto dest: inj_onD simp: distinct_map)
  then show ?thesis
    using assms(2) by (subst im_send_eq(1) [OF assms(1)]) (auto simp: send_result_def split: if_splits)
qed

lemma queue_announce_keeps:
  assumes "hd_packet_type (pk_header p) = Announce"
  shows "list_ex (\<lambda>e. pk_destination (qa_packet e) = pk_destination p) (announce_queue (queue_announce p now c))
    \<or> length (announce_queue (queue_announce p now c)) \<ge> MAX_QUEUED_ANNOUNCES"
proof -
  have "list_ex (\<lambda>e. pk_destination (qa_packet e) = d) (update_first (\<lambda>e. pk_destination (qa_packet e) = d)
      (\<lambda>e. if b e then \<lparr>qa_packet = p, qa_queued_at = n, qa_emitted = k\<rparr> else e) q)"
    if "list_ex (\<lambda>e. pk_destination (qa_packet e) = d) q" "d = pk_destination p" for d b n k q
    using that by (induction q) auto
  then show ?thesis
    using assms by (auto simp: queue_announce_def Let_def)
qed


text \<open>Two running interfaces, the second one roaming.\<close>

definition iface_example2 :: "nat \<Rightarrow> local_interface" where
  "iface_example2 n = \<lparr>li_address = AddressHash (replicate 16 (word_of_nat n)), li_name = [], li_kind = ''UdpInterface'',
     li_endpoint = [], li_parent = (if n = 2 then Some (AddressHash (replicate 16 1)) else None),
     li_stopped = False, li_stats = iface_counters_default, li_ifac = None\<rparr>"

definition manager_example :: iface_manager where
  "manager_example = iface_manager_new\<lparr>im_ifaces := [iface_example2 1, iface_example2 2],
     im_controls := [(AddressHash (replicate 16 2), (iface_control_new 0)\<lparr>ctl_mode := Roaming\<rparr>)]\<rparr>"


section \<open>Stopping an interface\<close>

definition spawned :: "iface_manager \<Rightarrow> (address_hash \<times> address_hash) set" where
  "spawned m = {(p, c). \<exists>i\<in>set (im_ifaces m). li_address i = c \<and> li_parent i = Some p}"

text \<open>The manager without the interfaces with addresses in a set.\<close>

definition without :: "address_hash set \<Rightarrow> iface_manager \<Rightarrow> iface_manager" where
  "without D m = m\<lparr>im_ifaces := filter (\<lambda>i. li_address i \<notin> D) (im_ifaces m),
     im_controls := filter (\<lambda>(a, _). a \<notin> D \<inter> li_address ` set (im_ifaces m)) (im_controls m)\<rparr>"

lemma without_without: "without D (without E m) = without (D \<union> E) m"
  by (rule iface_manager.equality) (auto simp: without_def case_prod_beta intro!: filter_cong)

lemma without_empty [simp]: "without {} m = m"
  by (simp add: without_def case_prod_beta)

lemma spawned_without: "spawned (without D m) = {(p, c). (p, c) \<in> spawned m \<and> c \<notin> D}"
  by (auto simp: spawned_def without_def)

lemma descendants_without:
  assumes closed: "spawned m `` D \<subseteq> D" and "x \<notin> D"
  shows "(c, x) \<in> (spawned (without D m))\<^sup>* \<longleftrightarrow> (c, x) \<in> (spawned m)\<^sup>*"
proof
  show "(c, x) \<in> (spawned m)\<^sup>*" if "(c, x) \<in> (spawned (without D m))\<^sup>*"
    using that rtrancl_mono [of "spawned (without D m)" "spawned m"] by (auto simp: spawned_without)
  show "(c, x) \<in> (spawned (without D m))\<^sup>*" if "(c, x) \<in> (spawned m)\<^sup>*"
    using that assms(2)
  proof (induction rule: rtrancl_induct)
    case (step y z)
    then have "y \<notin> D"
      using closed by blast
    with step show ?case
      by (auto simp: spawned_without intro: rtrancl.rtrancl_into_rtrancl)
  qed simp
qed

lemma remove_first_filter:
  "distinct (map f xs) \<Longrightarrow> remove_first (\<lambda>x. f x = a) xs = filter (\<lambda>x. f x \<noteq> a) xs"
proof (induction xs)
  case (Cons x xs)
  have "filter (\<lambda>x. f x \<noteq> a) xs = xs" if "f x = a"
    unfolding filter_id_conv using Cons.prems that by (metis distinct.simps(2) image_eqI list.set_map list.simps(9))
  with Cons show ?case
    by simp
qed simp

lemma remove_iface_eq:
  assumes "distinct (map li_address (im_ifaces m))"
  shows "remove_iface a m = (a \<in> li_address ` set (im_ifaces m), without {a} m)"
proof (cases "a \<in> li_address ` set (im_ifaces m)")
  case True
  then have "find_iface a m \<noteq> None"
    by (auto simp: find_iface_def find_None_iff)
  moreover have "hm_remove a cs = filter (\<lambda>(b, _). b \<notin> {a} \<inter> li_address ` set (im_ifaces m)) cs"
    for cs :: "(address_hash, iface_control) hash_map"
    using True by (auto simp: AList.delete_eq intro!: filter_cong)
  ultimately show ?thesis
    using True remove_first_filter [OF assms, of a]
    by (simp only: remove_iface_def without_def if_False) simp
next
  case False
  then have "find_iface a m = None"
    by (auto simp: find_iface_def find_None_iff)
  moreover have "without {a} m = m"
    using False by (intro iface_manager.equality) (auto simp: without_def case_prod_beta filter_id_conv)
  ultimately show ?thesis
    using False by (simp add: remove_iface_def)
qed

lemma image_rtrancl_children: "(spawned m)\<^sup>* `` {a} = insert a (\<Union>c\<in>spawned m `` {a}. (spawned m)\<^sup>* `` {c})"
  by (auto elim: converse_rtranclE intro: converse_rtrancl_into_rtrancl)

lemma set_iface_children: "set (iface_children a m) = spawned m `` {a}"
  by (auto simp: iface_children_def spawned_def)

text \<open>
  Ranks of the addresses that grow from an interface to what it spawned bound the depth of the
  recursion.
\<close>

definition ranked :: "(address_hash \<Rightarrow> nat) \<Rightarrow> nat \<Rightarrow> iface_manager \<Rightarrow> bool" where
  "ranked r n m \<longleftrightarrow> (\<forall>(p, c)\<in>spawned m. r p < r c \<and> r c \<le> n)"

lemma ranked_without: "ranked r n m \<Longrightarrow> ranked r n (without D m)"
  by (auto simp: ranked_def spawned_without)

lemma distinct_without: "distinct (map li_address (im_ifaces m)) \<Longrightarrow> distinct (map li_address (im_ifaces (without D m)))"
  by (simp add: without_def distinct_map_filter)

lemma stop_children:
  assumes stop: "\<And>c m'. ranked r n m' \<Longrightarrow> distinct (map li_address (im_ifaces m')) \<Longrightarrow> c \<in> set cs \<Longrightarrow>
      \<exists>b. stop_iface k c m' = Some (b, without ((spawned m')\<^sup>* `` {c}) m')"
    and m: "ranked r n m" "distinct (map li_address (im_ifaces m))" and D: "spawned m `` D \<subseteq> D"
  shows "fold (\<lambda>c r. Option.bind r (\<lambda>m. map_option snd (stop_iface k c m))) cs (Some (without D m))
    = Some (without (D \<union> (spawned m)\<^sup>* `` set cs) m)"
  using stop D
proof (induction cs arbitrary: D)
  case (Cons c cs)
  let ?m = "without D m" and ?E = "D \<union> (spawned m)\<^sup>* `` {c}"
  obtain b where b: "stop_iface k c ?m = Some (b, without ((spawned ?m)\<^sup>* `` {c}) ?m)"
    using Cons.prems(1) [OF ranked_without [OF m(1)] distinct_without [OF m(2)], of c D] by auto
  have "without ((spawned ?m)\<^sup>* `` {c}) ?m = without ?E m"
    unfolding without_without
    by (rule arg_cong [where f = "\<lambda>D. without D m"]) (use descendants_without [OF Cons.prems(2)] in
        \<open>auto dest: rtrancl_mono [THEN subsetD, rotated] simp: spawned_without\<close>)
  moreover have "spawned m `` ?E \<subseteq> ?E"
    using Cons.prems(2) by (auto intro: rtrancl.rtrancl_into_rtrancl)
  then have "fold (\<lambda>c r. Option.bind r (\<lambda>m. map_option snd (stop_iface k c m))) cs (Some (without ?E m))
      = Some (without (?E \<union> (spawned m)\<^sup>* `` set cs) m)"
    by (intro Cons.IH) (use Cons.prems(1) in auto)
  moreover have "?E \<union> (spawned m)\<^sup>* `` set cs = D \<union> (spawned m)\<^sup>* `` set (c # cs)"
    by auto
  ultimately show ?case
    using b by simp
qed simp

lemma stop_iface_ranked:
  assumes "ranked r n m" "distinct (map li_address (im_ifaces m))" "r a \<le> n" "n < k + r a"
  shows "\<exists>b. stop_iface k a m = Some (b, without ((spawned m)\<^sup>* `` {a}) m)"
  using assms
proof (induction k arbitrary: a m)
  case (Suc k)
  let ?cs = "iface_children a m"
  have kids: "r c \<le> n \<and> n < k + r c" if "c \<in> set ?cs" for c
    using that Suc.prems by (force simp: ranked_def set_iface_children)
  have "fold (\<lambda>c r. Option.bind r (\<lambda>m. map_option snd (stop_iface k c m))) ?cs (Some (without {} m))
      = Some (without ({} \<union> (spawned m)\<^sup>* `` set ?cs) m)"
    by (rule stop_children [where r = r and n = n]) (use Suc kids in auto)
  moreover have "without {a} (without ((spawned m)\<^sup>* `` set ?cs) m) = without ((spawned m)\<^sup>* `` {a}) m"
    unfolding without_without
    by (rule arg_cong [where f = "\<lambda>D. without D m"])
      (subst image_rtrancl_children [of m a], auto simp: set_iface_children)
  ultimately show ?case
    by (simp add: remove_iface_eq [OF distinct_without [OF Suc.prems(2)]])
qed simp

lemma ranked_by_position:
  fixes m :: iface_manager
  defines "as \<equiv> map li_address (im_ifaces m)"
  defines "r \<equiv> \<lambda>a. if a \<in> set as then Suc (THE k. k < length as \<and> as ! k = a) else 0"
  assumes d: "distinct as"
    and early: "\<And>k p. k < length as \<Longrightarrow> li_parent (im_ifaces m ! k) = Some p \<Longrightarrow> p \<notin> set (drop k as)"
  shows "ranked r (length as) m" and "r a \<le> length as"
proof -
  have pos: "r (as ! k) = Suc k" if "k < length as" for k
  proof -
    have "(THE j. j < length as \<and> as ! j = as ! k) = k"
      using that d by (intro the_equality) (auto simp: nth_eq_iff_index_eq)
    then show ?thesis
      using that by (simp add: r_def)
  qed
  show "r a \<le> length as"
  proof (cases "a \<in> set as")
    case True
    then obtain k where "k < length as" "as ! k = a"
      by (auto simp: in_set_conv_nth)
    then show ?thesis
      using pos [of k] by simp
  qed (simp add: r_def)
  show "ranked r (length as) m"
    unfolding ranked_def spawned_def
  proof safe
    fix p i assume i: "i \<in> set (im_ifaces m)" "li_parent i = Some p"
    then obtain k where k: "k < length as" "im_ifaces m ! k = i"
      by (auto simp: in_set_conv_nth as_def)
    then have c: "r (li_address i) = Suc k"
      using pos [of k] by (simp add: as_def)
    show "r (li_address i) \<le> length as"
      using c k by simp
    have "r p < Suc k"
    proof (cases "p \<in> set as")
      case True
      then obtain j where j: "j < length as" "as ! j = p"
        by (auto simp: in_set_conv_nth)
      moreover have "\<not> k \<le> j"
      proof
        assume "k \<le> j"
        then have "p \<in> set (drop k as)"
          using j by (auto simp: in_set_conv_nth intro!: exI [of _ "j - k"])
        with early [of k p] i(2) k show False
          by simp
      qed
      ultimately show ?thesis
        using pos [of j] by simp
    qed (simp add: r_def)
    then show "r p < r (li_address i)"
      using c by simp
  qed
qed

text \<open>
  Claim C14. Stopping an interface ends. Where interfaces are registered before what they spawn, the
  recursion is no deeper than the number of interfaces, and it removes the interface and everything
  it spawned, directly or through others, with their control states, and nothing else.
\<close>

theorem stop_iface_stops:
  assumes d: "distinct (map li_address (im_ifaces m))"
    and early: "\<forall>k<length (im_ifaces m). \<forall>p. li_parent (im_ifaces m ! k) = Some p \<longrightarrow>
      p \<notin> li_address ` set (drop k (im_ifaces m))"
  shows "\<exists>found m'. stop_iface (Suc (length (im_ifaces m))) a m = Some (found, m')
    \<and> im_ifaces m' = filter (\<lambda>i. (a, li_address i) \<notin> (spawned m)\<^sup>*) (im_ifaces m)
    \<and> (\<forall>b. hm_get (im_controls m') b =
        (if (a, b) \<in> (spawned m)\<^sup>* \<and> b \<in> li_address ` set (im_ifaces m) then None else hm_get (im_controls m) b))"
proof -
  define n where "n = length (map li_address (im_ifaces m))"
  obtain r where r: "ranked r n m" "\<And>a. r a \<le> n"
    unfolding n_def using ranked_by_position [OF d] early by (auto simp: drop_map)
  obtain found where "stop_iface (Suc n) a m = Some (found, without ((spawned m)\<^sup>* `` {a}) m)"
    using stop_iface_ranked [OF r(1) d, of a "Suc n"] r(2) by force
  moreover have "map_of (filter (\<lambda>(a, _). P a) cs) b = (if P b then map_of cs b else None)" for P b
    and cs :: "(address_hash, iface_control) hash_map"
    by (induction cs) auto
  then have "hm_get (im_controls (without D m)) b =
      (if b \<in> D \<and> b \<in> li_address ` set (im_ifaces m) then None else hm_get (im_controls m) b)" for D b
    unfolding without_def by simp
  ultimately show ?thesis
    by (intro exI [of _ found] exI [of _ "without ((spawned m)\<^sup>* `` {a}) m"])
      (simp add: n_def del: stop_iface.simps, simp add: without_def)
qed

theorem stop_iface_stops_witness:
  "\<exists>found m'. stop_iface 3 (AddressHash (replicate 16 1)) manager_example = Some (found, m')
     \<and> iface_example2 2 \<notin> set (im_ifaces m')"
proof -
  have h: "distinct (map li_address (im_ifaces manager_example))" "length (im_ifaces manager_example) = 2"
    "\<forall>k<length (im_ifaces manager_example). \<forall>p. li_parent (im_ifaces manager_example ! k) = Some p \<longrightarrow>
       p \<notin> li_address ` set (drop k (im_ifaces manager_example))"
    by (auto simp: manager_example_def iface_example2_def less_Suc_eq numeral_eq_Suc)
  have "(AddressHash (replicate 16 1), li_address (iface_example2 2)) \<in> (spawned manager_example)\<^sup>*"
    by (rule r_into_rtrancl) (auto simp: spawned_def manager_example_def iface_example2_def)
  then show ?thesis
    using stop_iface_stops [OF h(1,3), of "AddressHash (replicate 16 1)"] h(2) by (auto simp: numeral_3_eq_3)
qed

end
