(* ===== verification/Rns_Receipts.thy ===== *)
theory Rns_Receipts
  imports Rns_Link_Watch
begin

text \<open>
  Receipts of packets to single destinations, in \<^verbatim>\<open>src/transport.rs\<close>: the proof a destination sends
  back, its validation, timeouts and the bounded table of receipts, and the reverse table that
  relays proofs.

  The clock readings of one call are one argument. An event to the subscribers is a returned value.
  The theory shows that the proof of a delivered packet is accepted, that an event is only emitted
  for a proof the destination signed, and how long receipts stay.
\<close>

section \<open>Receipts\<close>

datatype receipt_status = ReceiptFailed | ReceiptSent | ReceiptDelivered | ReceiptCulled

record packet_receipt_info =
  ri_status :: receipt_status
  ri_timeout :: "nanos option"
  ri_rtt :: "nanos option"

record packet_receipt =
  rc_destination :: address_hash
  rc_packet_hash :: rns_hash
  rc_identity :: identity
  rc_sent_at :: nanos
  rc_timeout :: "nanos option"
  rc_status :: receipt_status
  rc_concluded_at :: "nanos option"

record receipt_event =
  rev_destination :: address_hash
  rev_packet_hash :: rns_hash

type_synonym receipts = "(address_hash, packet_receipt) hash_map"

definition MAX_RECEIPTS :: nat where "MAX_RECEIPTS = 1024"

definition RECEIPT_CONCLUDED_GRACE :: nanos where "RECEIPT_CONCLUDED_GRACE = secs 5"

definition receipt_info :: "packet_receipt \<Rightarrow> packet_receipt_info" where
  "receipt_info r =
     \<lparr>ri_status = rc_status r, ri_timeout = rc_timeout r,
      ri_rtt = (case rc_concluded_at r of
          Some t \<Rightarrow> if t \<ge> rc_sent_at r then Some (t - rc_sent_at r) else None
        | None \<Rightarrow> None)\<rparr>"

definition receipt_of :: "rns_hash \<Rightarrow> receipts \<Rightarrow> packet_receipt_info option" where
  "receipt_of h rs = map_option receipt_info (hm_get rs (address_hash_new_from_hash h))"

definition set_receipt_timeout :: "rns_hash \<Rightarrow> nanos option \<Rightarrow> receipts \<Rightarrow> bool \<times> receipts" where
  "set_receipt_timeout h timeout rs =
     (hm_get rs (address_hash_new_from_hash h) \<noteq> None,
      hm_modify (address_hash_new_from_hash h) (\<lambda>r. r\<lparr>rc_timeout := timeout\<rparr>) rs)"

text \<open>The receipt that is dropped when there are too many: the oldest in flight, or else the oldest.\<close>

definition oldest_receipt :: "receipts \<Rightarrow> address_hash option" where
  "oldest_receipt rs =
     (case min_by_key (\<lambda>(_, r). rc_sent_at r) (filter (\<lambda>(_, r). rc_status r = ReceiptSent) rs) of
        Some (k, _) \<Rightarrow> Some k
      | None \<Rightarrow> map_option fst (min_by_key
          (\<lambda>(_, r). case rc_concluded_at r of Some t \<Rightarrow> t | None \<Rightarrow> rc_sent_at r) rs))"

lemma oldest_receipt_present: "oldest_receipt rs = Some k \<Longrightarrow> \<exists>r. hm_get rs k = Some r"
  by (auto simp: oldest_receipt_def not_None_eq [symmetric] map_of_eq_None_iff rev_image_eqI
      dest!: min_by_key_Some split: option.splits)

function drop_excess :: "receipts \<Rightarrow> receipts" where
  "drop_excess rs =
     (if length rs > MAX_RECEIPTS
      then (case oldest_receipt rs of None \<Rightarrow> rs | Some k \<Rightarrow> drop_excess (hm_remove k rs))
      else rs)"
  by pat_completeness auto
termination
  by (relation "measure length") (auto dest!: oldest_receipt_present intro: length_delete_present)

declare drop_excess.simps [simp del]

definition receipt_fresh :: "nanos \<Rightarrow> packet_receipt \<Rightarrow> bool" where
  "receipt_fresh now r \<longleftrightarrow> rc_status r = ReceiptSent
     \<or> (case rc_concluded_at r of Some t \<Rightarrow> now - t < RECEIPT_CONCLUDED_GRACE | None \<Rightarrow> False)"

definition cull_receipts :: "nanos \<Rightarrow> receipts \<Rightarrow> receipts" where
  "cull_receipts now rs = drop_excess (hm_retain (\<lambda>_. receipt_fresh now) rs)"

definition check_receipt :: "nanos \<Rightarrow> packet_receipt \<Rightarrow> packet_receipt" where
  "check_receipt now r =
     (if rc_status r \<noteq> ReceiptSent then r
      else if (case rc_timeout r of None \<Rightarrow> True | Some timeout \<Rightarrow> now - rc_sent_at r \<ge> timeout)
      then r\<lparr>rc_status := if rc_timeout r = None then ReceiptCulled else ReceiptFailed,
             rc_concluded_at := Some now\<rparr>
      else r)"

definition check_receipts :: "nanos \<Rightarrow> receipts \<Rightarrow> receipts" where
  "check_receipts now rs = cull_receipts now (map (\<lambda>(k, r). (k, check_receipt now r)) rs)"

text \<open>Keeping a receipt for a packet that is being sent.\<close>

definition record_receipt ::
  "nanos \<Rightarrow> address_hash \<Rightarrow> rns_hash \<Rightarrow> identity \<Rightarrow> nanos \<Rightarrow> receipts \<Rightarrow> receipts" where
  "record_receipt now destination h identity timeout rs =
     cull_receipts now (hm_insert (address_hash_new_from_hash h)
       \<lparr>rc_destination = destination, rc_packet_hash = h, rc_identity = identity, rc_sent_at = now,
        rc_timeout = Some timeout, rc_status = ReceiptSent, rc_concluded_at = None\<rparr> rs)"

section \<open>Proofs\<close>

definition create_single_destination_proof ::
  "crypto \<Rightarrow> bool \<Rightarrow> packet \<Rightarrow> proof_strategy \<Rightarrow> bytes \<Rightarrow> packet option" where
  "create_single_destination_proof C use_implicit_proof p strategy sign_key =
     (if strategy \<noteq> ProveAll then None
      else
        let h = packet_hash (cr_sha C) p;
            signature = cr_ed_sign C sign_key (hash_bytes h)
        in Some
          \<lparr>pk_header = \<lparr>hd_ifac_flag = Open, hd_context_flag = False, hd_header_type = Type1,
              hd_propagation_type = Broadcast, hd_destination_type = Single,
              hd_packet_type = Proof, hd_hops = 0\<rparr>,
           pk_ifac = None, pk_destination = address_hash_new_from_hash h, pk_transport = None,
           pk_context = Ctx_None,
           pk_data = safe_concat (if use_implicit_proof then [signature] else [hash_bytes h, signature])\<rparr>)"

definition proof_valid :: "crypto \<Rightarrow> packet_receipt \<Rightarrow> bytes \<Rightarrow> bool" where
  "proof_valid C r d =
     (if length d = 64 then identity_verify C (rc_identity r) (hash_bytes (rc_packet_hash r)) d = Inr ()
      else if length d = 96
      then take 32 d = hash_bytes (rc_packet_hash r)
        \<and> identity_verify C (rc_identity r) (hash_bytes (rc_packet_hash r)) (drop 32 d) = Inr ()
      else False)"

definition validate_single_destination_proof ::
  "crypto \<Rightarrow> nanos \<Rightarrow> packet \<Rightarrow> receipts \<Rightarrow> bool \<times> receipt_event list \<times> receipts" where
  "validate_single_destination_proof C now p rs = (case hm_get rs (pk_destination p) of
       None \<Rightarrow> (False, [], rs)
     | Some r \<Rightarrow>
         if proof_valid C r (pk_data p)
         then (True, [\<lparr>rev_destination = rc_destination r, rev_packet_hash = rc_packet_hash r\<rparr>],
               hm_modify (pk_destination p)
                 (\<lambda>r. r\<lparr>rc_status := ReceiptDelivered, rc_concluded_at := Some now\<rparr>) rs)
         else (False, [], rs))"

section \<open>Reverse table\<close>

record reverse_entry =
  rve_received :: address_hash
  rve_outbound :: address_hash
  rve_at :: nanos

definition REVERSE_TIMEOUT :: nanos where "REVERSE_TIMEOUT = secs (8 * 60)"

section \<open>A delivered packet is confirmed\<close>

lemma created_proof_valid:
  assumes C: "signature_ok C" "sha_ok (cr_sha C)"
    and made: "create_single_destination_proof C implicit p ProveAll (pi_sign_key owner) = Some q"
    and returned: "same_payload q' q"
    and keys: "id_verifying_key (rc_identity r) = cr_ed_public C (pi_sign_key owner)"
    and hash: "rc_packet_hash r = packet_hash (cr_sha C) p"
  shows "pk_destination q' = address_hash_new_from_hash (packet_hash (cr_sha C) p) \<and> proof_valid C r (pk_data q')"
proof -
  let ?h = "packet_hash (cr_sha C) p"
  have lens: "length (hash_bytes ?h) = 32" "length (cr_ed_sign C k d) = 64" for k d
    using packet_hash_ok [OF C(2)] C(1) by (simp_all add: hash_ok_def HASH_SIZE_def signature_ok_def)
  have q: "pk_destination q' = address_hash_new_from_hash ?h"
    "pk_data q' = (if implicit then [] else hash_bytes ?h) @ cr_ed_sign C (pi_sign_key owner) (hash_bytes ?h)"
    using made returned lens
    by (auto simp: create_single_destination_proof_def same_payload_def Let_def safe_concat_def PACKET_MDU_def)
  with C(1) keys lens hash show ?thesis
    by (simp add: proof_valid_def identity_verify_def signature_ok_def)
qed

text \<open>
  Claim C10. The proof a destination builds for a packet confirms the sender's receipt of it, however
  its headers were rewritten on the way back and whether it is implicit or explicit: the receipt is
  marked delivered, and one event names the packet.
\<close>

theorem delivery_confirmed:
  assumes C: "signature_ok C" "sha_ok (cr_sha C)"
    and made: "create_single_destination_proof C implicit p ProveAll (pi_sign_key owner) = Some q"
    and returned: "same_payload q' q"
    and keys: "id_verifying_key (rc_identity r) = cr_ed_public C (pi_sign_key owner)"
    and r: "hm_get rs (address_hash_new_from_hash (packet_hash (cr_sha C) p)) = Some r"
      "rc_packet_hash r = packet_hash (cr_sha C) p"
  shows "\<exists>rs'. validate_single_destination_proof C now q' rs =
      (True, [\<lparr>rev_destination = rc_destination r, rev_packet_hash = packet_hash (cr_sha C) p\<rparr>], rs')
    \<and> map_option ri_status (receipt_of (packet_hash (cr_sha C) p) rs') = Some ReceiptDelivered"
  using created_proof_valid [OF C made returned keys r(2)] r
  by (auto simp: validate_single_destination_proof_def receipt_of_def receipt_info_def map_of_hm_modify)

definition receipt_example :: packet_receipt where
  "receipt_example = \<lparr>rc_destination = AddressHash (replicate 16 2),
     rc_packet_hash = packet_hash (cr_sha toy_crypto) packet_default,
     rc_identity = pi_identity private_identity_example, rc_sent_at = 0, rc_timeout = Some (secs 6),
     rc_status = ReceiptSent, rc_concluded_at = None\<rparr>"

theorem delivery_confirmed_witness:
  "\<exists>q rs'. create_single_destination_proof toy_crypto True packet_default ProveAll (pi_sign_key private_identity_example) = Some q
     \<and> validate_single_destination_proof toy_crypto 7 q
         [(address_hash_new_from_hash (rc_packet_hash receipt_example), receipt_example)] =
         (True, [\<lparr>rev_destination = AddressHash (replicate 16 2), rev_packet_hash = rc_packet_hash receipt_example\<rparr>], rs')"
proof -
  obtain q where q: "create_single_destination_proof toy_crypto True packet_default ProveAll
      (pi_sign_key private_identity_example) = Some q"
    by (auto simp: create_single_destination_proof_def Let_def)
  have "id_verifying_key (rc_identity receipt_example) = cr_ed_public toy_crypto (pi_sign_key private_identity_example)"
    by (simp add: receipt_example_def private_identity_example_def private_identity_new_def identity_new_def)
  from delivery_confirmed [OF toy_crypto_ok(3,5) q _ this, of q
      "[(address_hash_new_from_hash (rc_packet_hash receipt_example), receipt_example)]" 7]
  show ?thesis
    using q by (auto simp: same_payload_def receipt_example_def)
qed

section \<open>Runs\<close>

datatype receipt_op =
    RecordReceipt nanos address_hash rns_hash identity nanos
  | ReceiveProof nanos packet
  | CheckReceipts nanos
  | SetTimeout rns_hash "nanos option"

primrec receipt_step :: "crypto \<Rightarrow> receipt_op \<Rightarrow> receipt_event list \<times> receipts \<Rightarrow> receipt_event list \<times> receipts" where
  "receipt_step C (RecordReceipt now d h i timeout) s = (fst s, record_receipt now d h i timeout (snd s))"
| "receipt_step C (ReceiveProof now p) s =
     (let (_, evs, rs) = validate_single_destination_proof C now p (snd s) in (fst s @ evs, rs))"
| "receipt_step C (CheckReceipts now) s = (fst s, check_receipts now (snd s))"
| "receipt_step C (SetTimeout h timeout) s = (fst s, snd (set_receipt_timeout h timeout (snd s)))"

lemma oldest_receipt_None: "oldest_receipt rs = None \<longleftrightarrow> rs = []"
  by (auto simp: oldest_receipt_def split: option.splits)

lemma drop_excess_props:
  "length (drop_excess rs) \<le> MAX_RECEIPTS \<and> set (drop_excess rs) \<subseteq> set rs \<and> (hm_ok rs \<longrightarrow> hm_ok (drop_excess rs))"
proof (induction rs rule: drop_excess.induct)
  case (1 rs)
  show ?case
  proof (cases "oldest_receipt rs")
    case None
    then show ?thesis
      by (subst (1 2 3) drop_excess.simps) (simp add: oldest_receipt_None)
  next
    case (Some k)
    have "set (hm_remove k rs) \<subseteq> set rs"
      by (auto simp: AList.delete_eq)
    then show ?thesis
      using 1 Some by (subst (1 2 3) drop_excess.simps) (auto simp: hm_ok_def distinct_delete)
  qed
qed

lemma cull_receipts_props:
  "length (cull_receipts now rs) \<le> MAX_RECEIPTS"
  "(k, r) \<in> set (cull_receipts now rs) \<Longrightarrow> (k, r) \<in> set rs \<and> receipt_fresh now r"
  "hm_ok rs \<Longrightarrow> hm_ok (cull_receipts now rs)"
  using drop_excess_props [of "hm_retain (\<lambda>_. receipt_fresh now) rs"] hm.inv_keep
  by (auto simp: cull_receipts_def hm_retain_def hm_ok_def distinct_filter_fst)

text \<open>What a run keeps: a bounded table, and every entry and event goes back to a packet that was sent.\<close>

definition receipt_known :: "receipt_op list \<Rightarrow> packet_receipt \<Rightarrow> bool" where
  "receipt_known xs r \<longleftrightarrow> (\<exists>now timeout.
     RecordReceipt now (rc_destination r) (rc_packet_hash r) (rc_identity r) timeout \<in> set xs)"

definition event_proved :: "crypto \<Rightarrow> receipt_op list \<Rightarrow> receipt_event \<Rightarrow> bool" where
  "event_proved C xs e \<longleftrightarrow> (\<exists>sent i timeout now p sig.
     RecordReceipt sent (rev_destination e) (rev_packet_hash e) i timeout \<in> set xs \<and> ReceiveProof now p \<in> set xs
     \<and> sig = drop (length (pk_data p) - 64) (pk_data p) \<and> length sig = 64
     \<and> cr_ed_verify C (id_verifying_key i) (hash_bytes (rev_packet_hash e)) sig)"

definition receipt_inv :: "crypto \<Rightarrow> receipt_op list \<Rightarrow> receipt_event list \<times> receipts \<Rightarrow> bool" where
  "receipt_inv C xs s \<longleftrightarrow> length (snd s) \<le> MAX_RECEIPTS \<and> hm_ok (snd s)
     \<and> (\<forall>(k, r)\<in>set (snd s). receipt_known xs r) \<and> (\<forall>e\<in>set (fst s). event_proved C xs e)"

lemma proof_valid_signature:
  "proof_valid C r d \<Longrightarrow> length (drop (length d - 64) d) = 64
    \<and> cr_ed_verify C (id_verifying_key (rc_identity r)) (hash_bytes (rc_packet_hash r)) (drop (length d - 64) d)"
  by (auto simp: proof_valid_def identity_verify_def split: if_splits)

lemma receipt_mono:
  "receipt_known xs r \<Longrightarrow> receipt_known (xs @ ys) r" "event_proved C xs e \<Longrightarrow> event_proved C (xs @ ys) e"
  unfolding receipt_known_def event_proved_def by (auto 0 4)

lemma receipt_known_simps [simp]:
  "receipt_known xs (r\<lparr>rc_status := a, rc_concluded_at := b\<rparr>) = receipt_known xs r"
  "receipt_known xs (r\<lparr>rc_timeout := c\<rparr>) = receipt_known xs r"
  "receipt_known xs (check_receipt now r) = receipt_known xs r"
  by (simp_all add: receipt_known_def check_receipt_def)

lemma map_snd_props:
  assumes "hm_ok m"
  shows "hm_ok (map (\<lambda>(k, v). (k, f k v)) m)" "length (map (\<lambda>(k, v). (k, f k v)) m) = length m"
  using assms by (simp_all add: hm_ok_def case_prod_beta comp_def)

lemma receipt_step_inv:
  assumes inv: "receipt_inv C xs s"
  shows "receipt_inv C (xs @ [x]) (receipt_step C x s)"
proof -
  have len: "length (snd s) \<le> MAX_RECEIPTS" and ok: "hm_ok (snd s)"
    and known: "\<And>k r. (k, r) \<in> set (snd s) \<Longrightarrow> receipt_known (xs @ [x]) r"
    and old: "\<And>e. e \<in> set (fst s) \<Longrightarrow> event_proved C (xs @ [x]) e"
    using inv receipt_mono by (fastforce simp: receipt_inv_def)+
  show ?thesis
  proof (cases x)
    case (RecordReceipt now d h i timeout)
    let ?r = "\<lparr>rc_destination = d, rc_packet_hash = h, rc_identity = i, rc_sent_at = now,
        rc_timeout = Some timeout, rc_status = ReceiptSent, rc_concluded_at = None\<rparr>"
    have new: "receipt_known (xs @ [x]) ?r"
      by (auto simp: receipt_known_def RecordReceipt)
    have "receipt_known (xs @ [x]) r" if "(k, r) \<in> set (AList.update j ?r (snd s))" for k r j
    proof -
      have "set (AList.update j v m) \<subseteq> insert (j, v) (set m)" for v and m :: receipts
        by (induction m) auto
      with that known new show ?thesis
        by blast
    qed
    moreover have "hm_ok (AList.update j v (snd s))" for j v
      using ok by (simp add: hm_ok_def distinct_update)
    ultimately show ?thesis
      using old unfolding receipt_inv_def
      by (auto simp: RecordReceipt record_receipt_def cull_receipts_props(1,3) dest!: cull_receipts_props(2))
  next
    case (ReceiveProof now p)
    show ?thesis
    proof (cases "hm_get (snd s) (pk_destination p)")
      case (Some r)
      have "event_proved C (xs @ [x]) \<lparr>rev_destination = rc_destination r, rev_packet_hash = rc_packet_hash r\<rparr>"
        if "proof_valid C r (pk_data p)"
        using known [OF map_of_SomeD [OF Some]] proof_valid_signature [OF that]
        by (auto simp: event_proved_def receipt_known_def ReceiveProof)
      then show ?thesis
        using Some len ok known old unfolding receipt_inv_def
        by (auto simp: ReceiveProof validate_single_destination_proof_def hm_modify_def map_snd_props)
    qed (use len ok known old in \<open>auto simp: receipt_inv_def ReceiveProof validate_single_destination_proof_def\<close>)
  next
    case (CheckReceipts now)
    then show ?thesis
      using ok known old unfolding receipt_inv_def
      by (auto simp: check_receipts_def map_snd_props cull_receipts_props(1,3) dest!: cull_receipts_props(2))
  next
    case (SetTimeout h timeout)
    then show ?thesis
      using len ok known old unfolding receipt_inv_def
      by (auto simp: set_receipt_timeout_def hm_modify_def map_snd_props)
  qed
qed

lemma receipt_run_inv: "receipt_inv C xs (fold (receipt_step C) xs ([], []))"
proof (induction xs rule: rev_induct)
  case Nil
  then show ?case
    by (simp add: receipt_inv_def)
next
  case (snoc x xs)
  then show ?case
    using receipt_step_inv by simp
qed

text \<open>
  Claim C11. Whatever packets are sent and whatever arrives, a delivery event is only emitted for a
  packet that was sent, and only after a packet arrived whose last 64 bytes are a signature of the
  packet's hash under the key of its destination. The table never holds more than 1024 receipts.
\<close>

theorem delivery_events_proved:
  assumes "fold (receipt_step C) xs ([], []) = (events, rs)"
  shows "length rs \<le> 1024 \<and> (\<forall>e\<in>set events. \<exists>sent i timeout now p.
    RecordReceipt sent (rev_destination e) (rev_packet_hash e) i timeout \<in> set xs \<and> ReceiveProof now p \<in> set xs
    \<and> length (pk_data p) \<ge> 64
    \<and> cr_ed_verify C (id_verifying_key i) (hash_bytes (rev_packet_hash e)) (drop (length (pk_data p) - 64) (pk_data p)))"
  using receipt_run_inv [of C xs] unfolding assms receipt_inv_def event_proved_def MAX_RECEIPTS_def fst_conv snd_conv
  by (fastforce split: if_splits)

theorem delivery_events_proved_witness:
  "\<exists>q e rs. create_single_destination_proof toy_crypto True packet_default ProveAll (pi_sign_key private_identity_example) = Some q
     \<and> fold (receipt_step toy_crypto) [RecordReceipt 0 (AddressHash []) (rc_packet_hash receipt_example)
         (rc_identity receipt_example) 5, ReceiveProof 9 q] ([], []) = ([e], rs)
     \<and> cr_ed_verify toy_crypto (id_verifying_key (rc_identity receipt_example)) (hash_bytes (rev_packet_hash e))
         (drop (length (pk_data q) - 64) (pk_data q))"
proof -
  obtain q where q: "create_single_destination_proof toy_crypto True packet_default ProveAll
      (pi_sign_key private_identity_example) = Some q"
    by (auto simp: create_single_destination_proof_def Let_def)
  let ?h = "rc_packet_hash receipt_example"
  let ?r = "\<lparr>rc_destination = AddressHash [], rc_packet_hash = ?h, rc_identity = rc_identity receipt_example, rc_sent_at = 0,
      rc_timeout = Some 5, rc_status = ReceiptSent, rc_concluded_at = None\<rparr>"
  let ?xs = "[RecordReceipt 0 (AddressHash []) ?h (rc_identity receipt_example) 5, ReceiveProof 9 q]"
  have keys: "id_verifying_key (rc_identity ?r) = cr_ed_public toy_crypto (pi_sign_key private_identity_example)"
    "rc_packet_hash ?r = packet_hash (cr_sha toy_crypto) packet_default"
    by (simp_all add: receipt_example_def private_identity_example_def private_identity_new_def identity_new_def)
  have v: "pk_destination q = address_hash_new_from_hash ?h" "proof_valid toy_crypto ?r (pk_data q)"
    using created_proof_valid [OF toy_crypto_ok(3,5) q _ keys, of q] keys(2) by (simp_all add: same_payload_def)
  have "record_receipt 0 (AddressHash []) ?h (rc_identity receipt_example) 5 [] = [(address_hash_new_from_hash ?h, ?r)]"
    unfolding record_receipt_def cull_receipts_def
    by (subst drop_excess.simps) (simp add: hm_retain_def receipt_fresh_def MAX_RECEIPTS_def)
  then obtain rs where run: "fold (receipt_step toy_crypto) ?xs ([], []) =
      ([\<lparr>rev_destination = AddressHash [], rev_packet_hash = ?h\<rparr>], rs)"
    using v by (simp add: validate_single_destination_proof_def)
  show ?thesis
    using delivery_events_proved [OF run] q run by auto
qed

lemma check_receipts_get:
  assumes "hm_ok rs" "length rs \<le> MAX_RECEIPTS"
  shows "hm_get (check_receipts now rs) k = (case hm_get rs k of
      None \<Rightarrow> None
    | Some r \<Rightarrow> if receipt_fresh now (check_receipt now r) then Some (check_receipt now r) else None)"
proof -
  let ?m = "map (\<lambda>(k, r). (k, check_receipt now r)) rs"
  have "length (hm_retain (\<lambda>_. receipt_fresh now) ?m) \<le> MAX_RECEIPTS"
    using length_hm_retain [of "\<lambda>_. receipt_fresh now" ?m] assms(2) by simp
  then have "check_receipts now rs = hm_retain (\<lambda>_. receipt_fresh now) ?m"
    unfolding check_receipts_def cull_receipts_def by (subst drop_excess.simps) simp
  moreover have "map_of ?m k = map_option (check_receipt now) (map_of rs k)"
    by (induction rs) auto
  ultimately show ?thesis
    using map_snd_props(1) [OF assms(1), of "\<lambda>_. check_receipt now"]
    by (simp add: hm.get_keep split: option.split)
qed

lemma check_receipts_ok:
  assumes "hm_ok rs"
  shows "hm_ok (check_receipts now rs)" "length (check_receipts now rs) \<le> MAX_RECEIPTS"
  using map_snd_props(1) [OF assms, of "\<lambda>_. check_receipt now"]
  by (simp_all add: check_receipts_def cull_receipts_props)

text \<open>
  Claim C12. A receipt concludes. The first check after the timeout of a receipt that is still waiting
  marks it failed, with the time that passed, and a check five seconds later has removed it.
\<close>

theorem receipt_concludes:
  assumes ok: "hm_ok rs" "length rs \<le> MAX_RECEIPTS"
    and r: "hm_get rs k = Some r" "rc_status r = ReceiptSent" "rc_timeout r = Some timeout"
    and times: "rc_sent_at r + timeout \<le> now" "now + RECEIPT_CONCLUDED_GRACE \<le> later"
  shows "map_option receipt_info (hm_get (check_receipts now rs) k) =
      Some \<lparr>ri_status = ReceiptFailed, ri_timeout = Some timeout, ri_rtt = Some (now - rc_sent_at r)\<rparr>
    \<and> hm_get (check_receipts later (check_receipts now rs)) k = None"
proof -
  let ?r = "r\<lparr>rc_status := ReceiptFailed, rc_concluded_at := Some now\<rparr>"
  have "now - rc_sent_at r \<ge> timeout"
    using times(1) by linarith
  then have "check_receipt now r = ?r" "receipt_fresh now ?r"
    using r(2,3) by (simp_all add: check_receipt_def receipt_fresh_def RECEIPT_CONCLUDED_GRACE_def)
  then have g: "hm_get (check_receipts now rs) k = Some ?r"
    using check_receipts_get [OF ok] r(1) by simp
  have "check_receipt later ?r = ?r" "\<not> receipt_fresh later ?r"
    using times(2) by (simp_all add: check_receipt_def receipt_fresh_def)
  then have "hm_get (check_receipts later (check_receipts now rs)) k = None"
    using check_receipts_get [OF check_receipts_ok [OF ok(1)]] g by simp
  moreover have "rc_sent_at r \<le> now"
    using times(1) by simp
  ultimately show ?thesis
    using g r(3) by (simp add: receipt_info_def)
qed

theorem receipt_concludes_witness:
  "hm_get (check_receipts (secs 12) (check_receipts (secs 7) [(AddressHash [], receipt_example)])) (AddressHash []) = None"
  using receipt_concludes [of "[(AddressHash [], receipt_example)]" "AddressHash []" receipt_example "secs 6" "secs 7" "secs 12"]
  by (simp add: hm_ok_def MAX_RECEIPTS_def receipt_example_def RECEIPT_CONCLUDED_GRACE_def)

end
