(* ===== verification/Rns_Known.thy ===== *)
theory Rns_Known
  imports Rns_Destination Rns_Control "HOL-Library.Char_ord"
begin

text \<open>
  What a node remembers of others: the known destinations and ratchets of \<^verbatim>\<open>src/storage/mod.rs\<close> and
  the blackholed identities of \<^verbatim>\<open>src/transport/blackholes.rs\<close>.

  Unix times are exact rationals. A storage is the map from paths to contents of \<^verbatim>\<open>MemoryStorage\<close>.
  The MessagePack encodings, which are built on a library, are arguments. The theory shows that the
  vector of known destinations with its index behaves as a map, and how long entries are kept.
\<close>

section \<open>Storage\<close>

type_synonym storage = "(string \<times> bytes) list"

definition storage_write :: "string \<Rightarrow> bytes \<Rightarrow> storage \<Rightarrow> storage" where
  "storage_write path data s = AList.update path data s"

definition storage_remove :: "string \<Rightarrow> storage \<Rightarrow> bool \<times> storage" where
  "storage_remove path s = (map_of s path \<noteq> None, AList.delete path s)"

definition storage_list :: "string \<Rightarrow> storage \<Rightarrow> string list" where
  "storage_list dir s =
     (let pre = dir @ ''/''
      in sort (map (drop (length pre)) (filter (\<lambda>path. take (length pre) path = pre) (map fst s))))"

section \<open>Known destinations\<close>

datatype destination_uses = NeverUsed | Retained | LastUsed rat

definition unused_for :: "rat \<Rightarrow> destination_uses \<Rightarrow> rat option" where
  "unused_for now u = (case u of LastUsed last_use \<Rightarrow> Some (now - last_use) | _ \<Rightarrow> None)"

record known_destination =
  kd_time :: rat
  kd_packet_hash :: bytes
  kd_public_key :: bytes
  kd_app_data :: "bytes option"
  kd_uses :: destination_uses

record known_destinations =
  kn_entries :: "(address_hash \<times> known_destination) list"
  kn_index :: "(address_hash, nat) btree_map"
  kn_dirty :: bool

definition known_destinations_new :: known_destinations where
  "known_destinations_new = \<lparr>kn_entries = [], kn_index = [], kn_dirty = False\<rparr>"

definition kn_update :: "nat \<Rightarrow> (known_destination \<Rightarrow> known_destination) \<Rightarrow> known_destinations \<Rightarrow> known_destinations" where
  "kn_update i f k =
     k\<lparr>kn_entries := (kn_entries k)[i := (fst (kn_entries k ! i), f (snd (kn_entries k ! i)))], kn_dirty := True\<rparr>"

definition kn_remember ::
  "bytes \<Rightarrow> address_hash \<Rightarrow> bytes \<Rightarrow> bytes option \<Rightarrow> rat \<Rightarrow> known_destinations \<Rightarrow> known_destinations" where
  "kn_remember ph d public_key app_data now k = (case hm_get (kn_index k) d of
       Some i \<Rightarrow> kn_update i (\<lambda>e. e\<lparr>kd_time := now, kd_packet_hash := ph, kd_public_key := public_key,
                   kd_app_data := app_data\<rparr>) k
     | None \<Rightarrow>
         \<lparr>kn_entries = kn_entries k @ [(d, \<lparr>kd_time = now, kd_packet_hash = ph,
             kd_public_key = public_key, kd_app_data = app_data, kd_uses = NeverUsed\<rparr>)],
          kn_index = bm_insert d (length (kn_entries k)) (kn_index k), kn_dirty = True\<rparr>)"

definition kn_get :: "known_destinations \<Rightarrow> address_hash \<Rightarrow> known_destination option" where
  "kn_get k d = (case hm_get (kn_index k) d of
       None \<Rightarrow> None
     | Some i \<Rightarrow> if i < length (kn_entries k) then Some (snd (kn_entries k ! i)) else None)"

definition kn_mark_used :: "address_hash \<Rightarrow> rat \<Rightarrow> known_destinations \<Rightarrow> bool \<times> known_destinations" where
  "kn_mark_used d now k = (case hm_get (kn_index k) d of
       None \<Rightarrow> (False, k)
     | Some i \<Rightarrow>
         if kd_uses (snd (kn_entries k ! i)) = Retained then (False, k)
         else (True, kn_update i (\<lambda>e. e\<lparr>kd_uses := LastUsed now\<rparr>) k))"

definition key_identity :: "crypto \<Rightarrow> bytes \<Rightarrow> bytes \<Rightarrow> identity option" where
  "key_identity C dflt key = identity_new_from_slices C dflt (take PUBLIC_KEY_LENGTH key) (drop PUBLIC_KEY_LENGTH key)"

definition kn_recall_no_use :: "crypto \<Rightarrow> bytes \<Rightarrow> known_destinations \<Rightarrow> address_hash \<Rightarrow> identity option" where
  "kn_recall_no_use C dflt k d = Option.bind (kn_get k d) (\<lambda>e. key_identity C dflt (kd_public_key e))"

definition kn_recall ::
  "crypto \<Rightarrow> bytes \<Rightarrow> address_hash \<Rightarrow> rat \<Rightarrow> known_destinations \<Rightarrow> identity option \<times> known_destinations" where
  "kn_recall C dflt d now k = (case kn_recall_no_use C dflt k d of
       None \<Rightarrow> (None, k)
     | Some i \<Rightarrow> (Some i, snd (kn_mark_used d now k)))"

definition kn_recall_app_data ::
  "address_hash \<Rightarrow> rat \<Rightarrow> known_destinations \<Rightarrow> bytes option \<times> known_destinations" where
  "kn_recall_app_data d now k = (case Option.bind (kn_get k d) kd_app_data of
       None \<Rightarrow> (None, k)
     | Some data \<Rightarrow> (Some data, snd (kn_mark_used d now k)))"

definition kn_set_uses :: "address_hash \<Rightarrow> destination_uses \<Rightarrow> known_destinations \<Rightarrow> bool \<times> known_destinations" where
  "kn_set_uses d u k = (case hm_get (kn_index k) d of
       None \<Rightarrow> (False, k)
     | Some i \<Rightarrow> (True, kn_update i (\<lambda>e. e\<lparr>kd_uses := u\<rparr>) k))"

definition kn_retain :: "address_hash \<Rightarrow> known_destinations \<Rightarrow> bool \<times> known_destinations" where
  "kn_retain d = kn_set_uses d Retained"

definition kn_unretain :: "address_hash \<Rightarrow> rat \<Rightarrow> known_destinations \<Rightarrow> bool \<times> known_destinations" where
  "kn_unretain d now = kn_set_uses d (LastUsed now)"

definition kn_retain_identity ::
  "crypto \<Rightarrow> bytes \<Rightarrow> address_hash \<Rightarrow> known_destinations \<Rightarrow> bool \<times> known_destinations" where
  "kn_retain_identity C dflt identity_hash k =
     fold (\<lambda>d (retained, k). let (b, k) = kn_retain d k in (retained \<or> b, k))
       (map fst (filter (\<lambda>(_, e). map_option id_address_hash (key_identity C dflt (kd_public_key e)) = Some identity_hash)
          (kn_entries k))) (False, k)"

definition UNUSED_DESTINATION_LINGER :: rat where "UNUSED_DESTINATION_LINGER = 6 * 60"
definition DESTINATION_TIMEOUT :: rat where "DESTINATION_TIMEOUT = 60 * 60 * 24 * 7"

definition kn_stale :: "rat \<Rightarrow> (address_hash \<Rightarrow> bool) \<Rightarrow> address_hash \<Rightarrow> known_destination \<Rightarrow> bool" where
  "kn_stale now has_path d e =
     (if kd_uses e = Retained then False
      else if has_path d then False
      else case unused_for now (kd_uses e) of
             None \<Rightarrow> now - kd_time e > UNUSED_DESTINATION_LINGER
           | Some t \<Rightarrow> t > DESTINATION_TIMEOUT * 1.25)"

definition kn_reindex :: "known_destinations \<Rightarrow> known_destinations" where
  "kn_reindex k = k\<lparr>kn_index := fold (\<lambda>(i, d, _). bm_insert d i) (enumerate 0 (kn_entries k)) []\<rparr>"

definition kn_clean ::
  "rat \<Rightarrow> (address_hash \<Rightarrow> bool) \<Rightarrow> known_destinations \<Rightarrow> address_hash list \<times> known_destinations" where
  "kn_clean now has_path k =
     (let stale = map fst (filter (\<lambda>(d, e). kn_stale now has_path d e) (kn_entries k));
          k = kn_reindex (k\<lparr>kn_entries := filter (\<lambda>(d, _). d \<notin> set stale) (kn_entries k)\<rparr>)
      in (stale, if stale \<noteq> [] then k\<lparr>kn_dirty := True\<rparr> else k))"

definition KNOWN_DESTINATIONS_FILE :: string where "KNOWN_DESTINATIONS_FILE = ''known_destinations''"

definition kn_save ::
  "((address_hash \<times> known_destination) list \<Rightarrow> bytes result) \<Rightarrow> storage \<Rightarrow> known_destinations
     \<Rightarrow> unit result \<times> storage \<times> known_destinations" where
  "kn_save pack s k =
     (if \<not> kn_dirty k \<and> map_of s KNOWN_DESTINATIONS_FILE \<noteq> None then (Inr (), s, k)
      else case pack (kn_entries k) of
             Inl e \<Rightarrow> (Inl e, s, k)
           | Inr packed \<Rightarrow> (Inr (), storage_write KNOWN_DESTINATIONS_FILE packed s, k\<lparr>kn_dirty := False\<rparr>))"

definition kn_load ::
  "(bytes \<Rightarrow> (address_hash \<times> known_destination) list result) \<Rightarrow> storage \<Rightarrow> known_destinations
     \<Rightarrow> unit result \<times> known_destinations" where
  "kn_load unpack s k = (case map_of s KNOWN_DESTINATIONS_FILE of
       None \<Rightarrow> (Inr (), k)
     | Some bs \<Rightarrow> (case unpack bs of
           Inl e \<Rightarrow> (Inl e, k)
         | Inr entries \<Rightarrow> (Inr (), (kn_reindex (k\<lparr>kn_entries := entries\<rparr>))\<lparr>kn_dirty := False\<rparr>)))"

section \<open>Known ratchets\<close>

type_synonym known_ratchets = "(address_hash, bytes \<times> rat) btree_map"

definition RATCHETS_DIR :: string where "RATCHETS_DIR = ''ratchets''"

definition ratchet_path :: "address_hash \<Rightarrow> string" where
  "ratchet_path d = RATCHETS_DIR @ ''/'' @ address_hash_to_hex_string d"

definition kr_remember ::
  "(bytes \<times> rat \<Rightarrow> bytes result) \<Rightarrow> storage \<Rightarrow> address_hash \<Rightarrow> bytes \<Rightarrow> rat \<Rightarrow> known_ratchets
     \<Rightarrow> unit result \<times> storage \<times> known_ratchets" where
  "kr_remember pack s d ratchet now kr =
     (if map_option fst (hm_get kr d) = Some ratchet then (Inr (), s, kr)
      else
        let kr = bm_insert d (ratchet, now) kr
        in case pack (ratchet, now) of
             Inl e \<Rightarrow> (Inl e, s, kr)
           | Inr packed \<Rightarrow> (Inr (), storage_write (ratchet_path d) packed s, kr))"

definition kr_get ::
  "(bytes \<Rightarrow> (bytes \<times> rat) result) \<Rightarrow> storage \<Rightarrow> address_hash \<Rightarrow> rat \<Rightarrow> known_ratchets
     \<Rightarrow> bytes option \<times> known_ratchets" where
  "kr_get unpack s d now kr =
     (let loaded = (case hm_get kr d of
          Some _ \<Rightarrow> Some kr
        | None \<Rightarrow> (case map_of s (ratchet_path d) of
              None \<Rightarrow> None
            | Some bs \<Rightarrow> (case unpack bs of Inl _ \<Rightarrow> None | Inr data \<Rightarrow> Some (bm_insert d data kr))))
      in case loaded of
           None \<Rightarrow> (None, kr)
         | Some kr \<Rightarrow> (case hm_get kr d of
               None \<Rightarrow> (None, kr)
             | Some (ratchet, received) \<Rightarrow>
                 (if now \<ge> received + of_nat RATCHET_EXPIRY_SECS then None else Some ratchet, kr)))"

definition kr_current_ratchet_id ::
  "crypto \<Rightarrow> (bytes \<Rightarrow> (bytes \<times> rat) result) \<Rightarrow> storage \<Rightarrow> address_hash \<Rightarrow> rat \<Rightarrow> known_ratchets
     \<Rightarrow> bytes option \<times> known_ratchets" where
  "kr_current_ratchet_id C unpack s d now kr =
     (let (ratchet, kr) = kr_get unpack s d now kr
      in (map_option (\<lambda>r. take 10 (hash_bytes (ratchet_id C r))) ratchet, kr))"

text \<open>
  One file of the ratchet directory. A name of 32 or more characters that is not hexadecimal panics
  in \<^verbatim>\<open>AddressHash::new_from_hex_string\<close>.
\<close>

definition kr_clean_file ::
  "(bytes \<Rightarrow> (bytes \<times> rat) result) \<Rightarrow> rat \<Rightarrow> (address_hash \<Rightarrow> bool) \<Rightarrow> string
     \<Rightarrow> nat \<times> storage \<times> known_ratchets \<Rightarrow> (nat \<times> storage \<times> known_ratchets) option" where
  "kr_clean_file unpack now known filename = (\<lambda>(removed, s, kr).
     let path = RATCHETS_DIR @ ''/'' @ filename
     in case address_hash_new_from_hex_string filename of
          None \<Rightarrow> None
        | Some (Inl _) \<Rightarrow> Some (removed + 1, snd (storage_remove path s), kr)
        | Some (Inr d) \<Rightarrow>
            let remove = (case Option.bind (map_of s path) (\<lambda>bs. case unpack bs of Inl _ \<Rightarrow> None | Inr data \<Rightarrow> Some data) of
                  Some (_, received) \<Rightarrow> now \<ge> received + of_nat RATCHET_EXPIRY_SECS
                | None \<Rightarrow> True)
            in Some (if remove \<or> \<not> known d
                     then (removed + 1, snd (storage_remove path s), hm_remove d kr) else (removed, s, kr)))"

definition kr_clean ::
  "(bytes \<Rightarrow> (bytes \<times> rat) result) \<Rightarrow> storage \<Rightarrow> rat \<Rightarrow> (address_hash \<Rightarrow> bool) \<Rightarrow> known_ratchets
     \<Rightarrow> (nat \<times> storage \<times> known_ratchets) option" where
  "kr_clean unpack s now known kr =
     fold (\<lambda>f r. Option.bind r (kr_clean_file unpack now known f)) (storage_list RATCHETS_DIR s) (Some (0, s, kr))"

section \<open>Ratchet files of own destinations\<close>

text \<open>\<open>pack_list\<close> packs the keys that are signed, \<open>pack\<close> and \<open>unpack\<close> the file with keys and signature.\<close>

definition load_destination_ratchets ::
  "crypto \<Rightarrow> (bytes list \<Rightarrow> bytes result) \<Rightarrow> (bytes \<Rightarrow> (bytes list \<times> bytes) result) \<Rightarrow> storage \<Rightarrow> string \<Rightarrow> identity
     \<Rightarrow> bytes list result" where
  "load_destination_ratchets C pack_list unpack s path i = (case map_of s path of
       None \<Rightarrow> Inr []
     | Some bs \<Rightarrow> (case unpack bs of
           Inl e \<Rightarrow> Inl e
         | Inr (ratchets, signature) \<Rightarrow> (case pack_list ratchets of
               Inl e \<Rightarrow> Inl e
             | Inr packed \<Rightarrow>
                 if identity_verify C i packed signature = Inr () then Inr ratchets else Inl IncorrectSignature)))"

definition save_destination_ratchets ::
  "crypto \<Rightarrow> (bytes list \<Rightarrow> bytes result) \<Rightarrow> (bytes list \<Rightarrow> bytes \<Rightarrow> bytes result) \<Rightarrow> storage \<Rightarrow> string
     \<Rightarrow> private_identity \<Rightarrow> bytes list \<Rightarrow> unit result \<times> storage" where
  "save_destination_ratchets C pack_list pack s path i ratchets = (case pack_list ratchets of
       Inl e \<Rightarrow> (Inl e, s)
     | Inr packed \<Rightarrow> (case pack ratchets (private_identity_sign C i packed) of
           Inl e \<Rightarrow> (Inl e, s)
         | Inr data \<Rightarrow> (Inr (), storage_write path data s)))"

definition clean_destination_ratchets :: "nat \<Rightarrow> bytes list \<Rightarrow> bytes list" where
  "clean_destination_ratchets retained ratchets = take (max 1 (min RATCHET_COUNT retained)) ratchets"

section \<open>Blackholed identities\<close>

record blackhole_entry =
  bh_source :: address_hash
  bh_until :: "rat option"
  bh_reason :: "string option"

type_synonym blackholes = "(address_hash, blackhole_entry) hash_map"

definition bh_blackhole ::
  "address_hash \<Rightarrow> address_hash \<Rightarrow> rat option \<Rightarrow> string option \<Rightarrow> blackholes \<Rightarrow> blackholes" where
  "bh_blackhole i source until reason b = hm_insert i \<lparr>bh_source = source, bh_until = until, bh_reason = reason\<rparr> b"

definition bh_unblackhole :: "address_hash \<Rightarrow> blackholes \<Rightarrow> bool \<times> blackholes" where
  "bh_unblackhole i b = (hm_get b i \<noteq> None, hm_remove i b)"

definition is_blackholed :: "blackholes \<Rightarrow> address_hash \<Rightarrow> bool" where
  "is_blackholed b i \<longleftrightarrow> hm_get b i \<noteq> None"

definition bh_clean :: "rat \<Rightarrow> blackholes \<Rightarrow> nat \<times> blackholes" where
  "bh_clean now b =
     (let b' = hm_retain (\<lambda>_ e. case bh_until e of None \<Rightarrow> True | Some until \<Rightarrow> now < until) b
      in (length b - length b', b'))"

text \<open>Merging a list that was fetched from a publisher and parsed.\<close>

definition bh_merge ::
  "(address_hash \<times> blackhole_entry) list \<Rightarrow> address_hash \<Rightarrow> blackholes \<Rightarrow> nat \<times> blackholes" where
  "bh_merge lst publisher b =
     fold (\<lambda>(h, e) (merged, b).
         let e = (if bh_source e \<noteq> publisher then e\<lparr>bh_source := publisher\<rparr> else e)
         in case hm_get b h of None \<Rightarrow> (merged + 1, hm_insert h e b) | Some _ \<Rightarrow> (merged, b))
       lst (0, b)"

text \<open>One file of the stored lists: the entries that are still valid replace all but locally sourced ones.\<close>

definition bh_reload_file ::
  "rat \<Rightarrow> address_hash \<Rightarrow> address_hash \<Rightarrow> (address_hash \<times> blackhole_entry) list \<Rightarrow> nat \<times> blackholes \<Rightarrow> nat \<times> blackholes" where
  "bh_reload_file now own source lst s =
     fold (\<lambda>(h, e) (loaded, b).
         if (case bh_until e of Some until \<Rightarrow> now \<ge> until | None \<Rightarrow> False) then (loaded, b)
         else case hm_get b h of
                Some existing \<Rightarrow> if bh_source existing = own then (loaded, b)
                  else (loaded + 1, hm_insert h (e\<lparr>bh_source := source\<rparr>) b)
              | None \<Rightarrow> (loaded + 1, hm_insert h (e\<lparr>bh_source := source\<rparr>) b))
       lst s"

definition hex_digit_value :: "char \<Rightarrow> u8 option" where
  "hex_digit_value c =
     (let n = of_char c :: nat
      in if 48 \<le> n \<and> n \<le> 57 then Some (of_nat (n - 48))
         else if 97 \<le> n \<and> n \<le> 102 then Some (of_nat (n - 97 + 10))
         else if 65 \<le> n \<and> n \<le> 70 then Some (of_nat (n - 65 + 10))
         else None)"

fun decode_hex :: "string \<Rightarrow> bytes option" where
  "decode_hex [] = Some []"
| "decode_hex [c] = None"
| "decode_hex (c # d # s) = (case (hex_digit_value c, hex_digit_value d, decode_hex s) of
       (Some a, Some b, Some bs) \<Rightarrow> Some ((push_bit 4 a OR b) # bs)
     | _ \<Rightarrow> None)"

definition hex_to_hash :: "string \<Rightarrow> address_hash option" where
  "hex_to_hash s = (case decode_hex s of
       Some bs \<Rightarrow> if length bs = 16 then Some (AddressHash bs) else None | None \<Rightarrow> None)"

definition BLACKHOLE_DIR :: string where "BLACKHOLE_DIR = ''blackhole''"

definition bh_persist_local ::
  "((address_hash \<times> blackhole_entry) list \<Rightarrow> bytes) \<Rightarrow> address_hash \<Rightarrow> blackholes \<Rightarrow> storage \<Rightarrow> storage" where
  "bh_persist_local pack own b s =
     storage_write (BLACKHOLE_DIR @ ''/local'') (pack (filter (\<lambda>(_, e). bh_source e = own) b)) s"

definition bh_reload ::
  "(bytes \<Rightarrow> (address_hash \<times> blackhole_entry) list option) \<Rightarrow> rat \<Rightarrow> storage \<Rightarrow> address_hash \<Rightarrow> address_hash list
     \<Rightarrow> blackholes \<Rightarrow> nat \<times> blackholes" where
  "bh_reload parse now s own allowed_sources b =
     fold (\<lambda>filename r.
         case (if filename = ''local'' then Some own
               else case hex_to_hash filename of
                      Some source \<Rightarrow> if source \<in> set allowed_sources then Some source else None
                    | None \<Rightarrow> None) of
           None \<Rightarrow> r
         | Some source \<Rightarrow>
             (case Option.bind (map_of s (BLACKHOLE_DIR @ ''/'' @ filename)) parse of
                None \<Rightarrow> r
              | Some lst \<Rightarrow> bh_reload_file now own source lst r))
       (storage_list BLACKHOLE_DIR s) (0, b)"

section \<open>Ratchet files\<close>

text \<open>
  Ratchets saved for a destination are loaded again by the holder of its identity, and a file that
  loads carries a valid signature of that identity.
\<close>

lemma ratchet_file_roundtrip:
  assumes "signature_ok C" "private_identity_ok C i" "\<And>rs sig bs. pack rs sig = Inr bs \<Longrightarrow> unpack bs = Inr (rs, sig)"
    and "save_destination_ratchets C pack_list pack s path i ratchets = (Inr (), s')"
  shows "load_destination_ratchets C pack_list unpack s' path (pi_identity i) = Inr ratchets"
proof -
  have "i = private_identity_new C (pi_private_key i) (pi_sign_key i)"
    using assms(2) unfolding private_identity_ok_def by blast
  from arg_cong [OF this, of "\<lambda>i. id_verifying_key (pi_identity i)"]
  have "id_verifying_key (pi_identity i) = cr_ed_public C (pi_sign_key i)"
    by (simp only: private_identity_new_def identity_new_def private_identity.simps identity.simps)
  with assms show ?thesis
    by (auto simp: save_destination_ratchets_def load_destination_ratchets_def storage_write_def update_conv'
        identity_verify_def private_identity_sign_def signature_ok_def split: sum.splits)
qed

text \<open>A file in the ratchet directory whose name is not hexadecimal stops the cleanup with a panic.\<close>

lemma bad_ratchet_file_panics:
  "kr_clean unpack [(''ratchets/'' @ replicate 32 CHR ''x'', data)] now known kr = None"
proof -
  have "from_str_radix16 (CHR ''x'') (CHR ''x'') = None"
    by (simp add: from_str_radix16_def hex_digit_def of_char_def)
  then show ?thesis
    by (simp add: kr_clean_def storage_list_def RATCHETS_DIR_def kr_clean_file_def
        address_hash_new_from_hex_string_def hash_sizes numeral_eq_Suc)
qed

section \<open>The index and the map\<close>

text \<open>Every entry is found at its position, and nothing else is indexed.\<close>

definition kn_ok :: "known_destinations \<Rightarrow> bool" where
  "kn_ok k \<longleftrightarrow> distinct (map fst (kn_entries k)) \<and> bm_ok (kn_index k)
     \<and> (\<forall>d i. hm_get (kn_index k) d = Some i \<longleftrightarrow> i < length (kn_entries k) \<and> fst (kn_entries k ! i) = d)"

lemma kn_okD:
  assumes "kn_ok k"
  shows "hm_get (kn_index k) d = Some i \<Longrightarrow> i < length (kn_entries k) \<and> fst (kn_entries k ! i) = d"
    and "hm_get (kn_index k) d = None \<longleftrightarrow> d \<notin> fst ` set (kn_entries k)"
proof -
  show "hm_get (kn_index k) d = Some i \<Longrightarrow> i < length (kn_entries k) \<and> fst (kn_entries k ! i) = d"
    using assms by (simp add: kn_ok_def)
  have "hm_get (kn_index k) d \<noteq> None \<longleftrightarrow> (\<exists>i. i < length (kn_entries k) \<and> fst (kn_entries k ! i) = d)"
    using assms by (auto simp: kn_ok_def)
  also have "\<dots> \<longleftrightarrow> d \<in> fst ` set (kn_entries k)"
    by (force simp: set_conv_nth)
  finally show "hm_get (kn_index k) d = None \<longleftrightarrow> d \<notin> fst ` set (kn_entries k)"
    by blast
qed

lemma kn_ok_get:
  assumes "kn_ok k"
  shows "kn_get k d = map_of (kn_entries k) d"
proof (cases "hm_get (kn_index k) d")
  case None
  then have "map_of (kn_entries k) d = None"
    using kn_okD(2) [OF assms] by (simp add: map_of_eq_None_iff)
  with None show ?thesis
    unfolding kn_get_def by (simp only: option.case)
next
  case (Some i)
  have i: "i < length (kn_entries k)" "fst (kn_entries k ! i) = d"
    using kn_okD(1) [OF assms Some] by auto
  then have "(d, snd (kn_entries k ! i)) \<in> set (kn_entries k)"
    by (metis nth_mem prod.collapse)
  then have "map_of (kn_entries k) d = Some (snd (kn_entries k ! i))"
    using assms by (simp add: kn_ok_def map_of_eq_Some_iff)
  with Some i(1) show ?thesis
    by (simp add: kn_get_def)
qed

lemma update_at_modify:
  assumes "distinct (map fst xs)" "i < length xs" "fst (xs ! i) = d"
  shows "xs[i := (fst (xs ! i), f (snd (xs ! i)))] = hm_modify d f xs"
proof (rule nth_equalityI)
  fix j assume j: "j < length (xs[i := (fst (xs ! i), f (snd (xs ! i)))])"
  then have "fst (xs ! j) = d \<longleftrightarrow> j = i"
    using assms by (metis length_list_update length_map nth_eq_iff_index_eq nth_map)
  with j show "xs[i := (fst (xs ! i), f (snd (xs ! i)))] ! j = hm_modify d f xs ! j"
    by (auto simp: hm_modify_def nth_list_update case_prod_beta assms(3) prod_eq_iff)
qed simp

lemma kn_update_ok:
  assumes "kn_ok k" "hm_get (kn_index k) d = Some i"
  shows "kn_entries (kn_update i f k) = hm_modify d f (kn_entries k)" "kn_ok (kn_update i f k)"
proof -
  show e: "kn_entries (kn_update i f k) = hm_modify d f (kn_entries k)"
    using update_at_modify [of "kn_entries k" i d f] assms(1) kn_okD(1) [OF assms] by (simp add: kn_update_def kn_ok_def)
  have "fst (hm_modify d f xs ! j) = fst (xs ! j)" if "j < length xs" for j and xs :: "(address_hash \<times> known_destination) list"
    using that by (simp add: hm_modify_def case_prod_beta)
  then show "kn_ok (kn_update i f k)"
    using assms(1) e by (auto simp: kn_ok_def kn_update_def)
qed

lemma reindex_entries:
  fixes xs :: "(address_hash \<times> known_destination) list"
  assumes "distinct (map fst xs)"
  defines "m \<equiv> fold (\<lambda>(i, d, _). bm_insert d i) (enumerate 0 xs) []"
  shows "bm_ok m \<and> (\<forall>d i. map_of m d = Some i \<longleftrightarrow> i < length xs \<and> fst (xs ! i) = d)"
  using assms(1) unfolding m_def
proof (induction xs rule: rev_induct)
  case (snoc x xs)
  obtain d e where x: "x = (d, e)"
    by (cases x)
  have new: "fst (xs ! i) \<noteq> d" if "i < length xs" for i
    using snoc.prems nth_mem [OF that] x by (auto simp: image_iff)
  show ?case
    using snoc new x
    by (auto simp: enumerate_append_eq bm.inv_ins bm.get_ins nth_append less_Suc_eq split: if_splits)
qed simp

lemma kn_reindex_ok:
  assumes "distinct (map fst (kn_entries k))"
  shows "kn_ok (kn_reindex k)" "kn_entries (kn_reindex k) = kn_entries k"
  using reindex_entries [OF assms] assms by (simp_all add: kn_reindex_def kn_ok_def)

section \<open>Runs\<close>

datatype known_op =
    Remember bytes address_hash bytes "bytes option" rat
  | Recall address_hash rat
  | RecallAppData address_hash rat
  | RetainData address_hash
  | UnretainData address_hash rat
  | CleanKnown rat "address_hash \<Rightarrow> bool"

primrec known_step :: "crypto \<Rightarrow> bytes \<Rightarrow> known_op \<Rightarrow> known_destinations \<Rightarrow> known_destinations" where
  "known_step C dflt (Remember ph d key app now) k = kn_remember ph d key app now k"
| "known_step C dflt (Recall d now) k = snd (kn_recall C dflt d now k)"
| "known_step C dflt (RecallAppData d now) k = snd (kn_recall_app_data d now k)"
| "known_step C dflt (RetainData d) k = snd (kn_retain d k)"
| "known_step C dflt (UnretainData d now) k = snd (kn_unretain d now k)"
| "known_step C dflt (CleanKnown now has_path) k = snd (kn_clean now has_path k)"

text \<open>The specification: a finite map from destinations to their data.\<close>

type_synonym known_spec = "address_hash \<Rightarrow> known_destination option"

definition spec_use :: "address_hash \<Rightarrow> rat \<Rightarrow> known_spec \<Rightarrow> known_spec" where
  "spec_use d now m = m(d := map_option (\<lambda>e. if kd_uses e = Retained then e else e\<lparr>kd_uses := LastUsed now\<rparr>) (m d))"

primrec known_spec_step :: "crypto \<Rightarrow> bytes \<Rightarrow> known_op \<Rightarrow> known_spec \<Rightarrow> known_spec" where
  "known_spec_step C dflt (Remember ph d key app now) m =
     m(d \<mapsto> \<lparr>kd_time = now, kd_packet_hash = ph, kd_public_key = key, kd_app_data = app,
             kd_uses = (case m d of Some e \<Rightarrow> kd_uses e | None \<Rightarrow> NeverUsed)\<rparr>)"
| "known_spec_step C dflt (Recall d now) m =
     (if Option.bind (m d) (\<lambda>e. key_identity C dflt (kd_public_key e)) = None then m else spec_use d now m)"
| "known_spec_step C dflt (RecallAppData d now) m =
     (if Option.bind (m d) kd_app_data = None then m else spec_use d now m)"
| "known_spec_step C dflt (RetainData d) m = m(d := map_option (\<lambda>e. e\<lparr>kd_uses := Retained\<rparr>) (m d))"
| "known_spec_step C dflt (UnretainData d now) m = m(d := map_option (\<lambda>e. e\<lparr>kd_uses := LastUsed now\<rparr>) (m d))"
| "known_spec_step C dflt (CleanKnown now has_path) m =
     (\<lambda>d. case m d of Some e \<Rightarrow> if kn_stale now has_path d e then None else Some e | None \<Rightarrow> None)"

lemma kn_mark_used_spec:
  assumes "kn_ok k"
  shows "kn_ok (snd (kn_mark_used d now k)) \<and> kn_get (snd (kn_mark_used d now k)) = spec_use d now (kn_get k)"
proof (cases "hm_get (kn_index k) d")
  case None
  then show ?thesis
    using assms by (auto simp: kn_mark_used_def spec_use_def kn_get_def)
next
  case (Some i)
  have i: "i < length (kn_entries k)"
    using kn_okD(1) [OF assms Some] by simp
  have g: "kn_get k d = Some (snd (kn_entries k ! i))"
    using Some i by (simp add: kn_get_def)
  note U = kn_update_ok [OF assms Some]
  have "kn_get (kn_update i f k) = (kn_get k)(d := map_option f (kn_get k d))" for f
    by (auto simp: kn_ok_get [OF U(2)] kn_ok_get [OF assms] U(1) map_of_hm_modify)
  then show ?thesis
    using Some g assms U(2) by (auto simp: kn_mark_used_def spec_use_def)
qed

lemma kn_set_uses_spec:
  assumes "kn_ok k"
  shows "kn_ok (snd (kn_set_uses d u k))
    \<and> kn_get (snd (kn_set_uses d u k)) = (kn_get k)(d := map_option (\<lambda>e. e\<lparr>kd_uses := u\<rparr>) (kn_get k d))"
proof (cases "hm_get (kn_index k) d")
  case None
  then show ?thesis
    using assms by (auto simp: kn_set_uses_def kn_get_def)
next
  case (Some i)
  note U = kn_update_ok [OF assms Some]
  have "kn_get (kn_update i f k) = (kn_get k)(d := map_option f (kn_get k d))" for f
    by (auto simp: kn_ok_get [OF U(2)] kn_ok_get [OF assms] U(1) map_of_hm_modify)
  then show ?thesis
    using Some U(2) by (simp add: kn_set_uses_def)
qed

lemma known_record_update:
  fixes e :: known_destination
  shows "e\<lparr>kd_time := now, kd_packet_hash := ph, kd_public_key := key, kd_app_data := app\<rparr> =
    \<lparr>kd_time = now, kd_packet_hash = ph, kd_public_key = key, kd_app_data = app, kd_uses = kd_uses e\<rparr>"
  by (cases e) simp

lemma kn_remember_spec:
  assumes "kn_ok k"
  shows "kn_ok (kn_remember ph d key app now k)
    \<and> kn_get (kn_remember ph d key app now k) = known_spec_step C dflt (Remember ph d key app now) (kn_get k)"
proof (cases "hm_get (kn_index k) d")
  case None
  let ?e = "\<lparr>kd_time = now, kd_packet_hash = ph, kd_public_key = key, kd_app_data = app, kd_uses = NeverUsed\<rparr>"
  let ?k = "\<lparr>kn_entries = kn_entries k @ [(d, ?e)],
      kn_index = bm_insert d (length (kn_entries k)) (kn_index k), kn_dirty = True\<rparr>"
  have k: "kn_remember ph d key app now k = ?k"
    unfolding kn_remember_def None by simp
  have n: "d \<notin> fst ` set (kn_entries k)"
    using None kn_okD(2) [OF assms] by simp
  have "fst (kn_entries k ! i) \<noteq> d" if "i < length (kn_entries k)" for i
    using n nth_mem [OF that] by auto
  then have ok: "kn_ok ?k"
    using assms n
    by (auto simp: kn_ok_def bm.inv_ins bm.get_ins nth_append less_Suc_eq split: if_splits)
  have "map_of (kn_entries k) d = None"
    using n by (simp add: map_of_eq_None_iff)
  then have "kn_get ?k = (kn_get k)(d \<mapsto> ?e)" "kn_get k d = None"
    by (auto simp: kn_ok_get [OF ok] kn_ok_get [OF assms] fun_eq_iff map_add_def split: option.split)
  then show ?thesis
    using ok unfolding k by (simp only: known_spec_step.simps option.case simp_thms)
next
  case (Some i)
  have i: "i < length (kn_entries k)"
    using kn_okD(1) [OF assms Some] by simp
  have g: "kn_get k d = Some (snd (kn_entries k ! i))"
    using Some i by (simp add: kn_get_def)
  note U = kn_update_ok [OF assms Some]
  have "kn_get (kn_update i f k) = (kn_get k)(d := map_option f (kn_get k d))" for f
    by (auto simp: kn_ok_get [OF U(2)] kn_ok_get [OF assms] U(1) map_of_hm_modify)
  then show ?thesis
    using Some g U(2) by (simp add: kn_remember_def known_record_update)
qed

lemma kn_clean_spec:
  assumes "kn_ok k"
  shows "kn_ok (snd (kn_clean now has_path k))
    \<and> kn_get (snd (kn_clean now has_path k)) = known_spec_step C dflt (CleanKnown now has_path) (kn_get k)"
proof -
  let ?P = "\<lambda>(d, e). kn_stale now has_path d e" and ?xs = "kn_entries k"
  have d: "distinct (map fst ?xs)"
    using assms by (simp add: kn_ok_def)
  have mem: "d \<in> fst ` set (filter ?P ?xs) \<longleftrightarrow> ?P (d, e)" if "(d, e) \<in> set ?xs" for d e
    using d that by (auto simp: image_iff dest: eq_key_imp_eq_value)
  have eq: "filter (\<lambda>(d, _). d \<notin> set (map fst (filter ?P ?xs))) ?xs = filter (\<lambda>(d, e). \<not> kn_stale now has_path d e) ?xs"
    using mem by (intro filter_cong) auto
  let ?k = "k\<lparr>kn_entries := filter (\<lambda>(d, e). \<not> kn_stale now has_path d e) ?xs\<rparr>"
  have R: "kn_ok (kn_reindex ?k)" "kn_entries (kn_reindex ?k) = kn_entries ?k"
    using kn_reindex_ok [of ?k] distinct_filter_fst [OF d] by simp_all
  have "kn_get (kn_reindex ?k) = known_spec_step C dflt (CleanKnown now has_path) (kn_get k)"
    by (rule ext) (simp add: kn_ok_get [OF R(1)] R(2) kn_ok_get [OF assms] map_of_filter_distinct [OF d] split: option.split)
  moreover have "kn_ok (k'\<lparr>kn_dirty := b\<rparr>) = kn_ok k'" "kn_get (k'\<lparr>kn_dirty := b\<rparr>) = kn_get k'" for k' b
    by (auto simp: kn_ok_def kn_get_def fun_eq_iff split: option.split)
  ultimately show ?thesis
    using R(1) by (simp only: kn_clean_def Let_def eq snd_conv) (simp split: if_split)
qed

lemma known_step_spec:
  assumes "kn_ok k"
  shows "kn_ok (known_step C dflt x k) \<and> kn_get (known_step C dflt x k) = known_spec_step C dflt x (kn_get k)"
proof (cases x)
  case (Recall d now)
  then show ?thesis
    using assms kn_mark_used_spec [OF assms, of d now]
    by (auto simp: kn_recall_def kn_recall_no_use_def split: option.split)
next
  case (RecallAppData d now)
  then show ?thesis
    using assms kn_mark_used_spec [OF assms, of d now] by (auto simp: kn_recall_app_data_def split: option.split)
qed (use assms kn_remember_spec [OF assms] kn_set_uses_spec [OF assms] kn_clean_spec [OF assms] in
    \<open>simp_all add: kn_retain_def kn_unretain_def\<close>)


end
