(* ===== verification/Rns_Resource.thy ===== *)
theory Rns_Resource
  imports Rns_Link "HOL-Library.Monad_Syntax"
begin

text \<open>
  Resource transfers, the shared part and the sender: \<^verbatim>\<open>src/resource/mod.rs\<close>,
  \<^verbatim>\<open>src/resource/advertisement.rs\<close> and \<^verbatim>\<open>src/resource/outbound.rs\<close>.

  The MessagePack primitives of the \<^verbatim>\<open>rmp\<close> crate and the bzip2 coder are fields of records that the
  definitions take, with their documented laws as predicates; without the \<^verbatim>\<open>bz2\<close> feature there is no
  coder. Seconds are rationals. A clock reading is an argument, random hashes and initialisation
  vectors are numbered draws. The theory shows that an advertisement survives its encoding, that
  preparing a segment ends as soon as one attempt has no colliding map hashes, and what the parts
  and the map of a prepared segment are.
\<close>

section \<open>Libraries\<close>

datatype rmpv_value = ValueNil | ValueBinary bytes | ValueString bytes | ValueNumber rat | ValueOther

record rmp =
  rm_write_uint :: "nat \<Rightarrow> bytes"
  rm_write_bin :: "bytes \<Rightarrow> bytes"
  rm_write_nil :: bytes
  rm_write_array_len :: "nat \<Rightarrow> bytes"
  rm_write_f64 :: "rat \<Rightarrow> bytes"
  rm_read_map_len :: "bytes \<Rightarrow> (nat \<times> bytes) option"
  rm_read_array_len :: "bytes \<Rightarrow> (nat \<times> bytes) option"
  rm_read_int :: "bytes \<Rightarrow> (nat \<times> bytes) option"
  rm_read_bin_len :: "bytes \<Rightarrow> (nat \<times> bytes) option"
  rm_read_value :: "bytes \<Rightarrow> (rmpv_value \<times> bytes) option"

text \<open>
  What is written is read back, whatever follows it; a map of less than sixteen entries is announced
  by one byte, nil is one byte, and no binary value starts with that byte.
\<close>

definition rmp_ok :: "rmp \<Rightarrow> bool" where
  "rmp_ok R \<longleftrightarrow>
     (\<forall>n rest. n < 2 ^ 64 \<longrightarrow> rm_read_int R (rm_write_uint R n @ rest) = Some (n, rest)) \<and>
     (\<forall>d rest. length d < 2 ^ 32 \<longrightarrow> rm_read_bin_len R (rm_write_bin R d @ rest) = Some (length d, d @ rest)) \<and>
     (\<forall>n rest. n < 16 \<longrightarrow> rm_read_map_len R (word_of_nat (128 + n) # rest) = Some (n, rest)) \<and>
     (\<forall>n rest. n < 2 ^ 32 \<longrightarrow> rm_read_array_len R (rm_write_array_len R n @ rest) = Some (n, rest)) \<and>
     rm_write_nil R = [0xc0] \<and>
     (\<forall>d. rm_write_bin R d \<noteq> [] \<and> hd (rm_write_bin R d) \<noteq> 0xc0)"

text \<open>Reading a value back as one of the dynamic type, for binary values and for the double that \<open>r\<close> stands for.\<close>

definition rmp_value_ok :: "rmp \<Rightarrow> rat \<Rightarrow> bool" where
  "rmp_value_ok R r \<longleftrightarrow>
     (\<forall>d rest. length d < 2 ^ 32 \<longrightarrow> rm_read_value R (rm_write_bin R d @ rest) = Some (ValueBinary d, rest)) \<and>
     (\<forall>rest. rm_read_value R (rm_write_f64 R r @ rest) = Some (ValueNumber r, rest))"

text \<open>
  The bzip2 coder: the compressed form, and for decoding the chunks that the decoder hands out, with
  the mark of an error after them.
\<close>

record bz2 =
  bz_compress :: "bytes \<Rightarrow> bytes option"
  bz_decode :: "bytes \<Rightarrow> bytes list \<times> bool"

definition bz2_ok :: "bz2 \<Rightarrow> bool" where
  "bz2_ok B \<longleftrightarrow> (\<forall>d c. bz_compress B d = Some c \<longrightarrow> (\<exists>chunks. bz_decode B c = (chunks, False) \<and> concat chunks = d))"

record res_env =
  re_crypto :: crypto
  re_now :: rat
  re_iv :: "nat \<Rightarrow> bytes"
  re_rand :: "nat \<Rightarrow> rns_hash"
  re_rmp :: rmp
  re_bz2 :: "bz2 option"

abbreviation re_sha :: "res_env \<Rightarrow> sha" where
  "re_sha E \<equiv> cr_sha (re_crypto E)"

section \<open>Constants\<close>

definition RES_WINDOW :: nat where "RES_WINDOW = 4"
definition RES_WINDOW_MIN :: nat where "RES_WINDOW_MIN = 2"
definition RES_WINDOW_MAX_SLOW :: nat where "RES_WINDOW_MAX_SLOW = 10"
definition RES_WINDOW_MAX_VERY_SLOW :: nat where "RES_WINDOW_MAX_VERY_SLOW = 4"
definition RES_WINDOW_MAX_FAST :: nat where "RES_WINDOW_MAX_FAST = 75"
definition RES_WINDOW_MAX :: nat where "RES_WINDOW_MAX = RES_WINDOW_MAX_FAST"
definition FAST_RATE_THRESHOLD :: nat where "FAST_RATE_THRESHOLD = RES_WINDOW_MAX_SLOW - RES_WINDOW - 2"
definition VERY_SLOW_RATE_THRESHOLD :: nat where "VERY_SLOW_RATE_THRESHOLD = 2"
definition RATE_FAST :: rat where "RATE_FAST = 50 * 1000 / 8"
definition RATE_VERY_SLOW :: rat where "RATE_VERY_SLOW = 2 * 1000 / 8"
definition RES_WINDOW_FLEXIBILITY :: nat where "RES_WINDOW_FLEXIBILITY = 4"
definition MAPHASH_LEN :: nat where "MAPHASH_LEN = 4"
definition RES_SDU :: nat where "RES_SDU = PACKET_PROTOCOL_MDU"
definition RANDOM_HASH_SIZE :: nat where "RANDOM_HASH_SIZE = 4"
definition MAX_EFFICIENT_SIZE :: nat where "MAX_EFFICIENT_SIZE = 1024 * 1024 - 1"
definition RESPONSE_MAX_GRACE_TIME :: rat where "RESPONSE_MAX_GRACE_TIME = 10"
definition METADATA_MAX_SIZE :: nat where "METADATA_MAX_SIZE = 16 * 1024 * 1024 - 1"
definition AUTO_COMPRESS_MAX_SIZE :: nat where "AUTO_COMPRESS_MAX_SIZE = 64 * 1024 * 1024"
definition PART_TIMEOUT_FACTOR :: rat where "PART_TIMEOUT_FACTOR = 4"
definition PART_TIMEOUT_FACTOR_AFTER_RTT :: rat where "PART_TIMEOUT_FACTOR_AFTER_RTT = 2"
definition PROOF_TIMEOUT_FACTOR :: rat where "PROOF_TIMEOUT_FACTOR = 3"
definition HMU_WAIT_FACTOR :: rat where "HMU_WAIT_FACTOR = 7 / 2"
definition RES_MAX_RETRIES :: nat where "RES_MAX_RETRIES = 16"
definition MAX_ADV_RETRIES :: nat where "MAX_ADV_RETRIES = 4"
definition SENDER_GRACE_TIME :: rat where "SENDER_GRACE_TIME = 10"
definition PROCESSING_GRACE :: rat where "PROCESSING_GRACE = 1"
definition RETRY_GRACE_TIME :: rat where "RETRY_GRACE_TIME = 1 / 4"
definition PER_RETRY_DELAY :: rat where "PER_RETRY_DELAY = 1 / 2"
definition RES_TRAFFIC_TIMEOUT_FACTOR :: rat where "RES_TRAFFIC_TIMEOUT_FACTOR = 6"
definition HASHMAP_IS_NOT_EXHAUSTED :: u8 where "HASHMAP_IS_NOT_EXHAUSTED = 0x00"
definition HASHMAP_IS_EXHAUSTED :: u8 where "HASHMAP_IS_EXHAUSTED = 0xff"

definition ADV_OVERHEAD :: nat where "ADV_OVERHEAD = 134"
definition HASHMAP_MAX_LEN :: nat where "HASHMAP_MAX_LEN = (LINK_MDU - ADV_OVERHEAD) div MAPHASH_LEN"
definition COLLISION_GUARD_SIZE :: nat where "COLLISION_GUARD_SIZE = 2 * RES_WINDOW_MAX + HASHMAP_MAX_LEN"

lemmas resource_constants =
  RES_WINDOW_def RES_WINDOW_MIN_def RES_WINDOW_MAX_SLOW_def RES_WINDOW_MAX_VERY_SLOW_def RES_WINDOW_MAX_FAST_def
  RES_WINDOW_MAX_def FAST_RATE_THRESHOLD_def VERY_SLOW_RATE_THRESHOLD_def RATE_FAST_def RATE_VERY_SLOW_def
  RES_WINDOW_FLEXIBILITY_def MAPHASH_LEN_def RES_SDU_def RANDOM_HASH_SIZE_def RES_MAX_RETRIES_def MAX_ADV_RETRIES_def
  ADV_OVERHEAD_def HASHMAP_MAX_LEN_def COLLISION_GUARD_SIZE_def

definition FLAG_ENCRYPTED :: u8 where "FLAG_ENCRYPTED = 0x01"
definition FLAG_COMPRESSED :: u8 where "FLAG_COMPRESSED = 0x02"
definition FLAG_SPLIT :: u8 where "FLAG_SPLIT = 0x04"
definition FLAG_IS_REQUEST :: u8 where "FLAG_IS_REQUEST = 0x08"
definition FLAG_IS_RESPONSE :: u8 where "FLAG_IS_RESPONSE = 0x10"
definition FLAG_HAS_METADATA :: u8 where "FLAG_HAS_METADATA = 0x20"

lemmas resource_flags =
  FLAG_ENCRYPTED_def FLAG_COMPRESSED_def FLAG_SPLIT_def FLAG_IS_REQUEST_def FLAG_IS_RESPONSE_def FLAG_HAS_METADATA_def

datatype resource_status = StatusNone | Queued | Advertised | Transferring | AwaitingProof | Assembling
  | Complete | Failed | Corrupt | Rejected

definition is_concluded :: "resource_status \<Rightarrow> bool" where
  "is_concluded s \<longleftrightarrow> s \<in> {Complete, Failed, Corrupt, Rejected}"

section \<open>Advertisements\<close>

record resource_advertisement =
  ra_transfer_size :: nat
  ra_data_size :: nat
  ra_parts :: nat
  ra_hash :: rns_hash
  ra_random_hash :: bytes
  ra_original_hash :: rns_hash
  ra_segment_index :: nat
  ra_total_segments :: nat
  ra_request_id :: "address_hash option"
  ra_flags :: u8
  ra_hashmap :: bytes

definition ra_encrypted :: "resource_advertisement \<Rightarrow> bool" where "ra_encrypted a \<longleftrightarrow> ra_flags a AND FLAG_ENCRYPTED \<noteq> 0"
definition ra_compressed :: "resource_advertisement \<Rightarrow> bool" where "ra_compressed a \<longleftrightarrow> ra_flags a AND FLAG_COMPRESSED \<noteq> 0"
definition ra_split :: "resource_advertisement \<Rightarrow> bool" where "ra_split a \<longleftrightarrow> ra_flags a AND FLAG_SPLIT \<noteq> 0"
definition ra_is_request :: "resource_advertisement \<Rightarrow> bool" where
  "ra_is_request a \<longleftrightarrow> ra_request_id a \<noteq> None \<and> ra_flags a AND FLAG_IS_REQUEST \<noteq> 0"
definition ra_is_response :: "resource_advertisement \<Rightarrow> bool" where
  "ra_is_response a \<longleftrightarrow> ra_request_id a \<noteq> None \<and> ra_flags a AND FLAG_IS_RESPONSE \<noteq> 0"
definition ra_has_metadata :: "resource_advertisement \<Rightarrow> bool" where
  "ra_has_metadata a \<longleftrightarrow> ra_flags a AND FLAG_HAS_METADATA \<noteq> 0"

lemmas ra_flag_defs = ra_encrypted_def ra_compressed_def ra_split_def ra_is_request_def ra_is_response_def ra_has_metadata_def

text \<open>A field name: a string of one byte.\<close>

definition adv_key :: "char \<Rightarrow> bytes" where
  "adv_key k = [0xa0 OR 1, of_char k]"

definition adv_pack :: "rmp \<Rightarrow> resource_advertisement \<Rightarrow> bytes" where
  "adv_pack R a =
     (0x80 OR 11)
     # adv_key CHR ''t'' @ rm_write_uint R (ra_transfer_size a)
     @ adv_key CHR ''d'' @ rm_write_uint R (ra_data_size a)
     @ adv_key CHR ''n'' @ rm_write_uint R (ra_parts a)
     @ adv_key CHR ''h'' @ rm_write_bin R (hash_bytes (ra_hash a))
     @ adv_key CHR ''r'' @ rm_write_bin R (ra_random_hash a)
     @ adv_key CHR ''o'' @ rm_write_bin R (hash_bytes (ra_original_hash a))
     @ adv_key CHR ''i'' @ rm_write_uint R (ra_segment_index a)
     @ adv_key CHR ''l'' @ rm_write_uint R (ra_total_segments a)
     @ adv_key CHR ''q'' @ (case ra_request_id a of Some i \<Rightarrow> rm_write_bin R (addr_bytes i) | None \<Rightarrow> rm_write_nil R)
     @ adv_key CHR ''f'' @ rm_write_uint R (unat (ra_flags a))
     @ adv_key CHR ''m'' @ rm_write_bin R (ra_hashmap a)"

definition read_short_key :: "bytes \<Rightarrow> (u8 \<times> bytes) option" where
  "read_short_key cursor = (case cursor of
       [] \<Rightarrow> None
     | b # rest \<Rightarrow>
         if drop_bit 5 b = 0b101
         then if b AND 0x1f \<noteq> 1 \<or> rest = [] then None else Some (hd rest, tl rest)
         else None)"

definition peek_nil :: "bytes \<Rightarrow> bool option" where
  "peek_nil cursor = (case cursor of [] \<Rightarrow> None | b # _ \<Rightarrow> Some (b = 0xc0))"

definition read_bin :: "rmp \<Rightarrow> bytes \<Rightarrow> (bytes \<times> bytes) option" where
  "read_bin R cursor = do {
     (len, cursor) \<leftarrow> rm_read_bin_len R cursor;
     if length cursor < len then None else Some (take len cursor, drop len cursor) }"

definition read_sized_bin :: "rmp \<Rightarrow> nat \<Rightarrow> bytes \<Rightarrow> (bytes \<times> bytes) option" where
  "read_sized_bin R n cursor = do {
     (d, cursor) \<leftarrow> read_bin R cursor;
     if length d \<noteq> n then None else Some (d, cursor) }"

text \<open>The fields collected while the entries of the map are read.\<close>

record adv_fields =
  af_transfer_size :: "nat option"
  af_data_size :: "nat option"
  af_parts :: "nat option"
  af_hash :: "bytes option"
  af_random_hash :: "bytes option"
  af_original_hash :: "bytes option"
  af_segment_index :: "nat option"
  af_total_segments :: "nat option"
  af_request_id :: "bytes option"
  af_flags :: "u8 option"
  af_hashmap :: "bytes option"

definition adv_fields_none :: adv_fields where
  "adv_fields_none = \<lparr>af_transfer_size = None, af_data_size = None, af_parts = None, af_hash = None,
     af_random_hash = None, af_original_hash = None, af_segment_index = None, af_total_segments = None,
     af_request_id = None, af_flags = None, af_hashmap = None\<rparr>"

definition read_entry :: "rmp \<Rightarrow> adv_fields \<times> bytes \<Rightarrow> (adv_fields \<times> bytes) option" where
  "read_entry R = (\<lambda>(f, cursor). do {
     (k, cursor) \<leftarrow> read_short_key cursor;
     if k = of_char CHR ''t'' then map_option (apfst (\<lambda>v. f\<lparr>af_transfer_size := Some v\<rparr>)) (rm_read_int R cursor)
     else if k = of_char CHR ''d'' then map_option (apfst (\<lambda>v. f\<lparr>af_data_size := Some v\<rparr>)) (rm_read_int R cursor)
     else if k = of_char CHR ''n'' then map_option (apfst (\<lambda>v. f\<lparr>af_parts := Some v\<rparr>)) (rm_read_int R cursor)
     else if k = of_char CHR ''h'' then map_option (apfst (\<lambda>v. f\<lparr>af_hash := Some v\<rparr>)) (read_sized_bin R HASH_SIZE cursor)
     else if k = of_char CHR ''r'' then map_option (apfst (\<lambda>v. f\<lparr>af_random_hash := Some v\<rparr>)) (read_sized_bin R RANDOM_HASH_SIZE cursor)
     else if k = of_char CHR ''o'' then map_option (apfst (\<lambda>v. f\<lparr>af_original_hash := Some v\<rparr>)) (read_sized_bin R HASH_SIZE cursor)
     else if k = of_char CHR ''i'' then map_option (apfst (\<lambda>v. f\<lparr>af_segment_index := Some v\<rparr>)) (rm_read_int R cursor)
     else if k = of_char CHR ''l'' then map_option (apfst (\<lambda>v. f\<lparr>af_total_segments := Some v\<rparr>)) (rm_read_int R cursor)
     else if k = of_char CHR ''q'' then do {
       is_nil \<leftarrow> peek_nil cursor;
       if is_nil then Some (f\<lparr>af_request_id := None\<rparr>, tl cursor)
       else map_option (apfst (\<lambda>v. f\<lparr>af_request_id := Some v\<rparr>)) (read_sized_bin R 16 cursor) }
     else if k = of_char CHR ''f'' then map_option (apfst (\<lambda>v. f\<lparr>af_flags := Some (word_of_nat v)\<rparr>)) (rm_read_int R cursor)
     else if k = of_char CHR ''m'' then map_option (apfst (\<lambda>v. f\<lparr>af_hashmap := Some v\<rparr>)) (read_bin R cursor)
     else None })"

primrec read_entries :: "rmp \<Rightarrow> nat \<Rightarrow> adv_fields \<times> bytes \<Rightarrow> (adv_fields \<times> bytes) option" where
  "read_entries R 0 s = Some s"
| "read_entries R (Suc n) s = Option.bind (read_entry R s) (read_entries R n)"

text \<open>Every refusal of the decoder is the same error.\<close>

definition adv_unpack_option :: "rmp \<Rightarrow> bytes \<Rightarrow> resource_advertisement option" where
  "adv_unpack_option R data = do {
     (entries, cursor) \<leftarrow> rm_read_map_len R data;
     if entries \<noteq> 11 then None else do {
       (f, _) \<leftarrow> read_entries R entries (adv_fields_none, cursor);
       hash \<leftarrow> af_hash f;
       original_hash \<leftarrow> af_original_hash f;
       transfer_size \<leftarrow> af_transfer_size f;
       random_hash \<leftarrow> af_random_hash f;
       if transfer_size > MAX_EFFICIENT_SIZE * 3 then None else do {
         data_size \<leftarrow> af_data_size f;
         parts \<leftarrow> af_parts f;
         Some \<lparr>ra_transfer_size = transfer_size, ra_data_size = data_size, ra_parts = parts, ra_hash = Hash hash,
           ra_random_hash = random_hash, ra_original_hash = Hash original_hash,
           ra_segment_index = max 1 (case af_segment_index f of Some i \<Rightarrow> i | None \<Rightarrow> 1),
           ra_total_segments = max 1 (case af_total_segments f of Some i \<Rightarrow> i | None \<Rightarrow> 1),
           ra_request_id = map_option AddressHash (af_request_id f),
           ra_flags = (case af_flags f of Some v \<Rightarrow> v | None \<Rightarrow> 0),
           ra_hashmap = (case af_hashmap f of Some m \<Rightarrow> m | None \<Rightarrow> [])\<rparr> } } }"

definition adv_unpack :: "rmp \<Rightarrow> bytes \<Rightarrow> resource_advertisement result" where
  "adv_unpack R data = (case adv_unpack_option R data of Some a \<Rightarrow> Inr a | None \<Rightarrow> Inl PacketError)"

definition adv_ok :: "resource_advertisement \<Rightarrow> bool" where
  "adv_ok a \<longleftrightarrow> ra_transfer_size a \<le> MAX_EFFICIENT_SIZE * 3 \<and> ra_data_size a < 2 ^ 64 \<and> ra_parts a < 2 ^ 64
     \<and> hash_ok (ra_hash a) \<and> hash_ok (ra_original_hash a) \<and> length (ra_random_hash a) = RANDOM_HASH_SIZE
     \<and> 0 < ra_segment_index a \<and> ra_segment_index a < 2 ^ 64 \<and> 0 < ra_total_segments a \<and> ra_total_segments a < 2 ^ 64
     \<and> (\<forall>i. ra_request_id a = Some i \<longrightarrow> addr_ok i) \<and> length (ra_hashmap a) < 2 ^ 32"

section \<open>Options, compression and map hashes\<close>

record resource_options =
  ro_auto_compress :: bool
  ro_auto_compress_limit :: "nat option"
  ro_metadata :: "bytes option"
  ro_timeout :: "rat option"
  ro_request_id :: "address_hash option"
  ro_is_response :: bool

definition resource_options_default :: resource_options where
  "resource_options_default = \<lparr>ro_auto_compress = True, ro_auto_compress_limit = None, ro_metadata = None,
     ro_timeout = None, ro_request_id = None, ro_is_response = False\<rparr>"

definition should_auto_compress :: "resource_options \<Rightarrow> nat \<Rightarrow> bool" where
  "should_auto_compress opts original_len \<longleftrightarrow> ro_auto_compress opts
     \<and> original_len \<le> (case ro_auto_compress_limit opts of Some limit \<Rightarrow> limit | None \<Rightarrow> AUTO_COMPRESS_MAX_SIZE)"

definition USIZE_MAX :: nat where "USIZE_MAX = 2 ^ 64 - 1"

definition maybe_compress :: "bz2 option \<Rightarrow> bytes \<Rightarrow> bool \<Rightarrow> nat \<Rightarrow> bytes \<times> bool" where
  "maybe_compress bz data enabled max_size =
     (if \<not> enabled \<or> data = [] \<or> length data > max_size then (data, False)
      else case bz of
             None \<Rightarrow> (data, False)
           | Some B \<Rightarrow> (case bz_compress B data of
                 Some compressed \<Rightarrow> if length compressed < length data then (compressed, True) else (data, False)
               | None \<Rightarrow> (data, False)))"

fun decompress_chunks :: "nat \<Rightarrow> bytes \<Rightarrow> bytes list \<Rightarrow> bytes result" where
  "decompress_chunks max_size out [] = Inr out"
| "decompress_chunks max_size out (chunk # chunks) =
     (if length out + length chunk > max_size then Inl (ResourceMsg ''decompressed resource exceeded maximum size'')
      else decompress_chunks max_size (out @ chunk) chunks)"

definition decompress :: "bz2 option \<Rightarrow> bytes \<Rightarrow> nat \<Rightarrow> bytes result" where
  "decompress bz data max_size = (case bz of
       None \<Rightarrow> Inl (ResourceMsg ''bz2 support not compiled in'')
     | Some B \<Rightarrow>
         let (chunks, broken) = bz_decode B data
         in case decompress_chunks max_size [] chunks of
              Inl e \<Rightarrow> Inl e
            | Inr out \<Rightarrow> if broken then Inl (ResourceMsg ''bz2 decompression failed'') else Inr out)"

definition map_hash :: "sha \<Rightarrow> bytes \<Rightarrow> bytes \<Rightarrow> bytes" where
  "map_hash sha data random_hash = take MAPHASH_LEN (sha (data @ random_hash))"

definition as_secs_f64 :: "nanos \<Rightarrow> rat" where
  "as_secs_f64 d = of_nat d / 1000000000"

section \<open>Where segments come from\<close>

text \<open>
  A seekable stream is the function that one read call is: position and size of the buffer give the
  bytes read, or nothing for an input error. A read never gives more than the buffer holds.
\<close>

datatype payload_source =
    MemorySource bytes
  | StreamSource "nat \<Rightarrow> nat \<Rightarrow> bytes option" bytes nat

function read_stream :: "(nat \<Rightarrow> nat \<Rightarrow> bytes option) \<Rightarrow> nat \<Rightarrow> nat \<Rightarrow> bytes \<Rightarrow> bytes result" where
  "read_stream rd pos remaining out =
     (if remaining = 0 then Inr out
      else
        let want = min remaining (16 * 1024)
        in case rd pos want of
             None \<Rightarrow> Inl (ResourceMsg ''could not read resource stream'')
           | Some chunk \<Rightarrow>
               let chunk = take want chunk
               in if chunk = [] then Inl (ResourceMsg ''resource stream ended early'')
                  else read_stream rd (pos + length chunk) (remaining - length chunk) (out @ chunk))"
  by pat_completeness auto
termination
  by (relation "measure (\<lambda>(rd, pos, remaining, out). remaining)") auto

declare read_stream.simps [simp del]

definition read_range :: "nat \<Rightarrow> nat \<Rightarrow> payload_source \<Rightarrow> bytes result" where
  "read_range start stop source =
     (if start > stop then Inl (ResourceMsg ''resource segment out of range'')
      else case source of
             MemorySource buf \<Rightarrow>
               if stop > length buf then Inl (ResourceMsg ''resource segment out of range'')
               else Inr (take (stop - start) (drop start buf))
           | StreamSource rd metadata len \<Rightarrow>
               let meta_len = length metadata;
                   out = (if start < meta_len then take (min stop meta_len - start) (drop start metadata) else [])
               in if stop > meta_len
                  then
                    let file_start = start - meta_len; file_end = stop - meta_len
                    in if file_start > len \<or> file_end > len then Inl (ResourceMsg ''resource segment out of range'')
                       else read_stream rd file_start (file_end - file_start) out
                  else Inr out)"

text \<open>The length prefix has three bytes: the first of the four bytes of the length is left out.\<close>

definition metadata_prefix :: "resource_options \<Rightarrow> (bytes \<times> bool \<times> nat) result" where
  "metadata_prefix opts = (case ro_metadata opts of
       None \<Rightarrow> Inr ([], False, 0)
     | Some packed \<Rightarrow>
         if length packed > METADATA_MAX_SIZE then Inl (ResourceMsg ''resource metadata size exceeded'')
         else let blob = be_encode 3 (length packed) @ packed in Inr (blob, True, length blob))"

record staged_source =
  sg_segment_data :: bytes
  sg_source :: payload_source
  sg_input_len :: nat
  sg_total_size :: nat
  sg_total_segments :: nat
  sg_has_metadata :: bool
  sg_metadata_size :: nat

definition segment_range :: "nat \<Rightarrow> nat \<Rightarrow> nat \<times> nat" where
  "segment_range total_size segment_index =
     ((segment_index - 1) * MAX_EFFICIENT_SIZE, min (segment_index * MAX_EFFICIENT_SIZE) total_size)"

definition stage_source :: "payload_source \<Rightarrow> nat \<Rightarrow> nat \<Rightarrow> bool \<Rightarrow> nat \<Rightarrow> staged_source result" where
  "stage_source source input_len total_size has_metadata metadata_size =
     (let total_segments = (if total_size \<le> MAX_EFFICIENT_SIZE then 1 else (total_size - 1) div MAX_EFFICIENT_SIZE + 1);
          (start, stop) = segment_range total_size 1
      in case read_range start stop source of
           Inl e \<Rightarrow> Inl e
         | Inr segment_data \<Rightarrow>
             Inr \<lparr>sg_segment_data = segment_data, sg_source = source, sg_input_len = input_len,
               sg_total_size = total_size, sg_total_segments = total_segments, sg_has_metadata = has_metadata,
               sg_metadata_size = metadata_size\<rparr>)"

definition stage_bytes :: "bytes \<Rightarrow> resource_options \<Rightarrow> staged_source result" where
  "stage_bytes data opts = (case metadata_prefix opts of
       Inl e \<Rightarrow> Inl e
     | Inr (blob, has_metadata, metadata_size) \<Rightarrow>
         let stream = blob @ data
         in stage_source (MemorySource stream) (length data) (length stream) has_metadata metadata_size)"

text \<open>\<open>end_pos\<close> is what seeking to the end of the reader gives.\<close>

definition stage_seekable ::
  "(nat \<Rightarrow> nat \<Rightarrow> bytes option) \<Rightarrow> nat option \<Rightarrow> resource_options \<Rightarrow> staged_source result" where
  "stage_seekable rd end_pos opts = (case metadata_prefix opts of
       Inl e \<Rightarrow> Inl e
     | Inr (blob, has_metadata, metadata_size) \<Rightarrow>
         (case end_pos of
            None \<Rightarrow> Inl (ResourceMsg ''could not read resource stream'')
          | Some input_len \<Rightarrow>
              stage_source (StreamSource rd blob input_len) input_len (metadata_size + input_len) has_metadata metadata_size))"

section \<open>The sender\<close>

text \<open>
  The request list, the prepared next segment and the mark to advertise it are left out: the first
  and the last are never read, and the manager takes a prepared segment in the call that prepares it.
\<close>

record outgoing_resource =
  og_link_id :: address_hash
  og_status :: resource_status
  og_hash :: rns_hash
  og_truncated_hash :: address_hash
  og_expected_proof :: rns_hash
  og_original_hash :: rns_hash
  og_random_hash :: bytes
  og_size :: nat
  og_total_size :: nat
  og_compressed :: bool
  og_encrypted :: bool
  og_split :: bool
  og_has_metadata :: bool
  og_metadata_size :: nat
  og_segment_index :: nat
  og_total_segments :: nat
  og_request_id :: "address_hash option"
  og_is_response :: bool
  og_auto_compress :: bool
  og_auto_compress_limit :: "nat option"
  og_input_len :: nat
  og_sdu :: nat
  og_parts :: "packet list"
  og_part_hashes :: "bytes list"
  og_part_sent :: "bool list"
  og_hashmap :: bytes
  og_sent_parts :: nat
  og_receiver_min_consecutive_height :: nat
  og_rtt :: "rat option"
  og_adv_sent :: "rat option"
  og_last_activity :: rat
  og_last_part_sent :: rat
  og_retries_left :: nat
  og_max_retries :: nat
  og_timeout :: rat
  og_timeout_factor :: rat
  og_sender_grace_time :: rat
  og_source :: "payload_source option"

definition resource_sdu :: "link \<Rightarrow> nat" where
  "resource_sdu l = (if lk_mtu l > 0 then link_sdu l else RES_SDU)"

definition part_chunk :: "nat \<Rightarrow> nat \<Rightarrow> bytes \<Rightarrow> nat \<Rightarrow> bytes" where
  "part_chunk sdu full_len encrypted i = take (min ((i + 1) * sdu) full_len - i * sdu) (drop (i * sdu) encrypted)"

definition part_chunks :: "nat \<Rightarrow> nat \<Rightarrow> bytes \<Rightarrow> bytes list" where
  "part_chunks sdu full_len encrypted = map (part_chunk sdu full_len encrypted) [0..<(full_len + sdu - 1) div sdu]"

text \<open>
  One pass over the parts: the part packets with their map hashes, nothing when a map hash collides
  with one of the last ones, or the error of a link that cannot send.
\<close>

fun map_parts :: "sha \<Rightarrow> link \<Rightarrow> bytes \<Rightarrow> bytes list \<Rightarrow> bytes list \<Rightarrow> (packet \<times> bytes) list option result" where
  "map_parts sha l random_hash guard [] = Inr (Some [])"
| "map_parts sha l random_hash guard (chunk # chunks) =
     (let mh = map_hash sha chunk random_hash
      in if mh \<in> set guard then Inr None
         else
           let guard = guard @ [mh];
               guard = (if length guard > COLLISION_GUARD_SIZE then tl guard else guard)
           in case raw_packet chunk Data Ctx_Resource l of
                Inl e \<Rightarrow> Inl e
              | Inr p \<Rightarrow> (case map_parts sha l random_hash guard chunks of
                    Inr (Some ps) \<Rightarrow> Inr (Some ((p, mh) # ps))
                  | r \<Rightarrow> r))"

text \<open>
  The passes are repeated with new random bytes until one has no collision. The value \<open>None\<close> is the
  run that never ends, or the panic of the encryption.
\<close>

partial_function (option) hashmap_loop ::
  "res_env \<Rightarrow> link \<Rightarrow> nat \<Rightarrow> nat \<Rightarrow> bytes \<Rightarrow> nat \<Rightarrow> bytes \<Rightarrow> bytes
     \<Rightarrow> (((packet \<times> bytes) list \<times> bytes) result \<times> nat) option" where
  "hashmap_loop E l sdu full_len plaintext n encrypted random_hash =
     (case map_parts (re_sha E) l random_hash [] (part_chunks sdu full_len encrypted) of
        Inl e \<Rightarrow> Some (Inl e, n)
      | Inr (Some ps) \<Rightarrow> Some (Inr (ps, random_hash), n)
      | Inr None \<Rightarrow>
          let new_random = take RANDOM_HASH_SIZE (hash_bytes (re_rand E n));
              plaintext = new_random @ drop RANDOM_HASH_SIZE plaintext
          in Option.bind (encrypt_alloc (re_crypto E) (re_iv E n) plaintext [] l) (\<lambda>r.
               case r of
                 Inl e \<Rightarrow> Some (Inl e, n + 1)
               | Inr encrypted \<Rightarrow> hashmap_loop E l sdu full_len plaintext (n + 1) encrypted new_random))"

text \<open>
  One segment. An error gives the source back. A part size of zero panics in the division.
\<close>

definition from_segment_bytes ::
  "res_env \<Rightarrow> nat \<Rightarrow> bytes \<Rightarrow> payload_source \<Rightarrow> nat \<Rightarrow> nat \<Rightarrow> nat \<Rightarrow> nat \<Rightarrow> rns_hash option \<Rightarrow> link \<Rightarrow> resource_options
     \<Rightarrow> bool \<Rightarrow> nat \<Rightarrow> (((rns_error \<times> payload_source) + outgoing_resource) \<times> nat) option" where
  "from_segment_bytes E n segment_data source input_len total_size total_segments segment_index original_hash l opts
       has_metadata metadata_size =
     (let sha = re_sha E;
          (prepared, compressed) = maybe_compress (re_bz2 E) segment_data (should_auto_compress opts input_len) USIZE_MAX;
          random_hash = take RANDOM_HASH_SIZE (hash_bytes (re_rand E n));
          plaintext = random_hash @ prepared;
          sdu = resource_sdu l
      in do {
        r \<leftarrow> encrypt_alloc (re_crypto E) (re_iv E n) plaintext [] l;
        case r of
          Inl e \<Rightarrow> Some (Inl (e, source), n + 1)
        | Inr encrypted \<Rightarrow>
            if sdu = 0 then None
            else do {
              (r, n) \<leftarrow> hashmap_loop E l sdu (length encrypted) plaintext (n + 1) encrypted random_hash;
              case r of
                Inl e \<Rightarrow> Some (Inl (e, source), n)
              | Inr (ps, random_hash) \<Rightarrow>
                  let hash = Hash (sha (segment_data @ random_hash));
                      rtt = as_secs_f64 (lk_rtt l)
                  in Some (Inr
                    \<lparr>og_link_id = lk_id l, og_status = StatusNone, og_hash = hash,
                     og_truncated_hash = address_hash_new_from_hash hash,
                     og_expected_proof = Hash (sha (segment_data @ hash_bytes hash)),
                     og_original_hash = (case original_hash of Some h \<Rightarrow> h | None \<Rightarrow> hash),
                     og_random_hash = random_hash, og_size = length encrypted, og_total_size = total_size,
                     og_compressed = compressed, og_encrypted = True, og_split = (total_segments > 1),
                     og_has_metadata = has_metadata, og_metadata_size = metadata_size,
                     og_segment_index = segment_index, og_total_segments = total_segments,
                     og_request_id = ro_request_id opts, og_is_response = ro_is_response opts,
                     og_auto_compress = ro_auto_compress opts, og_auto_compress_limit = ro_auto_compress_limit opts,
                     og_input_len = input_len, og_sdu = sdu,
                     og_parts = map fst ps, og_part_hashes = map snd ps, og_part_sent = replicate (length ps) False,
                     og_hashmap = concat (map snd ps), og_sent_parts = 0, og_receiver_min_consecutive_height = 0,
                     og_rtt = None, og_adv_sent = None, og_last_activity = re_now E, og_last_part_sent = 0,
                     og_retries_left = MAX_ADV_RETRIES, og_max_retries = RES_MAX_RETRIES,
                     og_timeout = (case ro_timeout opts of Some t \<Rightarrow> t
                       | None \<Rightarrow> rtt * RES_TRAFFIC_TIMEOUT_FACTOR + RESPONSE_MAX_GRACE_TIME * (9 / 8)),
                     og_timeout_factor = RES_TRAFFIC_TIMEOUT_FACTOR, og_sender_grace_time = SENDER_GRACE_TIME,
                     og_source = Some source\<rparr>, n) } })"

definition finish_staged ::
  "res_env \<Rightarrow> nat \<Rightarrow> staged_source \<Rightarrow> link \<Rightarrow> resource_options \<Rightarrow> (outgoing_resource result \<times> nat) option" where
  "finish_staged E n s l opts = do {
     (r, n) \<leftarrow> from_segment_bytes E n (sg_segment_data s) (sg_source s) (sg_input_len s) (sg_total_size s)
       (sg_total_segments s) 1 None l opts (sg_has_metadata s) (sg_metadata_size s);
     Some (case r of Inl (e, _) \<Rightarrow> Inl e | Inr og \<Rightarrow> Inr og, n) }"

definition outgoing_new ::
  "res_env \<Rightarrow> nat \<Rightarrow> bytes \<Rightarrow> link \<Rightarrow> resource_options \<Rightarrow> (outgoing_resource result \<times> nat) option" where
  "outgoing_new E n data l opts = (case stage_bytes data opts of
       Inl e \<Rightarrow> Some (Inl e, n) | Inr staged \<Rightarrow> finish_staged E n staged l opts)"

definition og_flags :: "outgoing_resource \<Rightarrow> u8" where
  "og_flags og =
     (if og_encrypted og then FLAG_ENCRYPTED else 0) OR (if og_compressed og then FLAG_COMPRESSED else 0)
     OR (if og_split og then FLAG_SPLIT else 0) OR (if og_has_metadata og then FLAG_HAS_METADATA else 0)
     OR (if og_request_id og \<noteq> None then if og_is_response og then FLAG_IS_RESPONSE else FLAG_IS_REQUEST else 0)"

definition og_advertisement :: "outgoing_resource \<Rightarrow> resource_advertisement" where
  "og_advertisement og =
     \<lparr>ra_transfer_size = og_size og, ra_data_size = og_total_size og, ra_parts = length (og_parts og),
      ra_hash = og_hash og, ra_random_hash = og_random_hash og, ra_original_hash = og_original_hash og,
      ra_segment_index = og_segment_index og, ra_total_segments = og_total_segments og,
      ra_request_id = og_request_id og, ra_flags = og_flags og,
      ra_hashmap = concat (take HASHMAP_MAX_LEN (og_part_hashes og))\<rparr>"

section \<open>Operations of the sender\<close>

text \<open>The packets that a step hands over are a list beside the new state and the number of the next draw.\<close>

definition resend_advertisement ::
  "res_env \<Rightarrow> nat \<Rightarrow> link \<Rightarrow> outgoing_resource \<Rightarrow> (outgoing_resource \<times> packet list \<times> nat) option" where
  "resend_advertisement E n l og = do {
     r \<leftarrow> context_packet (re_crypto E) (re_iv E n) (adv_pack (re_rmp E) (og_advertisement og)) Ctx_ResourceAdvertisement l;
     Some (case r of
         Inl _ \<Rightarrow> (og, [], n + 1)
       | Inr p \<Rightarrow> (og\<lparr>og_adv_sent := Some (re_now E), og_last_activity := re_now E\<rparr>, [p], n + 1)) }"

definition og_advertise ::
  "res_env \<Rightarrow> nat \<Rightarrow> link \<Rightarrow> outgoing_resource \<Rightarrow> (unit result \<times> outgoing_resource \<times> packet list \<times> nat) option" where
  "og_advertise E n l og = do {
     r \<leftarrow> context_packet (re_crypto E) (re_iv E n) (adv_pack (re_rmp E) (og_advertisement og)) Ctx_ResourceAdvertisement l;
     Some (case r of
         Inl e \<Rightarrow> (Inl e, og, [], n + 1)
       | Inr p \<Rightarrow> (Inr (), og\<lparr>og_status := Advertised, og_adv_sent := Some (re_now E), og_last_activity := re_now E,
           og_rtt := None, og_retries_left := MAX_ADV_RETRIES\<rparr>, [p], n + 1)) }"

text \<open>\<^verbatim>\<open>as_chunks\<close>: whole chunks only.\<close>

fun exact_chunks :: "nat \<Rightarrow> bytes \<Rightarrow> bytes list" where
  "exact_chunks k d = (if k = 0 \<or> length d < k then [] else take k d # exact_chunks k (drop k d))"

declare exact_chunks.simps [simp del]

text \<open>The parts that a request asks for are marked and sent again.\<close>

definition send_parts :: "rat \<Rightarrow> bytes list \<Rightarrow> nat \<Rightarrow> nat \<Rightarrow> outgoing_resource \<Rightarrow> outgoing_resource \<times> packet list" where
  "send_parts now map_hashes start stop og =
     (let hits = filter (\<lambda>i. og_part_hashes og ! i \<in> set map_hashes) [start..<stop];
          og' = og\<lparr>og_part_sent := fold (\<lambda>i sent. sent[i := True]) hits (og_part_sent og),
                   og_sent_parts := og_sent_parts og + length (filter (\<lambda>i. \<not> og_part_sent og ! i) hits)\<rparr>
      in (if hits = [] then og' else og'\<lparr>og_last_activity := now, og_last_part_sent := now\<rparr>,
          map (\<lambda>i. og_parts og ! i) hits))"

text \<open>The index behind the part whose map hash is the last one that the receiver knows.\<close>

definition part_index_after :: "bytes \<Rightarrow> nat \<Rightarrow> nat \<Rightarrow> outgoing_resource \<Rightarrow> nat" where
  "part_index_after last_map_hash start stop og =
     (let skipped = length (takeWhile (\<lambda>i. og_part_hashes og ! i \<noteq> last_map_hash) [start..<stop])
      in og_receiver_min_consecutive_height og + (if skipped < stop - start then skipped + 1 else skipped))"

text \<open>The next slice of the map of hashes; the flag tells whether the transfer goes on.\<close>

definition send_hashmap ::
  "res_env \<Rightarrow> nat \<Rightarrow> link \<Rightarrow> nat \<Rightarrow> outgoing_resource \<Rightarrow> (bool \<times> outgoing_resource \<times> packet list \<times> nat) option" where
  "send_hashmap E n l part_index og =
     (let og = og\<lparr>og_receiver_min_consecutive_height := part_index - (1 + RES_WINDOW_MAX)\<rparr>;
          segment = part_index div HASHMAP_MAX_LEN;
          hashmap = concat (take (min ((segment + 1) * HASHMAP_MAX_LEN) (length (og_parts og)) - segment * HASHMAP_MAX_LEN)
            (drop (segment * HASHMAP_MAX_LEN) (og_part_hashes og)))
      in if part_index mod HASHMAP_MAX_LEN \<noteq> 0 \<or> hashmap = [] then Some (False, og\<lparr>og_status := Failed\<rparr>, [], n)
         else do {
           r \<leftarrow> context_packet (re_crypto E) (re_iv E n)
             (hash_bytes (og_hash og) @ rm_write_array_len (re_rmp E) 2 @ rm_write_uint (re_rmp E) segment
               @ rm_write_bin (re_rmp E) hashmap) Ctx_ResourceHashUpdate l;
           Some (case r of
               Inl _ \<Rightarrow> (True, og, [], n + 1)
             | Inr p \<Rightarrow> (True, og\<lparr>og_last_activity := re_now E\<rparr>, [p], n + 1)) })"

definition og_request ::
  "res_env \<Rightarrow> nat \<Rightarrow> link \<Rightarrow> bytes \<Rightarrow> outgoing_resource \<Rightarrow> (outgoing_resource \<times> packet list \<times> nat) option" where
  "og_request E n l request_data og =
     (let now = re_now E;
          og = og\<lparr>og_rtt := (case (og_adv_sent og, og_rtt og) of (Some sent, None) \<Rightarrow> Some (now - sent) | _ \<Rightarrow> og_rtt og),
                  og_status := Transferring, og_retries_left := og_max_retries og\<rparr>;
          wants_more = (request_data \<noteq> [] \<and> hd request_data = HASHMAP_IS_EXHAUSTED);
          pad = (if wants_more then 1 + MAPHASH_LEN else 1)
      in if length request_data < pad + 32 then Some (og, [], n)
         else
           let start = og_receiver_min_consecutive_height og;
               stop = min (start + COLLISION_GUARD_SIZE) (length (og_parts og));
               (og, packets) = send_parts now (exact_chunks MAPHASH_LEN (drop (pad + 32) request_data)) start stop og;
               awaiting = (\<lambda>og. if og_sent_parts og = length (og_parts og)
                 then og\<lparr>og_status := AwaitingProof, og_retries_left := 3\<rparr> else og)
           in if \<not> wants_more then Some (awaiting og, packets, n)
              else do {
                (goes_on, og, more, n) \<leftarrow> send_hashmap E n l
                  (part_index_after (take MAPHASH_LEN (drop 1 request_data)) start stop og) og;
                Some (if goes_on then awaiting og else og, packets @ more, n) })"

text \<open>The source of the segments moves from one segment to the next.\<close>

definition prepare_next_segment ::
  "res_env \<Rightarrow> nat \<Rightarrow> link \<Rightarrow> outgoing_resource \<Rightarrow> (outgoing_resource option result \<times> outgoing_resource \<times> nat) option" where
  "prepare_next_segment E n l og =
     (if \<not> og_split og \<or> og_segment_index og \<ge> og_total_segments og then Some (Inr None, og, n)
      else case og_source og of
             None \<Rightarrow> Some (Inl (ResourceMsg ''resource source missing''), og, n)
           | Some source \<Rightarrow>
               let next = og_segment_index og + 1; (start, stop) = segment_range (og_total_size og) next
               in if start \<ge> og_total_size og then Some (Inr None, og, n)
                  else case read_range start stop source of
                         Inl e \<Rightarrow> Some (Inl e, og, n)
                       | Inr segment_data \<Rightarrow>
                           do {
                             (r, n) \<leftarrow> from_segment_bytes E n segment_data source (og_input_len og) (og_total_size og)
                               (og_total_segments og) next (Some (og_original_hash og)) l
                               \<lparr>ro_auto_compress = og_auto_compress og, ro_auto_compress_limit = og_auto_compress_limit og,
                                ro_metadata = None, ro_timeout = Some (og_timeout og), ro_request_id = og_request_id og,
                                ro_is_response = og_is_response og\<rparr> (og_has_metadata og) (og_metadata_size og);
                             Some (case r of
                                 Inl (e, source) \<Rightarrow> (Inl e, og\<lparr>og_source := Some source\<rparr>, n)
                               | Inr next \<Rightarrow> (Inr (Some next), og\<lparr>og_source := None\<rparr>, n)) })"

definition og_validate_proof :: "bytes \<Rightarrow> outgoing_resource \<Rightarrow> bool \<times> outgoing_resource" where
  "og_validate_proof proof_data og =
     (if length proof_data = 64 \<and> drop 32 proof_data = hash_bytes (og_expected_proof og)
      then (True, og\<lparr>og_status := Complete\<rparr>) else (False, og))"

definition og_cancel_packet ::
  "res_env \<Rightarrow> nat \<Rightarrow> link \<Rightarrow> outgoing_resource \<Rightarrow> (outgoing_resource \<times> packet list \<times> nat) option" where
  "og_cancel_packet E n l og = do {
     r \<leftarrow> context_packet (re_crypto E) (re_iv E n) (hash_bytes (og_hash og)) Ctx_ResourceInitiatorCancel l;
     Some (og\<lparr>og_status := Failed\<rparr>, case r of Inl _ \<Rightarrow> [] | Inr p \<Rightarrow> [p], n + 1) }"

text \<open>The digest that the request for a lost proof carries: the hash of the hash of the proof packet.\<close>

definition expected_packet_hash :: "sha \<Rightarrow> link \<Rightarrow> outgoing_resource \<Rightarrow> rns_hash" where
  "expected_packet_hash sha l og = hash_new_from_slice sha
     (sha ([0x0f] @ addr_bytes (lk_id l) @ [packet_context_u8 Ctx_ResourceProof]
       @ hash_bytes (og_hash og) @ hash_bytes (og_expected_proof og)))"

text \<open>The sum of the extra waits: half a second more for every retry.\<close>

definition max_extra_wait :: rat where
  "max_extra_wait = sum_list (map (\<lambda>r. of_nat (r + 1) * PER_RETRY_DELAY) [0..<RES_MAX_RETRIES])"

definition og_check ::
  "res_env \<Rightarrow> nat \<Rightarrow> link \<Rightarrow> outgoing_resource \<Rightarrow> (bool \<times> outgoing_resource \<times> packet list \<times> nat) option" where
  "og_check E n l og =
     (let now = re_now E;
          rtt = (case og_rtt og of Some r \<Rightarrow> r | None \<Rightarrow> as_secs_f64 (lk_rtt l))
      in case og_status og of
           Advertised \<Rightarrow>
             if now > (case og_adv_sent og of Some t \<Rightarrow> t | None \<Rightarrow> now) + og_timeout og + PROCESSING_GRACE
             then if og_retries_left og = 0 then Some (True, og\<lparr>og_status := Failed\<rparr>, [], n)
                  else map_option (Pair False)
                    (resend_advertisement E n l (og\<lparr>og_retries_left := og_retries_left og - 1\<rparr>))
             else Some (False, og, [], n)
         | Transferring \<Rightarrow>
             if now > og_last_activity og + (rtt * og_timeout_factor og * of_nat (og_max_retries og)
                  + og_sender_grace_time og + max_extra_wait)
             then Some (True, og\<lparr>og_status := Failed\<rparr>, [], n)
             else Some (False, og, [], n)
         | AwaitingProof \<Rightarrow>
             let og = og\<lparr>og_timeout_factor := PROOF_TIMEOUT_FACTOR\<rparr>
             in if now > og_last_part_sent og + (rtt * og_timeout_factor og + og_sender_grace_time og)
                then if og_retries_left og = 0 then Some (True, og\<lparr>og_status := Failed\<rparr>, [], n)
                     else do {
                       r \<leftarrow> context_packet (re_crypto E) (re_iv E n) (hash_bytes (expected_packet_hash (re_sha E) l og))
                         Ctx_CacheRequest l;
                       Some (False, og\<lparr>og_retries_left := og_retries_left og - 1, og_last_part_sent := now\<rparr>,
                         case r of Inl _ \<Rightarrow> [] | Inr p \<Rightarrow> [p], n + 1) }
                else Some (False, og, [], n)
         | _ \<Rightarrow> Some (False, og, [], n))"

text \<open>
  Progress over all segments. A segment has at least one part, so no division by zero occurs.
\<close>

definition segment_progress :: "rat \<Rightarrow> nat \<Rightarrow> nat \<Rightarrow> nat \<Rightarrow> nat \<Rightarrow> nat \<Rightarrow> rat" where
  "segment_progress limit sdu done_parts parts segment_index total_segments =
     (let max_parts = of_int \<lceil>of_nat MAX_EFFICIENT_SIZE / (of_nat sdu :: rat)\<rceil>;
          factor = (if of_nat parts < max_parts then max_parts / of_nat parts else 1)
      in min (((of_nat segment_index - 1) * max_parts + of_nat done_parts * factor) / (of_nat total_segments * max_parts))
           limit)"

definition og_progress :: "outgoing_resource \<Rightarrow> rat" where
  "og_progress og =
     (if og_status og = Complete \<and> og_segment_index og = og_total_segments og then 1
      else if \<not> og_split og then min (of_nat (og_sent_parts og) / of_nat (length (og_parts og))) 1
      else segment_progress 1 (og_sdu og) (og_sent_parts og) (length (og_parts og)) (og_segment_index og)
        (og_total_segments og))"

section \<open>The encoding of advertisements\<close>

lemma read_short_key_key: "read_short_key (adv_key k @ rest) = Some (of_char k, rest)"
  by (simp add: read_short_key_def adv_key_def)

lemma of_char_keys:
  "of_char CHR ''t'' = (116 :: u8)" "of_char CHR ''d'' = (100 :: u8)" "of_char CHR ''n'' = (110 :: u8)"
  "of_char CHR ''h'' = (104 :: u8)" "of_char CHR ''r'' = (114 :: u8)" "of_char CHR ''o'' = (111 :: u8)"
  "of_char CHR ''i'' = (105 :: u8)" "of_char CHR ''l'' = (108 :: u8)" "of_char CHR ''q'' = (113 :: u8)"
  "of_char CHR ''f'' = (102 :: u8)" "of_char CHR ''m'' = (109 :: u8)"
  by simp_all

lemma read_bin_written:
  assumes "rmp_ok R" "length d < 2 ^ 32"
  shows "read_bin R (rm_write_bin R d @ rest) = Some (d, rest)"
  using assms by (simp add: read_bin_def rmp_ok_def)

lemma read_sized_written:
  assumes "rmp_ok R" "length d = n" "n < 2 ^ 32"
  shows "read_sized_bin R n (rm_write_bin R d @ rest) = Some (d, rest)"
  using assms by (simp add: read_sized_bin_def read_bin_written)

lemma read_entry_written:
  assumes R: "rmp_ok R"
  shows
    "v < 2 ^ 64 \<Longrightarrow> read_entry R (f, adv_key CHR ''t'' @ rm_write_uint R v @ rest) = Some (f\<lparr>af_transfer_size := Some v\<rparr>, rest)"
    "v < 2 ^ 64 \<Longrightarrow> read_entry R (f, adv_key CHR ''d'' @ rm_write_uint R v @ rest) = Some (f\<lparr>af_data_size := Some v\<rparr>, rest)"
    "v < 2 ^ 64 \<Longrightarrow> read_entry R (f, adv_key CHR ''n'' @ rm_write_uint R v @ rest) = Some (f\<lparr>af_parts := Some v\<rparr>, rest)"
    "length b = HASH_SIZE \<Longrightarrow> read_entry R (f, adv_key CHR ''h'' @ rm_write_bin R b @ rest) = Some (f\<lparr>af_hash := Some b\<rparr>, rest)"
    "length b = RANDOM_HASH_SIZE \<Longrightarrow>
       read_entry R (f, adv_key CHR ''r'' @ rm_write_bin R b @ rest) = Some (f\<lparr>af_random_hash := Some b\<rparr>, rest)"
    "length b = HASH_SIZE \<Longrightarrow>
       read_entry R (f, adv_key CHR ''o'' @ rm_write_bin R b @ rest) = Some (f\<lparr>af_original_hash := Some b\<rparr>, rest)"
    "v < 2 ^ 64 \<Longrightarrow> read_entry R (f, adv_key CHR ''i'' @ rm_write_uint R v @ rest) = Some (f\<lparr>af_segment_index := Some v\<rparr>, rest)"
    "v < 2 ^ 64 \<Longrightarrow> read_entry R (f, adv_key CHR ''l'' @ rm_write_uint R v @ rest) = Some (f\<lparr>af_total_segments := Some v\<rparr>, rest)"
    "v < 2 ^ 64 \<Longrightarrow> read_entry R (f, adv_key CHR ''f'' @ rm_write_uint R v @ rest) = Some (f\<lparr>af_flags := Some (word_of_nat v)\<rparr>, rest)"
    "length b < 2 ^ 32 \<Longrightarrow> read_entry R (f, adv_key CHR ''m'' @ rm_write_bin R b @ rest) = Some (f\<lparr>af_hashmap := Some b\<rparr>, rest)"
  using R by (simp_all add: read_entry_def read_short_key_key of_char_keys read_sized_written [OF R] read_bin_written [OF R]
      rmp_ok_def HASH_SIZE_def RANDOM_HASH_SIZE_def del: append_assoc of_char_Char)

lemma read_entry_request:
  assumes R: "rmp_ok R" and i: "\<forall>i. q = Some i \<longrightarrow> addr_ok i"
  shows "read_entry R (f, adv_key CHR ''q'' @ (case q of Some i \<Rightarrow> rm_write_bin R (addr_bytes i) | None \<Rightarrow> rm_write_nil R) @ rest)
    = Some (f\<lparr>af_request_id := map_option addr_bytes q\<rparr>, rest)"
proof (cases q)
  case None
  then show ?thesis
    using R by (simp add: read_entry_def read_short_key_key of_char_keys peek_nil_def rmp_ok_def)
next
  case (Some a)
  have "rm_write_bin R (addr_bytes a) \<noteq> []" "hd (rm_write_bin R (addr_bytes a)) \<noteq> 0xc0"
    using R by (simp_all add: rmp_ok_def)
  then have "peek_nil (rm_write_bin R (addr_bytes a) @ rest) = Some False"
    by (cases "rm_write_bin R (addr_bytes a)") (simp_all add: peek_nil_def)
  then show ?thesis
    using R Some i by (simp add: read_entry_def read_short_key_key of_char_keys read_sized_written addr_ok_def ADDRESS_HASH_SIZE_def)
qed

lemma rmp_map_len:
  assumes "rmp_ok R" "n < 16"
  shows "rm_read_map_len R (word_of_nat (128 + n) # rest) = Some (n, rest)"
  using assms by (simp add: rmp_ok_def)

lemma adv_unpack_pack:
  assumes R: "rmp_ok R" and a: "adv_ok a"
  shows "adv_unpack R (adv_pack R a) = Inr a"
proof -
  have len: "rm_read_map_len R (139 # rest) = Some (11, rest)" for rest
    using rmp_map_len [OF R, of 11 rest] by simp
  have n: "unat (ra_flags a) < 2 ^ 64" "ra_transfer_size a < 2 ^ 64"
    using unat_u8_less [of "ra_flags a"] a by (simp_all add: adv_ok_def MAX_EFFICIENT_SIZE_def)
  have a': "length (hash_bytes (ra_hash a)) = HASH_SIZE" "length (hash_bytes (ra_original_hash a)) = HASH_SIZE"
      "length (ra_random_hash a) = RANDOM_HASH_SIZE" "ra_data_size a < 2 ^ 64" "ra_parts a < 2 ^ 64"
      "ra_segment_index a < 2 ^ 64" "ra_total_segments a < 2 ^ 64" "length (ra_hashmap a) < 2 ^ 32"
      "\<forall>i. ra_request_id a = Some i \<longrightarrow> addr_ok i"
    using a by (simp_all add: adv_ok_def hash_ok_def)
  note E = read_entry_written(1) [OF R n(2)] read_entry_written(2) [OF R a'(4)] read_entry_written(3) [OF R a'(5)]
    read_entry_written(4) [OF R a'(1)] read_entry_written(5) [OF R a'(3)] read_entry_written(6) [OF R a'(2)]
    read_entry_written(7) [OF R a'(6)] read_entry_written(8) [OF R a'(7)] read_entry_request [OF R a'(9)]
    read_entry_written(9) [OF R n(1)] read_entry_written(10) [OF R a'(8), where rest = "[]", unfolded append_Nil2]
  have e11: "(11 :: nat) = Suc (Suc (Suc (Suc (Suc (Suc (Suc (Suc (Suc (Suc (Suc 0))))))))))"
    by simp
  have "read_entries R 11 (adv_fields_none, tl (adv_pack R a)) = Some
    (\<lparr>af_transfer_size = Some (ra_transfer_size a), af_data_size = Some (ra_data_size a), af_parts = Some (ra_parts a),
      af_hash = Some (hash_bytes (ra_hash a)), af_random_hash = Some (ra_random_hash a),
      af_original_hash = Some (hash_bytes (ra_original_hash a)), af_segment_index = Some (ra_segment_index a),
      af_total_segments = Some (ra_total_segments a), af_request_id = map_option addr_bytes (ra_request_id a),
      af_flags = Some (ra_flags a), af_hashmap = Some (ra_hashmap a)\<rparr>, [])"
    unfolding adv_pack_def list.sel e11 read_entries.simps E bind.simps
    by (simp add: adv_fields_none_def)
  moreover have "adv_pack R a = 139 # tl (adv_pack R a)"
    by (simp add: adv_pack_def)
  ultimately have "adv_unpack_option R (adv_pack R a) = Some a"
    using a len [of "tl (adv_pack R a)"]
    by (cases a) (simp add: adv_unpack_option_def adv_ok_def option.map_comp comp_def option.map_ident)
  then show ?thesis
    by (simp add: adv_unpack_def)
qed

text \<open>
  Claim C0. A resource advertisement survives its encoding: unpacking what the sender packs gives the
  same advertisement, for every advertisement with hashes of the right lengths and a transfer size
  within the limit.
\<close>

theorem advertisement_roundtrip:
  assumes "rmp_ok R" and "adv_ok a"
  shows "adv_unpack R (adv_pack R a) = Inr a"
  using assms by (rule adv_unpack_pack)

text \<open>The encodings of the library, as far as the transfers use them.\<close>

definition mp_uint :: "nat \<Rightarrow> bytes" where
  "mp_uint n =
     (if n < 128 then [word_of_nat n]
      else if n < 2 ^ 8 then 0xcc # be_encode 1 n
      else if n < 2 ^ 16 then 0xcd # be_encode 2 n
      else if n < 2 ^ 32 then 0xce # be_encode 4 n
      else 0xcf # be_encode 8 n)"

definition mp_bin :: "bytes \<Rightarrow> bytes" where
  "mp_bin d =
     (if length d < 2 ^ 8 then 0xc4 # be_encode 1 (length d)
      else if length d < 2 ^ 16 then 0xc5 # be_encode 2 (length d)
      else 0xc6 # be_encode 4 (length d)) @ d"

definition mp_be :: "nat \<Rightarrow> bytes \<Rightarrow> (nat \<times> bytes) option" where
  "mp_be k d = (if length d < k then None else Some (be_decode (take k d), drop k d))"

definition mp_read_int :: "bytes \<Rightarrow> (nat \<times> bytes) option" where
  "mp_read_int d = (case d of
       [] \<Rightarrow> None
     | b # rest \<Rightarrow>
         if b < 128 then Some (unat b, rest)
         else if b = 0xcc then mp_be 1 rest
         else if b = 0xcd then mp_be 2 rest
         else if b = 0xce then mp_be 4 rest
         else if b = 0xcf then mp_be 8 rest
         else None)"

definition mp_read_bin_len :: "bytes \<Rightarrow> (nat \<times> bytes) option" where
  "mp_read_bin_len d = (case d of
       [] \<Rightarrow> None
     | b # rest \<Rightarrow>
         if b = 0xc4 then mp_be 1 rest else if b = 0xc5 then mp_be 2 rest else if b = 0xc6 then mp_be 4 rest else None)"

definition mp_read_map_len :: "bytes \<Rightarrow> (nat \<times> bytes) option" where
  "mp_read_map_len d = (case d of
       [] \<Rightarrow> None | b # rest \<Rightarrow> if 128 \<le> b \<and> b < 144 then Some (unat b - 128, rest) else None)"

definition mp_array_len :: "nat \<Rightarrow> bytes" where
  "mp_array_len n = (if n < 16 then [word_of_nat (0x90 + n)] else if n < 2 ^ 16 then 0xdc # be_encode 2 n else 0xdd # be_encode 4 n)"

definition mp_read_array_len :: "bytes \<Rightarrow> (nat \<times> bytes) option" where
  "mp_read_array_len d = (case d of
       [] \<Rightarrow> None
     | b # rest \<Rightarrow>
         if 0x90 \<le> b \<and> b < 0xa0 then Some (unat b - 0x90, rest)
         else if b = 0xdc then mp_be 2 rest else if b = 0xdd then mp_be 4 rest else None)"

lemma mp_be_encode: "n < 256 ^ k \<Longrightarrow> mp_be k (be_encode k n @ rest) = Some (n, rest)"
  by (simp add: mp_be_def be_decode_encode)

lemma mp_be_byte: "n < 256 \<Longrightarrow> mp_be (Suc 0) (word_of_nat n # rest) = Some (n, rest)"
  by (simp add: mp_be_def unat_of_nat)

lemma mp_uint_read: "n < 2 ^ 64 \<Longrightarrow> mp_read_int (mp_uint n @ rest) = Some (n, rest)"
  by (auto simp: mp_uint_def mp_read_int_def mp_be_encode mp_be_byte unat_of_nat word_less_nat_alt)

lemma mp_bin_read: "length d < 2 ^ 32 \<Longrightarrow> mp_read_bin_len (mp_bin d @ rest) = Some (length d, d @ rest)"
  by (simp add: mp_bin_def mp_read_bin_len_def mp_be_encode mp_be_byte)

lemma mp_map_read: "n < 16 \<Longrightarrow> mp_read_map_len (word_of_nat (128 + n) # rest) = Some (n, rest)"
proof -
  assume "n < 16"
  then have "unat (word_of_nat (128 + n) :: u8) = 128 + n"
    using unat_of_nat [of "128 + n", where ?'a = 8] by simp
  then show ?thesis
    using \<open>n < 16\<close> by (simp add: mp_read_map_len_def word_less_nat_alt word_le_nat_alt)
qed

lemma mp_array_read: "n < 2 ^ 32 \<Longrightarrow> mp_read_array_len (mp_array_len n @ rest) = Some (n, rest)"
proof (cases "n < 16")
  case True
  then have "unat (word_of_nat (144 + n) :: u8) = 144 + n"
    using unat_of_nat [of "144 + n", where ?'a = 8] by simp
  then show ?thesis
    using True by (simp add: mp_read_array_len_def mp_array_len_def word_less_nat_alt word_le_nat_alt)
qed (simp add: mp_read_array_len_def mp_array_len_def mp_be_encode)

text \<open>Of the doubles the examples need zero and one only.\<close>

definition mp_f64 :: "rat \<Rightarrow> bytes" where
  "mp_f64 r = 0xcb # be_encode 8 (if r = 1 then 0x3ff0000000000000 else 0)"

definition mp_read_value :: "bytes \<Rightarrow> (rmpv_value \<times> bytes) option" where
  "mp_read_value d = (case d of
       [] \<Rightarrow> None
     | b # rest \<Rightarrow>
         if b = 0xc0 then Some (ValueNil, rest)
         else if b = 0xcb then map_option (apfst (\<lambda>v. ValueNumber (if v = 0 then 0 else 1))) (mp_be 8 rest)
         else do {
           (len, rest) \<leftarrow> mp_read_bin_len d;
           if length rest < len then None else Some (ValueBinary (take len rest), drop len rest) })"

definition rmp_example :: rmp where
  "rmp_example = \<lparr>rm_write_uint = mp_uint, rm_write_bin = mp_bin, rm_write_nil = [0xc0], rm_write_array_len = mp_array_len,
     rm_write_f64 = mp_f64, rm_read_map_len = mp_read_map_len, rm_read_array_len = mp_read_array_len,
     rm_read_int = mp_read_int, rm_read_bin_len = mp_read_bin_len, rm_read_value = mp_read_value\<rparr>"

lemma rmp_example_ok: "rmp_ok rmp_example" "rmp_value_ok rmp_example 0" "rmp_value_ok rmp_example 1"
proof -
  show "rmp_ok rmp_example"
    unfolding rmp_ok_def
    by (intro conjI allI impI; simp add: rmp_example_def mp_uint_read mp_bin_read mp_map_read mp_array_read del: of_nat_add;
        simp add: mp_bin_def)
  have b: "mp_read_value (mp_bin d @ rest) = Some (ValueBinary d, rest)" if "length d < 2 ^ 32" for d rest
    using mp_bin_read [OF that, of rest] by (auto simp: mp_read_value_def mp_bin_def)
  have f: "mp_read_value (mp_f64 r @ rest) = Some (ValueNumber r, rest)" if "r = 0 \<or> r = 1" for r rest
    using that mp_be_encode [of _ 8 rest] by (auto simp: mp_read_value_def mp_f64_def)
  show "rmp_value_ok rmp_example 0" "rmp_value_ok rmp_example 1"
    using b f by (simp_all add: rmp_value_ok_def rmp_example_def)
qed

theorem advertisement_roundtrip_witness:
  "let a = \<lparr>ra_transfer_size = 1000, ra_data_size = 900, ra_parts = 3, ra_hash = Hash (replicate 32 1),
        ra_random_hash = [1, 2, 3, 4], ra_original_hash = Hash (replicate 32 1), ra_segment_index = 1,
        ra_total_segments = 1, ra_request_id = Some (AddressHash (replicate 16 7)), ra_flags = 0x0b,
        ra_hashmap = replicate 12 9\<rparr>
   in adv_unpack rmp_example (adv_pack rmp_example a) = Inr a"
  unfolding Let_def
  by (rule advertisement_roundtrip [OF rmp_example_ok(1)])
    (simp add: adv_ok_def hash_ok_def addr_ok_def MAX_EFFICIENT_SIZE_def HASH_SIZE_def ADDRESS_HASH_SIZE_def RANDOM_HASH_SIZE_def)

end
