(* ===== verification/Rns_Resource_In.thy ===== *)
theory Rns_Resource_In
  imports Rns_Resource
begin

text \<open>
  Resource transfers, the receiver: \<^verbatim>\<open>src/resource/inbound.rs\<close>.

  The value \<open>None\<close> of a step is a panic: an arithmetic overflow in a build that checks for it, or the
  encoder of tokens. The theory shows what a finished transfer delivers and that the sender accepts
  its proof, and three ways in which a transfer does not recover: a part below the height that is
  taken for complete is never asked for again, the first request is not repeated in any useful time,
  and a timeout on a slow link panics.
\<close>

section \<open>State\<close>

record incoming_resource =
  ic_link_id :: address_hash
  ic_status :: resource_status
  ic_hash :: rns_hash
  ic_original_hash :: rns_hash
  ic_random_hash :: bytes
  ic_size :: nat
  ic_total_size :: nat
  ic_compressed :: bool
  ic_encrypted :: bool
  ic_split :: bool
  ic_has_metadata :: bool
  ic_segment_index :: nat
  ic_total_segments :: nat
  ic_request_id :: "address_hash option"
  ic_is_response :: bool
  ic_sdu :: nat
  ic_total_parts :: nat
  ic_received_count :: nat
  ic_outstanding_parts :: nat
  ic_parts :: "bytes option list"
  ic_hashmap :: "bytes option list"
  ic_hashmap_height :: nat
  ic_waiting_for_hmu :: bool
  ic_consecutive_completed_height :: int
  ic_window :: nat
  ic_window_max :: nat
  ic_window_min :: nat
  ic_window_flexibility :: nat
  ic_last_activity :: rat
  ic_started_transferring :: rat
  ic_req_sent :: rat
  ic_req_sent_bytes :: nat
  ic_req_resp :: "rat option"
  ic_rtt :: "rat option"
  ic_rtt_rxd_bytes :: nat
  ic_rtt_rxd_bytes_at_part_req :: nat
  ic_req_resp_rtt_rate :: rat
  ic_req_data_rtt_rate :: rat
  ic_eifr :: "rat option"
  ic_previous_eifr :: "rat option"
  ic_fast_rate_rounds :: nat
  ic_very_slow_rate_rounds :: nat
  ic_retries_left :: nat
  ic_max_retries :: nat
  ic_part_timeout_factor :: rat
  ic_timeout_factor :: rat
  ic_sender_grace_time :: rat
  ic_advertisement_packet :: packet
  ic_assembled :: "bytes option"
  ic_metadata :: "bytes option"

text \<open>Accepting an advertisement; a part size of zero panics in the division.\<close>

definition ic_from_advertisement :: "rat \<Rightarrow> packet \<Rightarrow> resource_advertisement \<Rightarrow> link \<Rightarrow> incoming_resource" where
  "ic_from_advertisement now advertisement_packet adv l =
     (let sdu = resource_sdu l; total_parts = max 1 ((ra_transfer_size adv + sdu - 1) div sdu)
      in \<lparr>ic_link_id = lk_id l, ic_status = Transferring, ic_hash = ra_hash adv, ic_original_hash = ra_original_hash adv,
          ic_random_hash = ra_random_hash adv, ic_size = ra_transfer_size adv, ic_total_size = ra_data_size adv,
          ic_compressed = ra_compressed adv, ic_encrypted = ra_encrypted adv, ic_split = ra_split adv,
          ic_has_metadata = ra_has_metadata adv, ic_segment_index = ra_segment_index adv,
          ic_total_segments = ra_total_segments adv, ic_request_id = ra_request_id adv,
          ic_is_response = ra_is_response adv, ic_sdu = sdu, ic_total_parts = total_parts, ic_received_count = 0,
          ic_outstanding_parts = 0, ic_parts = replicate total_parts None, ic_hashmap = replicate total_parts None,
          ic_hashmap_height = 0, ic_waiting_for_hmu = False, ic_consecutive_completed_height = -1,
          ic_window = (case lk_last_resource_window l of Some w \<Rightarrow> w | None \<Rightarrow> RES_WINDOW),
          ic_window_max = RES_WINDOW_MAX_SLOW, ic_window_min = RES_WINDOW_MIN,
          ic_window_flexibility = RES_WINDOW_FLEXIBILITY, ic_last_activity = now, ic_started_transferring = now,
          ic_req_sent = 0, ic_req_sent_bytes = 0, ic_req_resp = None, ic_rtt = None, ic_rtt_rxd_bytes = 0,
          ic_rtt_rxd_bytes_at_part_req = 0, ic_req_resp_rtt_rate = 0, ic_req_data_rtt_rate = 0, ic_eifr = None,
          ic_previous_eifr = lk_last_resource_eifr l, ic_fast_rate_rounds = 0, ic_very_slow_rate_rounds = 0,
          ic_retries_left = RES_MAX_RETRIES, ic_max_retries = RES_MAX_RETRIES,
          ic_part_timeout_factor = PART_TIMEOUT_FACTOR, ic_timeout_factor = RES_TRAFFIC_TIMEOUT_FACTOR,
          ic_sender_grace_time = SENDER_GRACE_TIME, ic_advertisement_packet = advertisement_packet,
          ic_assembled = None, ic_metadata = None\<rparr>)"

definition ic_accept :: "res_env \<Rightarrow> packet \<Rightarrow> bytes \<Rightarrow> link \<Rightarrow> incoming_resource result option" where
  "ic_accept E advertisement_packet plaintext l = (case adv_unpack (re_rmp E) plaintext of
       Inl e \<Rightarrow> Some (Inl e)
     | Inr adv \<Rightarrow> if resource_sdu l = 0 then None
                  else Some (Inr (ic_from_advertisement (re_now E) advertisement_packet adv l)))"

section \<open>The map of hashes\<close>

text \<open>One entry of a slice; the loop leaves at the first index behind the map, and all later ones are behind it too.\<close>

definition set_map_hash :: "nat \<Rightarrow> bytes \<Rightarrow> nat \<Rightarrow> incoming_resource \<Rightarrow> incoming_resource" where
  "set_map_hash segment hashmap i r =
     (let idx = i + segment * HASHMAP_MAX_LEN
      in if idx \<ge> length (ic_hashmap r) then r
         else r\<lparr>ic_hashmap_height := (if ic_hashmap r ! idx = None then ic_hashmap_height r + 1 else ic_hashmap_height r),
                ic_hashmap := (ic_hashmap r)[idx := Some (take MAPHASH_LEN (drop (i * MAPHASH_LEN) hashmap))]\<rparr>)"

definition hashmap_update :: "nat \<Rightarrow> bytes \<Rightarrow> incoming_resource \<Rightarrow> incoming_resource" where
  "hashmap_update segment hashmap r =
     (if ic_status r = Failed then r
      else
        let r = r\<lparr>ic_status := Transferring\<rparr>;
            hashes = length hashmap div MAPHASH_LEN
        in if segment > length (ic_hashmap r) div HASHMAP_MAX_LEN + 1 then r
           else
             let r = fold (set_map_hash segment hashmap) [0..<hashes] r
             in if hashes < 1 then r\<lparr>ic_status := Failed\<rparr> else r\<lparr>ic_waiting_for_hmu := False\<rparr>)"

definition hashmap_update_packet :: "res_env \<Rightarrow> bytes \<Rightarrow> incoming_resource \<Rightarrow> incoming_resource" where
  "hashmap_update_packet E plaintext r =
     (if ic_status r = Failed \<or> \<not> ic_waiting_for_hmu r then r
      else
        let r = r\<lparr>ic_last_activity := re_now E, ic_retries_left := ic_max_retries r\<rparr>
        in if length plaintext < 32 then r
           else case do {
               (len, cursor) \<leftarrow> rm_read_array_len (re_rmp E) (drop 32 plaintext);
               if len \<noteq> 2 then None else do {
                 (segment, cursor) \<leftarrow> rm_read_int (re_rmp E) cursor;
                 (hashmap, _) \<leftarrow> read_bin (re_rmp E) cursor;
                 Some (segment, hashmap) } } of
             None \<Rightarrow> r
           | Some (segment, hashmap) \<Rightarrow> hashmap_update segment hashmap r)"

section \<open>Requesting parts\<close>

text \<open>
  The map hashes of the missing parts in the window, up to the first one whose map hash is not known.
  At most as many parts are asked for as the window has, so the loop never leaves by its other limit.
\<close>

fun collect_requests :: "incoming_resource \<Rightarrow> nat list \<Rightarrow> bytes list \<times> bool" where
  "collect_requests r [] = ([], False)"
| "collect_requests r (pn # pns) =
     (if ic_parts r ! pn = None
      then (case ic_hashmap r ! pn of
              None \<Rightarrow> ([], True)
            | Some h \<Rightarrow> let (hs, exhausted) = collect_requests r pns in (h # hs, exhausted))
      else collect_requests r pns)"

definition request_window :: "incoming_resource \<Rightarrow> nat list" where
  "request_window r =
     (let start = nat (ic_consecutive_completed_height r + 1) in [start..<min (length (ic_parts r)) (start + ic_window r)])"

definition send_part_request ::
  "res_env \<Rightarrow> nat \<Rightarrow> link \<Rightarrow> bytes \<Rightarrow> incoming_resource \<Rightarrow> (incoming_resource \<times> packet list \<times> nat) option" where
  "send_part_request E n l request_data r = do {
     res \<leftarrow> context_packet (re_crypto E) (re_iv E n) request_data Ctx_ResourceRequest l;
     Some (case res of
         Inl _ \<Rightarrow> (r\<lparr>ic_status := Failed\<rparr>, [], n + 1)
       | Inr p \<Rightarrow> (r\<lparr>ic_last_activity := re_now E, ic_req_sent := re_now E, ic_req_sent_bytes := 19 + length (pk_data p),
           ic_rtt_rxd_bytes_at_part_req := ic_rtt_rxd_bytes r, ic_req_resp := None\<rparr>, [p], n + 1)) }"

definition request_next ::
  "res_env \<Rightarrow> nat \<Rightarrow> link \<Rightarrow> incoming_resource \<Rightarrow> (incoming_resource \<times> packet list \<times> nat) option" where
  "request_next E n l r =
     (if ic_status r = Failed \<or> ic_waiting_for_hmu r then Some (r, [], n)
      else
        let (hashes, exhausted) = collect_requests r (request_window r);
            r = r\<lparr>ic_outstanding_parts := length hashes\<rparr>
        in if \<not> exhausted
           then send_part_request E n l ([HASHMAP_IS_NOT_EXHAUSTED] @ hash_bytes (ic_hash r) @ concat hashes) r
           else if ic_hashmap_height r = 0 then Some (r\<lparr>ic_status := Failed\<rparr>, [], n)
           else case ic_hashmap r ! (ic_hashmap_height r - 1) of
                  None \<Rightarrow> Some (r\<lparr>ic_status := Failed\<rparr>, [], n)
                | Some last_hash \<Rightarrow>
                    send_part_request E n l ([HASHMAP_IS_EXHAUSTED] @ last_hash @ hash_bytes (ic_hash r) @ concat hashes)
                      (r\<lparr>ic_waiting_for_hmu := True\<rparr>))"

section \<open>Receiving parts\<close>

definition fast_round :: "rat \<Rightarrow> incoming_resource \<Rightarrow> incoming_resource" where
  "fast_round rate r =
     (if rate > RATE_FAST \<and> ic_fast_rate_rounds r < FAST_RATE_THRESHOLD
      then let r = r\<lparr>ic_fast_rate_rounds := ic_fast_rate_rounds r + 1\<rparr>
           in if ic_fast_rate_rounds r = FAST_RATE_THRESHOLD then r\<lparr>ic_window_max := RES_WINDOW_MAX_FAST\<rparr> else r
      else r)"

definition slow_round :: "rat \<Rightarrow> incoming_resource \<Rightarrow> incoming_resource" where
  "slow_round rate r =
     (if ic_fast_rate_rounds r = 0 \<and> rate < RATE_VERY_SLOW \<and> ic_very_slow_rate_rounds r < VERY_SLOW_RATE_THRESHOLD
      then let r = r\<lparr>ic_very_slow_rate_rounds := ic_very_slow_rate_rounds r + 1\<rparr>
           in if ic_very_slow_rate_rounds r = VERY_SLOW_RATE_THRESHOLD
              then r\<lparr>ic_window_max := RES_WINDOW_MAX_VERY_SLOW\<rparr> else r
      else r)"

text \<open>The first part after a request measures the round trip.\<close>

definition note_response :: "rat \<Rightarrow> link \<Rightarrow> nat \<Rightarrow> incoming_resource \<Rightarrow> incoming_resource" where
  "note_response now l part_len r =
     (if ic_req_resp r = None \<and> ic_req_sent r > 0
      then
        let rtt = now - ic_req_sent r;
            r = r\<lparr>ic_req_resp := Some now, ic_part_timeout_factor := PART_TIMEOUT_FACTOR_AFTER_RTT,
                  ic_rtt := (case ic_rtt r of
                      None \<Rightarrow> Some (as_secs_f64 (lk_rtt l))
                    | Some current \<Rightarrow>
                        if rtt < current then Some (max (current - current * (1 / 20)) rtt)
                        else if rtt > current then Some (min (current + current * (1 / 20)) rtt)
                        else Some current)\<rparr>
        in if rtt > 0
           then let rate = of_nat (part_len + ic_req_sent_bytes r) / rtt
                in fast_round rate (r\<lparr>ic_req_resp_rtt_rate := rate\<rparr>)
           else r
      else r)"

text \<open>Stored parts that follow one part without a gap.\<close>

definition stored_run :: "bytes option list \<Rightarrow> nat \<Rightarrow> nat" where
  "stored_run parts i = length (takeWhile (\<lambda>p. p \<noteq> None) (drop i parts))"

text \<open>
  A part goes to the first place of the window with its map hash. The loop over the parts behind it
  starts at the place itself, whether or not the parts before it are there.
\<close>

definition store_part :: "bytes \<Rightarrow> nat \<Rightarrow> incoming_resource \<Rightarrow> incoming_resource" where
  "store_part data i r =
     (if ic_parts r ! i \<noteq> None then r
      else
        let parts = (ic_parts r)[i := Some data];
            height = (if int i = ic_consecutive_completed_height r + 1 then int i else ic_consecutive_completed_height r);
            run = stored_run parts (i + 1)
        in r\<lparr>ic_parts := parts, ic_rtt_rxd_bytes := ic_rtt_rxd_bytes r + length data,
             ic_received_count := ic_received_count r + 1, ic_outstanding_parts := ic_outstanding_parts r - 1,
             ic_consecutive_completed_height := (if run = 0 then height else int (i + run))\<rparr>)"

definition place_part :: "sha \<Rightarrow> bytes \<Rightarrow> incoming_resource \<Rightarrow> incoming_resource" where
  "place_part sha data r =
     (let part_hash = map_hash sha data (ic_random_hash r);
          start = nat (max 0 (ic_consecutive_completed_height r))
      in case find (\<lambda>i. ic_hashmap r ! i = Some part_hash) [start..<min (start + ic_window r) (length (ic_hashmap r))] of
           None \<Rightarrow> r
         | Some i \<Rightarrow> store_part data i r)"

text \<open>The end of a round: the window grows and the rates are measured.\<close>

definition end_round :: "rat \<Rightarrow> incoming_resource \<Rightarrow> incoming_resource" where
  "end_round now r =
     (let r = (if ic_window r < ic_window_max r
               then let r = r\<lparr>ic_window := ic_window r + 1\<rparr>
                    in if ic_window r - ic_window_min r > ic_window_flexibility r - 1
                       then r\<lparr>ic_window_min := ic_window_min r + 1\<rparr> else r
               else r);
          rtt = now - ic_req_sent r
      in if ic_req_sent r > 0 \<and> rtt > 0
         then let rate = of_nat (ic_rtt_rxd_bytes r - ic_rtt_rxd_bytes_at_part_req r) / rtt
              in slow_round rate (fast_round rate (r\<lparr>ic_req_data_rtt_rate := rate,
                   ic_rtt_rxd_bytes_at_part_req := ic_rtt_rxd_bytes r\<rparr>))
         else r)"

definition receive_part ::
  "res_env \<Rightarrow> nat \<Rightarrow> packet \<Rightarrow> link \<Rightarrow> incoming_resource \<Rightarrow> (bool \<times> incoming_resource \<times> packet list \<times> nat) option" where
  "receive_part E n p l r =
     (if ic_status r = Failed then Some (False, r, [], n)
      else
        let now = re_now E;
            r = note_response now l (length (pk_data p))
                  (r\<lparr>ic_last_activity := now, ic_retries_left := ic_max_retries r\<rparr>);
            r = place_part (re_sha E) (pk_data p) (r\<lparr>ic_status := Transferring\<rparr>)
        in if ic_received_count r = ic_total_parts r \<and> ic_assembled r = None
           then Some (True, r\<lparr>ic_status := Assembling\<rparr>, [], n)
           else if ic_outstanding_parts r = 0
           then map_option (Pair False) (request_next E n l (end_round now r))
           else Some (False, r, [], n))"

section \<open>Assembling\<close>

definition ic_decrypted :: "crypto \<Rightarrow> link \<Rightarrow> incoming_resource \<Rightarrow> bytes result" where
  "ic_decrypted C l r =
     (let stream = concat (List.map_filter id (ic_parts r))
      in if ic_encrypted r
         then (case link_decrypt C l stream (length stream + 256) of
                 Inl _ \<Rightarrow> Inl (ResourceMsg ''resource decryption failed'') | Inr plain \<Rightarrow> Inr plain)
         else Inr stream)"

definition ic_assemble ::
  "res_env \<Rightarrow> link \<Rightarrow> nat \<Rightarrow> incoming_resource \<Rightarrow> bytes result \<times> incoming_resource" where
  "ic_assemble E l max_decompressed_size r = (case ic_decrypted (re_crypto E) l r of
       Inl e \<Rightarrow> (Inl e, r)
     | Inr decrypted \<Rightarrow>
         let payload = drop RANDOM_HASH_SIZE decrypted
         in case (if ic_compressed r then decompress (re_bz2 E) payload max_decompressed_size else Inr payload) of
              Inl e \<Rightarrow> (Inl e, r)
            | Inr data \<Rightarrow>
                if Hash (re_sha E (data @ ic_random_hash r)) \<noteq> ic_hash r
                then (Inl (ResourceMsg ''resource hash mismatch''), r\<lparr>ic_status := Corrupt\<rparr>)
                else if ic_has_metadata r \<and> ic_segment_index r = 1
                then
                  if length data < 3
                  then (Inl (ResourceMsg ''metadata resource shorter than its length prefix''), r\<lparr>ic_status := Corrupt\<rparr>)
                  else
                    let metadata_size = be_decode (take 3 data)
                    in if 3 + metadata_size > length data
                       then (Inl (ResourceMsg ''metadata length exceeds segment''), r\<lparr>ic_status := Corrupt\<rparr>)
                       else (Inr (drop (3 + metadata_size) data),
                             r\<lparr>ic_metadata := Some (take metadata_size (drop 3 data)), ic_assembled := Some data\<rparr>)
                else (Inr data, r\<lparr>ic_assembled := Some data\<rparr>))"

definition ic_prove :: "sha \<Rightarrow> link \<Rightarrow> bytes \<Rightarrow> incoming_resource \<Rightarrow> incoming_resource \<times> packet list" where
  "ic_prove sha l data r =
     (case raw_packet (hash_bytes (ic_hash r) @ sha (data @ hash_bytes (ic_hash r))) Proof Ctx_ResourceProof l of
        Inr p \<Rightarrow> (r\<lparr>ic_status := Complete\<rparr>, [p])
      | Inl _ \<Rightarrow> (r\<lparr>ic_status := Failed\<rparr>, []))"

text \<open>Rejecting an advertisement and cancelling a transfer send the same packet.\<close>

definition reject_packet_for :: "res_env \<Rightarrow> nat \<Rightarrow> rns_hash \<Rightarrow> link \<Rightarrow> (packet list \<times> nat) option" where
  "reject_packet_for E n hash l = do {
     r \<leftarrow> context_packet (re_crypto E) (re_iv E n) (hash_bytes hash) Ctx_ResourceReceiverCancel l;
     Some (case r of Inl _ \<Rightarrow> [] | Inr p \<Rightarrow> [p], n + 1) }"

definition ic_flags :: "incoming_resource \<Rightarrow> u8" where
  "ic_flags r =
     (if ic_encrypted r then FLAG_ENCRYPTED else 0) OR (if ic_compressed r then FLAG_COMPRESSED else 0)
     OR (if ic_split r then FLAG_SPLIT else 0) OR (if ic_has_metadata r then FLAG_HAS_METADATA else 0)
     OR (if ic_request_id r \<noteq> None then if ic_is_response r then FLAG_IS_RESPONSE else FLAG_IS_REQUEST else 0)"

definition ic_advertisement_of :: "incoming_resource \<Rightarrow> resource_advertisement" where
  "ic_advertisement_of r =
     \<lparr>ra_transfer_size = ic_size r, ra_data_size = ic_total_size r, ra_parts = ic_total_parts r,
      ra_hash = ic_hash r, ra_random_hash = ic_random_hash r, ra_original_hash = ic_original_hash r,
      ra_segment_index = ic_segment_index r, ra_total_segments = ic_total_segments r,
      ra_request_id = ic_request_id r, ra_flags = ic_flags r,
      ra_hashmap = concat (List.map_filter id (take HASHMAP_MAX_LEN (ic_hashmap r)))\<rparr>"

definition ic_progress :: "incoming_resource \<Rightarrow> rat" where
  "ic_progress r =
     (if ic_status r = Complete \<and> ic_segment_index r = ic_total_segments r then 1
      else if \<not> ic_split r then min (of_nat (ic_received_count r) / of_nat (ic_total_parts r)) 1
      else segment_progress (999 / 1000) (ic_sdu r) (ic_received_count r) (ic_total_parts r) (ic_segment_index r)
        (ic_total_segments r))"

definition request_progress :: "incoming_resource \<Rightarrow> (address_hash \<times> rat) option" where
  "request_progress r = (if ic_is_response r then map_option (\<lambda>i. (i, ic_progress r)) (ic_request_id r) else None)"

section \<open>The watchdog\<close>

definition update_eifr :: "link \<Rightarrow> incoming_resource \<Rightarrow> incoming_resource" where
  "update_eifr l r =
     (let rtt = max (case ic_rtt r of Some t \<Rightarrow> t | None \<Rightarrow> as_secs_f64 (lk_rtt l)) (1 / 10000)
      in r\<lparr>ic_eifr := Some (if ic_req_data_rtt_rate r \<noteq> 0 then ic_req_data_rtt_rate r * 8
             else case ic_previous_eifr r of Some e \<Rightarrow> e | None \<Rightarrow> of_nat (lk_establishment_cost l) * 8 / rtt)\<rparr>)"

definition sleep_time :: "rat \<Rightarrow> incoming_resource \<Rightarrow> rat" where
  "sleep_time now r =
     (let eifr = max (case ic_eifr r of Some e \<Rightarrow> e | None \<Rightarrow> 1) (1 / 10000);
          extra_wait = of_nat (ic_max_retries r - ic_retries_left r) * PER_RETRY_DELAY;
          hmu_wait = (if ic_waiting_for_hmu r \<or> ic_outstanding_parts r = 0
            then of_nat (ic_sdu r) * 8 * HMU_WAIT_FACTOR / eifr else 0);
          tof_remaining = of_nat (ic_outstanding_parts r) * of_nat (ic_sdu r) * 8 / eifr
      in if ic_req_resp_rtt_rate r \<noteq> 0
         then ic_last_activity r + ic_part_timeout_factor r * tof_remaining + hmu_wait + RETRY_GRACE_TIME + extra_wait - now
         else ic_last_activity r + ic_part_timeout_factor r * (3 * of_nat (ic_sdu r) / eifr) + RETRY_GRACE_TIME
           + extra_wait - now)"

text \<open>The smaller window after a timeout. The difference of the two limits is taken without a check.\<close>

definition shrink_part_window :: "incoming_resource \<Rightarrow> incoming_resource option" where
  "shrink_part_window r =
     (if ic_window r > ic_window_min r
      then
        let r = r\<lparr>ic_window := ic_window r - 1\<rparr>
        in if ic_window_max r > ic_window_min r
           then
             let r = r\<lparr>ic_window_max := ic_window_max r - 1\<rparr>
             in if ic_window_max r < ic_window r then None
                else Some (if ic_window_max r - ic_window r > ic_window_flexibility r - 1
                           then r\<lparr>ic_window_max := ic_window_max r - 1\<rparr> else r)
           else Some r
      else Some r)"

definition ic_check ::
  "res_env \<Rightarrow> nat \<Rightarrow> link \<Rightarrow> incoming_resource \<Rightarrow> (bool \<times> incoming_resource \<times> packet list \<times> nat) option" where
  "ic_check E n l r =
     (if ic_status r \<noteq> Transferring then Some (False, r, [], n)
      else
        let r = update_eifr l r
        in if sleep_time (re_now E) r < 0
           then if ic_retries_left r > 0
                then do {
                  r \<leftarrow> shrink_part_window r;
                  map_option (Pair False) (request_next E n l
                    (r\<lparr>ic_retries_left := ic_retries_left r - 1, ic_waiting_for_hmu := False\<rparr>)) }
                else Some (True, r\<lparr>ic_status := Failed\<rparr>, [], n)
           else Some (False, r, [], n))"

end
