(* ===== verification/Rns_Resource_Manager.thy ===== *)
theory Rns_Resource_Manager
  imports Rns_Resource_In
begin

text \<open>
  Resource transfers, the manager of all transfers of a node: \<^verbatim>\<open>src/resource/manager.rs\<close>.

  What subscribers are told is a log of the state. Request handlers and accept callbacks of the
  application are functions of the state; the callback that only reports an accepted transfer is left
  out. The value \<open>None\<close> of an operation is a panic, as in the theories of the two sides of a transfer.
\<close>

section \<open>State\<close>

definition DEFAULT_MAX_DECOMPRESSED_SIZE :: nat where "DEFAULT_MAX_DECOMPRESSED_SIZE = 5 * 1024 * 1024"
definition SPLIT_ASSEMBLY_TIMEOUT :: rat where "SPLIT_ASSEMBLY_TIMEOUT = 300"
definition SPLIT_ASSEMBLY_GRACE_BYTES :: rat where "SPLIT_ASSEMBLY_GRACE_BYTES = 1024"

datatype resource_strategy = StrategyNone | StrategyApp | StrategyAll

record resource_event =
  rv_link_id :: address_hash
  rv_hash :: rns_hash
  rv_status :: resource_status
  rv_progress :: rat
  rv_data :: "bytes option"
  rv_metadata :: "bytes option"
  rv_advertisement :: "resource_advertisement option"

datatype request_event =
    ResponseEvent address_hash bytes "bytes option"
  | ProgressEvent address_hash rat
  | FailedEvent address_hash

record request_context =
  rx_path_hash :: address_hash
  rx_data :: bytes
  rx_request_id :: address_hash
  rx_link_id :: address_hash
  rx_remote_identity :: "identity option"
  rx_requested_at :: rat

datatype request_allow = AllowNone | AllowAll | AllowList

record request_handler_config =
  hc_allow :: request_allow
  hc_allowed_list :: "address_hash list"
  hc_auto_compress :: bool
  hc_auto_compress_limit :: "nat option"

definition request_handler_config_default :: request_handler_config where
  "request_handler_config_default =
     \<lparr>hc_allow = AllowAll, hc_allowed_list = [], hc_auto_compress = True, hc_auto_compress_limit = None\<rparr>"

text \<open>The file of a response is the stream that opening it gives, with the position of its end, or nothing.\<close>

datatype request_response =
    ElementResponse bytes
  | FileResponse "((nat \<Rightarrow> nat \<Rightarrow> bytes option) \<times> nat option) option" "bytes option"

record registered_handler =
  rg_invoke :: "request_context \<Rightarrow> request_response option"
  rg_config :: request_handler_config

definition handler_allows :: "registered_handler \<Rightarrow> identity option \<Rightarrow> bool" where
  "handler_allows g remote = (case hc_allow (rg_config g) of
       AllowNone \<Rightarrow> False
     | AllowAll \<Rightarrow> True
     | AllowList \<Rightarrow> (case remote of
           Some i \<Rightarrow> id_address_hash i \<in> set (hc_allowed_list (rg_config g)) | None \<Rightarrow> False))"

record pending_request =
  pn_link_id :: address_hash
  pn_deadline :: "rat option"
  pn_timeout :: "rat option"
  pn_max_response_size :: "nat option"

record split_assembly =
  sa_data :: bytes
  sa_metadata :: "bytes option"
  sa_next_index :: nat
  sa_total_segments :: nat
  sa_data_size :: nat
  sa_last_activity :: rat

record resource_manager =
  mg_out :: "(address_hash, outgoing_resource list) hash_map"
  mg_incoming :: "(address_hash, incoming_resource list) hash_map"
  mg_strategies :: "(address_hash, resource_strategy) hash_map"
  mg_default_strategy :: resource_strategy
  mg_accept_callbacks :: "(address_hash, resource_advertisement \<Rightarrow> bool) hash_map"
  mg_request_handlers :: "(address_hash, (address_hash, registered_handler) hash_map) hash_map"
  mg_pending_requests :: "(address_hash, pending_request) hash_map"
  mg_async_request_handlers :: "(address_hash, (address_hash, request_context \<Rightarrow> bytes option) hash_map) hash_map"
  mg_completed_responses :: "(address_hash, bytes option) hash_map"
  mg_split_assembly :: "(rns_hash, split_assembly) hash_map"
  mg_events :: "resource_event list"
  mg_request_events :: "(address_hash \<times> request_event) list"
  mg_max_decompressed_size :: nat
  mg_max_request_size :: "nat option"
  mg_max_response_size :: "nat option"

definition resource_manager_new :: resource_manager where
  "resource_manager_new = \<lparr>mg_out = [], mg_incoming = [], mg_strategies = [], mg_default_strategy = StrategyNone,
     mg_accept_callbacks = [], mg_request_handlers = [], mg_pending_requests = [], mg_async_request_handlers = [],
     mg_completed_responses = [], mg_split_assembly = [], mg_events = [], mg_request_events = [],
     mg_max_decompressed_size = DEFAULT_MAX_DECOMPRESSED_SIZE, mg_max_request_size = None, mg_max_response_size = None\<rparr>"

definition set_resource_strategy :: "address_hash \<Rightarrow> resource_strategy \<Rightarrow> resource_manager \<Rightarrow> resource_manager" where
  "set_resource_strategy link_id s m = m\<lparr>mg_strategies := hm_insert link_id s (mg_strategies m)\<rparr>"

definition set_default_resource_strategy :: "resource_strategy \<Rightarrow> resource_manager \<Rightarrow> resource_manager" where
  "set_default_resource_strategy s m = m\<lparr>mg_default_strategy := s\<rparr>"

definition resource_strategy_of :: "resource_manager \<Rightarrow> address_hash \<Rightarrow> resource_strategy" where
  "resource_strategy_of m link_id = (case hm_get (mg_strategies m) link_id of
       Some s \<Rightarrow> s | None \<Rightarrow> mg_default_strategy m)"

definition set_accept_callback ::
  "address_hash \<Rightarrow> (resource_advertisement \<Rightarrow> bool) \<Rightarrow> resource_manager \<Rightarrow> resource_manager" where
  "set_accept_callback link_id cb m = m\<lparr>mg_accept_callbacks := hm_insert link_id cb (mg_accept_callbacks m)\<rparr>"

definition path_hash_of :: "sha \<Rightarrow> bytes \<Rightarrow> address_hash" where
  "path_hash_of sha path = address_hash_new_from_slice sha path"

text \<open>\<^verbatim>\<open>entry(k).or_default()\<close> on a map of maps or lists.\<close>

definition or_default :: "('k, 'v list) hash_map \<Rightarrow> 'k \<Rightarrow> 'v list" where
  "or_default m k = (case hm_get m k of Some v \<Rightarrow> v | None \<Rightarrow> [])"

definition register_request_handler_with_config ::
  "sha \<Rightarrow> address_hash \<Rightarrow> bytes \<Rightarrow> request_handler_config \<Rightarrow> (request_context \<Rightarrow> request_response option)
     \<Rightarrow> resource_manager \<Rightarrow> resource_manager" where
  "register_request_handler_with_config sha destination path config handler m =
     m\<lparr>mg_request_handlers := hm_insert destination
        (hm_insert (path_hash_of sha path) \<lparr>rg_invoke = handler, rg_config = config\<rparr>
          (or_default (mg_request_handlers m) destination)) (mg_request_handlers m)\<rparr>"

definition register_request_handler ::
  "sha \<Rightarrow> address_hash \<Rightarrow> bytes \<Rightarrow> (request_context \<Rightarrow> bytes option) \<Rightarrow> resource_manager \<Rightarrow> resource_manager" where
  "register_request_handler sha destination path handler =
     register_request_handler_with_config sha destination path request_handler_config_default
       (\<lambda>ctx. map_option ElementResponse (handler ctx))"

definition register_async_request_handler ::
  "sha \<Rightarrow> address_hash \<Rightarrow> bytes \<Rightarrow> (request_context \<Rightarrow> bytes option) \<Rightarrow> resource_manager \<Rightarrow> resource_manager" where
  "register_async_request_handler sha destination path handler m =
     m\<lparr>mg_async_request_handlers := hm_insert destination
        (hm_insert (path_hash_of sha path) handler (or_default (mg_async_request_handlers m) destination))
        (mg_async_request_handlers m)\<rparr>"

definition find_handler :: "(address_hash, (address_hash, 'h) hash_map) hash_map \<Rightarrow> address_hash \<Rightarrow> address_hash \<Rightarrow> 'h option" where
  "find_handler handlers destination path_hash =
     Option.bind (hm_get handlers destination) (\<lambda>hs. hm_get hs path_hash)"

definition deregister_request_handler :: "sha \<Rightarrow> address_hash \<Rightarrow> bytes \<Rightarrow> resource_manager \<Rightarrow> resource_manager" where
  "deregister_request_handler sha destination path m =
     m\<lparr>mg_request_handlers := hm_modify destination (hm_remove (path_hash_of sha path)) (mg_request_handlers m),
       mg_async_request_handlers := hm_modify destination (hm_remove (path_hash_of sha path)) (mg_async_request_handlers m)\<rparr>"

definition has_request_handlers :: "resource_manager \<Rightarrow> link \<Rightarrow> bool" where
  "has_request_handlers m l \<longleftrightarrow>
     hm_get (mg_request_handlers m) (so_address_hash (lk_destination l)) \<noteq> None
     \<or> hm_get (mg_async_request_handlers m) (so_address_hash (lk_destination l)) \<noteq> None"

section \<open>Requests\<close>

definition track_request :: "address_hash \<Rightarrow> pending_request \<Rightarrow> resource_manager \<Rightarrow> resource_manager" where
  "track_request i p m = m\<lparr>mg_pending_requests := hm_insert i p (mg_pending_requests m)\<rparr>"

definition post_request :: "address_hash \<Rightarrow> request_event \<Rightarrow> resource_manager \<Rightarrow> resource_manager" where
  "post_request link_id e m = m\<lparr>mg_request_events := mg_request_events m @ [(link_id, e)]\<rparr>"

definition post_resource :: "resource_event \<Rightarrow> resource_manager \<Rightarrow> resource_manager" where
  "post_resource e m = m\<lparr>mg_events := mg_events m @ [e]\<rparr>"

definition fail_request :: "address_hash \<Rightarrow> resource_manager \<Rightarrow> resource_manager" where
  "fail_request i m = (case hm_get (mg_pending_requests m) i of
       None \<Rightarrow> m
     | Some p \<Rightarrow> post_request (pn_link_id p) (FailedEvent i)
         (m\<lparr>mg_pending_requests := hm_remove i (mg_pending_requests m)\<rparr>))"

definition arm_response_timeout :: "rat \<Rightarrow> address_hash \<Rightarrow> resource_manager \<Rightarrow> resource_manager" where
  "arm_response_timeout now i m =
     m\<lparr>mg_pending_requests := hm_modify i (\<lambda>p. case (pn_deadline p, pn_timeout p) of
         (None, Some t) \<Rightarrow> p\<lparr>pn_deadline := Some (now + t)\<rparr> | _ \<Rightarrow> p) (mg_pending_requests m)\<rparr>"

definition response_size_allowed :: "resource_manager \<Rightarrow> address_hash \<Rightarrow> nat \<Rightarrow> bool" where
  "response_size_allowed m i n =
     (case (case Option.bind (hm_get (mg_pending_requests m) i) pn_max_response_size of
              Some limit \<Rightarrow> Some limit | None \<Rightarrow> mg_max_response_size m) of
        Some limit \<Rightarrow> n \<le> limit | None \<Rightarrow> True)"

definition unpack_response :: "rmp \<Rightarrow> bytes \<Rightarrow> (address_hash \<times> bytes) option" where
  "unpack_response R data = do {
     (entries, cursor) \<leftarrow> rm_read_array_len R data;
     if entries \<noteq> 2 then None else do {
       (len, cursor) \<leftarrow> rm_read_bin_len R cursor;
       if length cursor < len \<or> len \<noteq> 16 then None else do {
         (v, rest) \<leftarrow> rm_read_value R (drop len cursor);
         Some (AddressHash (take len cursor), case v of
             ValueBinary b \<Rightarrow> b
           | _ \<Rightarrow> take (length (drop len cursor) - length rest) (drop len cursor)) } } }"

definition pack_request_element :: "rmp \<Rightarrow> sha \<Rightarrow> rat \<Rightarrow> bytes \<Rightarrow> bytes option \<Rightarrow> bytes" where
  "pack_request_element R sha now path element =
     rm_write_array_len R 3 @ rm_write_f64 R now @ rm_write_bin R (take 16 (hash_bytes (hash_new_from_slice sha path)))
     @ (case element of Some b \<Rightarrow> b | None \<Rightarrow> rm_write_nil R)"

definition pack_request :: "rmp \<Rightarrow> sha \<Rightarrow> rat \<Rightarrow> bytes \<Rightarrow> bytes \<Rightarrow> bytes" where
  "pack_request R sha now path data = pack_request_element R sha now path (Some (rm_write_bin R data))"

definition request_id :: "sha \<Rightarrow> bytes \<Rightarrow> address_hash" where
  "request_id sha packed = address_hash_new_from_hash (hash_new_from_slice sha packed)"

definition unpack_request :: "rmp \<Rightarrow> bytes \<Rightarrow> (rat \<times> address_hash \<times> bytes) option" where
  "unpack_request R data = do {
     (entries, cursor) \<leftarrow> rm_read_array_len R data;
     if entries \<noteq> 3 then None else do {
       (tv, cursor) \<leftarrow> rm_read_value R cursor;
       time \<leftarrow> (case tv of ValueNumber t \<Rightarrow> Some t | _ \<Rightarrow> None);
       (pv, cursor) \<leftarrow> rm_read_value R cursor;
       path \<leftarrow> (case pv of ValueBinary b \<Rightarrow> if length b = 16 then Some b else None | _ \<Rightarrow> None);
       (v, rest) \<leftarrow> rm_read_value R cursor;
       Some (time, AddressHash path, case v of
           ValueNil \<Rightarrow> [] | ValueBinary b \<Rightarrow> b | ValueString b \<Rightarrow> b
         | _ \<Rightarrow> take (length cursor - length rest) cursor) } }"

definition packet_response_size :: "rmp \<Rightarrow> bytes \<Rightarrow> nat option" where
  "packet_response_size R packed = do {
     (entries, cursor) \<leftarrow> rm_read_array_len R packed;
     if entries \<noteq> 2 then None else do {
       (id_len, cursor) \<leftarrow> rm_read_bin_len R cursor;
       if length cursor < id_len then None else Some (length (drop id_len cursor) - 2) } }"

definition pack_response :: "rmp \<Rightarrow> address_hash \<Rightarrow> bytes \<Rightarrow> bytes" where
  "pack_response R i response = rm_write_array_len R 2 @ rm_write_bin R (addr_bytes i) @ response"

section \<open>Incoming transfers\<close>

definition incoming_event ::
  "link \<Rightarrow> incoming_resource \<Rightarrow> resource_status \<Rightarrow> rat \<Rightarrow> resource_event" where
  "incoming_event l r s progress = \<lparr>rv_link_id = lk_id l, rv_hash = ic_hash r, rv_status = s, rv_progress = progress,
     rv_data = None, rv_metadata = None, rv_advertisement = Some (ic_advertisement_of r)\<rparr>"

text \<open>An accepted advertisement is packed again and read back.\<close>

definition mg_accept ::
  "res_env \<Rightarrow> nat \<Rightarrow> link \<Rightarrow> packet \<Rightarrow> resource_advertisement \<Rightarrow> resource_manager
     \<Rightarrow> (resource_manager \<times> packet list \<times> nat) option" where
  "mg_accept E n l p adv m = do {
     accepted \<leftarrow> ic_accept E p (adv_pack (re_rmp E) adv) l;
     case accepted of
       Inl _ \<Rightarrow> Some (m, [], n)
     | Inr r \<Rightarrow>
         if list_ex (\<lambda>x. ic_hash x = ic_hash r) (or_default (mg_incoming m) (lk_id l)) then Some (m, [], n)
         else do {
           (r, packets, n) \<leftarrow> request_next E n l (hashmap_update 0 (ra_hashmap adv) r);
           let m = post_resource \<lparr>rv_link_id = lk_id l, rv_hash = ic_hash r, rv_status = ic_status r, rv_progress = 0,
                 rv_data = None, rv_metadata = None, rv_advertisement = Some adv\<rparr> m;
               m = (case (if ra_is_response adv then ra_request_id adv else None) of
                   Some i \<Rightarrow> m\<lparr>mg_pending_requests := hm_modify i (\<lambda>p. p\<lparr>pn_deadline := None\<rparr>) (mg_pending_requests m)\<rparr>
                 | None \<Rightarrow> m);
               m = (case request_progress r of
                   Some (i, progress) \<Rightarrow> post_request (lk_id l) (ProgressEvent i progress) m | None \<Rightarrow> m)
           in Some (m\<lparr>mg_incoming := hm_insert (lk_id l) (or_default (mg_incoming m) (lk_id l) @ [r]) (mg_incoming m)\<rparr>,
                packets, n) } }"

definition mg_reject ::
  "res_env \<Rightarrow> nat \<Rightarrow> link \<Rightarrow> resource_advertisement \<Rightarrow> resource_manager \<Rightarrow> (resource_manager \<times> packet list \<times> nat) option" where
  "mg_reject E n l adv m = do { (packets, n) \<leftarrow> reject_packet_for E n (ra_hash adv) l; Some (m, packets, n) }"

definition handle_advertisement ::
  "res_env \<Rightarrow> nat \<Rightarrow> link \<Rightarrow> packet \<Rightarrow> bytes \<Rightarrow> resource_manager \<Rightarrow> (resource_manager \<times> packet list \<times> nat) option" where
  "handle_advertisement E n l p plaintext m = (case adv_unpack (re_rmp E) plaintext of
       Inl _ \<Rightarrow> Some (m, [], n)
     | Inr adv \<Rightarrow>
         if ra_is_request adv
         then if (case mg_max_request_size m of Some limit \<Rightarrow> ra_data_size adv \<le> limit | None \<Rightarrow> True) \<and> has_request_handlers m l
              then mg_accept E n l p adv m else mg_reject E n l adv m
         else if ra_is_response adv
         then
           let i = the (ra_request_id adv);
               known = (hm_get (mg_pending_requests m) i \<noteq> None);
               size_ok = response_size_allowed m i (ra_data_size adv)
           in if known \<and> size_ok then mg_accept E n l p adv m
              else mg_reject E n l adv
                (if known then fail_request i m else post_request (lk_id l) (FailedEvent i) m)
         else (case resource_strategy_of m (lk_id l) of
                 StrategyNone \<Rightarrow> Some (m, [], n)
               | StrategyAll \<Rightarrow> mg_accept E n l p adv m
               | StrategyApp \<Rightarrow>
                   if (case hm_get (mg_accept_callbacks m) (lk_id l) of Some cb \<Rightarrow> cb adv | None \<Rightarrow> False)
                   then mg_accept E n l p adv m else mg_reject E n l adv m))"

text \<open>Every transfer on the link that is not concluded is offered the part.\<close>

fun offer_part ::
  "res_env \<Rightarrow> nat \<Rightarrow> packet \<Rightarrow> link \<Rightarrow> incoming_resource list
     \<Rightarrow> (incoming_resource list \<times> packet list \<times> bool \<times> (address_hash \<times> rat) list \<times> nat) option" where
  "offer_part E n p l [] = Some ([], [], False, [], n)"
| "offer_part E n p l (r # rs) =
     (if is_concluded (ic_status r)
      then do { (rs, packets, assembled, progress, n) \<leftarrow> offer_part E n p l rs; Some (r # rs, packets, assembled, progress, n) }
      else do {
        (completed, r', packets, n) \<leftarrow> receive_part E n p l r;
        (rs, packets', assembled, progress, n) \<leftarrow> offer_part E n p l rs;
        let update = (if ic_received_count r' \<noteq> ic_received_count r then request_progress r' else None)
        in Some (r' # rs, packets @ packets', completed \<or> assembled,
             (case update of Some u \<Rightarrow> u # progress | None \<Rightarrow> progress), n) })"

definition handle_part ::
  "res_env \<Rightarrow> nat \<Rightarrow> link \<Rightarrow> packet \<Rightarrow> resource_manager \<Rightarrow> (bool \<times> resource_manager \<times> packet list \<times> nat) option" where
  "handle_part E n l p m = (case hm_get (mg_incoming m) (lk_id l) of
       None \<Rightarrow> Some (False, m, [], n)
     | Some rs \<Rightarrow> do {
         (rs, packets, assembled, progress, n) \<leftarrow> offer_part E n p l rs;
         let m = m\<lparr>mg_incoming := hm_modify (lk_id l) (\<lambda>_. rs) (mg_incoming m)\<rparr>
         in Some (assembled, fold (\<lambda>(i, x). post_request (lk_id l) (ProgressEvent i x)) progress m, packets, n) })"

text \<open>The response to a request that a finished transfer carries.\<close>

definition deliver_response ::
  "rmp \<Rightarrow> link \<Rightarrow> address_hash \<Rightarrow> bytes \<Rightarrow> bytes option \<Rightarrow> resource_manager \<Rightarrow> resource_manager" where
  "deliver_response R l i full_data metadata m =
     (let complete = (\<lambda>k d m. m\<lparr>mg_completed_responses := hm_insert k (Some d) (mg_completed_responses m)\<rparr>);
          m = (case unpack_response R full_data of
              Some (rid, response) \<Rightarrow>
                post_request (lk_id l) (ResponseEvent rid response metadata) (if rid = i then complete rid response m else m)
            | None \<Rightarrow>
                if metadata \<noteq> None then post_request (lk_id l) (ResponseEvent i full_data metadata) (complete i full_data m)
                else post_request (lk_id l) (FailedEvent i) m)
      in m\<lparr>mg_pending_requests := hm_remove i (mg_pending_requests m)\<rparr>)"

text \<open>
  A proved segment of a split transfer: the data and the metadata of the whole resource when it was
  the last one, or the mark of a segment that does not fit. The code removes the collected segments
  of a finished resource from a map that it has just written them to, so its branch for a missing
  entry is never taken.
\<close>

definition collect_segment ::
  "rat \<Rightarrow> bytes \<Rightarrow> incoming_resource \<Rightarrow> (rns_hash, split_assembly) hash_map
     \<Rightarrow> (bytes \<times> bytes option) option option \<times> (rns_hash, split_assembly) hash_map" where
  "collect_segment now data r t =
     (let k = ic_original_hash r;
          a = (case hm_get t k of Some a \<Rightarrow> a
             | None \<Rightarrow> \<lparr>sa_data = [], sa_metadata = None, sa_next_index = 1, sa_total_segments = ic_total_segments r,
                 sa_data_size = ic_total_size r, sa_last_activity = now\<rparr>)
      in if ic_segment_index r \<noteq> sa_next_index a \<or> ic_total_segments r \<noteq> sa_total_segments a
            \<or> ic_total_size r \<noteq> sa_data_size a
         then (None, hm_remove k t)
         else
           let a = a\<lparr>sa_metadata := (if ic_segment_index r = 1 \<and> sa_metadata a = None then ic_metadata r else sa_metadata a),
                     sa_data := sa_data a @ data, sa_next_index := sa_next_index a + 1, sa_last_activity := now\<rparr>
           in if ic_segment_index r = ic_total_segments r
              then (Some (Some (sa_data a, sa_metadata a)), hm_remove k t)
              else (Some None, hm_insert k a t))"

text \<open>
  One finished transfer: the state of the transfer, the manager, packets, requests that fail, the
  data when the whole resource is there, and the next draw.
\<close>

definition assemble_one ::
  "res_env \<Rightarrow> nat \<Rightarrow> link \<Rightarrow> incoming_resource \<Rightarrow> resource_manager
     \<Rightarrow> (incoming_resource \<times> resource_manager \<times> packet list \<times> address_hash list \<times> (rns_hash \<times> bytes) option \<times> nat) option" where
  "assemble_one E n l r m =
     (let rids = (\<lambda>r. case ic_request_id r of Some i \<Rightarrow> [i] | None \<Rightarrow> []) in
      case ic_assemble E l (mg_max_decompressed_size m) r of
        (Inl _, r) \<Rightarrow>
          let r = r\<lparr>ic_status := Corrupt\<rparr>;
              m = (if ic_split r then m\<lparr>mg_split_assembly := hm_remove (ic_original_hash r) (mg_split_assembly m)\<rparr> else m)
          in Some (r, post_resource (incoming_event l r Corrupt (ic_progress r)) m, [], rids r, None, n)
      | (Inr data, r) \<Rightarrow>
          if ic_is_response r \<and> (case ic_request_id r of Some i \<Rightarrow> hm_get (mg_pending_requests m) i = None | None \<Rightarrow> False)
          then
            let r = r\<lparr>ic_status := Failed\<rparr>
            in do {
              (packets, n) \<leftarrow> reject_packet_for E n (ic_hash r) l;
              Some (r, post_resource (incoming_event l r Failed (ic_progress r)) m, packets, [], None, n) }
          else
            let (r, packets) = ic_prove (re_sha E) l (the (ic_assembled r)) (r\<lparr>ic_status := Complete\<rparr>);
                r = r\<lparr>ic_last_activity := re_now E\<rparr>;
                (whole, t) = (if ic_split r then collect_segment (re_now E) data r (mg_split_assembly m)
                              else (Some (Some (data, ic_metadata r)), mg_split_assembly m));
                m = m\<lparr>mg_split_assembly := t\<rparr>
            in case whole of
                 None \<Rightarrow>
                   let r = r\<lparr>ic_status := Corrupt\<rparr>
                   in Some (r, post_resource (incoming_event l r Corrupt 0) m, packets, rids r, None, n)
               | Some whole \<Rightarrow>
                   let m = post_resource ((incoming_event l r Complete (ic_progress r))\<lparr>rv_data := map_option fst whole,
                         rv_metadata := Option.bind whole snd\<rparr>) m;
                       m = (case (if ic_is_response r \<and> ic_segment_index r = ic_total_segments r then ic_request_id r else None) of
                           None \<Rightarrow> m
                         | Some i \<Rightarrow>
                             let m = post_request (lk_id l) (ProgressEvent i 1) m
                             in case whole of
                                  Some (full_data, metadata) \<Rightarrow> deliver_response (re_rmp E) l i full_data metadata m
                                | None \<Rightarrow> m)
                   in Some (r, m, packets, [], map_option (\<lambda>w. (ic_hash r, fst w)) whole, n))"

fun assemble_loop ::
  "res_env \<Rightarrow> nat \<Rightarrow> link \<Rightarrow> incoming_resource list \<Rightarrow> resource_manager
     \<Rightarrow> (incoming_resource list \<times> resource_manager \<times> packet list \<times> address_hash list \<times> (rns_hash \<times> bytes) option \<times> nat) option" where
  "assemble_loop E n l [] m = Some ([], m, [], [], None, n)"
| "assemble_loop E n l (r # rs) m =
     (if ic_assembled r \<noteq> None \<or> ic_status r \<noteq> Assembling
      then do {
        (rs, m, packets, failed, completed, n) \<leftarrow> assemble_loop E n l rs m;
        Some (r # rs, m, packets, failed, completed, n) }
      else do {
        (r, m, packets, failed, completed, n) \<leftarrow> assemble_one E n l r m;
        if completed \<noteq> None then Some (r # rs, m, packets, failed, completed, n)
        else do {
          (rs, m, packets', failed', completed, n) \<leftarrow> assemble_loop E n l rs m;
          Some (r # rs, m, packets @ packets', failed @ failed', completed, n) } })"

definition assemble_completed ::
  "res_env \<Rightarrow> nat \<Rightarrow> link \<Rightarrow> resource_manager \<Rightarrow> ((rns_hash \<times> bytes) option \<times> resource_manager \<times> packet list \<times> nat) option" where
  "assemble_completed E n l m = (case hm_get (mg_incoming m) (lk_id l) of
       None \<Rightarrow> Some (None, m, [], n)
     | Some rs \<Rightarrow> do {
         (rs, m, packets, failed, completed, n) \<leftarrow> assemble_loop E n l rs m;
         Some (completed, fold fail_request failed (m\<lparr>mg_incoming := hm_modify (lk_id l) (\<lambda>_. rs) (mg_incoming m)\<rparr>),
           packets, n) })"

text \<open>The first transfer with the hash gets the slice of the map.\<close>

fun update_hashmap ::
  "res_env \<Rightarrow> nat \<Rightarrow> link \<Rightarrow> bytes \<Rightarrow> incoming_resource list \<Rightarrow> (incoming_resource list \<times> packet list \<times> nat) option" where
  "update_hashmap E n l plaintext [] = Some ([], [], n)"
| "update_hashmap E n l plaintext (r # rs) =
     (if length plaintext \<ge> 32 \<and> take 32 plaintext = hash_bytes (ic_hash r)
      then do {
        (r, packets, n) \<leftarrow> request_next E n l (hashmap_update_packet E plaintext r);
        Some (r # rs, packets, n) }
      else do { (rs, packets, n) \<leftarrow> update_hashmap E n l plaintext rs; Some (r # rs, packets, n) })"

definition handle_hashmap_update ::
  "res_env \<Rightarrow> nat \<Rightarrow> link \<Rightarrow> bytes \<Rightarrow> resource_manager \<Rightarrow> (resource_manager \<times> packet list \<times> nat) option" where
  "handle_hashmap_update E n l plaintext m = (case hm_get (mg_incoming m) (lk_id l) of
       None \<Rightarrow> Some (m, [], n)
     | Some rs \<Rightarrow> do {
         (rs, packets, n) \<leftarrow> update_hashmap E n l plaintext rs;
         Some (m\<lparr>mg_incoming := hm_modify (lk_id l) (\<lambda>_. rs) (mg_incoming m)\<rparr>, packets, n) })"

definition handle_cancel :: "link \<Rightarrow> bytes \<Rightarrow> resource_manager \<Rightarrow> resource_manager" where
  "handle_cancel l plaintext m =
     (if length plaintext < 32 then m
      else
        let hash = Hash (take 32 plaintext);
            hit = (\<lambda>r. ic_hash r = hash \<and> \<not> is_concluded (ic_status r));
            rs = or_default (mg_incoming m) (lk_id l);
            cancelled = map (\<lambda>r. r\<lparr>ic_status := Failed\<rparr>) (filter hit rs);
            m = m\<lparr>mg_incoming := hm_modify (lk_id l) (map (\<lambda>r. if hit r then r\<lparr>ic_status := Failed\<rparr> else r)) (mg_incoming m)\<rparr>;
            m = fold (\<lambda>r. post_resource (incoming_event l r Failed 0)) cancelled m
        in fold fail_request (List.map_filter ic_request_id cancelled) m)"

section \<open>Outgoing transfers\<close>

definition outgoing_event ::
  "link \<Rightarrow> outgoing_resource \<Rightarrow> resource_status \<Rightarrow> rat \<Rightarrow> resource_event" where
  "outgoing_event l og s progress = \<lparr>rv_link_id = lk_id l, rv_hash = og_hash og, rv_status = s, rv_progress = progress,
     rv_data = None, rv_metadata = None, rv_advertisement = Some (og_advertisement og)\<rparr>"

fun request_all ::
  "res_env \<Rightarrow> nat \<Rightarrow> link \<Rightarrow> bytes \<Rightarrow> rns_hash \<Rightarrow> outgoing_resource list
     \<Rightarrow> (outgoing_resource list \<times> packet list \<times> nat) option" where
  "request_all E n l plaintext hash [] = Some ([], [], n)"
| "request_all E n l plaintext hash (og # ogs) = do {
     (og, packets, n) \<leftarrow> (if og_hash og = hash \<and> \<not> is_concluded (og_status og) then og_request E n l plaintext og
                          else Some (og, [], n));
     (ogs, packets', n) \<leftarrow> request_all E n l plaintext hash ogs;
     Some (og # ogs, packets @ packets', n) }"

definition handle_request_data ::
  "res_env \<Rightarrow> nat \<Rightarrow> link \<Rightarrow> bytes \<Rightarrow> resource_manager \<Rightarrow> (resource_manager \<times> packet list \<times> nat) option" where
  "handle_request_data E n l plaintext m =
     (let offset = (if plaintext \<noteq> [] \<and> hd plaintext = HASHMAP_IS_EXHAUSTED then 1 + MAPHASH_LEN else 1)
      in if length plaintext < offset + 32 then Some (m, [], n)
         else case hm_get (mg_out m) (lk_id l) of
                None \<Rightarrow> Some (m, [], n)
              | Some ogs \<Rightarrow> do {
                  (ogs, packets, n) \<leftarrow> request_all E n l plaintext (Hash (take 32 (drop offset plaintext))) ogs;
                  Some (m\<lparr>mg_out := hm_modify (lk_id l) (\<lambda>_. ogs) (mg_out m)\<rparr>, packets, n) })"

text \<open>What one valid proof leads to.\<close>

record proof_effects =
  pf_completed :: "resource_event list"
  pf_failed :: "resource_event list"
  pf_next :: "outgoing_resource option"
  pf_delivered_requests :: "address_hash list"
  pf_failed_requests :: "address_hash list"

definition proof_effects_none :: proof_effects where
  "proof_effects_none = \<lparr>pf_completed = [], pf_failed = [], pf_next = None, pf_delivered_requests = [], pf_failed_requests = []\<rparr>"

text \<open>A proved segment: the next segment is prepared and advertised.\<close>

definition proved_segment ::
  "res_env \<Rightarrow> nat \<Rightarrow> link \<Rightarrow> outgoing_resource \<Rightarrow> proof_effects
     \<Rightarrow> (outgoing_resource \<times> packet list \<times> proof_effects \<times> nat) option" where
  "proved_segment E n l og f =
     (let concluded = (\<lambda>og packets f n.
            let f = (case (if \<not> og_is_response og \<and> og_segment_index og = og_total_segments og then og_request_id og else None) of
                       Some i \<Rightarrow> f\<lparr>pf_delivered_requests := pf_delivered_requests f @ [i]\<rparr> | None \<Rightarrow> f)
            in (og, packets, f\<lparr>pf_completed := pf_completed f @ [outgoing_event l og Complete (og_progress og)]\<rparr>, n))
      in if og_split og \<and> og_segment_index og < og_total_segments og
         then do {
           (next, og, n) \<leftarrow> prepare_next_segment E n l og;
           case next of
             Inl _ \<Rightarrow> do {
               (og, packets, n) \<leftarrow> og_cancel_packet E n l og;
               Some (og, packets, f\<lparr>pf_failed_requests := pf_failed_requests f
                   @ (case og_request_id og of Some i \<Rightarrow> [i] | None \<Rightarrow> []),
                 pf_failed := pf_failed f @ [outgoing_event l og Failed (og_progress og)]\<rparr>, n) }
           | Inr None \<Rightarrow> Some (concluded og [] f n)
           | Inr (Some nx) \<Rightarrow> do {
               (_, nx, packets, n) \<leftarrow> og_advertise E n l nx;
               Some (concluded og packets (f\<lparr>pf_next := Some nx\<rparr>) n) } }
         else Some (concluded og [] f n))"

fun prove_all ::
  "res_env \<Rightarrow> nat \<Rightarrow> link \<Rightarrow> bytes \<Rightarrow> outgoing_resource list \<Rightarrow> proof_effects
     \<Rightarrow> (outgoing_resource list \<times> packet list \<times> proof_effects \<times> nat) option" where
  "prove_all E n l proof_data [] f = Some ([], [], f, n)"
| "prove_all E n l proof_data (og # ogs) f =
     (let (valid, og') = (if hash_bytes (og_hash og) \<noteq> take 32 proof_data \<or> og_status og = Complete then (False, og)
                          else og_validate_proof proof_data og)
      in do {
        (og', packets, f, n) \<leftarrow> (if valid then proved_segment E n l og' f else Some (og', [], f, n));
        (ogs, packets', f, n) \<leftarrow> prove_all E n l proof_data ogs f;
        Some (og' # ogs, packets @ packets', f, n) })"

definition mg_handle_proof ::
  "res_env \<Rightarrow> nat \<Rightarrow> link \<Rightarrow> bytes \<Rightarrow> resource_manager \<Rightarrow> (resource_manager \<times> packet list \<times> nat) option" where
  "mg_handle_proof E n l proof_data m =
     (if length proof_data \<noteq> 64 then Some (m, [], n)
      else case hm_get (mg_out m) (lk_id l) of
             None \<Rightarrow> Some (m, [], n)
           | Some ogs \<Rightarrow> do {
               (ogs, packets, f, n) \<leftarrow> prove_all E n l proof_data ogs proof_effects_none;
               let m = m\<lparr>mg_out := hm_modify (lk_id l) (\<lambda>_. ogs @ (case pf_next f of Some nx \<Rightarrow> [nx] | None \<Rightarrow> [])) (mg_out m)\<rparr>;
                   m = fold post_resource (pf_completed f @ pf_failed f) m;
                   m = fold (arm_response_timeout (re_now E)) (pf_delivered_requests f) m
               in Some (fold fail_request (pf_failed_requests f) m, packets, n) })"

definition handle_reject :: "link \<Rightarrow> bytes \<Rightarrow> resource_manager \<Rightarrow> resource_manager" where
  "handle_reject l plaintext m =
     (if length plaintext < 32 then m
      else
        let hash = Hash (take 32 plaintext);
            hit = (\<lambda>og. og_hash og = hash \<and> \<not> is_concluded (og_status og));
            ogs = or_default (mg_out m) (lk_id l);
            rejected = map (\<lambda>og. og\<lparr>og_status := Rejected\<rparr>) (filter hit ogs);
            m = m\<lparr>mg_out := hm_modify (lk_id l) (map (\<lambda>og. if hit og then og\<lparr>og_status := Rejected\<rparr> else og)) (mg_out m)\<rparr>;
            m = fold (\<lambda>og. post_resource (outgoing_event l og Rejected 0)) rejected m
        in fold fail_request (List.map_filter og_request_id rejected) m)"

section \<open>Cancelling\<close>

definition cancelled_event :: "link \<Rightarrow> rns_hash \<Rightarrow> resource_event" where
  "cancelled_event l hash = \<lparr>rv_link_id = lk_id l, rv_hash = hash, rv_status = Failed, rv_progress = 0, rv_data = None,
     rv_metadata = None, rv_advertisement = None\<rparr>"

fun cancel_outgoing ::
  "res_env \<Rightarrow> nat \<Rightarrow> link \<Rightarrow> rns_hash \<Rightarrow> outgoing_resource list
     \<Rightarrow> (outgoing_resource list \<times> packet list \<times> outgoing_resource list \<times> nat) option" where
  "cancel_outgoing E n l hash [] = Some ([], [], [], n)"
| "cancel_outgoing E n l hash (og # ogs) =
     (if (og_original_hash og = hash \<or> og_hash og = hash) \<and> \<not> is_concluded (og_status og)
      then do {
        (og, packets, n) \<leftarrow> og_cancel_packet E n l og;
        (ogs, packets', cancelled, n) \<leftarrow> cancel_outgoing E n l hash ogs;
        Some (og # ogs, packets @ packets', og # cancelled, n) }
      else do { (ogs, packets, cancelled, n) \<leftarrow> cancel_outgoing E n l hash ogs; Some (og # ogs, packets, cancelled, n) })"

definition cancel_outbound ::
  "res_env \<Rightarrow> nat \<Rightarrow> link \<Rightarrow> rns_hash \<Rightarrow> resource_manager \<Rightarrow> (packet list option \<times> resource_manager \<times> nat) option" where
  "cancel_outbound E n l hash m = (case hm_get (mg_out m) (lk_id l) of
       None \<Rightarrow> Some (None, m, n)
     | Some ogs \<Rightarrow> do {
         (ogs, packets, cancelled, n) \<leftarrow> cancel_outgoing E n l hash ogs;
         if cancelled = [] then Some (None, m, n)
         else
           let m = m\<lparr>mg_out := hm_modify (lk_id l) (\<lambda>_. ogs) (mg_out m)\<rparr>;
               m = fold (\<lambda>og. post_resource (cancelled_event l (og_hash og))) cancelled m
           in Some (Some packets, fold fail_request (List.map_filter og_request_id cancelled) m, n) })"

fun cancel_incoming ::
  "res_env \<Rightarrow> nat \<Rightarrow> link \<Rightarrow> rns_hash \<Rightarrow> incoming_resource list
     \<Rightarrow> (incoming_resource list \<times> packet list \<times> incoming_resource list \<times> nat) option" where
  "cancel_incoming E n l hash [] = Some ([], [], [], n)"
| "cancel_incoming E n l hash (r # rs) =
     (if (ic_original_hash r = hash \<or> ic_hash r = hash) \<and> \<not> is_concluded (ic_status r)
      then do {
        (packets, n) \<leftarrow> reject_packet_for E n (ic_hash r) l;
        (rs, packets', cancelled, n) \<leftarrow> cancel_incoming E n l hash rs;
        Some (r\<lparr>ic_status := Failed\<rparr> # rs, packets @ packets', r # cancelled, n) }
      else do { (rs, packets, cancelled, n) \<leftarrow> cancel_incoming E n l hash rs; Some (r # rs, packets, cancelled, n) })"

definition cancel_inbound ::
  "res_env \<Rightarrow> nat \<Rightarrow> link \<Rightarrow> rns_hash \<Rightarrow> resource_manager \<Rightarrow> (packet list option \<times> resource_manager \<times> nat) option" where
  "cancel_inbound E n l hash m = (case hm_get (mg_incoming m) (lk_id l) of
       None \<Rightarrow> Some (None, m, n)
     | Some rs \<Rightarrow> do {
         (rs, packets, cancelled, n) \<leftarrow> cancel_incoming E n l hash rs;
         if cancelled = [] then Some (None, m, n)
         else
           let m = m\<lparr>mg_incoming := hm_modify (lk_id l) (\<lambda>_. rs) (mg_incoming m)\<rparr>;
               m = fold (\<lambda>r. post_resource (cancelled_event l (ic_hash r))) cancelled m
           in Some (Some packets, fold fail_request (List.map_filter ic_request_id cancelled) m, n) })"

section \<open>The watchdog\<close>

text \<open>
  A sweep over the transfers of one link that are sent: a waiting transfer is advertised when none
  was active before the sweep and none was advertised in it. The result has the transfers that timed out.
\<close>

fun sweep_outgoing ::
  "res_env \<Rightarrow> nat \<Rightarrow> link \<Rightarrow> bool \<Rightarrow> bool \<Rightarrow> outgoing_resource list
     \<Rightarrow> (outgoing_resource list \<times> packet list \<times> outgoing_resource list \<times> nat) option" where
  "sweep_outgoing E n l any_active advertised [] = Some ([], [], [], n)"
| "sweep_outgoing E n l any_active advertised (og # ogs) =
     (if is_concluded (og_status og)
      then do { (ogs, packets, failed, n) \<leftarrow> sweep_outgoing E n l any_active advertised ogs; Some (og # ogs, packets, failed, n) }
      else if og_status og = Queued
      then do {
        (og, packets, n) \<leftarrow> (if \<not> any_active \<and> \<not> advertised
           then do { (_, og, packets, n) \<leftarrow> og_advertise E n l og; Some (og, packets, n) } else Some (og, [], n));
        (ogs, packets', failed, n) \<leftarrow> sweep_outgoing E n l any_active (advertised \<or> \<not> any_active) ogs;
        Some (og # ogs, packets @ packets', failed, n) }
      else do {
        (fails, og, packets, n) \<leftarrow> og_check E n l og;
        (ogs, packets', failed, n) \<leftarrow> sweep_outgoing E n l any_active advertised ogs;
        Some (og # ogs, packets @ packets', if fails then og # failed else failed, n) })"

fun sweep_incoming ::
  "res_env \<Rightarrow> nat \<Rightarrow> link \<Rightarrow> incoming_resource list
     \<Rightarrow> (incoming_resource list \<times> packet list \<times> incoming_resource list \<times> nat) option" where
  "sweep_incoming E n l [] = Some ([], [], [], n)"
| "sweep_incoming E n l (r # rs) =
     (if is_concluded (ic_status r)
      then do { (rs, packets, failed, n) \<leftarrow> sweep_incoming E n l rs; Some (r # rs, packets, failed, n) }
      else do {
        (fails, r, packets, n) \<leftarrow> ic_check E n l r;
        (rs, packets', failed, n) \<leftarrow> sweep_incoming E n l rs;
        Some (r # rs, packets @ packets', if fails then r # failed else failed, n) })"

definition sweep_out_link ::
  "res_env \<Rightarrow> (address_hash \<Rightarrow> link option) \<Rightarrow> address_hash
     \<Rightarrow> resource_manager \<times> packet list \<times> resource_event list \<times> address_hash list \<times> nat
     \<Rightarrow> (resource_manager \<times> packet list \<times> resource_event list \<times> address_hash list \<times> nat) option" where
  "sweep_out_link E links k = (\<lambda>(m, tx, events, requests, n).
     case (links k, hm_get (mg_out m) k) of
       (Some l, Some ogs) \<Rightarrow> do {
         (ogs, packets, failed, n) \<leftarrow> sweep_outgoing E n l
           (list_ex (\<lambda>og. \<not> is_concluded (og_status og) \<and> og_status og \<noteq> Queued) ogs) False ogs;
         Some (m\<lparr>mg_out := hm_modify k (\<lambda>_. ogs) (mg_out m)\<rparr>, tx @ packets,
           events @ map (\<lambda>og. (outgoing_event l og Failed (og_progress og))\<lparr>rv_link_id := k\<rparr>) failed,
           requests @ List.map_filter og_request_id (filter (\<lambda>og. \<not> og_is_response og) failed), n) }
     | _ \<Rightarrow> Some (m, tx, events, requests, n))"

definition sweep_in_link ::
  "res_env \<Rightarrow> (address_hash \<Rightarrow> link option) \<Rightarrow> address_hash
     \<Rightarrow> resource_manager \<times> packet list \<times> resource_event list \<times> address_hash list \<times> nat
     \<Rightarrow> (resource_manager \<times> packet list \<times> resource_event list \<times> address_hash list \<times> nat) option" where
  "sweep_in_link E links k = (\<lambda>(m, tx, events, requests, n).
     case (links k, hm_get (mg_incoming m) k) of
       (Some l, Some rs) \<Rightarrow> do {
         (rs, packets, failed, n) \<leftarrow> sweep_incoming E n l rs;
         Some (m\<lparr>mg_incoming := hm_modify k (\<lambda>_. rs) (mg_incoming m)\<rparr>, tx @ packets,
           events @ map (\<lambda>r. (incoming_event l r Failed (ic_progress r))\<lparr>rv_link_id := k\<rparr>) failed,
           requests @ List.map_filter ic_request_id (filter ic_is_response failed), n) }
     | _ \<Rightarrow> Some (m, tx, events, requests, n))"

definition expire_requests :: "rat \<Rightarrow> resource_manager \<Rightarrow> resource_manager" where
  "expire_requests now m = fold fail_request
     (map fst (filter (\<lambda>(_, p). case pn_deadline p of Some d \<Rightarrow> now > d | None \<Rightarrow> False) (mg_pending_requests m))) m"

definition mg_check ::
  "res_env \<Rightarrow> nat \<Rightarrow> (address_hash \<Rightarrow> link option) \<Rightarrow> resource_manager \<Rightarrow> (resource_manager \<times> packet list \<times> nat) option" where
  "mg_check E n links m = do {
     s \<leftarrow> fold (\<lambda>k s. Option.bind s (sweep_out_link E links k)) (map fst (mg_out m)) (Some (m, [], [], [], n));
     (m, tx, events, requests, n) \<leftarrow> fold (\<lambda>k s. Option.bind s (sweep_in_link E links k)) (map fst (mg_incoming m)) (Some s);
     Some (expire_requests (re_now E) (fold fail_request requests (fold post_resource events m)), tx, n) }"

definition mg_cleanup :: "rat \<Rightarrow> resource_manager \<Rightarrow> resource_manager" where
  "mg_cleanup now m =
     (let abandoned = map ic_original_hash (filter (\<lambda>r. ic_split r \<and> ic_status r \<in> {Failed, Corrupt, Rejected})
            (concat (map snd (mg_incoming m))))
      in m\<lparr>mg_out := filter (\<lambda>(_, ogs). ogs \<noteq> []) (map (\<lambda>(k, ogs). (k, filter (\<lambda>og. \<not> is_concluded (og_status og)) ogs)) (mg_out m)),
           mg_incoming := filter (\<lambda>(_, rs). rs \<noteq> []) (map (\<lambda>(k, rs). (k, filter (\<lambda>r. \<not> is_concluded (ic_status r)) rs)) (mg_incoming m)),
           mg_split_assembly := hm_retain (\<lambda>k a. k \<notin> set abandoned \<and> sa_next_index a > 0
             \<and> of_nat (length (sa_data a)) < of_nat (sa_data_size a) * 2 + SPLIT_ASSEMBLY_GRACE_BYTES
             \<and> now < sa_last_activity a + SPLIT_ASSEMBLY_TIMEOUT) (mg_split_assembly m)\<rparr>)"

end
