(* ===== verification/Rns_Node.thy ===== *)
theory Rns_Node
  imports Rns_Iface Rns_Receipts Rns_Known Rns_Inbound Rns_Tunnels Rns_Path_Requests Rns_Link_Watch
    Rns_Packet_Cache Rns_Resource_Manager "HOL-Library.Monad_Syntax"
begin

text \<open>
  The transport handler of \<^verbatim>\<open>src/transport.rs\<close> as one state over the tables of the other theories, and
  how packets leave it: the outbound gate, the duplicate filter, path requests, forwarding along a
  path, proofs on the reverse path, and the calls with which an application opens links and sends
  data. The theory shows that nothing leaves a node with a hop count that the decoder of the next node
  refuses, and where sending does not do what its callers rely on.

  What interfaces are handed and the events posted to subscribers are logs of the state. Clock
  readings, random draws and the codecs of the MessagePack library are fields of an environment that
  every operation gets; the draws are numbered. One operation reads each clock once. Locks that the
  code only tries to take are free.
\<close>

section \<open>Environment and state\<close>

record env =
  ev_crypto :: crypto
  ev_dflt :: bytes
  ev_now :: nanos
  ev_unix :: rat
  ev_uptime :: rat
  ev_tag :: "nat \<Rightarrow> bytes"
  ev_hash :: "nat \<Rightarrow> rns_hash"
  ev_key :: "nat \<Rightarrow> bytes"
  ev_iv :: "nat \<Rightarrow> bytes"
  ev_window :: "nat \<Rightarrow> nanos"
  ev_read_f64 :: "bytes \<Rightarrow> rat option"
  ev_write_f64 :: "nanos \<Rightarrow> bytes"
  ev_pack_known :: "(address_hash \<times> known_destination) list \<Rightarrow> bytes result"
  ev_pack_ratchet :: "bytes \<times> rat \<Rightarrow> bytes result"
  ev_unpack_ratchet :: "bytes \<Rightarrow> (bytes \<times> rat) result"
  ev_pack_ratchet_list :: "bytes list \<Rightarrow> bytes result"
  ev_pack_ratchet_file :: "bytes list \<Rightarrow> bytes \<Rightarrow> bytes result"
  ev_unpack_ratchet_file :: "bytes \<Rightarrow> (bytes list \<times> bytes) result"
  ev_pack_blackholes :: "(address_hash \<times> blackhole_entry) list \<Rightarrow> bytes"
  ev_parse_blackholes :: "bytes \<Rightarrow> (address_hash \<times> blackhole_entry) list option"
  ev_rmp :: rmp
  ev_bz2 :: "bz2 option"

abbreviation ev_sha :: "env \<Rightarrow> sha" where
  "ev_sha E \<equiv> cr_sha (ev_crypto E)"

text \<open>Where a link is kept, and a request handler that still runs.\<close>

datatype link_slot = InSlot address_hash | OutSlot address_hash

record response_task =
  rt_slot :: link_slot
  rt_request_id :: address_hash
  rt_response :: "bytes option"

datatype node_event =
    InLinkEvent address_hash link_event
  | OutLinkEvent address_hash link_event
  | ChannelPayload address_hash bytes
  | ReceivedData address_hash bytes bool
  | ReceiptNews receipt_event
  | AnnounceNews single_out bytes "bytes option"

text \<open>The configuration values that the handlers read come first.\<close>

record transport_handler =
  th_identity :: private_identity
  th_retransmit :: bool
  th_implicit_proof :: bool
  th_restart_outlinks :: bool
  th_link_mtu_discovery :: bool
  th_timers :: timer_config
  th_ifaces :: iface_manager
  th_path_table :: path_table
  th_announce_table :: announce_table
  th_channel_table :: "address_hash list"
  th_link_table :: link_table
  th_single_in :: "(address_hash, single_in) hash_map"
  th_single_out :: "(address_hash, single_out) hash_map"
  th_plain_in :: "(address_hash, group_dest) hash_map"
  th_group_in :: "(address_hash, group_dest) hash_map"
  th_announce_limits :: announce_limits
  th_phy :: phy_cache
  th_out_links :: "(address_hash, link) hash_map"
  th_in_links :: "(address_hash, link) hash_map"
  th_in_link_ifaces :: "(address_hash, address_hash) hash_map"
  th_packet_cache :: packet_cache
  th_blackholes :: blackholes
  th_path_requests :: path_requests
  th_storage :: "storage option"
  th_known_destinations :: known_destinations
  th_known_ratchets :: known_ratchets
  th_receipts :: receipts
  th_ratchet_paths :: "(address_hash, string) hash_map"
  th_fixed_path_requests :: address_hash
  th_fixed_tunnel_synthesize :: address_hash
  th_tunnels :: tunnels
  th_blackhole_sources :: "address_hash list"
  th_inbound_queues :: inbound_queues
  th_reverse_table :: "(address_hash, reverse_entry) hash_map"
  th_shared_was_online :: "bool option"
  th_seen_local_clients :: "address_hash list"
  th_resources :: resource_manager
  th_tasks :: "response_task list"
  th_draws :: nat
  th_out :: "iface_output list"
  th_events :: "node_event list"

record transport_config =
  cf_identity :: private_identity
  cf_retransmit :: bool
  cf_reroute_eager :: bool
  cf_restart_outlinks :: bool
  cf_blackhole_sources :: "address_hash list"
  cf_link_mtu_discovery :: bool
  cf_inbound_queue_lengths :: "nat list"
  cf_storage :: "storage option"
  cf_implicit_proof :: bool
  cf_local_hops_delta :: bool
  cf_timers :: timer_config
  cf_announce_cache_capacity :: nat
  cf_phy_cache_capacity :: nat

definition transport_config_new :: "private_identity \<Rightarrow> transport_config" where
  "transport_config_new identity =
     \<lparr>cf_identity = identity, cf_retransmit = False, cf_reroute_eager = False, cf_restart_outlinks = False,
      cf_blackhole_sources = [], cf_link_mtu_discovery = True, cf_inbound_queue_lengths = INBOUND_QUEUE_LENGTHS, cf_storage = None,
      cf_implicit_proof = True, cf_local_hops_delta = False, cf_timers = timer_config_default,
      cf_announce_cache_capacity = 8192, cf_phy_cache_capacity = 512\<rparr>"

definition own_address :: "transport_handler \<Rightarrow> address_hash" where
  "own_address h = id_address_hash (pi_identity (th_identity h))"

text \<open>\<open>random\<close> is the byte that the sampled hop count is made of.\<close>

definition transport_new :: "crypto \<Rightarrow> u8 \<Rightarrow> transport_config \<Rightarrow> transport_handler" where
  "transport_new C random cf =
     (let own = id_address_hash (pi_identity (cf_identity cf));
          local_hops_delta = (if cf_local_hops_delta cf then random mod 6 + 2 else 0)
      in \<lparr>th_identity = cf_identity cf, th_retransmit = cf_retransmit cf, th_implicit_proof = cf_implicit_proof cf,
          th_restart_outlinks = cf_restart_outlinks cf, th_link_mtu_discovery = cf_link_mtu_discovery cf,
          th_timers = cf_timers cf,
          th_ifaces = (if local_hops_delta \<noteq> 0 then im_set_local_hops_delta local_hops_delta (Some own) iface_manager_new
                       else iface_manager_new),
          th_path_table = path_table_new (cf_reroute_eager cf), th_announce_table = announce_table_new,
          th_channel_table = [], th_link_table = link_table_new, th_single_in = [], th_single_out = [],
          th_plain_in = [], th_group_in = [], th_announce_limits = [],
          th_phy = phy_cache_new (cf_phy_cache_capacity cf), th_out_links = [], th_in_links = [],
          th_in_link_ifaces = [], th_packet_cache = packet_cache_new (cf_announce_cache_capacity cf),
          th_blackholes = [],
          th_path_requests = path_requests_new C (if cf_retransmit cf then Some own else None),
          th_storage = cf_storage cf, th_known_destinations = known_destinations_new, th_known_ratchets = [],
          th_receipts = [], th_ratchet_paths = [],
          th_fixed_path_requests = gd_address_hash (create_path_request_destination C),
          th_fixed_tunnel_synthesize = gd_address_hash (create_tunnel_synthesize_destination C),
          th_tunnels = tunnels_new, th_blackhole_sources = cf_blackhole_sources cf,
          th_inbound_queues = inbound_queues_new (cf_inbound_queue_lengths cf),
          th_reverse_table = [], th_shared_was_online = None, th_seen_local_clients = [],
          th_resources = resource_manager_new, th_tasks = [],
          th_draws = 0, th_out = [], th_events = []\<rparr>)"

definition emit :: "node_event list \<Rightarrow> transport_handler \<Rightarrow> transport_handler" where
  "emit evs h = h\<lparr>th_events := th_events h @ evs\<rparr>"

section \<open>Sending\<close>

text \<open>
  A packet on a link stamps the link it belongs to. A link that is being handled is stamped by its
  handler at the same time, so stamping it here again changes nothing.
\<close>

definition note_unlocked_link_outbound :: "nanos \<Rightarrow> packet \<Rightarrow> transport_handler \<Rightarrow> transport_handler" where
  "note_unlocked_link_outbound now p h =
     (let is_keepalive = (pk_context p = Ctx_KeepAlive); d = pk_destination p
      in if hd_destination_type (pk_header p) = Link
         then if hm_get (th_in_links h) d \<noteq> None
              then h\<lparr>th_in_links := hm_modify d (mark_outbound now is_keepalive) (th_in_links h)\<rparr>
              else h\<lparr>th_out_links := update_first (\<lambda>(_, l). lk_id l = d)
                       (\<lambda>(k, l). (k, mark_outbound now is_keepalive l)) (th_out_links h)\<rparr>
         else if hd_packet_type (pk_header p) = LinkRequest
         then h\<lparr>th_out_links := hm_modify d (mark_outbound now False) (th_out_links h)\<rparr>
         else h)"

definition th_send :: "env \<Rightarrow> tx_message \<Rightarrow> transport_handler \<Rightarrow> transport_handler" where
  "th_send E msg h =
     (let p = tm_packet msg
      in if hd_hops (pk_header p) > PATHFINDER_M - 1 then h
         else
           let h = note_unlocked_link_outbound (ev_now E) p h;
               cache = snd (packet_cache_update (ev_sha E) (ev_now E) p (th_packet_cache h));
               (outs, m) = im_send (ev_now E) msg (th_ifaces h)
           in h\<lparr>th_packet_cache := cache, th_ifaces := m, th_out := th_out h @ outs\<rparr>)"

definition send_broadcast :: "env \<Rightarrow> packet \<Rightarrow> address_hash option \<Rightarrow> transport_handler \<Rightarrow> transport_handler" where
  "send_broadcast E p from_iface = th_send E \<lparr>tm_tx_type = BroadcastTx from_iface, tm_packet = p\<rparr>"

definition send_direct :: "env \<Rightarrow> address_hash \<Rightarrow> packet \<Rightarrow> transport_handler \<Rightarrow> transport_handler" where
  "send_direct E a p = th_send E \<lparr>tm_tx_type = DirectTx a, tm_packet = p\<rparr>"

definition th_send_packet :: "env \<Rightarrow> packet \<Rightarrow> transport_handler \<Rightarrow> transport_handler" where
  "th_send_packet E p = send_broadcast E p None"

text \<open>\<open>store\<close> writes the link back to where it was taken from.\<close>

definition send_from_link ::
  "env \<Rightarrow> (link \<Rightarrow> transport_handler \<Rightarrow> transport_handler) \<Rightarrow> link \<Rightarrow> packet \<Rightarrow> transport_handler \<Rightarrow> transport_handler" where
  "send_from_link E store l p h =
     th_send_packet E p (store (mark_outbound (ev_now E) (pk_context p = Ctx_KeepAlive) l) h)"

definition store_in_link :: "address_hash \<Rightarrow> link \<Rightarrow> transport_handler \<Rightarrow> transport_handler" where
  "store_in_link k l h = h\<lparr>th_in_links := hm_modify k (\<lambda>_. l) (th_in_links h)\<rparr>"

definition store_out_link :: "address_hash \<Rightarrow> link \<Rightarrow> transport_handler \<Rightarrow> transport_handler" where
  "store_out_link k l h = h\<lparr>th_out_links := hm_modify k (\<lambda>_. l) (th_out_links h)\<rparr>"

definition has_destination :: "transport_handler \<Rightarrow> address_hash \<Rightarrow> bool" where
  "has_destination h address \<longleftrightarrow> hm_get (th_single_in h) address \<noteq> None"

definition find_out_link :: "transport_handler \<Rightarrow> address_hash \<Rightarrow> link option" where
  "find_out_link h link_id = hm_get (th_out_links h) link_id"

definition find_in_link :: "transport_handler \<Rightarrow> address_hash \<Rightarrow> link option" where
  "find_in_link h link_id = hm_get (th_in_links h) link_id"

text \<open>Tearing a link down, with the close packet sent as any other packet.\<close>

definition close_link ::
  "env \<Rightarrow> (link_event \<Rightarrow> node_event) \<Rightarrow> (link \<Rightarrow> transport_handler \<Rightarrow> transport_handler) \<Rightarrow> link
     \<Rightarrow> transport_handler \<Rightarrow> (unit result \<times> transport_handler) option" where
  "close_link E ev store l h = (case link_teardown (ev_crypto E) l of
       None \<Rightarrow> None
     | Some (r, evs, l) \<Rightarrow>
         let h = emit (map ev evs) (store l h)
         in Some (case r of
               Inl e \<Rightarrow> (Inl e, h)
             | Inr None \<Rightarrow> (Inr (), h)
             | Inr (Some p) \<Rightarrow> (Inr (), th_send_packet E p h)))"

definition th_link_close :: "env \<Rightarrow> address_hash \<Rightarrow> transport_handler \<Rightarrow> (unit result \<times> transport_handler) option" where
  "th_link_close E link_id h = (case find_in_link h link_id of
       Some l \<Rightarrow> close_link E (InLinkEvent link_id) (store_in_link link_id) l h
     | None \<Rightarrow>
         (case find_out_link h link_id of
            Some l \<Rightarrow> close_link E (OutLinkEvent (lk_id l)) (store_out_link link_id) l h
          | None \<Rightarrow> Some (Inr (), h)))"

definition filter_duplicate_packets :: "env \<Rightarrow> packet \<Rightarrow> transport_handler \<Rightarrow> bool \<times> transport_handler" where
  "filter_duplicate_packets E p h =
     (let allow_duplicate = (contains_destination (th_link_table h) (pk_destination p)
            \<or> hd_packet_type (pk_header p) = Proof \<and> pk_context p = Ctx_LinkRequestProof);
          update = (\<lambda>allow. let (is_new, cache) = packet_cache_update (ev_sha E) (ev_now E) p (th_packet_cache h)
                            in (is_new \<or> allow, h\<lparr>th_packet_cache := cache\<rparr>))
      in case hd_packet_type (pk_header p) of
           Announce \<Rightarrow> (True, h)
         | LinkRequest \<Rightarrow> update True
         | Data \<Rightarrow> update (pk_context p = Ctx_KeepAlive)
         | Proof \<Rightarrow> update (allow_duplicate
             \<or> pk_context p = Ctx_LinkRequestProof
               \<and> (case find_in_link h (pk_destination p) of Some l \<Rightarrow> not_yet_active (lk_status l) | None \<Rightarrow> False)))"

definition request_path ::
  "env \<Rightarrow> address_hash \<Rightarrow> address_hash option \<Rightarrow> bytes option \<Rightarrow> transport_handler \<Rightarrow> transport_handler" where
  "request_path E address on_iface tag h =
     (let (p, prs) = path_requests_generate (ev_now E) (ev_tag E (th_draws h)) address tag (th_path_requests h)
      in send_broadcast E p on_iface (h\<lparr>th_path_requests := prs, th_draws := th_draws h + 1\<rparr>))"

definition bind_link_to_channel :: "address_hash \<Rightarrow> transport_handler \<Rightarrow> unit result \<times> transport_handler" where
  "bind_link_to_channel link_id h =
     (if link_id \<in> set (th_channel_table h) then (Inl ChannelError, h)
      else (Inr (), h\<lparr>th_channel_table := link_id # th_channel_table h\<rparr>))"

section \<open>Relaying\<close>

definition relay_reverse_proof :: "env \<Rightarrow> packet \<Rightarrow> address_hash \<Rightarrow> transport_handler \<Rightarrow> transport_handler" where
  "relay_reverse_proof E p ingress h =
     (if pk_context p = Ctx_ResourceProof \<or> pk_context p = Ctx_LinkRequestProof then h
      else case hm_get (th_reverse_table h) (pk_destination p) of
             None \<Rightarrow> h
           | Some e \<Rightarrow>
               let from_local = is_local_client_iface (th_ifaces h) ingress;
                   proof_for_local = is_local_client_iface (th_ifaces h) (rve_received e);
                   hops_delta = im_local_hops_delta (th_ifaces h)
               in if \<not> (th_retransmit h \<or> from_local \<or> proof_for_local) then h
                  else
                    let h = h\<lparr>th_reverse_table := hm_remove (pk_destination p) (th_reverse_table h)\<rparr>
                    in if ingress = rve_outbound e
                       then send_direct E (rve_received e)
                              (p\<lparr>pk_header := (pk_header p)\<lparr>hd_hops :=
                                 if from_local \<and> \<not> proof_for_local \<and> hops_delta \<noteq> 0 then hops_delta
                                 else sat_inc8 (hd_hops (pk_header p))\<rparr>\<rparr>) h
                       else h)"

definition supports_mtu_kind :: "string \<Rightarrow> bool" where
  "supports_mtu_kind kind \<longleftrightarrow> kind \<in> set [''TcpClient'', ''TcpServer'', ''BackboneClient'', ''BackboneServer'',
     ''AutoInterface'', ''LocalServer'', ''LocalClient'', ''WeaveInterface'', ''WeaveInterfacePeer'']"

text \<open>A relayed link request loses its signalling bytes where the next interface cannot use them.\<close>

definition strip_signalling :: "iface_manager \<Rightarrow> address_hash \<Rightarrow> packet \<Rightarrow> packet" where
  "strip_signalling m iface p =
     (if hd_packet_type (pk_header p) = LinkRequest
        \<and> \<not> (case iface_kind m iface of Some kind \<Rightarrow> supports_mtu_kind kind | None \<Rightarrow> False)
        \<and> length (pk_data p) = 32 + 32 + LINK_MTU_SIZE
      then p\<lparr>pk_data := take (length (pk_data p) - 3) (pk_data p)\<rparr> else p)"

definition send_to_next_hop ::
  "env \<Rightarrow> packet \<Rightarrow> address_hash option \<Rightarrow> address_hash option \<Rightarrow> transport_handler \<Rightarrow> bool \<times> transport_handler" where
  "send_to_next_hop E p lookup ingress h =
     (let truncated = address_hash_new_from_hash (packet_hash (ev_sha E) p);
          is_link_request = (hd_packet_type (pk_header p) = LinkRequest);
          ((q, maybe_iface), paths) = handle_inbound_packet (ev_now E) p lookup (th_path_table h);
          h = h\<lparr>th_path_table := paths\<rparr>
      in case maybe_iface of
           None \<Rightarrow> (False, h)
         | Some iface \<Rightarrow>
             let h = (case (if is_link_request then None else ingress) of
                        Some received \<Rightarrow> h\<lparr>th_reverse_table := hm_insert truncated
                          \<lparr>rve_received = received, rve_outbound = iface, rve_at = ev_now E\<rparr> (th_reverse_table h)\<rparr>
                      | None \<Rightarrow> h)
             in (True, send_direct E iface (strip_signalling (th_ifaces h) iface q) h))"

definition handle_keepalive_response :: "env \<Rightarrow> packet \<Rightarrow> address_hash \<Rightarrow> transport_handler \<Rightarrow> bool \<times> transport_handler" where
  "handle_keepalive_response E p ingress_iface h =
     (if pk_context p = Ctx_KeepAlive \<and> pk_data p \<noteq> [] \<and> hd (pk_data p) = KEEP_ALIVE_RESPONSE
      then
        let (lookup, t) = handle_keepalive (ev_now E) p ingress_iface (th_link_table h);
            h = h\<lparr>th_link_table := t\<rparr>
        in (True, case lookup of Some (q, iface) \<Rightarrow> send_direct E iface q h | None \<Rightarrow> h)
      else (False, h))"

section \<open>Calls of the application\<close>

definition add_destination :: "crypto \<Rightarrow> private_identity \<Rightarrow> destination_name \<Rightarrow> transport_handler \<Rightarrow> transport_handler" where
  "add_destination C identity name h =
     (let d = single_in_new C identity name
      in h\<lparr>th_single_in := hm_insert (si_address_hash d) d (th_single_in h)\<rparr>)"

definition add_plain_destination :: "crypto \<Rightarrow> destination_name \<Rightarrow> transport_handler \<Rightarrow> transport_handler" where
  "add_plain_destination C name h =
     (let d = plain_dest_new C name
      in h\<lparr>th_plain_in := hm_insert (gd_address_hash d) d (th_plain_in h)\<rparr>)"

definition add_group_destination :: "crypto \<Rightarrow> destination_name \<Rightarrow> transport_handler \<Rightarrow> transport_handler" where
  "add_group_destination C name h =
     (let d = group_dest_new C name
      in h\<lparr>th_group_in := hm_insert (gd_address_hash d) d (th_group_in h)\<rparr>)"

definition th_outbound :: "env \<Rightarrow> packet \<Rightarrow> transport_handler \<Rightarrow> transport_handler" where
  "th_outbound E p h =
     (let ((q, maybe_iface), paths) = handle_local_packet (ev_now E) p (th_path_table h);
          h = h\<lparr>th_path_table := paths\<rparr>
      in case maybe_iface of Some iface \<Rightarrow> send_direct E iface q h | None \<Rightarrow> th_send_packet E q h)"

text \<open>The MTU that a link request to a destination signals.\<close>

definition signalled_mtu :: "transport_handler \<Rightarrow> address_hash \<Rightarrow> nat" where
  "signalled_mtu h destination =
     (let iface = (case path_table_get destination (th_path_table h) of
            Some e \<Rightarrow> Some (pe_iface e) | None \<Rightarrow> first_iface_address (th_ifaces h))
      in case Option.bind iface (iface_hw_mtu (th_ifaces h)) of Some mtu \<Rightarrow> mtu | None \<Rightarrow> PROTOCOL_MTU)"

text \<open>A new link, for which the random generator delivers a private identity.\<close>

definition open_link :: "env \<Rightarrow> single_out \<Rightarrow> transport_handler \<Rightarrow> transport_handler" where
  "open_link E destination h =
     (let d = so_address_hash destination;
          identity = private_identity_new (ev_crypto E) (ev_key E (th_draws h)) (ev_key E (th_draws h + 1));
          l = link_new (ev_crypto E) (ev_dflt E) (ev_now E) identity destination;
          l = (if th_link_mtu_discovery h then set_mtu (signalled_mtu h d) l else l);
          (p, l) = link_request (ev_crypto E) (ev_now E) l;
          h = h\<lparr>th_out_links := hm_insert d l (th_out_links h), th_draws := th_draws h + 2\<rparr>
      in if path_table_contains d (th_path_table h) then th_outbound E p h else th_send_packet E p h)"

definition th_link :: "env \<Rightarrow> single_out \<Rightarrow> transport_handler \<Rightarrow> transport_handler" where
  "th_link E destination h = (case hm_get (th_out_links h) (so_address_hash destination) of
       Some l \<Rightarrow> if lk_status l \<noteq> Closed then h else open_link E destination h
     | None \<Rightarrow> open_link E destination h)"

definition SINGLE_PLAINTEXT_MDU :: nat where
  "SINGLE_PLAINTEXT_MDU = (PROTOCOL_MTU - HEADER_MAXSIZE - IFAC_MIN_SIZE - RATCHET_KEY_LENGTH - TOKEN_OVERHEAD)
     div AES128_BLOCKSIZE * AES128_BLOCKSIZE - 1"

text \<open>The bitrate of the interface towards a destination, or zero.\<close>

definition path_bitrate :: "transport_handler \<Rightarrow> address_hash \<Rightarrow> nat" where
  "path_bitrate h d = (case path_table_get d (th_path_table h) of
       Some e \<Rightarrow> (case hm_get (im_controls (th_ifaces h)) (pe_iface e) of Some c \<Rightarrow> ctl_bitrate c | None \<Rightarrow> 0)
     | None \<Rightarrow> 0)"

definition single_data_packet :: "address_hash \<Rightarrow> bytes \<Rightarrow> packet" where
  "single_data_packet d token =
     \<lparr>pk_header = \<lparr>hd_ifac_flag = Open, hd_context_flag = False, hd_header_type = Type1,
        hd_propagation_type = Broadcast, hd_destination_type = Single, hd_packet_type = Data, hd_hops = 0\<rparr>,
      pk_ifac = None, pk_destination = d, pk_transport = None, pk_context = Ctx_None,
      pk_data = safe_concat [token]\<rparr>"

definition send_to_destination ::
  "env \<Rightarrow> address_hash \<Rightarrow> bytes \<Rightarrow> transport_handler \<Rightarrow> (rns_hash result \<times> transport_handler) option" where
  "send_to_destination E d data h =
     (if length data > SINGLE_PLAINTEXT_MDU then Some (Inl InvalidArgument, h)
      else case hm_get (th_single_out h) d of
             None \<Rightarrow> Some (Inl LinkNotReady, h)
           | Some destination \<Rightarrow>
               let identity = so_identity destination;
                   (ratchet, kr) = kr_get (ev_unpack_ratchet E) (case th_storage h of Some s \<Rightarrow> s | None \<Rightarrow> []) d
                     (ev_unix E) (th_known_ratchets h);
                   n = th_draws h;
                   h = h\<lparr>th_known_ratchets := kr, th_draws := n + 1\<rparr>
               in case encrypt_with_ephemeral (ev_crypto E) identity (ev_iv E n) (ev_key E n) data ratchet PACKET_MDU of
                    None \<Rightarrow> None
                  | Some (Inl e) \<Rightarrow> Some (Inl e, h)
                  | Some (Inr token) \<Rightarrow>
                      let p = single_data_packet d token;
                          hash = packet_hash (ev_sha E) p;
                          hops = (case path_table_get d (th_path_table h) of Some e \<Rightarrow> pe_hops e | None \<Rightarrow> PATHFINDER_M);
                          h = h\<lparr>th_receipts := record_receipt (ev_now E) d hash identity
                                (first_hop_timeout (path_bitrate h d) + TIMEOUT_PER_HOP * unat hops) (th_receipts h)\<rparr>;
                          (q, iface) = path_table_handle_packet p (th_path_table h)
                      in Some (Inr hash, case iface of Some i \<Rightarrow> send_direct E i q h | None \<Rightarrow> th_send_packet E q h))"

definition send_to_plain_destination ::
  "env \<Rightarrow> destination_name \<Rightarrow> bytes \<Rightarrow> transport_handler \<Rightarrow> address_hash result \<times> transport_handler" where
  "send_to_plain_destination E name data h =
     (if length data > PACKET_PROTOCOL_MDU then (Inl InvalidArgument, h)
      else
        let address = gd_address_hash (plain_dest_new (ev_crypto E) name)
        in (Inr address, th_send_packet E
             \<lparr>pk_header = header_default\<lparr>hd_header_type := Type1, hd_destination_type := Plain, hd_packet_type := Data\<rparr>,
              pk_ifac = None, pk_destination = address, pk_transport = None, pk_context = Ctx_None,
              pk_data = safe_concat [data]\<rparr> h))"

definition send_to_group_destination ::
  "env \<Rightarrow> destination_name \<Rightarrow> bytes \<Rightarrow> bytes option \<Rightarrow> transport_handler
     \<Rightarrow> (address_hash result \<times> transport_handler) option" where
  "send_to_group_destination E name data group_key h =
     (let limit = (if group_key \<noteq> None then PACKET_PROTOCOL_MDU - TOKEN_OVERHEAD - AES128_BLOCKSIZE
                   else PACKET_PROTOCOL_MDU)
      in if length data > limit then Some (Inl InvalidArgument, h)
         else
           let d = group_dest_new (ev_crypto E) name;
               d = (case group_key of Some key \<Rightarrow> load_group_key key d | None \<Rightarrow> d);
               h = h\<lparr>th_draws := th_draws h + 1\<rparr>
           in case encrypt_group (ev_crypto E) d (ev_iv E (th_draws h)) data PACKET_MDU of
                None \<Rightarrow> None
              | Some r \<Rightarrow>
                  let payload = (case r of Inr token \<Rightarrow> token | Inl _ \<Rightarrow> data)
                  in Some (Inr (gd_address_hash d), send_broadcast E
                       (packet_default\<lparr>pk_header := header_default\<lparr>hd_header_type := Type1, hd_destination_type := Group,
                          hd_packet_type := Data\<rparr>, pk_destination := gd_address_hash d, pk_data := safe_concat [payload]\<rparr>)
                       None h))"

text \<open>The loops over the links of one side: every link that fits and is active sends the payload.\<close>

definition send_payload ::
  "env \<Rightarrow> bytes \<Rightarrow> (link \<Rightarrow> transport_handler \<Rightarrow> transport_handler) \<Rightarrow> link
     \<Rightarrow> rns_hash list \<times> transport_handler \<Rightarrow> (rns_hash list \<times> transport_handler) option" where
  "send_payload E payload store l = (\<lambda>(sent, h).
     case data_packet (ev_crypto E) (ev_iv E (th_draws h)) payload l of
       None \<Rightarrow> None
     | Some (Inl _) \<Rightarrow> Some (sent, h\<lparr>th_draws := th_draws h + 1\<rparr>)
     | Some (Inr p) \<Rightarrow> Some (sent @ [packet_hash (ev_sha E) p],
         send_from_link E store l p (h\<lparr>th_draws := th_draws h + 1\<rparr>)))"

definition send_to_out_links ::
  "env \<Rightarrow> (link \<Rightarrow> bool) \<Rightarrow> bytes \<Rightarrow> transport_handler \<Rightarrow> (rns_hash list \<times> transport_handler) option" where
  "send_to_out_links E fits payload h =
     fold (\<lambda>k r. do { (sent, h) \<leftarrow> r;
         case hm_get (th_out_links h) k of
           Some l \<Rightarrow> if fits l \<and> lk_status l = Active then send_payload E payload (store_out_link k) l (sent, h)
                     else Some (sent, h)
         | None \<Rightarrow> Some (sent, h) })
       (map fst (th_out_links h)) (Some ([], h))"

definition send_to_in_links ::
  "env \<Rightarrow> address_hash \<Rightarrow> bytes \<Rightarrow> transport_handler \<Rightarrow> (rns_hash list \<times> transport_handler) option" where
  "send_to_in_links E destination payload h =
     fold (\<lambda>k r. do { (sent, h) \<leftarrow> r;
         case hm_get (th_in_links h) k of
           Some l \<Rightarrow> if so_address_hash (lk_destination l) = destination \<and> lk_status l = Active
                     then send_payload E payload (store_in_link k) l (sent, h) else Some (sent, h)
         | None \<Rightarrow> Some (sent, h) })
       (map fst (th_in_links h)) (Some ([], h))"

text \<open>Saving the ratchets of a destination after an announce rotated them.\<close>

definition persist_ratchets :: "env \<Rightarrow> single_in \<Rightarrow> transport_handler \<Rightarrow> transport_handler" where
  "persist_ratchets E d h = (case (hm_get (th_ratchet_paths h) (si_address_hash d), th_storage h, si_ratchets d) of
       (Some path, Some s, Some rs) \<Rightarrow> h\<lparr>th_storage := Some (snd (save_destination_ratchets (ev_crypto E)
         (ev_pack_ratchet_list E) (ev_pack_ratchet_file E) s path (si_identity d)
         (clean_destination_ratchets (si_retained_ratchets d) rs)))\<rparr>
     | _ \<Rightarrow> h)"

text \<open>A destination of the node announces itself; an announce that cannot be built panics.\<close>

definition send_announce :: "env \<Rightarrow> address_hash \<Rightarrow> bytes option \<Rightarrow> transport_handler \<Rightarrow> transport_handler option" where
  "send_announce E a app_data h = (case hm_get (th_single_in h) a of
       None \<Rightarrow> Some h
     | Some d \<Rightarrow>
         let n = th_draws h;
             (r, d) = announce_at (ev_crypto E) (ev_key E n) (ev_hash E n) app_data (nat \<lfloor>ev_unix E\<rfloor>) d;
             h = h\<lparr>th_single_in := hm_modify a (\<lambda>_. d) (th_single_in h), th_draws := n + 1\<rparr>
         in case r of
              Inl _ \<Rightarrow> None
            | Inr p \<Rightarrow> Some (th_send_packet E p (persist_ratchets E d h)))"

definition persist_known_destinations :: "env \<Rightarrow> transport_handler \<Rightarrow> transport_handler" where
  "persist_known_destinations E h = (case th_storage h of
       None \<Rightarrow> h
     | Some s \<Rightarrow> let (_, s, k) = kn_save (ev_pack_known E) s (th_known_destinations h)
                in h\<lparr>th_storage := Some s, th_known_destinations := k\<rparr>)"

definition th_recall :: "env \<Rightarrow> address_hash \<Rightarrow> transport_handler \<Rightarrow> identity option \<times> transport_handler" where
  "th_recall E d h = (case kn_recall (ev_crypto E) (ev_dflt E) d (ev_unix E) (th_known_destinations h) of
       (Some i, k) \<Rightarrow> (Some i, persist_known_destinations E (h\<lparr>th_known_destinations := k\<rparr>))
     | (None, k) \<Rightarrow>
         (case hm_get (th_single_in h) d of
            Some s \<Rightarrow> (Some (pi_identity (si_identity s)), h\<lparr>th_known_destinations := k\<rparr>)
          | None \<Rightarrow> (map_option so_identity (hm_get (th_single_out h) d), h\<lparr>th_known_destinations := k\<rparr>)))"

definition remove_blackholed_paths :: "env \<Rightarrow> transport_handler \<Rightarrow> nat \<times> transport_handler" where
  "remove_blackholed_paths E h =
     fold (\<lambda>d (dropped, h).
         case kn_recall_no_use (ev_crypto E) (ev_dflt E) (th_known_destinations h) d of
           None \<Rightarrow> (dropped, h)
         | Some i \<Rightarrow>
             if is_blackholed (th_blackholes h) (id_address_hash i)
             then let (b, t) = drop_path d (th_path_table h)
                  in (if b then dropped + 1 else dropped, h\<lparr>th_path_table := t\<rparr>)
             else (dropped, h))
       (map fst (pt_map (th_path_table h))) (0, h)"

definition persist_blackholes :: "env \<Rightarrow> transport_handler \<Rightarrow> transport_handler" where
  "persist_blackholes E h = (case th_storage h of
       Some s \<Rightarrow> h\<lparr>th_storage := Some (bh_persist_local (ev_pack_blackholes E) (own_address h) (th_blackholes h) s)\<rparr>
     | None \<Rightarrow> h)"

definition blackhole_identity ::
  "env \<Rightarrow> address_hash \<Rightarrow> rat option \<Rightarrow> string option \<Rightarrow> transport_handler \<Rightarrow> transport_handler" where
  "blackhole_identity E i until reason h =
     snd (remove_blackholed_paths E (persist_blackholes E
       (h\<lparr>th_blackholes := bh_blackhole i (own_address h) until reason (th_blackholes h)\<rparr>)))"

definition unblackhole_identity :: "env \<Rightarrow> address_hash \<Rightarrow> transport_handler \<Rightarrow> bool \<times> transport_handler" where
  "unblackhole_identity E i h =
     (let (removed, b) = bh_unblackhole i (th_blackholes h);
          h = h\<lparr>th_blackholes := b\<rparr>
      in (removed, if removed then persist_blackholes E h else h))"

definition reload_blackholes :: "env \<Rightarrow> transport_handler \<Rightarrow> nat \<times> transport_handler" where
  "reload_blackholes E h = (case th_storage h of
       None \<Rightarrow> (0, h)
     | Some s \<Rightarrow>
         let (loaded, b) = bh_reload (ev_parse_blackholes E) (ev_unix E) s (own_address h) (th_blackhole_sources h)
               (th_blackholes h);
             h = h\<lparr>th_blackholes := b\<rparr>
         in (loaded, if loaded > 0 then snd (remove_blackholed_paths E h) else h))"

text \<open>
  Cleaning known destinations and the ratchets of others. Without a configured storage an empty one
  is used.
\<close>

definition clean_known_destinations ::
  "env \<Rightarrow> transport_handler \<Rightarrow> ((nat \<times> address_hash list) \<times> transport_handler) option" where
  "clean_known_destinations E h =
     (let (stale, k) = kn_clean (ev_unix E) (\<lambda>d. path_table_contains d (th_path_table h)) (th_known_destinations h);
          s = fold (\<lambda>d s. snd (storage_remove (ratchet_path d) s)) stale (case th_storage h of Some s \<Rightarrow> s | None \<Rightarrow> [])
      in case kr_clean (ev_unpack_ratchet E) s (ev_unix E) (\<lambda>d. d \<in> fst ` set (kn_entries k)) (th_known_ratchets h) of
           None \<Rightarrow> None
         | Some (removed, s, kr) \<Rightarrow>
             let h = h\<lparr>th_known_destinations := k, th_known_ratchets := kr,
                       th_storage := map_option (\<lambda>_. s) (th_storage h)\<rparr>
             in Some ((removed, stale), persist_known_destinations E h))"

definition enable_destination_ratchets ::
  "env \<Rightarrow> address_hash \<Rightarrow> string \<Rightarrow> transport_handler \<Rightarrow> unit result \<times> transport_handler" where
  "enable_destination_ratchets E a path h = (case th_storage h of
       None \<Rightarrow> (Inl Storage, h)
     | Some s \<Rightarrow>
         (case hm_get (th_single_in h) a of
            None \<Rightarrow> (Inl InvalidArgument, h)
          | Some d \<Rightarrow>
              (case load_destination_ratchets (ev_crypto E) (ev_pack_ratchet_list E) (ev_unpack_ratchet_file E) s path
                      (pi_identity (si_identity d)) of
                 Inl e \<Rightarrow> (Inl e, h)
               | Inr ratchets \<Rightarrow>
                   let d = enable_ratchets ratchets d;
                       h = h\<lparr>th_single_in := hm_modify a (\<lambda>_. d) (th_single_in h)\<rparr>;
                       (r, s) = (if ratchets \<noteq> [] then (Inr (), s)
                         else save_destination_ratchets (ev_crypto E) (ev_pack_ratchet_list E) (ev_pack_ratchet_file E)
                                s path (si_identity d) (clean_destination_ratchets (si_retained_ratchets d) ratchets));
                       h = h\<lparr>th_storage := Some s\<rparr>
                   in case r of
                        Inl e \<Rightarrow> (Inl e, h)
                      | Inr _ \<Rightarrow> (Inr (), h\<lparr>th_ratchet_paths := hm_insert a path (th_ratchet_paths h)\<rparr>))))"

end
