(* ===== verification/Rns_Node_Announce.thy ===== *)
theory Rns_Node_Announce
  imports Rns_Node
begin

text \<open>
  How a node of \<^verbatim>\<open>src/transport.rs\<close> learns and spreads paths: received announces, path requests and
  tunnel synthesis, the rebroadcasts, and the periodic work on interfaces, tunnels and local clients.
\<close>

section \<open>Announces\<close>

text \<open>An answer of the control state of one interface, false when there is none.\<close>

definition ask_control ::
  "address_hash \<Rightarrow> (iface_control \<Rightarrow> bool \<times> iface_control) \<Rightarrow> transport_handler \<Rightarrow> bool \<times> transport_handler" where
  "ask_control a f h = (case hm_get (im_controls (th_ifaces h)) a of
       None \<Rightarrow> (False, h)
     | Some c \<Rightarrow> let (b, c) = f c
                in (b, h\<lparr>th_ifaces := (th_ifaces h)\<lparr>im_controls := hm_modify a (\<lambda>_. c) (im_controls (th_ifaces h))\<rparr>\<rparr>))"

definition ingress_exempt :: "transport_handler \<Rightarrow> address_hash \<Rightarrow> bool" where
  "ingress_exempt h iface = (case iface_kind (th_ifaces h) iface of Some kind \<Rightarrow> ingress_exempt_kind kind | None \<Rightarrow> False)"

text \<open>The announce is sampled, and held when the interface is in a burst; the result tells whether it is held.\<close>

definition announce_held :: "env \<Rightarrow> packet \<Rightarrow> address_hash \<Rightarrow> transport_handler \<Rightarrow> bool \<times> transport_handler" where
  "announce_held E p iface h =
     (let h = h\<lparr>th_ifaces := im_received_announce (ev_now E) iface (length (pk_data p) + 18) (th_ifaces h)\<rparr>;
          known_path = (path_table_get (pk_destination p) (th_path_table h) \<noteq> None);
          (pending_request, prs) = has_pending (ev_now E) (pk_destination p) (th_path_requests h);
          h = h\<lparr>th_path_requests := prs\<rparr>;
          discovery_waiting = discovery_pending (ev_now E) (pk_destination p) (th_path_requests h)
      in if \<not> known_path \<and> \<not> pending_request \<and> \<not> discovery_waiting \<and> \<not> ingress_exempt h iface
         then
           let (limited, h) = ask_control iface (should_ingress_limit (ev_now E)) h
           in if limited
              then (True, h\<lparr>th_ifaces := snd (with_control iface (hold_announce p PATHFINDER_M) (th_ifaces h))\<rparr>)
              else (False, h)
         else (False, h))"

definition interface_rate :: "transport_handler \<Rightarrow> address_hash \<Rightarrow> announce_rate_limit option" where
  "interface_rate h iface = Option.bind (hm_get (im_controls (th_ifaces h)) iface) (\<lambda>c.
     map_option (\<lambda>target. \<lparr>rl_target = target,
         rl_grace = (case ctl_announce_rate_grace c of Some g \<Rightarrow> unat g | None \<Rightarrow> 0),
         rl_penalty = ctl_announce_rate_penalty c\<rparr>) (ctl_announce_rate_target c))"

definition announce_rate_blocked :: "env \<Rightarrow> packet \<Rightarrow> address_hash \<Rightarrow> transport_handler \<Rightarrow> bool \<times> transport_handler" where
  "announce_rate_blocked E p iface h =
     (let (blocked_until, limits) = (case interface_rate h iface of
            Some limit \<Rightarrow> limits_check_limited (ev_now E) (ev_unix E) (pk_destination p) limit (th_announce_limits h)
          | None \<Rightarrow> limits_check (ev_now E) (ev_unix E) (pk_destination p) (th_announce_limits h))
      in (blocked_until \<noteq> None, h\<lparr>th_announce_limits := limits\<rparr>))"

text \<open>What is remembered of a valid announce: the identity, the ratchet, the destination and the packet.\<close>

definition remember_announce ::
  "env \<Rightarrow> packet \<Rightarrow> single_out \<Rightarrow> announce_data \<Rightarrow> transport_handler \<Rightarrow> transport_handler" where
  "remember_announce E p destination announce h =
     (let h = persist_known_destinations E (h\<lparr>th_known_destinations := kn_remember (hash_bytes (packet_hash (ev_sha E) p))
            (pk_destination p) (identity_to_bytes (so_identity destination)) (ad_app_data announce) (ev_unix E)
            (th_known_destinations h)\<rparr>);
          h = (case ad_ratchet announce of
                 None \<Rightarrow> h
               | Some ratchet \<Rightarrow>
                   let (_, s, kr) = kr_remember (ev_pack_ratchet E) (case th_storage h of Some s \<Rightarrow> s | None \<Rightarrow> [])
                         (pk_destination p) ratchet (ev_unix E) (th_known_ratchets h)
                   in h\<lparr>th_known_ratchets := kr, th_storage := map_option (\<lambda>_. s) (th_storage h)\<rparr>);
          h = (if hm_get (th_single_out h) (pk_destination p) = None
               then h\<lparr>th_single_out := hm_insert (pk_destination p) destination (th_single_out h)\<rparr> else h)
      in h\<lparr>th_packet_cache := packet_cache_cache_announce (ev_sha E) p (th_packet_cache h)\<rparr>)"

text \<open>A waiting discovery is answered on every interface that asked.\<close>

definition answer_discovery :: "env \<Rightarrow> packet \<Rightarrow> address_hash \<Rightarrow> transport_handler \<Rightarrow> transport_handler" where
  "answer_discovery E p iface h =
     (let (waiting, prs) = clear_discovery (pk_destination p) (th_path_requests h);
          h = h\<lparr>th_path_requests := prs\<rparr>
      in case waiting of
           None \<Rightarrow> h
         | Some ifaces \<Rightarrow>
             h\<lparr>th_announce_table := fold (\<lambda>to t. snd (add_response (ev_now E) (pk_destination p) to
                 (hd_hops (pk_header p) + 1) 0 t)) (if ifaces = [] then [iface] else ifaces) (th_announce_table h)\<rparr>)"

definition install_path ::
  "env \<Rightarrow> packet \<Rightarrow> single_out \<Rightarrow> address_hash \<Rightarrow> transport_handler \<Rightarrow> transport_handler" where
  "install_path E p destination iface h =
     (let gravity = (case hm_get (im_controls (th_ifaces h)) iface of Some c \<Rightarrow> ctl_gravity c | None \<Rightarrow> 0);
          h = h\<lparr>th_path_table := handle_announce_with_mode (ev_sha E) (ev_now E) (ev_unix E) p (pk_transport p) iface
                (iface_mode (th_ifaces h) iface) (Some gravity) (th_path_table h)\<rparr>
      in case iface_tunnel (th_ifaces h) iface of
           None \<Rightarrow> h
         | Some tunnel_id \<Rightarrow>
             h\<lparr>th_tunnels := snd (associate_path tunnel_id (pk_destination p)
                 \<lparr>tp_received_from = id_address_hash (so_identity destination), tp_hops = hd_hops (pk_header p) + 1,
                  tp_expires = ev_now E + PATHFINDER_E, tp_packet_hash = packet_hash (ev_sha E) p\<rparr>
                 (ev_now E) (th_tunnels h))\<rparr>)"

definition rebroadcast_new :: "env \<Rightarrow> packet \<Rightarrow> transport_handler \<Rightarrow> transport_handler" where
  "rebroadcast_new E p h =
     (let (message, t) = new_packet (ev_now E) (pk_destination p) (own_address h) (th_announce_table h);
          h = h\<lparr>th_announce_table := t\<rparr>
      in case message of Some msg \<Rightarrow> th_send E msg h | None \<Rightarrow> h)"

text \<open>What a valid announce does, unless its rebroadcast is blocked.\<close>

definition accept_announce ::
  "env \<Rightarrow> packet \<Rightarrow> single_out \<Rightarrow> announce_data \<Rightarrow> bool \<Rightarrow> address_hash \<Rightarrow> transport_handler \<Rightarrow> transport_handler" where
  "accept_announce E p destination announce rate_blocked iface h =
     (let h = remember_announce E p destination announce h;
          h = (if rate_blocked then h
               else h\<lparr>th_announce_table := announce_table_add (ev_now E) (ev_window E (th_draws h)) p (pk_destination p)
                       (id_address_hash (so_identity destination)) (th_announce_table h), th_draws := th_draws h + 1\<rparr>);
          h = install_path E p destination iface (answer_discovery E p iface h);
          h = (if th_retransmit h \<and> \<not> rate_blocked then rebroadcast_new E p h else h)
      in emit [AnnounceNews destination
           (safe_concat [case ad_app_data announce of Some d \<Rightarrow> d | None \<Rightarrow> []]) (ad_ratchet announce)] h)"

definition handle_announce :: "env \<Rightarrow> packet \<Rightarrow> address_hash \<Rightarrow> transport_handler \<Rightarrow> transport_handler" where
  "handle_announce E p iface h =
     (if has_destination h (pk_destination p) then h
      else
        let (held, h) = announce_held E p iface h
        in if held then h
           else
             let (rate_blocked, h) = announce_rate_blocked E p iface h;
                 violation = h\<lparr>th_ifaces := im_count_protocol_violation iface (th_ifaces h)\<rparr>
             in case announced_identity_hash (ev_crypto E) (ev_dflt E) p of
                  None \<Rightarrow> violation
                | Some identity_hash \<Rightarrow>
                    if is_blackholed (th_blackholes h) identity_hash then h
                    else (case validate_announce (ev_crypto E) p of
                            Inl _ \<Rightarrow> violation
                          | Inr (destination, announce) \<Rightarrow> accept_announce E p destination announce rate_blocked iface h))"

section \<open>Path requests\<close>

definition PATH_REQUEST_GRACE :: nanos where "PATH_REQUEST_GRACE = millis 400"
definition PATH_REQUEST_RG :: nanos where "PATH_REQUEST_RG = millis 1500"

definition medium_discovery_timeout :: "transport_handler \<Rightarrow> nanos" where
  "medium_discovery_timeout h = (case lowest_interface_bitrate (th_ifaces h) of
       Some bitrate \<Rightarrow>
         if bitrate > 0
         then from_secs_f64 (2 * (of_nat PROTOCOL_MTU * 8 / max (of_nat bitrate) 5) + 6) else 0
     | None \<Rightarrow> 0)"

text \<open>The local destination announces itself to the requestor; an announce that cannot be built panics.\<close>

definition answer_locally ::
  "env \<Rightarrow> address_hash \<Rightarrow> single_in \<Rightarrow> address_hash \<Rightarrow> transport_handler \<Rightarrow> transport_handler option" where
  "answer_locally E a d iface h =
     (let n = th_draws h;
          (r, d) = path_response (ev_crypto E) (ev_key E n) (ev_hash E n) None (nat \<lfloor>ev_unix E\<rfloor>) d;
          h = h\<lparr>th_single_in := hm_modify a (\<lambda>_. d) (th_single_in h), th_draws := n + 1\<rparr>
      in case r of Inl _ \<Rightarrow> None | Inr p \<Rightarrow> Some (send_direct E iface p h))"

definition answer_known_path ::
  "env \<Rightarrow> path_request \<Rightarrow> path_entry \<Rightarrow> address_hash \<Rightarrow> transport_handler \<Rightarrow> transport_handler" where
  "answer_known_path E request e iface h =
     (let m = th_ifaces h; mode = iface_mode m iface;
          from_local_client = (is_local_client_iface m iface \<or> is_local_client_iface m (pe_iface e));
          grace = (if from_local_client then 0
                   else PATH_REQUEST_GRACE + (if mode = Roaming then PATH_REQUEST_RG else 0))
      in if pr_requesting_transport request = Some (pe_received_from e) then h
         else if mode = Roaming \<and> pe_iface e = iface then h
         else h\<lparr>th_announce_table :=
                snd (add_response (ev_now E) (pr_destination request) iface (pe_hops e) grace (th_announce_table h))\<rparr>)"

definition register_discovery :: "env \<Rightarrow> path_request \<Rightarrow> address_hash \<Rightarrow> transport_handler \<Rightarrow> bool \<times> transport_handler" where
  "register_discovery E request iface h =
     (let (started, prs) = register_discovery_with_timeout (ev_now E) (pr_destination request) (Some iface)
            (medium_discovery_timeout h) (th_path_requests h)
      in (started, h\<lparr>th_path_requests := prs\<rparr>))"

text \<open>One path request towards one interface, as the loops over interfaces send it.\<close>

definition forward_path_request ::
  "env \<Rightarrow> address_hash \<Rightarrow> bytes option \<Rightarrow> address_hash \<Rightarrow> transport_handler \<Rightarrow> transport_handler" where
  "forward_path_request E destination tag other h =
     request_path E destination (Some other) tag
       (h\<lparr>th_ifaces := im_sent_path_request (ev_now E) other (th_ifaces h)\<rparr>)"

definition forward_for_local_client ::
  "env \<Rightarrow> path_request \<Rightarrow> address_hash \<Rightarrow> transport_handler \<Rightarrow> transport_handler" where
  "forward_for_local_client E request iface h =
     (let (_, h) = register_discovery E request iface h
      in fold (\<lambda>(other, online) h. if other = iface \<or> \<not> online then h
               else forward_path_request E (pr_destination request) None other h)
           (live_iface_addresses (th_ifaces h)) h)"

definition search_plan :: "transport_handler \<Rightarrow> address_hash \<Rightarrow> interface_mode list option option" where
  "search_plan h iface = Option.bind (hm_get (im_controls (th_ifaces h)) iface) (\<lambda>c.
     if ctl_recursive_prs c \<or> ctl_mode c \<in> set DISCOVER_PATHS_FOR then Some None
     else if ctl_mode c = Boundary then Some (Some BOUNDARY_SEARCH_MODES)
     else None)"

definition discover_path ::
  "env \<Rightarrow> path_request \<Rightarrow> interface_mode list option \<Rightarrow> address_hash \<Rightarrow> transport_handler \<Rightarrow> transport_handler" where
  "discover_path E request search_modes iface h =
     (let (limited, h) = (if ingress_exempt h iface then (False, h)
            else ask_control iface (should_ingress_limit_pr (ev_now E)) h)
      in if limited then h
         else
           let (started, h) = register_discovery E request iface h
           in if \<not> started then h
              else fold (\<lambda>(other, online) h.
                       if other = iface \<or> \<not> online then h
                       else if (case search_modes of Some modes \<Rightarrow> iface_mode (th_ifaces h) other \<notin> set modes | None \<Rightarrow> False)
                       then h
                       else let (limited, h) = ask_control other (should_egress_limit_pr (ev_now E)) h
                            in if limited then h
                               else forward_path_request E (pr_destination request) (Some (pr_tag_bytes request)) other h)
                     (live_iface_addresses (th_ifaces h)) h)"

definition forward_to_local_clients :: "env \<Rightarrow> path_request \<Rightarrow> transport_handler \<Rightarrow> transport_handler" where
  "forward_to_local_clients E request h =
     fold (forward_path_request E (pr_destination request) None) (local_client_iface_addresses (th_ifaces h)) h"

definition handle_path_request :: "env \<Rightarrow> packet \<Rightarrow> address_hash \<Rightarrow> transport_handler \<Rightarrow> transport_handler option" where
  "handle_path_request E p iface h =
     (let (decoded, prs) = path_requests_decode (ev_sha E) (pk_data p) (th_path_requests h);
          h = h\<lparr>th_path_requests := prs\<rparr>
      in case decoded of
           None \<Rightarrow> Some h
         | Some request \<Rightarrow>
             let h = h\<lparr>th_ifaces := im_received_path_request (ev_now E) iface (th_ifaces h)\<rparr>;
                 d = pr_destination request
             in case hm_get (th_single_in h) d of
                  Some s \<Rightarrow> answer_locally E d s iface h
                | None \<Rightarrow>
                    (case (if th_retransmit h then path_table_get d (th_path_table h) else None) of
                       Some e \<Rightarrow> Some (answer_known_path E request e iface h)
                     | None \<Rightarrow>
                         if is_local_client_iface (th_ifaces h) iface then Some (forward_for_local_client E request iface h)
                         else (case search_plan h iface of
                                 Some search_modes \<Rightarrow> Some (discover_path E request search_modes iface h)
                               | None \<Rightarrow> Some (forward_to_local_clients E request h))))"

section \<open>Tunnels and fixed destinations\<close>

definition th_tunnel_synthesize :: "env \<Rightarrow> packet \<Rightarrow> address_hash \<Rightarrow> transport_handler \<Rightarrow> transport_handler" where
  "th_tunnel_synthesize E p iface h =
     (case handle_tunnel_synthesize (ev_crypto E) (ev_dflt E) (ev_now E) (ev_unix E) (pk_data p) iface
             (th_path_table h, th_tunnels h) of
        (None, _) \<Rightarrow> h
      | (Some tunnel_id, paths, ts) \<Rightarrow>
          h\<lparr>th_path_table := paths, th_tunnels := ts,
            th_ifaces := snd (set_iface_tunnel iface (Some tunnel_id) (th_ifaces h))\<rparr>)"

definition handle_fixed_destinations ::
  "env \<Rightarrow> packet \<Rightarrow> address_hash \<Rightarrow> transport_handler \<Rightarrow> (bool \<times> transport_handler) option" where
  "handle_fixed_destinations E p iface h =
     (if pk_destination p = th_fixed_path_requests h then map_option (Pair True) (handle_path_request E p iface h)
      else if pk_destination p = th_fixed_tunnel_synthesize h then Some (True, th_tunnel_synthesize E p iface h)
      else Some (False, h))"

section \<open>Rebroadcasts\<close>

definition retransmit_announces :: "env \<Rightarrow> bool \<Rightarrow> transport_handler \<Rightarrow> transport_handler" where
  "retransmit_announces E retransmit_old h =
     (let (messages, t) = tx_to_retransmit (ev_now E) (own_address h) (th_announce_table h);
          h = fold (th_send E) messages (h\<lparr>th_announce_table := t\<rparr>)
      in if retransmit_old then fold (th_send E) (tx_to_retransmit_old (own_address h) (th_announce_table h)) h else h)"

definition handle_cache_request :: "env \<Rightarrow> packet \<Rightarrow> transport_handler \<Rightarrow> bool \<times> transport_handler" where
  "handle_cache_request E p h =
     (if length (pk_data p) \<noteq> HASH_SIZE then (False, h)
      else case packet_cache_get_cached_announce (th_packet_cache h) (hash_new_from_slice (ev_sha E) (pk_data p)) of
             Some cached \<Rightarrow> (True, handle_announce E cached (pk_destination p) h)
           | None \<Rightarrow> (False, h))"

end
