(* ===== verification/Rns_Node_Links.thy ===== *)
theory Rns_Node_Links
  imports Rns_Node_Announce
begin

text \<open>
  What a node of \<^verbatim>\<open>src/transport.rs\<close> does with proofs, data, link requests, resources and requests, its
  periodic work, and the task that takes received packets to the handlers.

  The value \<open>None\<close> is a panic of one of the components. A request handler that runs on a task of its
  own leaves its answer in the state; sending it is a step of its own. Once its link is no longer in
  the tables the link has been closed, and then nothing can be sent on it.
\<close>

section \<open>Links of the node\<close>

fun link_at :: "transport_handler \<Rightarrow> link_slot \<Rightarrow> link option" where
  "link_at h (InSlot k) = hm_get (th_in_links h) k"
| "link_at h (OutSlot k) = hm_get (th_out_links h) k"

fun store_link :: "link_slot \<Rightarrow> link \<Rightarrow> transport_handler \<Rightarrow> transport_handler" where
  "store_link (InSlot k) l h = store_in_link k l h"
| "store_link (OutSlot k) l h = store_out_link k l h"

fun slot_event :: "link_slot \<Rightarrow> address_hash \<Rightarrow> link_event \<Rightarrow> node_event" where
  "slot_event (InSlot _) i e = InLinkEvent i e"
| "slot_event (OutSlot _) i e = OutLinkEvent i e"

definition send_from_slot :: "env \<Rightarrow> link_slot \<Rightarrow> packet \<Rightarrow> transport_handler \<Rightarrow> transport_handler" where
  "send_from_slot E s p h = (case link_at h s of
       Some l \<Rightarrow> send_from_link E (store_link s) l p h
     | None \<Rightarrow> h)"

definition res_env_of :: "env \<Rightarrow> res_env" where
  "res_env_of E = \<lparr>re_crypto = ev_crypto E, re_now = ev_uptime E, re_iv = ev_iv E, re_rand = ev_hash E,
     re_rmp = ev_rmp E, re_bz2 = ev_bz2 E\<rparr>"

text \<open>The result of an operation of the resource manager is stored, and its packets leave on the link.\<close>

definition after_resources ::
  "env \<Rightarrow> link_slot \<Rightarrow> transport_handler \<Rightarrow> resource_manager \<times> packet list \<times> nat \<Rightarrow> transport_handler" where
  "after_resources E s h = (\<lambda>(m, packets, n). fold (send_from_slot E s) packets (h\<lparr>th_resources := m, th_draws := n\<rparr>))"

section \<open>Resources and requests\<close>

definition enqueue_resource ::
  "env \<Rightarrow> link_slot \<Rightarrow> link \<Rightarrow> outgoing_resource \<Rightarrow> transport_handler \<Rightarrow> (rns_hash result \<times> transport_handler) option" where
  "enqueue_resource E s l og h =
     (let m = th_resources h;
          push = (\<lambda>og. m\<lparr>mg_out := hm_insert (lk_id l) (or_default (mg_out m) (lk_id l) @ [og]) (mg_out m)\<rparr>)
      in if list_ex (\<lambda>og. \<not> is_concluded (og_status og)) (or_default (mg_out m) (lk_id l))
         then Some (Inr (og_hash og), h\<lparr>th_resources := push (og\<lparr>og_status := Queued\<rparr>)\<rparr>)
         else do {
           (r, og, packets, n) \<leftarrow> og_advertise (res_env_of E) (th_draws h) l og;
           Some (case r of
               Inl e \<Rightarrow> (Inl e, h\<lparr>th_draws := n\<rparr>)
             | Inr _ \<Rightarrow> (Inr (og_hash og), after_resources E s h (push og, packets, n))) })"

definition send_response ::
  "env \<Rightarrow> link_slot \<Rightarrow> address_hash \<Rightarrow> request_response \<Rightarrow> bool \<Rightarrow> nat option \<Rightarrow> transport_handler
     \<Rightarrow> transport_handler option" where
  "send_response E s rid response auto_compress auto_compress_limit h = (case link_at h s of
       None \<Rightarrow> Some h
     | Some l \<Rightarrow>
         let opts = resource_options_default\<lparr>ro_request_id := Some rid, ro_is_response := True,
               ro_auto_compress := auto_compress, ro_auto_compress_limit := auto_compress_limit\<rparr>;
             n = th_draws h;
             enqueue = (\<lambda>(r, n). case r of
                 Inl _ \<Rightarrow> Some (h\<lparr>th_draws := n\<rparr>)
               | Inr og \<Rightarrow> map_option snd (enqueue_resource E s l og (h\<lparr>th_draws := n\<rparr>)))
         in case response of
              ElementResponse element \<Rightarrow>
                let packed = pack_response (ev_rmp E) rid element
                in if length packed \<le> link_mdu l
                   then do {
                     r \<leftarrow> context_packet (ev_crypto E) (ev_iv E n) packed Ctx_Response l;
                     let h = h\<lparr>th_draws := n + 1\<rparr>
                     in Some (case r of Inr p \<Rightarrow> send_from_slot E s p h | Inl _ \<Rightarrow> h) }
                   else do { r \<leftarrow> outgoing_new (res_env_of E) n packed l opts; enqueue r }
            | FileResponse file metadata \<Rightarrow>
                let opts = opts\<lparr>ro_metadata := metadata\<rparr>
                in case file of
                     None \<Rightarrow> Some h
                   | Some (rd, end_pos) \<Rightarrow>
                       (case stage_seekable rd end_pos opts of
                          Inl _ \<Rightarrow> Some h
                        | Inr staged \<Rightarrow> do { r \<leftarrow> finish_staged (res_env_of E) n staged l opts; enqueue r }))"

definition handle_incoming_request ::
  "env \<Rightarrow> link_slot \<Rightarrow> address_hash \<Rightarrow> rat \<Rightarrow> address_hash \<Rightarrow> bytes \<Rightarrow> transport_handler \<Rightarrow> transport_handler option" where
  "handle_incoming_request E s rid requested_at path_hash data h = (case link_at h s of
       None \<Rightarrow> Some h
     | Some l \<Rightarrow>
         let destination = so_address_hash (lk_destination l);
             ctx = \<lparr>rx_path_hash = path_hash, rx_data = data, rx_request_id = rid, rx_link_id = lk_id l,
               rx_remote_identity = lk_remote_identity l, rx_requested_at = requested_at\<rparr>
         in case find_handler (mg_async_request_handlers (th_resources h)) destination path_hash of
              Some f \<Rightarrow> Some (h\<lparr>th_tasks := th_tasks h @ [\<lparr>rt_slot = s, rt_request_id = rid, rt_response = f ctx\<rparr>]\<rparr>)
            | None \<Rightarrow>
                (case find_handler (mg_request_handlers (th_resources h)) destination path_hash of
                   None \<Rightarrow> Some h
                 | Some g \<Rightarrow>
                     if \<not> handler_allows g (lk_remote_identity l) then Some h
                     else (case rg_invoke g ctx of
                             None \<Rightarrow> Some h
                           | Some response \<Rightarrow> send_response E s rid response (hc_auto_compress (rg_config g))
                               (hc_auto_compress_limit (rg_config g)) h)))"

text \<open>A handler on a task of its own is done.\<close>

definition finish_task :: "env \<Rightarrow> transport_handler \<Rightarrow> transport_handler option" where
  "finish_task E h = (case th_tasks h of
       [] \<Rightarrow> Some h
     | t # ts \<Rightarrow>
         let h = h\<lparr>th_tasks := ts\<rparr>
         in case rt_response t of
              Some response \<Rightarrow> send_response E (rt_slot t) (rt_request_id t) (ElementResponse response) True None h
            | None \<Rightarrow> Some h)"

definition request_id_from_packet :: "sha \<Rightarrow> packet \<Rightarrow> address_hash" where
  "request_id_from_packet sha p =
     (let flags = push_bit 6 (header_type_u8 (hd_header_type (pk_header p)))
            OR push_bit 5 (if hd_context_flag (pk_header p) then 1 else 0)
            OR push_bit 4 (propagation_type_u8 (hd_propagation_type (pk_header p)))
            OR push_bit 2 (destination_type_u8 (hd_destination_type (pk_header p)))
            OR packet_type_u8 (hd_packet_type (pk_header p))
      in request_id sha ([flags AND 0x0F] @ addr_bytes (pk_destination p) @ [packet_context_u8 (pk_context p)] @ pk_data p))"

text \<open>
  The data of a finished transfer is read as a request whenever it has the shape of one, and is then
  handed to the request handlers.
\<close>

definition receive_resource_part :: "env \<Rightarrow> packet \<Rightarrow> link_slot \<Rightarrow> link \<Rightarrow> transport_handler \<Rightarrow> transport_handler option" where
  "receive_resource_part E p s l h = do {
     (completed, m, packets, n) \<leftarrow> handle_part (res_env_of E) (th_draws h) l p (th_resources h);
     let h = after_resources E s h (m, packets, n)
     in if \<not> completed then Some h
        else do {
          (assembled, m, packets, n) \<leftarrow> assemble_completed (res_env_of E) (th_draws h) l (th_resources h);
          let h = after_resources E s h (m, packets, n)
          in case assembled of
               None \<Rightarrow> Some h
             | Some (_, data) \<Rightarrow>
                 (case unpack_request (ev_rmp E) data of
                    Some (time, path_hash, payload) \<Rightarrow>
                      handle_incoming_request E s (request_id (ev_sha E) data) time path_hash payload h
                  | None \<Rightarrow> Some h) } }"

definition handle_resource_packet ::
  "env \<Rightarrow> packet \<Rightarrow> link_slot \<Rightarrow> transport_handler \<Rightarrow> (bool \<times> transport_handler) option" where
  "handle_resource_packet E p s h = (case link_at h s of
       None \<Rightarrow> Some (False, h)
     | Some l \<Rightarrow>
         let R = res_env_of E; n = th_draws h; m = th_resources h;
             plaintext = link_decrypt (ev_crypto E) l (pk_data p) PACKET_MDU;
             decrypted = (\<lambda>f. case plaintext of
                 Inl _ \<Rightarrow> Some (False, h)
               | Inr txt \<Rightarrow> map_option (\<lambda>r. (True, after_resources E s h r)) (f txt))
         in case pk_context p of
              Ctx_ResourceAdvertisement \<Rightarrow> decrypted (\<lambda>txt. handle_advertisement R n l p txt m)
            | Ctx_ResourceRequest \<Rightarrow> decrypted (\<lambda>txt. handle_request_data R n l txt m)
            | Ctx_ResourceHashUpdate \<Rightarrow> decrypted (\<lambda>txt. handle_hashmap_update R n l txt m)
            | Ctx_Resource \<Rightarrow> map_option (Pair True) (receive_resource_part E p s l h)
            | Ctx_ResourceProof \<Rightarrow> map_option (\<lambda>r.
                let h = after_resources E s h r
                in (True, h\<lparr>th_resources := mg_cleanup (ev_uptime E) (th_resources h)\<rparr>))
                (mg_handle_proof R n l (pk_data p) m)
            | Ctx_ResourceInitiatorCancel \<Rightarrow> Some (True, case plaintext of
                Inr txt \<Rightarrow> h\<lparr>th_resources := handle_cancel l txt m\<rparr> | Inl _ \<Rightarrow> h)
            | Ctx_ResourceReceiverCancel \<Rightarrow> Some (True, case plaintext of
                Inr txt \<Rightarrow> h\<lparr>th_resources := handle_reject l txt m\<rparr> | Inl _ \<Rightarrow> h)
            | _ \<Rightarrow> Some (False, h))"

definition receive_response :: "env \<Rightarrow> packet \<Rightarrow> bytes \<Rightarrow> resource_manager \<Rightarrow> bool \<times> resource_manager" where
  "receive_response E p plaintext m = (case unpack_response (ev_rmp E) plaintext of
       None \<Rightarrow> (False, m)
     | Some (rid, response) \<Rightarrow>
         if hm_get (mg_pending_requests m) rid = None then (True, m)
         else
           let n = (case packet_response_size (ev_rmp E) plaintext of Some k \<Rightarrow> k | None \<Rightarrow> length response)
           in if \<not> response_size_allowed m rid n then (True, fail_request rid m)
              else (True, post_request (pk_destination p) (ResponseEvent rid response None)
                     (m\<lparr>mg_completed_responses := hm_insert rid (Some response) (mg_completed_responses m),
                        mg_pending_requests := hm_remove rid (mg_pending_requests m)\<rparr>)))"

definition handle_request_or_response_packet ::
  "env \<Rightarrow> packet \<Rightarrow> link_slot \<Rightarrow> transport_handler \<Rightarrow> (bool \<times> transport_handler) option" where
  "handle_request_or_response_packet E p s h = (case link_at h s of
       None \<Rightarrow> Some (False, h)
     | Some l \<Rightarrow>
         (case link_decrypt (ev_crypto E) l (pk_data p) PACKET_MDU of
            Inl _ \<Rightarrow> Some (False, h)
          | Inr plaintext \<Rightarrow>
              if pk_context p = Ctx_Request
              then (case unpack_request (ev_rmp E) plaintext of
                      None \<Rightarrow> Some (False, h)
                    | Some (time, path_hash, data) \<Rightarrow> map_option (Pair True)
                        (handle_incoming_request E s (request_id_from_packet (ev_sha E) p) time path_hash data h))
              else if pk_context p = Ctx_Response
              then let (handled, m) = receive_response E p plaintext (th_resources h)
                   in Some (handled, h\<lparr>th_resources := m\<rparr>)
              else Some (False, h)))"

section \<open>Calls of the application\<close>

definition enqueue_staged ::
  "env \<Rightarrow> link_slot \<Rightarrow> staged_source \<Rightarrow> resource_options \<Rightarrow> transport_handler
     \<Rightarrow> (rns_hash result \<times> transport_handler) option" where
  "enqueue_staged E s staged opts h = (case link_at h s of
       None \<Rightarrow> Some (Inl LinkNotReady, h)
     | Some l \<Rightarrow>
         if lk_status l \<noteq> Active then Some (Inl LinkNotReady, h)
         else do {
           (r, n) \<leftarrow> finish_staged (res_env_of E) (th_draws h) staged l opts;
           case r of
             Inl e \<Rightarrow> Some (Inl e, h\<lparr>th_draws := n\<rparr>)
           | Inr og \<Rightarrow> enqueue_resource E s l og (h\<lparr>th_draws := n\<rparr>) })"

definition send_resource_with_options ::
  "env \<Rightarrow> link_slot \<Rightarrow> bytes \<Rightarrow> resource_options \<Rightarrow> transport_handler \<Rightarrow> (rns_hash result \<times> transport_handler) option" where
  "send_resource_with_options E s data opts h = (case stage_bytes data opts of
       Inl e \<Rightarrow> Some (Inl e, h) | Inr staged \<Rightarrow> enqueue_staged E s staged opts h)"

definition send_resource_from_reader ::
  "env \<Rightarrow> link_slot \<Rightarrow> (nat \<Rightarrow> nat \<Rightarrow> bytes option) \<Rightarrow> nat option \<Rightarrow> resource_options \<Rightarrow> transport_handler
     \<Rightarrow> (rns_hash result \<times> transport_handler) option" where
  "send_resource_from_reader E s rd end_pos opts h = (case stage_seekable rd end_pos opts of
       Inl e \<Rightarrow> Some (Inl e, h) | Inr staged \<Rightarrow> enqueue_staged E s staged opts h)"

definition find_link_by_id :: "transport_handler \<Rightarrow> address_hash \<Rightarrow> link_slot option" where
  "find_link_by_id h link_id = (case find (\<lambda>(_, l). lk_id l = link_id) (th_out_links h) of
       Some (k, _) \<Rightarrow> Some (OutSlot k)
     | None \<Rightarrow> map_option (InSlot \<circ> fst) (find (\<lambda>(_, l). lk_id l = link_id) (th_in_links h)))"

definition cancel_resource ::
  "env \<Rightarrow> address_hash \<Rightarrow> rns_hash \<Rightarrow> transport_handler \<Rightarrow> (unit result \<times> transport_handler) option" where
  "cancel_resource E link_id hash h = (case Option.bind (find_link_by_id h link_id) (link_at h) of
       None \<Rightarrow> Some (Inl InvalidArgument, h)
     | Some l \<Rightarrow> do {
         (outbound, m, n) \<leftarrow> cancel_outbound (res_env_of E) (th_draws h) l hash (th_resources h);
         (tx, m, n) \<leftarrow> (case outbound of
             Some tx \<Rightarrow> Some (Some tx, m, n) | None \<Rightarrow> cancel_inbound (res_env_of E) n l hash m);
         let h = h\<lparr>th_resources := m, th_draws := n\<rparr>
         in Some (case tx of
               Some packets \<Rightarrow> (Inr (), fold (th_send_packet E) packets h)
             | None \<Rightarrow> (Inl (ResourceMsg ''no such resource on link''), h)) })"

record request_options =
  rq_timeout :: "rat option"
  rq_max_response_size :: "nat option"

definition dispatch_packed_request ::
  "env \<Rightarrow> link_slot \<Rightarrow> bytes \<Rightarrow> request_options \<Rightarrow> transport_handler
     \<Rightarrow> (address_hash result \<times> transport_handler) option" where
  "dispatch_packed_request E s packed opts h = (case link_at h s of
       None \<Rightarrow> Some (Inl LinkNotReady, h)
     | Some l \<Rightarrow>
         let n = th_draws h;
             track = (\<lambda>rid deadline h. h\<lparr>th_resources := track_request rid
               \<lparr>pn_link_id = lk_id l, pn_deadline = deadline, pn_timeout = rq_timeout opts,
                pn_max_response_size = rq_max_response_size opts\<rparr> (th_resources h)\<rparr>)
         in if lk_status l \<noteq> Active then Some (Inl LinkNotReady, h)
            else if length packed \<le> link_mdu l
            then do {
              r \<leftarrow> context_packet (ev_crypto E) (ev_iv E n) packed Ctx_Request l;
              let h = h\<lparr>th_draws := n + 1\<rparr>
              in Some (case r of
                    Inl e \<Rightarrow> (Inl e, h)
                  | Inr p \<Rightarrow>
                      let rid = request_id_from_packet (ev_sha E) p
                      in (Inr rid, track rid (map_option ((+) (ev_uptime E)) (rq_timeout opts)) (th_send_packet E p h))) }
            else
              let rid = request_id (ev_sha E) packed
              in do {
                (r, n) \<leftarrow> outgoing_new (res_env_of E) n packed l
                  (resource_options_default\<lparr>ro_request_id := Some rid, ro_timeout := rq_timeout opts\<rparr>);
                case r of
                  Inl e \<Rightarrow> Some (Inl e, h\<lparr>th_draws := n\<rparr>)
                | Inr og \<Rightarrow> do {
                    (r, h) \<leftarrow> enqueue_resource E s l og (h\<lparr>th_draws := n\<rparr>);
                    Some (case r of Inl e \<Rightarrow> (Inl e, h) | Inr _ \<Rightarrow> (Inr rid, track rid None h)) } })"

definition th_request_with_options ::
  "env \<Rightarrow> link_slot \<Rightarrow> bytes \<Rightarrow> bytes \<Rightarrow> request_options \<Rightarrow> transport_handler
     \<Rightarrow> (address_hash result \<times> transport_handler) option" where
  "th_request_with_options E s path data opts =
     dispatch_packed_request E s (pack_request (ev_rmp E) (ev_sha E) (ev_uptime E) path data) opts"

definition th_request ::
  "env \<Rightarrow> link_slot \<Rightarrow> bytes \<Rightarrow> bytes \<Rightarrow> transport_handler \<Rightarrow> (address_hash result \<times> transport_handler) option" where
  "th_request E s path data =
     dispatch_packed_request E s
       (pack_request_element (ev_rmp E) (ev_sha E) (ev_uptime E) path (Some (rm_write_bin (ev_rmp E) data)))
       \<lparr>rq_timeout = None, rq_max_response_size = None\<rparr>"

definition take_completed_response :: "address_hash \<Rightarrow> transport_handler \<Rightarrow> bytes option option \<times> transport_handler" where
  "take_completed_response rid h =
     (hm_get (mg_completed_responses (th_resources h)) rid,
      h\<lparr>th_resources := (th_resources h)\<lparr>mg_completed_responses :=
        hm_remove rid (mg_completed_responses (th_resources h))\<rparr>\<rparr>)"

section \<open>Proofs\<close>

text \<open>A link handles a packet, and what it reports is posted.\<close>

definition link_receives ::
  "env \<Rightarrow> packet \<Rightarrow> link_slot \<Rightarrow> link \<Rightarrow> bool \<Rightarrow> transport_handler \<Rightarrow> link_handle_result \<times> transport_handler" where
  "link_receives E p s l out_link h =
     (let (r, evs, payloads, l') = link_handle_packet (ev_crypto E) (ev_dflt E) (ev_read_f64 E) (ev_now E)
            (lk_id l \<in> set (th_channel_table h)) p out_link l
      in (r, emit (map (slot_event s (lk_id l)) evs @ map (ChannelPayload (lk_id l)) payloads) (store_link s l' h)))"

text \<open>The links with the identifier, as the loops over the tables find them.\<close>

definition out_slots :: "transport_handler \<Rightarrow> address_hash \<Rightarrow> link_slot list" where
  "out_slots h link_id = map (OutSlot \<circ> fst) (filter (\<lambda>(_, l). lk_id l = link_id) (th_out_links h))"

definition in_slots :: "transport_handler \<Rightarrow> address_hash \<Rightarrow> link_slot list" where
  "in_slots h link_id = map (InSlot \<circ> fst) (filter (\<lambda>(_, l). lk_id l = link_id) (th_in_links h))"

text \<open>The proof of a link request activates the link: the round-trip time is sent, and the hop count noted.\<close>

definition out_link_proof ::
  "env \<Rightarrow> packet \<Rightarrow> link_slot \<Rightarrow> (address_hash \<times> u8) option \<times> transport_handler
     \<Rightarrow> ((address_hash \<times> u8) option \<times> transport_handler) option" where
  "out_link_proof E p s = (\<lambda>(rebalanced, h). case link_at h s of
       None \<Rightarrow> Some (rebalanced, h)
     | Some l \<Rightarrow>
         let (r, h) = link_receives E p s l True h
         in case (r, link_at h s) of
              (HandledActivated, Some l) \<Rightarrow> do {
                q \<leftarrow> create_rtt (ev_crypto E) (ev_write_f64 E) (ev_iv E (th_draws h)) l;
                Some (Some (so_address_hash (lk_destination l), sat_inc8 (hd_hops (pk_header p))),
                  send_from_slot E s q (h\<lparr>th_draws := th_draws h + 1\<rparr>)) }
            | _ \<Rightarrow> Some (rebalanced, h))"

definition in_link_proof :: "env \<Rightarrow> packet \<Rightarrow> link_slot \<Rightarrow> transport_handler \<Rightarrow> transport_handler" where
  "in_link_proof E p s h = (case link_at h s of
       None \<Rightarrow> h | Some l \<Rightarrow> snd (link_receives E p s l False h))"

definition rebalance_path :: "address_hash \<times> u8 \<Rightarrow> transport_handler \<Rightarrow> transport_handler" where
  "rebalance_path = (\<lambda>(destination, hops) h.
     h\<lparr>th_path_table := snd (rebalance_hops destination hops (th_path_table h))\<rparr>)"

definition relay_link_packet :: "env \<Rightarrow> packet \<Rightarrow> address_hash \<Rightarrow> transport_handler \<Rightarrow> transport_handler" where
  "relay_link_packet E p ingress h =
     (let (routed, t) = route_link_packet (ev_now E) p ingress (th_link_table h);
          h = h\<lparr>th_link_table := t\<rparr>
      in case routed of Some (q, iface) \<Rightarrow> send_direct E iface q h | None \<Rightarrow> h)"

definition relay_lr_proof :: "env \<Rightarrow> packet \<Rightarrow> address_hash \<Rightarrow> transport_handler \<Rightarrow> transport_handler" where
  "relay_lr_proof E p ingress h =
     (let C = ev_crypto E;
          (recalled, k) = kn_recall C (ev_dflt E) (pk_destination p) (ev_unix E) (th_known_destinations h);
          (recalled, k) = (case (recalled, original_destination_of (th_link_table h) (pk_destination p)) of
              (None, Some d) \<Rightarrow> kn_recall C (ev_dflt E) d (ev_unix E) k | _ \<Rightarrow> (recalled, k));
          (outcome, t) = handle_lr_proof C p ingress recalled (th_link_table h);
          h = h\<lparr>th_known_destinations := k, th_link_table := t\<rparr>;
          h = (case po_path_hops_update outcome of Some u \<Rightarrow> rebalance_path u h | None \<Rightarrow> h)
      in case po_relay outcome of Some (q, iface) \<Rightarrow> send_direct E iface q h | None \<Rightarrow> h)"

text \<open>Proofs of resources, which belong to the first link with the identifier.\<close>

definition handle_resource_proof :: "env \<Rightarrow> packet \<Rightarrow> link_slot \<Rightarrow> transport_handler \<Rightarrow> transport_handler option" where
  "handle_resource_proof E p s h = (case link_at h s of
       None \<Rightarrow> Some h
     | Some l \<Rightarrow>
         let l = note_established_inbound (ev_now E) p False l; h = store_link s l h
         in map_option (\<lambda>r. let h = after_resources E s h r
              in h\<lparr>th_resources := mg_cleanup (ev_uptime E) (th_resources h)\<rparr>)
              (mg_handle_proof (res_env_of E) (th_draws h) l (pk_data p) (th_resources h)))"

definition resource_proof_slot :: "transport_handler \<Rightarrow> packet \<Rightarrow> link_slot option" where
  "resource_proof_slot h p =
     (if pk_context p \<noteq> Ctx_ResourceProof then None
      else case out_slots h (pk_destination p) of
             s # _ \<Rightarrow> Some s
           | [] \<Rightarrow> if hm_get (th_in_links h) (pk_destination p) \<noteq> None then Some (InSlot (pk_destination p)) else None)"

definition handle_proof :: "env \<Rightarrow> packet \<Rightarrow> address_hash \<Rightarrow> transport_handler \<Rightarrow> transport_handler option" where
  "handle_proof E p ingress h = (case resource_proof_slot h p of
       Some s \<Rightarrow> handle_resource_proof E p s h
     | None \<Rightarrow>
         let h = relay_reverse_proof E p ingress h;
             (valid, evs, rs) = (if hd_destination_type (pk_header p) = Single
               then validate_single_destination_proof (ev_crypto E) (ev_now E) p (th_receipts h)
               else (False, [], th_receipts h));
             h = emit (map ReceiptNews evs) (h\<lparr>th_receipts := rs\<rparr>)
         in if valid then Some h
            else do {
              let outs = out_slots h (pk_destination p);
              (rebalanced, h) \<leftarrow> fold (\<lambda>s r. Option.bind r (out_link_proof E p s)) outs (Some (None, h));
              let h = (case rebalanced of Some u \<Rightarrow> rebalance_path u h | None \<Rightarrow> h);
              let ins = in_slots h (pk_destination p);
              let h = fold (in_link_proof E p) ins h;
              let h = (if outs = [] \<and> ins = [] \<and> pk_context p \<noteq> Ctx_LinkRequestProof
                       then relay_link_packet E p ingress h else h);
              Some (if pk_context p = Ctx_LinkRequestProof then relay_lr_proof E p ingress h else h) })"

section \<open>Data\<close>

text \<open>A cache request on a link is answered with the content of the cached packet.\<close>

definition answer_cache_request ::
  "env \<Rightarrow> packet \<Rightarrow> link_slot \<Rightarrow> transport_handler \<Rightarrow> (bool \<times> transport_handler) option" where
  "answer_cache_request E p s h =
     (if pk_context p = Ctx_CacheRequest \<and> length (pk_data p) = HASH_SIZE
      then case (link_at h s, packet_cache_get_cached_announce (th_packet_cache h) (hash_new_from_slice (ev_sha E) (pk_data p))) of
             (Some l, Some cached) \<Rightarrow> do {
               r \<leftarrow> data_packet (ev_crypto E) (ev_iv E (th_draws h)) (pk_data cached) l;
               let h = h\<lparr>th_draws := th_draws h + 1\<rparr>
               in Some (case r of Inr q \<Rightarrow> (True, send_from_slot E s q h) | Inl _ \<Rightarrow> (False, h)) }
           | _ \<Rightarrow> Some (False, h)
      else Some (False, h))"

definition message_proof_wanted :: "transport_handler \<Rightarrow> packet \<Rightarrow> link \<Rightarrow> bool" where
  "message_proof_wanted h p l =
     (if pk_context p = Ctx_Channel then True
      else if pk_context p = Ctx_None
      then (case hm_get (th_single_in h) (so_address_hash (lk_destination l)) of
              None \<Rightarrow> False
            | Some d \<Rightarrow> (case si_proof_strategy d of
                  ProveNone \<Rightarrow> False | ProveAll \<Rightarrow> True | ProveApp \<Rightarrow> should_prove d p))
      else False)"

definition in_link_message :: "env \<Rightarrow> packet \<Rightarrow> link_slot \<Rightarrow> link \<Rightarrow> transport_handler \<Rightarrow> transport_handler" where
  "in_link_message E p s l h =
     (let wanted = message_proof_wanted h p l;
          (r, h) = link_receives E p s l False h
      in case (r, link_at h s) of
           (HandledKeepAlive, Some l) \<Rightarrow>
             if keepalive_reply_due (ev_now E) (tc_out_link_keep (th_timers h)) l
             then send_from_slot E s (keep_alive_packet KEEP_ALIVE_RESPONSE l) h else h
         | (MessageReceived (Some proof), _) \<Rightarrow> if wanted then send_from_slot E s proof h else h
         | _ \<Rightarrow> h)"

text \<open>
  What the link of one side does first with a packet: the clock is refreshed, and resources and
  requests are handled. The first component tells that the packet needs nothing else.
\<close>

definition link_engines ::
  "env \<Rightarrow> packet \<Rightarrow> link_slot \<Rightarrow> bool \<Rightarrow> transport_handler \<Rightarrow> (bool \<times> transport_handler) option" where
  "link_engines E p s out_link h = (case link_at h s of
       None \<Rightarrow> Some (True, h)
     | Some l \<Rightarrow> do {
         (handled, h) \<leftarrow> handle_resource_packet E p s (store_link s (note_established_inbound (ev_now E) p out_link l) h);
         if handled then Some (True, h) else handle_request_or_response_packet E p s h })"

definition in_link_data :: "env \<Rightarrow> packet \<Rightarrow> transport_handler \<Rightarrow> (bool \<times> transport_handler) option" where
  "in_link_data E p h = do {
     let s = InSlot (pk_destination p);
     (handled, h) \<leftarrow> link_engines E p s False h;
     if handled then Some (True, h)
     else do {
       (handled, h) \<leftarrow> answer_cache_request E p s h;
       Some (handled, if handled then h
         else case link_at h s of Some l \<Rightarrow> in_link_message E p s l h | None \<Rightarrow> h) } }"

definition out_link_data :: "env \<Rightarrow> packet \<Rightarrow> link_slot \<Rightarrow> transport_handler \<Rightarrow> transport_handler option" where
  "out_link_data E p s h = do {
     (handled, h) \<leftarrow> link_engines E p s True h;
     Some (if handled then h
       else case link_at h s of
              None \<Rightarrow> h
            | Some l \<Rightarrow>
                let (r, h) = link_receives E p s l True h
                in case r of MessageReceived (Some proof) \<Rightarrow> send_from_slot E s proof h | _ \<Rightarrow> h) }"

definition handle_link_data :: "env \<Rightarrow> packet \<Rightarrow> address_hash \<Rightarrow> transport_handler \<Rightarrow> transport_handler option" where
  "handle_link_data E p ingress h = do {
     let local_in = (hm_get (th_in_links h) (pk_destination p) \<noteq> None);
     (done, h) \<leftarrow> (if local_in then in_link_data E p h else Some (False, h));
     if done then Some h
     else do {
       let outs = out_slots h (pk_destination p);
       h \<leftarrow> fold (\<lambda>s r. Option.bind r (out_link_data E p s)) outs (Some h);
       if local_in \<or> outs \<noteq> [] then Some h
       else
         let (done, h) = handle_keepalive_response E p ingress h
         in Some (if done then h else relay_link_packet E p ingress h) } }"

definition receive_group :: "env \<Rightarrow> packet \<Rightarrow> transport_handler \<Rightarrow> transport_handler" where
  "receive_group E p h = (case hm_get (th_group_in h) (pk_destination p) of
       None \<Rightarrow> h
     | Some d \<Rightarrow>
         (case (if group_encrypted d then map_sum id (\<lambda>plain. safe_concat [plain]) (decrypt_group (ev_crypto E) d (pk_data p) PACKET_MDU)
                else Inr (pk_data p)) of
            Inl _ \<Rightarrow> h
          | Inr data \<Rightarrow> emit [ReceivedData (pk_destination p) data (group_encrypted d)] h))"

definition receive_single :: "env \<Rightarrow> packet \<Rightarrow> single_in \<Rightarrow> transport_handler \<Rightarrow> transport_handler" where
  "receive_single E p d h = (case single_in_decrypt (ev_crypto E) d (pk_data p) PACKET_MDU of
       Inl _ \<Rightarrow> h
     | Inr plain_text \<Rightarrow>
         let h = emit [ReceivedData (pk_destination p) (safe_concat [plain_text]) True] h
         in if should_prove d p
            then (case create_single_destination_proof (ev_crypto E) (th_implicit_proof h) p ProveAll
                         (pi_sign_key (si_identity d)) of
                    Some proof \<Rightarrow> th_send_packet E proof h
                  | None \<Rightarrow> h)
            else h)"

definition handle_data :: "env \<Rightarrow> packet \<Rightarrow> address_hash \<Rightarrow> transport_handler \<Rightarrow> transport_handler option" where
  "handle_data E p ingress h =
     (let (cached, h) = (if pk_context p = Ctx_CacheRequest then handle_cache_request E p h else (False, h))
      in if cached then Some h
         else case hd_destination_type (pk_header p) of
                Link \<Rightarrow> handle_link_data E p ingress h
              | Group \<Rightarrow> Some (receive_group E p h)
              | Plain \<Rightarrow> Some (if hm_get (th_plain_in h) (pk_destination p) \<noteq> None
                  then emit [ReceivedData (pk_destination p) (pk_data p) False] h else h)
              | Single \<Rightarrow> Some (case hm_get (th_single_in h) (pk_destination p) of
                  Some d \<Rightarrow> receive_single E p d h
                | None \<Rightarrow> if pk_transport p = Some (own_address h)
                          then snd (send_to_next_hop E p None (Some ingress) h) else h))"

section \<open>Link requests\<close>

definition single_in_desc :: "single_in \<Rightarrow> single_out" where
  "single_in_desc d = \<lparr>so_identity = pi_identity (si_identity d), so_name = si_name d, so_address_hash = si_address_hash d\<rparr>"

definition handle_link_request_as_destination ::
  "env \<Rightarrow> single_in \<Rightarrow> packet \<Rightarrow> address_hash \<Rightarrow> transport_handler \<Rightarrow> transport_handler" where
  "handle_link_request_as_destination E d p iface h =
     (if \<not> si_accepts_links d \<or> single_in_handle_packet d p \<noteq> HandleLinkProof
         \<or> hm_get (th_in_links h) (link_id_of (ev_sha E) p) \<noteq> None then h
      else
        let n = th_draws h; h = h\<lparr>th_draws := n + 1\<rparr>
        in case link_new_from_request (ev_crypto E) (ev_dflt E) (ev_now E) (ev_key E n) p (pi_sign_key (si_identity d))
                  (single_in_desc d) of
             Inl _ \<Rightarrow> h
           | Inr l \<Rightarrow>
               let (proof, evs, l) = link_prove (ev_crypto E) (prove_messages (si_proof_strategy d \<noteq> ProveNone) l);
                   h = th_send_packet E proof (emit (map (InLinkEvent (lk_id l)) evs) h)
               in h\<lparr>th_in_link_ifaces := hm_insert (lk_id l) iface (th_in_link_ifaces h),
                    th_in_links := hm_insert (lk_id l) (mark_outbound (ev_now E) False l) (th_in_links h)\<rparr>)"

definition handle_link_request_as_intermediate ::
  "env \<Rightarrow> address_hash \<Rightarrow> address_hash \<Rightarrow> address_hash \<Rightarrow> u8 \<Rightarrow> packet \<Rightarrow> transport_handler \<Rightarrow> transport_handler" where
  "handle_link_request_as_intermediate E received_from next_hop next_hop_iface remaining_hops p h =
     (let bitrate = (case hm_get (im_controls (th_ifaces h)) next_hop_iface of Some c \<Rightarrow> ctl_bitrate c | None \<Rightarrow> 0)
      in snd (send_to_next_hop E p None None
           (h\<lparr>th_link_table := link_table_add (ev_sha E) (ev_now E) p (pk_destination p) received_from next_hop next_hop_iface
                remaining_hops bitrate (th_link_table h)\<rparr>)))"

definition handle_link_request :: "env \<Rightarrow> packet \<Rightarrow> address_hash \<Rightarrow> transport_handler \<Rightarrow> transport_handler" where
  "handle_link_request E p iface h = (case hm_get (th_single_in h) (pk_destination p) of
       Some d \<Rightarrow> handle_link_request_as_destination E d p iface h
     | None \<Rightarrow>
         (case next_hop_full (pk_destination p) (th_path_table h) of
            None \<Rightarrow> h
          | Some (next_hop, next_hop_iface) \<Rightarrow>
              if pk_transport p \<noteq> Some (own_address h) then h
              else handle_link_request_as_intermediate E iface next_hop next_hop_iface
                     (case path_table_get (pk_destination p) (th_path_table h) of Some e \<Rightarrow> pe_hops e | None \<Rightarrow> 1) p h))"

end
