(* ===== verification/Rns_Node_Run.thy ===== *)
theory Rns_Node_Run
  imports Rns_Node_Links
begin

text \<open>
  The tasks of a node of \<^verbatim>\<open>src/transport.rs\<close>: the periodic work on links, tables, interfaces, resources and
  local clients, and the task that sorts received packets by class and hands them to the handlers.
  Every iteration of a task is one step of the node. The ticker is the one of a node that has loaded
  its saved state.
\<close>

section \<open>Links\<close>

definition check_in_slot ::
  "env \<Rightarrow> address_hash \<Rightarrow> address_hash list \<times> transport_handler \<Rightarrow> (address_hash list \<times> transport_handler) option" where
  "check_in_slot E k = (\<lambda>(removed, h). case hm_get (th_in_links h) k of
       None \<Rightarrow> Some (removed, h)
     | Some l \<Rightarrow> do {
         (packets, evs, remove, l') \<leftarrow> check_in_link (ev_crypto E) (th_timers h) (ev_now E) l;
         Some (if remove then removed @ [k] else removed,
           fold (th_send_packet E) packets (emit (map (InLinkEvent (lk_id l)) evs) (store_in_link k l' h))) })"

definition check_out_slot ::
  "env \<Rightarrow> address_hash \<Rightarrow> address_hash list \<times> address_hash list \<times> transport_handler
     \<Rightarrow> (address_hash list \<times> address_hash list \<times> transport_handler) option" where
  "check_out_slot E k = (\<lambda>(removed, expired, h). case hm_get (th_out_links h) k of
       None \<Rightarrow> Some (removed, expired, h)
     | Some l \<Rightarrow> do {
         let d = so_address_hash (lk_destination l);
         let hops = (case path_table_get d (th_path_table h) of Some e \<Rightarrow> pe_hops e | None \<Rightarrow> 1);
         (packets, evs, verdict, l') \<leftarrow> check_out_link (ev_crypto E) (th_timers h) (th_restart_outlinks h) hops
           (path_bitrate h d) (ev_now E) l;
         Some (if verdict = KeepLink then removed else removed @ [k],
           if verdict = ExpireLink then expired @ [d] else expired,
           fold (th_send_packet E) packets (emit (map (OutLinkEvent (lk_id l)) evs) (store_out_link k l' h))) })"

text \<open>The path of a link that was never established is looked for again, except on a node that relays.\<close>

definition rediscover :: "env \<Rightarrow> address_hash \<Rightarrow> transport_handler \<Rightarrow> transport_handler" where
  "rediscover E d h =
     (if th_retransmit h \<or> connected_to_shared_instance (th_ifaces h) then h
      else
        let (allowed, prs) = request_allowed (ev_now E) d (th_path_requests h);
            h = h\<lparr>th_path_requests := prs\<rparr>
        in if \<not> allowed then h
           else request_path E d None None (h\<lparr>th_path_table := snd (expire_path (ev_now E) d (th_path_table h))\<rparr>))"

definition handle_check_links :: "env \<Rightarrow> transport_handler \<Rightarrow> transport_handler option" where
  "handle_check_links E h = do {
     (removed, h) \<leftarrow> fold (\<lambda>k r. Option.bind r (check_in_slot E k)) (map fst (th_in_links h)) (Some ([], h));
     let h = h\<lparr>th_in_links := fold hm_remove removed (th_in_links h),
               th_in_link_ifaces := fold hm_remove removed (th_in_link_ifaces h)\<rparr>;
     (removed, expired, h) \<leftarrow> fold (\<lambda>k r. Option.bind r (check_out_slot E k)) (map fst (th_out_links h)) (Some ([], [], h));
     Some (fold (rediscover E) expired (h\<lparr>th_out_links := fold hm_remove removed (th_out_links h)\<rparr>)) }"

definition link_check_tick :: "env \<Rightarrow> transport_handler \<Rightarrow> transport_handler option" where
  "link_check_tick E h = handle_check_links E (h\<lparr>th_receipts := check_receipts (ev_now E) (th_receipts h)\<rparr>)"

section \<open>Tables\<close>

definition handle_cleanup :: "env \<Rightarrow> transport_handler \<Rightarrow> transport_handler" where
  "handle_cleanup E h = h\<lparr>th_ifaces := im_cleanup (th_ifaces h), th_tunnels := snd (tunnels_clean (ev_now E) (th_tunnels h))\<rparr>"

text \<open>A link request that was relayed and never proved: its path is looked for again.\<close>

definition stale_link_entry :: "env \<Rightarrow> link_entry \<Rightarrow> transport_handler \<Rightarrow> transport_handler" where
  "stale_link_entry E e h =
     (let d = le_original_destination e;
          has_path = path_table_contains d (th_path_table h);
          hops = map_option pe_hops (path_table_get d (th_path_table h));
          (allowed, prs) = request_allowed (ev_now E) d (th_path_requests h);
          h = h\<lparr>th_path_requests := prs\<rparr>;
          again = (\<lambda>exclude h. request_path E d exclude None
            (if th_retransmit h then h else h\<lparr>th_path_table := snd (expire_path (ev_now E) d (th_path_table h))\<rparr>))
      in if \<not> has_path \<or> allowed \<and> le_taken_hops e = 0 then again None h
         else if allowed \<and> (hops = Some 1 \<or> le_taken_hops e = 1)
         then again (Some (le_receiving_iface e))
                (if th_retransmit h \<and> iface_mode (th_ifaces h) (le_receiving_iface e) \<noteq> Boundary
                 then h\<lparr>th_path_table := snd (mark_path_unresponsive d (th_path_table h))\<rparr> else h)
         else h)"

definition cull_tables :: "env \<Rightarrow> transport_handler \<Rightarrow> transport_handler" where
  "cull_tables E h =
     (let live = map fst (live_iface_addresses (th_ifaces h));
          h = h\<lparr>th_reverse_table := hm_retain (\<lambda>_ e. ev_now E - rve_at e < REVERSE_TIMEOUT \<and> rve_received e \<in> set live
                   \<and> rve_outbound e \<in> set live) (th_reverse_table h),
                th_path_table := snd (drop_ifaces_not_in live (th_path_table h))\<rparr>;
          (stale_links, t) = remove_stale (ev_now E) (th_link_table h);
          h = fold (stale_link_entry E) stale_links (h\<lparr>th_link_table := t\<rparr>)
      in h\<lparr>th_path_table := snd (expire_paths (ev_now E) (th_path_table h))\<rparr>)"

definition clean_caches :: "env \<Rightarrow> transport_handler \<Rightarrow> transport_handler" where
  "clean_caches E h =
     h\<lparr>th_packet_cache := packet_cache_release (ev_now E) (tc_keep_packet_cached (th_timers h)) (th_packet_cache h),
       th_blackholes := snd (bh_clean (ev_unix E) (th_blackholes h))\<rparr>"

section \<open>Resources\<close>

text \<open>The links of both tables under their keys; the links that the node opened are found under their destination.\<close>

definition watched_links :: "transport_handler \<Rightarrow> address_hash \<Rightarrow> link option" where
  "watched_links h k = (case hm_get (th_out_links h) k of Some l \<Rightarrow> Some l | None \<Rightarrow> hm_get (th_in_links h) k)"

definition resource_watchdog :: "env \<Rightarrow> transport_handler \<Rightarrow> transport_handler option" where
  "resource_watchdog E h = do {
     (m, packets, n) \<leftarrow> mg_check (res_env_of E) (th_draws h) (watched_links h) (th_resources h);
     let h = fold (th_send_packet E) packets (h\<lparr>th_resources := m, th_draws := n\<rparr>);
     Some (h\<lparr>th_resources := mg_cleanup (ev_uptime E) (th_resources h)\<rparr>) }"

section \<open>Local clients and the shared instance\<close>

text \<open>A link is torn down, and the close packet is sent when there is one.\<close>

definition teardown_link ::
  "env \<Rightarrow> (link_event \<Rightarrow> node_event) \<Rightarrow> (link \<Rightarrow> transport_handler \<Rightarrow> transport_handler) \<Rightarrow> link
     \<Rightarrow> transport_handler \<Rightarrow> transport_handler option" where
  "teardown_link E ev store l h = do {
     (packets, evs, l') \<leftarrow> watch_teardown (ev_crypto E) (ev_now E) l;
     Some (fold (th_send_packet E) packets (emit (map ev evs) (store l' h))) }"

definition shared_connection_disappeared :: "env \<Rightarrow> transport_handler \<Rightarrow> transport_handler option" where
  "shared_connection_disappeared E h = do {
     h \<leftarrow> fold (\<lambda>k r. do { h \<leftarrow> r; case hm_get (th_in_links h) k of
           Some l \<Rightarrow> teardown_link E (InLinkEvent (lk_id l)) (store_in_link k) l h | None \<Rightarrow> Some h })
         (map fst (th_in_links h)) (Some h);
     h \<leftarrow> fold (\<lambda>k r. do { h \<leftarrow> r; case hm_get (th_out_links h) k of
           Some l \<Rightarrow> teardown_link E (OutLinkEvent (lk_id l)) (store_out_link k) l h | None \<Rightarrow> Some h })
         (map fst (th_out_links h)) (Some h);
     Some (h\<lparr>th_in_links := [], th_out_links := [], th_in_link_ifaces := [],
       th_announce_table := announce_table_clear (th_announce_table h), th_path_table := path_table_clear (th_path_table h),
       th_reverse_table := [], th_link_table := link_table_clear (th_link_table h),
       th_tunnels := tunnels_clear (th_tunnels h)\<rparr>) }"

definition announce_own :: "env \<Rightarrow> address_hash \<Rightarrow> transport_handler \<Rightarrow> transport_handler" where
  "announce_own E a h = (case hm_get (th_single_in h) a of
       None \<Rightarrow> h
     | Some d \<Rightarrow>
         let n = th_draws h;
             (r, d) = path_response (ev_crypto E) (ev_key E n) (ev_hash E n) None (nat \<lfloor>ev_unix E\<rfloor>) d;
             h = h\<lparr>th_single_in := hm_modify a (\<lambda>_. d) (th_single_in h), th_draws := n + 1\<rparr>
         in case r of Inr p \<Rightarrow> th_send_packet E p h | Inl _ \<Rightarrow> h)"

definition shared_connection_reappeared :: "env \<Rightarrow> transport_handler \<Rightarrow> transport_handler" where
  "shared_connection_reappeared E h =
     (if \<not> connected_to_shared_instance (th_ifaces h) then h
      else fold (announce_own E) (map fst (th_single_in h)) h)"

definition drop_local_client :: "env \<Rightarrow> address_hash \<Rightarrow> transport_handler \<Rightarrow> transport_handler option" where
  "drop_local_client E iface h =
     (let h = h\<lparr>th_path_table := snd (drop_all_via iface (th_path_table h)),
                th_announce_table := drop_responses_to iface (th_announce_table h),
                th_link_table := drop_iface iface (th_link_table h),
                th_tunnels := tunnels_drop_iface iface (th_tunnels h),
                th_reverse_table := hm_retain (\<lambda>_ e. rve_received e \<noteq> iface \<and> rve_outbound e \<noteq> iface) (th_reverse_table h)\<rparr>
      in fold (\<lambda>i r. do {
           h \<leftarrow> r;
           h \<leftarrow> (case hm_get (th_in_links h) i of
               Some l \<Rightarrow> teardown_link E (InLinkEvent (lk_id l)) (\<lambda>_ h. h) l
                 (h\<lparr>th_in_links := hm_remove i (th_in_links h)\<rparr>)
             | None \<Rightarrow> Some h);
           Some (h\<lparr>th_in_link_ifaces := hm_remove i (th_in_link_ifaces h)\<rparr>) })
         (map fst (filter (\<lambda>(_, bound). bound = iface) (th_in_link_ifaces h))) (Some h))"

definition note_shared_instance :: "env \<Rightarrow> transport_handler \<Rightarrow> transport_handler option" where
  "note_shared_instance E h =
     (let online = connected_to_shared_instance (th_ifaces h); clients = local_client_iface_addresses (th_ifaces h)
      in case th_shared_was_online h of
           None \<Rightarrow> Some (h\<lparr>th_shared_was_online := Some online, th_seen_local_clients := clients\<rparr>)
         | Some was \<Rightarrow> do {
             h \<leftarrow> (if was \<and> \<not> online then shared_connection_disappeared E h
                  else if \<not> was \<and> online then Some (shared_connection_reappeared E h) else Some h);
             let h = h\<lparr>th_shared_was_online := Some online\<rparr>;
             h \<leftarrow> fold (\<lambda>iface r. Option.bind r (drop_local_client E iface))
               (filter (\<lambda>iface. iface \<notin> set clients) (th_seen_local_clients h)) (Some h);
             Some (h\<lparr>th_seen_local_clients := clients\<rparr>) })"

section \<open>The ticker\<close>

definition synthesize_tunnel :: "env \<Rightarrow> address_hash \<Rightarrow> transport_handler \<Rightarrow> transport_handler" where
  "synthesize_tunnel E iface h =
     (if iface_tunnel (th_ifaces h) iface \<noteq> None then h
      else
        let p = synthesize_tunnel_packet (ev_crypto E) (ev_hash E (th_draws h)) (th_identity h) iface
              (th_fixed_tunnel_synthesize h) (if th_retransmit h then Some (own_address h) else None)
        in send_direct E iface p (h\<lparr>th_draws := th_draws h + 1,
             th_ifaces := snd (set_iface_wants_tunnel iface False (th_ifaces h))\<rparr>))"

definition ticker :: "env \<Rightarrow> transport_handler \<Rightarrow> transport_handler option" where
  "ticker E h = do {
     h \<leftarrow> note_shared_instance E h;
     let (released, m) = release_held_announces (ev_now E) (th_ifaces h);
     let h = fold (\<lambda>(iface, p). handle_announce E p iface) released (h\<lparr>th_ifaces := m\<rparr>);
     let (outs, m) = process_announce_queues (ev_now E) (th_ifaces h);
     let h = h\<lparr>th_ifaces := m, th_out := th_out h @ outs\<rparr>;
     Some (fold (synthesize_tunnel E) (interfaces_wanting_tunnel (th_ifaces h)) h) }"

section \<open>Received packets\<close>

definition ingress_limited_path_request :: "env \<Rightarrow> rx_message \<Rightarrow> transport_handler \<Rightarrow> bool \<times> transport_handler" where
  "ingress_limited_path_request E message h =
     (if hd_packet_type (pk_header (rx_packet message)) \<noteq> Data
        \<or> pk_destination (rx_packet message) \<noteq> th_fixed_path_requests h
        \<or> ingress_exempt h (rx_address message) then (False, h)
      else ask_control (rx_address message) (should_ingress_limit_pr (ev_now E)) h)"

definition enqueue_message :: "env \<Rightarrow> rx_message \<Rightarrow> transport_handler \<Rightarrow> transport_handler" where
  "enqueue_message E message h =
     (let (limited, h) = ingress_limited_path_request E message h;
          class = classify (rx_packet message) (th_fixed_path_requests h) limited
      in h\<lparr>th_inbound_queues := snd (queues_put class message (th_inbound_queues h))\<rparr>)"

definition record_radio :: "env \<Rightarrow> rx_message \<Rightarrow> transport_handler \<Rightarrow> transport_handler" where
  "record_radio E message h =
     (case find (\<lambda>i. \<not> li_stopped i \<and> li_address i = rx_address message) (im_ifaces (th_ifaces h)) of
        None \<Rightarrow> h
      | Some i \<Rightarrow>
          let s = li_stats i
          in if ict_rssi s \<noteq> None \<or> ict_snr s \<noteq> None \<or> ict_quality s \<noteq> None
             then h\<lparr>th_phy := phy_record (packet_hash (ev_sha E) (rx_packet message)) (map_option sint (ict_rssi s))
                     (ict_snr s) (ict_quality s) (th_phy h)\<rparr>
             else h)"

definition in_transport_for_other :: "transport_handler \<Rightarrow> packet \<Rightarrow> bool" where
  "in_transport_for_other h p \<longleftrightarrow> hd_header_type (pk_header p) = Type2 \<and> hd_packet_type (pk_header p) \<noteq> Announce
     \<and> (case pk_transport p of Some t \<Rightarrow> t \<noteq> own_address h | None \<Rightarrow> False)"

definition not_next_hop :: "transport_handler \<Rightarrow> packet \<Rightarrow> bool" where
  "not_next_hop h p \<longleftrightarrow> (case pk_transport p of
       None \<Rightarrow> False
     | Some t \<Rightarrow> hd_destination_type (pk_header p) \<noteq> Link \<and> hd_packet_type (pk_header p) \<noteq> Announce
         \<and> hd_packet_type (pk_header p) \<noteq> Proof \<and> t \<noteq> own_address h \<and> \<not> has_destination h t)"

definition process_message :: "env \<Rightarrow> rx_message \<Rightarrow> transport_handler \<Rightarrow> transport_handler option" where
  "process_message E message h =
     (let p = rx_packet message; iface = rx_address message;
          h = record_radio E message h
      in if \<not> packet_filter p
         then Some (h\<lparr>th_ifaces := im_count_protocol_violation iface (im_count_packet_filter_hit iface (th_ifaces h))\<rparr>)
         else do {
           (handled, h) \<leftarrow> handle_fixed_destinations E p iface h;
           if handled \<or> in_transport_for_other h p then Some h
           else
             let (is_new, h) = filter_duplicate_packets E p h
             in if \<not> is_new \<or> not_next_hop h p then Some h
                else case hd_packet_type (pk_header p) of
                       Announce \<Rightarrow> Some (handle_announce E p iface h)
                     | LinkRequest \<Rightarrow> Some (handle_link_request E p iface h)
                     | Proof \<Rightarrow> handle_proof E p iface h
                     | Data \<Rightarrow> handle_data E p iface h })"

definition packet_task :: "env \<Rightarrow> rx_message list \<Rightarrow> transport_handler \<Rightarrow> transport_handler option" where
  "packet_task E batch h =
     (let h = fold (enqueue_message E) batch h;
          (drained, queues) = drain_queues (th_inbound_queues h)
      in fold (\<lambda>message r. Option.bind r (process_message E message)) drained (Some (h\<lparr>th_inbound_queues := queues\<rparr>)))"

text \<open>
  The rebroadcast task of a node that relays. The time of the last rebroadcast of old announces is kept
  only where announces are repeated forever.
\<close>

definition retransmit_task :: "env \<Rightarrow> nanos option \<Rightarrow> transport_handler \<Rightarrow> nanos option \<times> transport_handler" where
  "retransmit_task E last_retransmit_old h =
     (let (retransmit_old, last) = (case last_retransmit_old of
            Some instant \<Rightarrow> if ev_now E - instant > tc_old_announces_retransmit (th_timers h)
                            then (True, Some (ev_now E)) else (False, last_retransmit_old)
          | None \<Rightarrow> (False, None))
      in (last, retransmit_announces E retransmit_old h))"

end
