(* ===== verification/Rns_Resource_Transfer.thy ===== *)
theory Rns_Resource_Transfer
  imports Rns_Resource_In
begin

text \<open>
  A transfer of one resource segment from the sender to the receiver: what the sender prepares, the
  rounds of requests and parts between the two sides of a link, and the delivery of the data with its
  proof. The theory also has the runs in which a transfer of this engine cannot end well.
\<close>

section \<open>The parts of a segment\<close>

definition part_packet :: "link \<Rightarrow> bytes \<Rightarrow> packet" where
  "part_packet l c = link_packet l Data Ctx_Resource (take PACKET_MDU c)"

lemma raw_packet_ready: "link_ready l = Inr () \<Longrightarrow> raw_packet c t ctx l = Inr (link_packet l t ctx (take PACKET_MDU c))"
  by (simp add: raw_packet_def safe_concat_def)

fun no_collision :: "bytes list \<Rightarrow> bytes list \<Rightarrow> bool" where
  "no_collision guard [] \<longleftrightarrow> True"
| "no_collision guard (h # hs) \<longleftrightarrow> h \<notin> set guard
     \<and> no_collision (if length guard \<ge> COLLISION_GUARD_SIZE then tl (guard @ [h]) else guard @ [h]) hs"

lemma map_parts_ready:
  assumes "link_ready l = Inr ()"
  shows "map_parts sha l r guard cs = Inr (if no_collision guard (map (\<lambda>c. map_hash sha c r) cs)
           then Some (map (\<lambda>c. (part_packet l c, map_hash sha c r)) cs) else None)"
  using assms
  by (induction cs arbitrary: guard)
    (simp_all add: raw_packet_ready part_packet_def Let_def not_less less_Suc_eq_le)

text \<open>No two parts whose distance is within the guard have the same map hash.\<close>

definition guarded :: "bytes list \<Rightarrow> bool" where
  "guarded hs \<longleftrightarrow> (\<forall>j < length hs. \<forall>i < j. j - i \<le> COLLISION_GUARD_SIZE \<longrightarrow> hs ! i \<noteq> hs ! j)"

lemma guard_push:
  assumes "0 < k"
  shows "(if length (drop (length xs - k) xs) \<ge> k then tl (drop (length xs - k) xs @ [x]) else drop (length xs - k) xs @ [x])
    = drop (length (xs @ [x]) - k) (xs @ [x])"
proof (cases "k \<le> length xs")
  case True
  then have "drop (length xs - k) xs \<noteq> []" using assms by simp
  then show ?thesis using True by (simp add: tl_drop drop_Suc [symmetric] Suc_diff_le)
qed (use assms in auto)

lemma COLLISION_GUARD_SIZE_eq: "COLLISION_GUARD_SIZE = 224"
  by (simp add: resource_constants packet_consts)

lemma no_collision_distinct:
  assumes "no_collision (drop (length pre - COLLISION_GUARD_SIZE) pre) hs" "j < length hs"
    "i < length pre + j" "length pre + j - i \<le> COLLISION_GUARD_SIZE"
  shows "(pre @ hs) ! i \<noteq> hs ! j"
  using assms
proof (induction hs arbitrary: pre j)
  case (Cons h hs)
  show ?case
  proof (cases j)
    case 0
    then have i: "i < length pre" "length pre - i \<le> COLLISION_GUARD_SIZE" using Cons.prems by auto
    have "drop (length pre - COLLISION_GUARD_SIZE) pre ! (i - (length pre - COLLISION_GUARD_SIZE)) = pre ! i"
      using i by (subst nth_drop) auto
    then have "pre ! i \<in> set (drop (length pre - COLLISION_GUARD_SIZE) pre)"
      using i by (metis (no_types, lifting) diff_less_mono diff_diff_left length_drop nth_mem le_diff_conv diff_le_self
          le_add_diff_inverse2 less_diff_conv2 add.commute nat_le_linear)
    then show ?thesis using Cons.prems(1) i 0 by (auto simp: nth_append)
  next
    case (Suc j')
    have "no_collision (drop (length (pre @ [h]) - COLLISION_GUARD_SIZE) (pre @ [h])) hs"
      using Cons.prems(1) guard_push [of COLLISION_GUARD_SIZE pre h] by (simp only: no_collision.simps COLLISION_GUARD_SIZE_eq)
    from Cons.IH [OF this, of j'] show ?thesis using Cons.prems Suc by simp
  qed
qed simp

lemma no_collision_guarded: "no_collision [] hs \<Longrightarrow> guarded hs"
  using no_collision_distinct [of "[]" hs] by (simp add: guarded_def)

lemma part_chunks_ceil:
  assumes "0 < sdu"
  shows "(n + sdu - 1) div sdu = (if n = 0 then 0 else Suc ((n - 1) div sdu))"
  using assms by (cases n) (simp_all add: div_add_self2)

lemma concat_part_chunks_prefix:
  assumes "0 < sdu"
  shows "concat (map (part_chunk sdu (length d) d) [0..<k]) = take (k * sdu) d"
proof (induction k)
  case (Suc k)
  have "take (k * sdu) d @ take (min (Suc k * sdu) (length d) - k * sdu) (drop (k * sdu) d) = take (Suc k * sdu) d"
    by (cases "k * sdu \<le> length d") (simp_all add: take_add [symmetric] min_def add.commute)
  then show ?case using Suc by (simp add: part_chunk_def)
qed simp

lemma concat_part_chunks:
  assumes "0 < sdu"
  shows "concat (part_chunks sdu (length d) d) = d"
proof -
  have "length d \<le> (length d + sdu - 1) div sdu * sdu"
  proof (cases "length d = 0")
    case False
    have "length d - 1 = (length d - 1) div sdu * sdu + (length d - 1) mod sdu" by simp
    moreover have "(length d - 1) mod sdu < sdu" using assms by simp
    ultimately have "length d - 1 < (length d - 1) div sdu * sdu + sdu" by linarith
    then show ?thesis using False part_chunks_ceil [OF assms, of "length d"] by (simp add: add.commute)
  qed simp
  then show ?thesis by (simp add: part_chunks_def concat_part_chunks_prefix [OF assms])
qed

lemma length_part_chunks: "length (part_chunks sdu n d) = (n + sdu - 1) div sdu"
  by (simp add: part_chunks_def)

lemma part_chunk_le: "c \<in> set (part_chunks sdu n d) \<Longrightarrow> length c \<le> sdu"
  by (auto simp: part_chunks_def part_chunk_def)

section \<open>Preparing a segment\<close>

text \<open>The random bytes, the encrypted stream and the map hashes of the attempt with draw \<open>k\<close>.\<close>

definition draw_random :: "res_env \<Rightarrow> nat \<Rightarrow> bytes" where
  "draw_random E k = take RANDOM_HASH_SIZE (hash_bytes (re_rand E k))"

definition draw_stream :: "res_env \<Rightarrow> link \<Rightarrow> bytes \<Rightarrow> nat \<Rightarrow> bytes" where
  "draw_stream E l prepared k =
     fernet_token (re_crypto E) (derived_cipher (lk_derived_key l)) (re_iv E k) (draw_random E k @ prepared)"

definition draw_chunks :: "res_env \<Rightarrow> link \<Rightarrow> bytes \<Rightarrow> nat \<Rightarrow> bytes list" where
  "draw_chunks E l prepared k =
     part_chunks (resource_sdu l) (length (draw_stream E l prepared k)) (draw_stream E l prepared k)"

definition draw_hashes :: "res_env \<Rightarrow> link \<Rightarrow> bytes \<Rightarrow> nat \<Rightarrow> bytes list" where
  "draw_hashes E l prepared k = map (\<lambda>c. map_hash (re_sha E) c (draw_random E k)) (draw_chunks E l prepared k)"

text \<open>What the sender relies on: a cipher, initialisation vectors and hashes of the right lengths.\<close>

definition res_env_ok :: "res_env \<Rightarrow> bool" where
  "res_env_ok E \<longleftrightarrow> cipher_ok (re_crypto E) \<and> sha_ok (re_sha E) \<and> (\<forall>k. length (re_iv E k) = 16) \<and> (\<forall>k. hash_ok (re_rand E k))"

lemma length_draw_random: "res_env_ok E \<Longrightarrow> length (draw_random E k) = RANDOM_HASH_SIZE"
  by (simp add: res_env_ok_def draw_random_def hash_ok_def hash_sizes resource_constants)

lemma length_draw_stream: "res_env_ok E \<Longrightarrow> length (draw_stream E l d k) = length (draw_stream E l d 0)"
  by (simp add: draw_stream_def res_env_ok_def length_fernet_token length_draw_random [unfolded res_env_ok_def])

lemma encrypt_alloc_token:
  assumes "cipher_ok C" "length iv = 16"
  shows "encrypt_alloc C iv txt [] l = Some (Inr (fernet_token C (derived_cipher (lk_derived_key l)) iv txt))"
proof -
  have "\<not> length txt + TOKEN_OVERHEAD + 64 < (length txt + 15) div 16 * 16 + 48"
    "\<not> length txt + TOKEN_OVERHEAD + 64 < length txt div 16 * 16 + 64"
    using div_times_less_eq_dividend [of "length txt" 16] div_times_less_eq_dividend [of "length txt + 15" 16]
    unfolding packet_consts by linarith+
  then show ?thesis
    by (simp add: encrypt_alloc_def link_encrypt_def pi_encrypt_def fernet_encrypt_cases [OF assms])
qed

lemma hashmap_loop_ends:
  assumes E: "res_env_ok E" and l: "link_ready l = Inr ()" and free: "no_collision [] (draw_hashes E l d (m + k))"
  shows "\<exists>j. m \<le> j \<and> j \<le> m + k \<and> no_collision [] (draw_hashes E l d j)
    \<and> hashmap_loop E l (resource_sdu l) (length (draw_stream E l d m)) (draw_random E m @ d) (m + 1) (draw_stream E l d m)
         (draw_random E m)
      = Some (Inr (map (\<lambda>c. (part_packet l c, map_hash (re_sha E) c (draw_random E j))) (draw_chunks E l d j),
          draw_random E j), j + 1)"
  using free
proof (induction k arbitrary: m)
  case 0
  then show ?case
    by (intro exI [of _ m], subst hashmap_loop.simps)
      (simp add: map_parts_ready [OF l] draw_hashes_def draw_chunks_def)
next
  case (Suc k)
  show ?case
  proof (cases "no_collision [] (draw_hashes E l d m)")
    case True
    then show ?thesis
      by (intro exI [of _ m], subst hashmap_loop.simps)
        (simp add: map_parts_ready [OF l] draw_hashes_def draw_chunks_def)
  next
    case False
    from Suc.IH [of "m + 1"] Suc.prems obtain j where j: "m + 1 \<le> j" "j \<le> m + 1 + k" "no_collision [] (draw_hashes E l d j)"
      and run: "hashmap_loop E l (resource_sdu l) (length (draw_stream E l d (m + 1))) (draw_random E (m + 1) @ d) (m + 1 + 1)
          (draw_stream E l d (m + 1)) (draw_random E (m + 1))
        = Some (Inr (map (\<lambda>c. (part_packet l c, map_hash (re_sha E) c (draw_random E j))) (draw_chunks E l d j),
            draw_random E j), j + 1)"
      by auto
    have len: "length (draw_stream E l d (m + 1)) = length (draw_stream E l d m)"
      using length_draw_stream [OF E, of l d m] length_draw_stream [OF E, of l d "m + 1"] by simp
    have enc: "encrypt_alloc (re_crypto E) (re_iv E (m + 1)) (draw_random E (m + 1) @ d) [] l = Some (Inr (draw_stream E l d (m + 1)))"
      using E by (simp add: encrypt_alloc_token res_env_ok_def draw_stream_def)
    have "hashmap_loop E l (resource_sdu l) (length (draw_stream E l d m)) (draw_random E m @ d) (m + 1) (draw_stream E l d m)
         (draw_random E m)
      = hashmap_loop E l (resource_sdu l) (length (draw_stream E l d (m + 1))) (draw_random E (m + 1) @ d) (m + 1 + 1)
          (draw_stream E l d (m + 1)) (draw_random E (m + 1))"
      using False enc len
      by (subst hashmap_loop.simps)
        (simp add: map_parts_ready [OF l] draw_hashes_def draw_chunks_def Let_def draw_random_def [symmetric]
          length_draw_random [OF E])
    then show ?thesis using run j by (intro exI [of _ j]) simp
  qed
qed

text \<open>
  A prepared segment: its parts are the chunks of the encrypted stream, and the map hashes of parts
  that are close to each other differ.
\<close>

definition segment_ok :: "res_env \<Rightarrow> link \<Rightarrow> bytes \<Rightarrow> bytes list \<Rightarrow> outgoing_resource \<Rightarrow> bool" where
  "segment_ok E l data chunks og \<longleftrightarrow>
     (\<exists>prepared iv. length iv = 16 \<and> length prepared \<le> length data
        \<and> concat chunks = fernet_token (re_crypto E) (derived_cipher (lk_derived_key l)) iv (og_random_hash og @ prepared)
        \<and> (if og_compressed og then \<exists>B. re_bz2 E = Some B \<and> bz_compress B data = Some prepared else prepared = data))
     \<and> og_size og = length (concat chunks) \<and> og_sdu og = resource_sdu l
     \<and> length chunks = (og_size og + og_sdu og - 1) div og_sdu og \<and> (\<forall>c \<in> set chunks. length c \<le> og_sdu og)
     \<and> og_encrypted og \<and> length (og_random_hash og) = RANDOM_HASH_SIZE
     \<and> og_parts og = map (part_packet l) chunks
     \<and> og_part_hashes og = map (\<lambda>c. map_hash (re_sha E) c (og_random_hash og)) chunks \<and> guarded (og_part_hashes og)
     \<and> og_part_sent og = replicate (length chunks) False \<and> og_sent_parts og = 0
     \<and> og_receiver_min_consecutive_height og = 0
     \<and> og_hash og = Hash (re_sha E (data @ og_random_hash og))
     \<and> og_expected_proof og = Hash (re_sha E (data @ hash_bytes (og_hash og)))"

lemma maybe_compress_cases:
  assumes "maybe_compress bz data enabled m = (prepared, compressed)"
  shows "length prepared \<le> length data"
    "if compressed then \<exists>B. bz = Some B \<and> bz_compress B data = Some prepared else prepared = data"
  using assms by (auto simp: maybe_compress_def split: if_splits option.splits)

lemma from_segment_bytes_fields:
  assumes "from_segment_bytes E n data source input_len total_size total_segments segment_index original_hash l opts
      has_metadata metadata_size = Some (Inr og, n')"
  shows "og_total_size og = total_size" "og_total_segments og = total_segments" "og_request_id og = ro_request_id opts"
    "og_original_hash og = (case original_hash of Some h \<Rightarrow> h | None \<Rightarrow> og_hash og)"
  using assms
  by (auto simp: from_segment_bytes_def Let_def split: bind_split_asm prod.split_asm sum.split_asm if_split_asm option.split)

lemma from_segment_bytes_prepared:
  assumes E: "res_env_ok E" and l: "link_ready l = Inr ()" and sdu: "0 < resource_sdu l"
    and d: "maybe_compress (re_bz2 E) data (should_auto_compress opts input_len) USIZE_MAX = (prepared, compressed)"
    and free: "n \<le> k" "no_collision [] (draw_hashes E l prepared k)"
  shows "\<exists>og n' chunks. from_segment_bytes E n data source input_len total_size total_segments segment_index original_hash l opts
           has_metadata metadata_size = Some (Inr og, n')
      \<and> n' \<le> k + 1 \<and> segment_ok E l data chunks og \<and> og_status og = StatusNone
      \<and> og_has_metadata og = has_metadata \<and> og_segment_index og = segment_index"
proof -
  from hashmap_loop_ends [OF E l, of prepared n "k - n"] free obtain j where j: "j \<le> k" "no_collision [] (draw_hashes E l prepared j)"
    and run: "hashmap_loop E l (resource_sdu l) (length (draw_stream E l prepared n)) (draw_random E n @ prepared) (n + 1)
        (draw_stream E l prepared n) (draw_random E n)
      = Some (Inr (map (\<lambda>c. (part_packet l c, map_hash (re_sha E) c (draw_random E j))) (draw_chunks E l prepared j),
          draw_random E j), j + 1)"
    by auto
  have enc: "encrypt_alloc (re_crypto E) (re_iv E n) (draw_random E n @ prepared) [] l = Some (Inr (draw_stream E l prepared n))"
    using E by (simp add: encrypt_alloc_token res_env_ok_def draw_stream_def)
  have len: "length (draw_stream E l prepared n) = length (draw_stream E l prepared j)"
    using length_draw_stream [OF E, of l prepared n] length_draw_stream [OF E, of l prepared j] by simp
  have "length (re_iv E j) = 16" using E by (simp add: res_env_ok_def)
  then show ?thesis
    using enc run sdu j len maybe_compress_cases [OF d] no_collision_guarded [OF j(2)]
    by (simp add: from_segment_bytes_def d draw_random_def [symmetric] segment_ok_def draw_hashes_def
        length_draw_random [OF E] concat_part_chunks draw_chunks_def length_part_chunks Let_def comp_def)
      (intro exI [of _ "draw_chunks E l prepared j"] conjI exI [of _ prepared] exI [of _ "re_iv E j"],
        auto simp: draw_chunks_def concat_part_chunks draw_stream_def length_part_chunks dest: part_chunk_le)
qed

text \<open>
  Claim C0. Preparing a segment ends as soon as one of the draws of the random generator gives map
  hashes that do not collide within the guard, and it gives a segment whose parts are the encrypted
  stream of the data.
\<close>

theorem segment_prepared:
  assumes "res_env_ok E" "link_ready l = Inr ()" "0 < resource_sdu l"
    "n \<le> k" "no_collision [] (draw_hashes E l (fst (maybe_compress (re_bz2 E) data (should_auto_compress opts input_len) USIZE_MAX)) k)"
  shows "\<exists>og n' chunks. from_segment_bytes E n data source input_len total_size total_segments segment_index original_hash l opts
           has_metadata metadata_size = Some (Inr og, n') \<and> n' \<le> k + 1 \<and> segment_ok E l data chunks og"
  using from_segment_bytes_prepared [OF assms(1-3) _ assms(4), of data opts input_len
      "fst (maybe_compress (re_bz2 E) data (should_auto_compress opts input_len) USIZE_MAX)"
      "snd (maybe_compress (re_bz2 E) data (should_auto_compress opts input_len) USIZE_MAX)"] assms(5)
  by (metis prod.collapse)

section \<open>The receiver\<close>

text \<open>
  The receiver of a segment with the chunks \<open>cs\<close> and the map hashes \<open>hs\<close> that has the first \<open>k\<close> parts
  and knows the first \<open>n\<close> map hashes.
\<close>

definition receiver_at :: "outgoing_resource \<Rightarrow> bytes list \<Rightarrow> nat \<Rightarrow> nat \<Rightarrow> incoming_resource \<Rightarrow> bool" where
  "receiver_at og cs k n r \<longleftrightarrow>
     ic_hash r = og_hash og \<and> ic_random_hash r = og_random_hash og \<and> ic_encrypted r \<and> ic_compressed r = og_compressed og
     \<and> ic_has_metadata r = og_has_metadata og \<and> ic_segment_index r = og_segment_index og \<and> ic_assembled r = None
     \<and> ic_total_parts r = length cs \<and> ic_received_count r = k \<and> ic_consecutive_completed_height r = int k - 1
     \<and> ic_parts r = map Some (take k cs) @ replicate (length cs - k) None
     \<and> ic_hashmap r = map Some (take n (og_part_hashes og)) @ replicate (length cs - n) None
     \<and> ic_hashmap_height r = n \<and> 2 \<le> ic_window r \<and> ic_window r \<le> RES_WINDOW_MAX \<and> ic_window_max r \<le> RES_WINDOW_MAX"

lemma receiver_at_fast: "receiver_at og cs k n r \<Longrightarrow> receiver_at og cs k n (fast_round rate r)"
  by (auto simp: receiver_at_def fast_round_def Let_def resource_constants)

lemma receiver_at_slow: "receiver_at og cs k n r \<Longrightarrow> receiver_at og cs k n (slow_round rate r)"
  by (auto simp: receiver_at_def slow_round_def Let_def resource_constants)

lemma receiver_at_upd:
  "receiver_at og cs k n (r\<lparr>ic_status := s\<rparr>) = receiver_at og cs k n r"
  "receiver_at og cs k n (r\<lparr>ic_outstanding_parts := out\<rparr>) = receiver_at og cs k n r"
  "receiver_at og cs k n (r\<lparr>ic_waiting_for_hmu := b\<rparr>) = receiver_at og cs k n r"
  "receiver_at og cs k n (r\<lparr>ic_last_activity := t, ic_retries_left := m\<rparr>) = receiver_at og cs k n r"
  "receiver_at og cs k n (r\<lparr>ic_req_resp_rtt_rate := t\<rparr>) = receiver_at og cs k n r"
  "receiver_at og cs k n (r\<lparr>ic_req_data_rtt_rate := t, ic_rtt_rxd_bytes_at_part_req := m\<rparr>) = receiver_at og cs k n r"
  "receiver_at og cs k n (r\<lparr>ic_req_resp := x, ic_part_timeout_factor := t, ic_rtt := y\<rparr>) = receiver_at og cs k n r"
  "receiver_at og cs k n (r\<lparr>ic_last_activity := t, ic_req_sent := t, ic_req_sent_bytes := m,
     ic_rtt_rxd_bytes_at_part_req := m', ic_req_resp := x\<rparr>) = receiver_at og cs k n r"
  by (simp_all add: receiver_at_def)

text \<open>The fields that tell what the receiver waits for.\<close>

definition waits :: "incoming_resource \<Rightarrow> resource_status \<times> nat \<times> bool" where
  "waits r = (ic_status r, ic_outstanding_parts r, ic_waiting_for_hmu r)"

lemma waits_upd:
  "waits (r\<lparr>ic_req_resp_rtt_rate := t\<rparr>) = waits r"
  "waits (r\<lparr>ic_req_data_rtt_rate := t, ic_rtt_rxd_bytes_at_part_req := m\<rparr>) = waits r"
  "waits (r\<lparr>ic_req_resp := x, ic_part_timeout_factor := t, ic_rtt := y\<rparr>) = waits r"
  "waits (r\<lparr>ic_fast_rate_rounds := m\<rparr>) = waits r" "waits (r\<lparr>ic_very_slow_rate_rounds := m\<rparr>) = waits r"
  "waits (r\<lparr>ic_window_max := m\<rparr>) = waits r" "waits (r\<lparr>ic_window := m\<rparr>) = waits r" "waits (r\<lparr>ic_window_min := m\<rparr>) = waits r"
  "waits (r\<lparr>ic_last_activity := t, ic_retries_left := m\<rparr>) = waits r"
  by (simp_all add: waits_def)

lemma fast_keeps_waits [simp]: "waits (fast_round rate r) = waits r"
  unfolding fast_round_def Let_def by (simp only: waits_upd split: if_split) simp

lemma slow_keeps_waits [simp]: "waits (slow_round rate r) = waits r"
  unfolding slow_round_def Let_def by (simp only: waits_upd split: if_split) simp

lemma note_keeps_waits [simp]: "waits (note_response now l m r) = waits r"
  unfolding note_response_def Let_def by (simp only: waits_upd fast_keeps_waits split: if_split) simp

lemma end_keeps_waits [simp]: "waits (end_round now r) = waits r"
  unfolding end_round_def Let_def by (simp only: waits_upd fast_keeps_waits slow_keeps_waits if_distrib [of waits] if_cancel) 

lemma receiver_at_note: "receiver_at og cs k n r \<Longrightarrow> receiver_at og cs k n (note_response now l m r)"
  unfolding note_response_def Let_def by (simp only: receiver_at_fast receiver_at_upd split: if_split) simp

lemma receiver_at_end:
  assumes "receiver_at og cs k n r"
  shows "receiver_at og cs k n (end_round now r)"
proof -
  let ?r = "if ic_window r < ic_window_max r
     then let r = r\<lparr>ic_window := ic_window r + 1\<rparr>
          in if ic_window r - ic_window_min r > ic_window_flexibility r - 1 then r\<lparr>ic_window_min := ic_window_min r + 1\<rparr> else r
     else r"
  have "receiver_at og cs k n ?r"
    using assms by (auto simp: receiver_at_def Let_def)
  then show ?thesis
    unfolding end_round_def Let_def by (simp only: receiver_at_fast receiver_at_slow receiver_at_upd split: if_split) simp
qed

lemma find_first_upt:
  assumes "a \<le> k" "k < b" "P k" "\<And>i. a \<le> i \<Longrightarrow> i < k \<Longrightarrow> \<not> P i"
  shows "find P [a..<b] = Some k"
  using assms by (auto simp: find_Some_iff intro!: exI [of _ "k - a"])

lemma guarded_next: "guarded hs \<Longrightarrow> Suc i < length hs \<Longrightarrow> hs ! i \<noteq> hs ! Suc i"
  by (simp add: guarded_def COLLISION_GUARD_SIZE_eq)

lemma stored_run_none: "i < length ps \<Longrightarrow> ps ! i = None \<Longrightarrow> stored_run ps i = 0"
  by (simp add: stored_run_def Cons_nth_drop_Suc [symmetric])

lemma stored_run_end: "length ps \<le> i \<Longrightarrow> stored_run ps i = 0"
  by (simp add: stored_run_def)

text \<open>The next part in order goes to its place.\<close>

lemma place_next_part:
  assumes r: "receiver_at og cs k n r" and hs: "og_part_hashes og = map (\<lambda>c. map_hash sha c (og_random_hash og)) cs"
    and g: "guarded (og_part_hashes og)" and k: "k < n" "n \<le> length cs"
  shows "receiver_at og cs (Suc k) n (place_part sha (cs ! k) r)"
    "waits (place_part sha (cs ! k) r) = (ic_status r, ic_outstanding_parts r - 1, ic_waiting_for_hmu r)"
proof -
  let ?h = "map_hash sha (cs ! k) (og_random_hash og)" and ?start = "nat (max 0 (int k - 1))"
  have map: "i < n \<Longrightarrow> ic_hashmap r ! i = Some (og_part_hashes og ! i)" for i
    using r k hs by (simp add: receiver_at_def nth_append)
  have "find (\<lambda>i. ic_hashmap r ! i = Some ?h) [?start..<min (?start + ic_window r) (length (ic_hashmap r))] = Some k"
  proof (rule find_first_upt)
    show "k < min (?start + ic_window r) (length (ic_hashmap r))"
      using r k hs by (auto simp: receiver_at_def)
    show "ic_hashmap r ! k = Some ?h" using map [of k] k hs by simp
    fix i assume "?start \<le> i" "i < k"
    then have "k = Suc i" by linarith
    then show "ic_hashmap r ! i \<noteq> Some ?h" using guarded_next [OF g, of i] map [of i] k hs by auto
  qed auto
  then have place: "place_part sha (cs ! k) r = store_part (cs ! k) k r"
    using r by (simp add: place_part_def receiver_at_def Let_def)
  have none: "ic_parts r ! k = None" using r k by (simp add: receiver_at_def nth_append)
  have parts: "(ic_parts r)[k := Some (cs ! k)] = map Some (take (Suc k) cs) @ replicate (length cs - Suc k) None"
    using r k by (auto simp: receiver_at_def list_update_append take_Suc_conv_app_nth Suc_diff_Suc [symmetric])
  have run: "stored_run ((ic_parts r)[k := Some (cs ! k)]) (Suc k) = 0"
    using k by (cases "Suc k < length cs") (simp_all add: parts stored_run_none stored_run_end nth_append)
  show "receiver_at og cs (Suc k) n (place_part sha (cs ! k) r)"
    using r none run parts by (simp add: place store_part_def receiver_at_def Let_def)
  show "waits (place_part sha (cs ! k) r) = (ic_status r, ic_outstanding_parts r - 1, ic_waiting_for_hmu r)"
    using none by (simp add: place store_part_def waits_def Let_def)
qed

text \<open>What the window asks for, and whether the known map hashes run out.\<close>

lemma collect_in_order:
  assumes r: "receiver_at og cs k n r" and hs: "length (og_part_hashes og) = length cs" and kn: "k \<le> n" "n \<le> length cs"
    and b: "k \<le> b" "b \<le> length cs"
  shows "collect_requests r [k..<b] = (map ((!) (og_part_hashes og)) [k..<min n b], n < b)"
proof -
  have none: "i \<in> {k..<length cs} \<Longrightarrow> ic_parts r ! i = None" for i
    using r kn by (auto simp: receiver_at_def nth_append)
  have known: "i < n \<Longrightarrow> ic_hashmap r ! i = Some (og_part_hashes og ! i)" for i
    using r kn hs by (simp add: receiver_at_def nth_append)
  have unknown: "n \<le> i \<Longrightarrow> i < length cs \<Longrightarrow> ic_hashmap r ! i = None" for i
    using r kn hs by (simp add: receiver_at_def nth_append)
  have "k \<le> a \<Longrightarrow> a \<le> b \<Longrightarrow> collect_requests r [a..<b] = (map ((!) (og_part_hashes og)) [a..<min n b], max n a < b)" for a
  proof (induction "b - a" arbitrary: a)
    case (Suc x)
    then have "a < b" by simp
    then have upt: "[a..<b] = a # [Suc a..<b]" by (simp add: upt_conv_Cons)
    have IH: "collect_requests r [Suc a..<b] = (map ((!) (og_part_hashes og)) [Suc a..<min n b], max n (Suc a) < b)"
      using Suc \<open>a < b\<close> by simp
    have "ic_parts r ! a = None" using none [of a] Suc b \<open>a < b\<close> by simp
    then show ?case
      using IH \<open>a < b\<close> known [of a] unknown [of a] b
      by (cases "a < n") (auto simp: upt upt_conv_Cons max_def)
  qed simp
  from this [of k] b kn show ?thesis by (simp add: max_def)
qed

text \<open>The text of a request for the parts from \<open>k\<close> to \<open>m\<close> by a receiver that knows \<open>n\<close> map hashes.\<close>

definition part_request :: "outgoing_resource \<Rightarrow> bool \<Rightarrow> nat \<Rightarrow> nat \<Rightarrow> nat \<Rightarrow> bytes" where
  "part_request og exhausted n k m =
     (if exhausted then [HASHMAP_IS_EXHAUSTED] @ og_part_hashes og ! (n - 1) else [HASHMAP_IS_NOT_EXHAUSTED])
     @ hash_bytes (og_hash og) @ concat (map ((!) (og_part_hashes og)) [k..<m])"

lemma context_packet_token:
  assumes "cipher_ok C" "length iv = 16" "link_ready l = Inr ()" "length d < 1984"
  shows "context_packet C iv d ctx l = Some (Inr (link_packet l Data ctx (fernet_token C (derived_cipher (lk_derived_key l)) iv d)))"
proof -
  have "\<not> PACKET_MDU < (length d + 15) div 16 * 16 + 48" "\<not> PACKET_MDU < length d div 16 * 16 + 64"
    using assms(4) div_times_less_eq_dividend [of "length d" 16] div_times_less_eq_dividend [of "length d + 15" 16]
    unfolding PACKET_MDU_def by linarith+
  then show ?thesis
    by (simp add: context_packet_def assms(3) link_encrypt_def pi_encrypt_def fernet_encrypt_cases [OF assms(1,2)])
qed

lemma link_packet_decrypts:
  assumes "cipher_ok C" "length iv = 16" "length d < 1984" "lk_derived_key a = lk_derived_key b"
  shows "link_decrypt C a (pk_data (link_packet b Data ctx (fernet_token C (derived_cipher (lk_derived_key b)) iv d))) PACKET_MDU = Inr d"
proof -
  have "length d div 16 * 16 + 64 \<le> PACKET_MDU"
    using assms(3) div_times_less_eq_dividend [of "length d" 16] unfolding PACKET_MDU_def by linarith
  then show ?thesis
    using link_decrypt_token [OF assms(1,2), of d PACKET_MDU a] assms(4) by (simp add: link_packet_def)
qed

lemma length_concat_const: "(\<And>x. x \<in> set xs \<Longrightarrow> length x = c) \<Longrightarrow> length (concat xs) = c * length xs"
  by (induction xs) auto

lemma length_part_request:
  assumes "\<forall>h \<in> set (og_part_hashes og). length h = 4" "hash_ok (og_hash og)" "m \<le> length (og_part_hashes og)"
    "exhausted \<Longrightarrow> 0 < n" "n \<le> length (og_part_hashes og)"
  shows "length (part_request og exhausted n k m) = (if exhausted then 37 else 33) + 4 * (m - k)"
proof -
  have "length (concat (map ((!) (og_part_hashes og)) [k..<m])) = 4 * (m - k)"
    using assms(1,3) by (subst length_concat_const [where c = 4]) auto
  moreover have "exhausted \<Longrightarrow> length (og_part_hashes og ! (n - 1)) = 4" using assms by auto
  ultimately show ?thesis using assms(2) by (simp add: part_request_def hash_ok_def hash_sizes)
qed

text \<open>The two sides of a segment, and the laws of the libraries that a transfer uses.\<close>

definition transfer_ok :: "res_env \<Rightarrow> link \<Rightarrow> link \<Rightarrow> bytes list \<Rightarrow> outgoing_resource \<Rightarrow> bool" where
  "transfer_ok E a b cs og \<longleftrightarrow> res_env_ok E \<and> link_ready a = Inr () \<and> link_ready b = Inr ()
     \<and> lk_id a = lk_id b \<and> lk_derived_key a = lk_derived_key b \<and> hash_ok (og_hash og)
     \<and> og_parts og = map (part_packet a) cs
     \<and> og_part_hashes og = map (\<lambda>c. map_hash (re_sha E) c (og_random_hash og)) cs \<and> guarded (og_part_hashes og)
     \<and> (\<forall>c \<in> set cs. length c \<le> PACKET_MDU)"

lemma transfer_hash_lengths: "transfer_ok E a b cs og \<Longrightarrow> \<forall>h \<in> set (og_part_hashes og). length h = 4"
  by (auto simp: transfer_ok_def map_hash_def res_env_ok_def sha_ok_def resource_constants)

lemma transfer_lengths:
  "transfer_ok E a b cs og \<Longrightarrow> length (og_parts og) = length cs \<and> length (og_part_hashes og) = length cs"
  by (auto simp: transfer_ok_def)

lemma request_next_in_order:
  assumes T: "transfer_ok E a b cs og" and r: "receiver_at og cs k n r" "ic_status r \<noteq> Failed" "\<not> ic_waiting_for_hmu r"
    and k: "k \<le> n" "0 < n" "n \<le> length cs"
  defines "B \<equiv> min (length cs) (k + ic_window r)"
  shows "\<exists>r'. request_next (E\<lparr>re_now := t\<rparr>) d b r = Some (r', [link_packet b Data Ctx_ResourceRequest
      (fernet_token (re_crypto E) (derived_cipher (lk_derived_key b)) (re_iv E d) (part_request og (n < B) n k (min n B)))], d + 1)
    \<and> receiver_at og cs k n r' \<and> waits r' = (ic_status r, min n B - k, n < B) \<and> ic_window r' = ic_window r"
proof -
  have hs: "length (og_part_hashes og) = length cs" using T by (auto simp: transfer_ok_def)
  have kB: "k \<le> B" "B \<le> length cs" "B \<le> k + 75"
    using r k by (auto simp: B_def receiver_at_def resource_constants)
  have win: "request_window r = [k..<B]"
    using r k by (simp add: request_window_def receiver_at_def B_def Let_def)
  have coll: "collect_requests r (request_window r) = (map ((!) (og_part_hashes og)) [k..<min n B], n < B)"
    unfolding win by (rule collect_in_order [OF r(1) hs k(1,3) kB(1,2)])
  have last: "ic_hashmap r ! (ic_hashmap_height r - 1) = Some (og_part_hashes og ! (n - 1))"
    using r k hs by (simp add: receiver_at_def nth_append)
  have height: "ic_hashmap_height r = n" and hash: "ic_hash r = og_hash og" using r by (auto simp: receiver_at_def)
  have "length (part_request og (n < B) n k (min n B)) < 1984"
    using length_part_request [OF transfer_hash_lengths [OF T], of "min n B" "n < B" n k] T k kB hs
    by (auto simp: transfer_ok_def)
  then have pkt: "context_packet (re_crypto E) (re_iv E d) (part_request og (n < B) n k (min n B)) Ctx_ResourceRequest b
      = Some (Inr (link_packet b Data Ctx_ResourceRequest (fernet_token (re_crypto E) (derived_cipher (lk_derived_key b))
          (re_iv E d) (part_request og (n < B) n k (min n B)))))"
    using T by (intro context_packet_token) (auto simp: transfer_ok_def res_env_ok_def)
  show ?thesis
  proof (cases "n < B")
    case True
    then show ?thesis
      using pkt last r(2,3) k height hash
      by (auto simp: request_next_def coll send_part_request_def part_request_def receiver_at_upd waits_def r(1))
  next
    case False
    then show ?thesis
      using pkt r(2,3) k hash
      by (auto simp: request_next_def coll send_part_request_def part_request_def receiver_at_upd waits_def r(1))
  qed
qed

lemma receiver_at_map:
  assumes "receiver_at og cs k n r" "ic_hashmap r' = map Some (take n' (og_part_hashes og)) @ replicate (length cs - n') None"
    "ic_hashmap_height r' = n'"
    "r' = r\<lparr>ic_hashmap_height := ic_hashmap_height r', ic_hashmap := ic_hashmap r'\<rparr>"
  shows "receiver_at og cs k n' r'"
  using assms(1-3) by (subst assms(4), subst (asm) receiver_at_def, subst receiver_at_def) simp

text \<open>A slice of the map of hashes extends what the receiver knows.\<close>

lemma take_drop_concat:
  assumes "\<forall>h \<in> set hs. length h = c" "i < length hs"
  shows "take c (drop (i * c) (concat hs)) = hs ! i"
  using assms
proof (induction hs arbitrary: i)
  case (Cons h hs)
  then show ?case by (cases i) auto
qed simp

lemma set_map_hash_slice:
  assumes r: "receiver_at og cs k (n + i) r" and n: "n = segment * HASHMAP_MAX_LEN" and i: "i < length hs"
    and hs: "hs = take (length hs) (drop n (og_part_hashes og))" and len: "\<forall>h \<in> set (og_part_hashes og). length h = 4"
      "length (og_part_hashes og) = length cs"
  shows "receiver_at og cs k (n + Suc i) (set_map_hash segment (concat hs) i r)
    \<and> waits (set_map_hash segment (concat hs) i r) = waits r"
proof -
  have bound: "n + i < length cs"
  proof -
    have "length hs \<le> length cs - n" using arg_cong [OF hs, of length] len(2) by simp
    then show ?thesis using i by linarith
  qed
  have h: "take MAPHASH_LEN (drop (i * MAPHASH_LEN) (concat hs)) = og_part_hashes og ! (n + i)"
  proof -
    have "set hs = set (take (length hs) (drop n (og_part_hashes og)))" by (rule arg_cong [OF hs, of set])
    also have "\<dots> \<subseteq> set (og_part_hashes og)" by (meson set_take_subset set_drop_subset subset_trans)
    finally have "\<forall>h \<in> set hs. length h = 4" using len(1) by blast
    then have "take 4 (drop (i * 4) (concat hs)) = hs ! i" using i by (rule take_drop_concat)
    also have "hs ! i = take (length hs) (drop n (og_part_hashes og)) ! i" by (rule arg_cong [OF hs, of "\<lambda>x. x ! i"])
    also have "\<dots> = og_part_hashes og ! (n + i)" using i bound len(2) by simp
    finally show ?thesis by (simp add: resource_constants)
  qed
  have hm: "ic_hashmap r = map Some (take (n + i) (og_part_hashes og)) @ replicate (length cs - (n + i)) None"
    and height: "ic_hashmap_height r = n + i"
    using r by (simp_all add: receiver_at_def)
  have rep: "replicate (length cs - (n + i)) (None :: bytes option) = None # replicate (length cs - (n + Suc i)) None"
    using bound by (metis Suc_diff_Suc add_Suc_right replicate_Suc)
  have l: "length (map Some (take (n + i) (og_part_hashes og))) = n + i" using bound len(2) by simp
  have none: "ic_hashmap r ! (n + i) = None" "length (ic_hashmap r) = length cs"
    using bound len(2) unfolding hm rep by (simp_all add: nth_append)
  have upd: "(ic_hashmap r)[n + i := Some (og_part_hashes og ! (n + i))]
      = map Some (take (n + Suc i) (og_part_hashes og)) @ replicate (length cs - (n + Suc i)) None"
    using bound len(2) l unfolding hm rep by (simp add: list_update_append take_Suc_conv_app_nth)
  have s: "set_map_hash segment (concat hs) i r
    = r\<lparr>ic_hashmap_height := n + Suc i, ic_hashmap := (ic_hashmap r)[n + i := Some (og_part_hashes og ! (n + i))]\<rparr>"
    using none height bound n h by (simp add: set_map_hash_def add.commute)
  have "receiver_at og cs k (n + Suc i) (set_map_hash segment (concat hs) i r)"
    unfolding s upd by (rule receiver_at_map [OF r]) simp_all
  then show ?thesis by (simp add: s waits_def)
qed

lemma fold_map_hash:
  assumes r: "receiver_at og cs k n r" and n: "n = segment * HASHMAP_MAX_LEN"
    and hs: "hs = take (length hs) (drop n (og_part_hashes og))" and len: "\<forall>h \<in> set (og_part_hashes og). length h = 4"
      "length (og_part_hashes og) = length cs" and i: "i \<le> length hs"
  shows "receiver_at og cs k (n + i) (fold (set_map_hash segment (concat hs)) [0..<i] r)
    \<and> waits (fold (set_map_hash segment (concat hs)) [0..<i] r) = waits r"
  using i
proof (induction i)
  case (Suc i)
  then show ?case
    using set_map_hash_slice [OF _ n _ hs len, of k i "fold (set_map_hash segment (concat hs)) [0..<i] r"] by simp
qed (use r in simp)

lemma HASHMAP_MAX_LEN_eq: "HASHMAP_MAX_LEN = 74"
  by (simp add: resource_constants packet_consts)

lemma hashmap_update_slice:
  assumes r: "receiver_at og cs k n r" "ic_status r \<noteq> Failed" and n: "n = segment * HASHMAP_MAX_LEN" "n < length cs"
    and len: "\<forall>h \<in> set (og_part_hashes og). length h = 4" "length (og_part_hashes og) = length cs"
  defines "n' \<equiv> min ((segment + 1) * HASHMAP_MAX_LEN) (length cs)"
  shows "receiver_at og cs k n' (hashmap_update segment (concat (take (n' - n) (drop n (og_part_hashes og)))) r)
    \<and> waits (hashmap_update segment (concat (take (n' - n) (drop n (og_part_hashes og)))) r)
       = (Transferring, ic_outstanding_parts r, False)"
proof -
  define hs where "hs = take (n' - n) (drop n (og_part_hashes og))"
  have nn: "n \<le> n'" "n' \<le> length cs" using n by (auto simp: n'_def)
  have l: "length hs = n' - n" using len(2) nn by (simp add: hs_def n'_def)
  then have pos: "0 < length hs" using n by (simp add: n'_def HASHMAP_MAX_LEN_eq)
  have eq: "hs = take (length hs) (drop n (og_part_hashes og))" unfolding l by (simp add: hs_def)
  have "\<forall>h \<in> set hs. length h = 4" using len(1) by (auto simp: hs_def dest: in_set_takeD in_set_dropD)
  then have count: "length (concat hs) div MAPHASH_LEN = length hs"
    using length_concat_const [of hs 4] by (simp add: resource_constants)
  have hm: "length (ic_hashmap r) = length cs" using r n len by (simp add: receiver_at_def)
  have seg: "\<not> segment > length (ic_hashmap r) div HASHMAP_MAX_LEN + 1"
  proof -
    have "segment \<le> length cs div HASHMAP_MAX_LEN"
      using n div_le_mono [of n "length cs" HASHMAP_MAX_LEN] by (simp add: HASHMAP_MAX_LEN_eq)
    then show ?thesis using hm by simp
  qed
  let ?r = "fold (set_map_hash segment (concat hs)) [0..<length hs] (r\<lparr>ic_status := Transferring\<rparr>)"
  have f: "receiver_at og cs k (n + length hs) ?r" "waits ?r = (Transferring, ic_outstanding_parts r, ic_waiting_for_hmu r)"
    using fold_map_hash [OF _ n(1) eq len, of k "r\<lparr>ic_status := Transferring\<rparr>" "length hs"] r(1)
    by (simp_all add: receiver_at_upd waits_def)
  have "hashmap_update segment (concat hs) r = ?r\<lparr>ic_waiting_for_hmu := False\<rparr>"
    using r(2) seg pos count by (simp add: hashmap_update_def Let_def)
  then show ?thesis
    using f l nn unfolding hs_def [symmetric] by (simp add: receiver_at_upd waits_def)
qed

section \<open>The sender\<close>

text \<open>
  The sender that has sent the first \<open>k\<close> parts and the first \<open>j\<close> further slices of the map of hashes.
\<close>

definition sender_at :: "outgoing_resource \<Rightarrow> bytes list \<Rightarrow> nat \<Rightarrow> nat \<Rightarrow> outgoing_resource \<Rightarrow> bool" where
  "sender_at og cs j k s \<longleftrightarrow> og_parts s = og_parts og \<and> og_part_hashes s = og_part_hashes og \<and> og_hash s = og_hash og
     \<and> og_expected_proof s = og_expected_proof og \<and> og_receiver_min_consecutive_height s = j * HASHMAP_MAX_LEN - 76
     \<and> og_part_sent s = replicate k True @ replicate (length cs - k) False \<and> og_sent_parts s = k"

lemma sender_at_upd:
  "sender_at og cs j k (s\<lparr>og_rtt := x\<rparr>) = sender_at og cs j k s"
  "sender_at og cs j k (s\<lparr>og_status := st, og_retries_left := m\<rparr>) = sender_at og cs j k s"
  "sender_at og cs j k (s\<lparr>og_last_activity := t\<rparr>) = sender_at og cs j k s"
  "sender_at og cs j k (s\<lparr>og_last_activity := t, og_last_part_sent := t\<rparr>) = sender_at og cs j k s"
  by (simp_all add: sender_at_def)

lemma exact_chunks_concat: "\<forall>h \<in> set hs. length h = c \<Longrightarrow> 0 < c \<Longrightarrow> exact_chunks c (concat hs) = hs"
  by (induction hs) (subst exact_chunks.simps, simp)+

lemma filter_upt_interval:
  assumes "a \<le> k" "k \<le> m" "m \<le> b" "\<And>i. a \<le> i \<Longrightarrow> i < b \<Longrightarrow> P i \<longleftrightarrow> k \<le> i \<and> i < m"
  shows "filter P [a..<b] = [k..<m]"
proof -
  have "[a..<b] = [a..<k] @ [k..<m] @ [m..<b]"
    using assms by (metis le_add_diff_inverse upt_add_eq_append append_assoc order_trans)
  moreover have "filter P [a..<k] = []" "filter P [k..<m] = [k..<m]" "filter P [m..<b] = []"
    using assms by (auto simp: filter_empty_conv intro!: filter_True)
  ultimately show ?thesis by simp
qed

lemma guarded_interval:
  assumes "guarded hs" "i < length hs" "m \<le> length hs" "\<And>j. k \<le> j \<Longrightarrow> j < m \<Longrightarrow> i - j \<le> 224 \<and> j - i \<le> 224"
  shows "hs ! i \<in> set (map ((!) hs) [k..<m]) \<longleftrightarrow> k \<le> i \<and> i < m"
proof
  assume "hs ! i \<in> set (map ((!) hs) [k..<m])"
  then obtain j where j: "k \<le> j" "j < m" "hs ! i = hs ! j" by auto
  have "i = j"
  proof (rule ccontr)
    assume "i \<noteq> j"
    then consider "i < j" | "j < i" by linarith
    then show False
      using assms j by cases (fastforce simp: guarded_def COLLISION_GUARD_SIZE_eq)+
  qed
  then show "k \<le> i \<and> i < m" using j by simp
qed auto

lemma mark_sent:
  assumes "k \<le> m" "m \<le> n"
  shows "fold (\<lambda>i sent. sent[i := True]) [k..<m] (replicate k True @ replicate (n - k) False)
    = replicate m True @ replicate (n - m) False"
  using assms
proof (induction m)
  case (Suc m)
  show ?case
  proof (cases "k = Suc m")
    case False
    then have "k \<le> m" using Suc by simp
    then have "fold (\<lambda>i sent. sent[i := True]) [k..<Suc m] (replicate k True @ replicate (n - k) False)
      = (replicate m True @ replicate (n - m) False)[m := True]"
      using Suc by simp
    also have "replicate (n - m) False = False # replicate (n - Suc m) False"
      using Suc.prems by (metis Suc_diff_le Suc_le_eq diff_Suc_Suc replicate_Suc)
    finally show ?thesis by (simp add: list_update_append replicate_app_Cons_same)
  qed simp
qed simp

text \<open>A request for the parts from \<open>k\<close> to \<open>m\<close> finds these parts and no others.\<close>

lemma send_parts_interval:
  assumes g: "guarded (og_part_hashes og)" and s: "sender_at og cs j k s" and len: "length (og_part_hashes og) = length cs"
    and start: "start \<le> k" "k \<le> m" "m \<le> stop" "stop \<le> length cs" "stop \<le> start + 224"
  shows "sender_at og cs j m (fst (send_parts now (map ((!) (og_part_hashes og)) [k..<m]) start stop s))"
    "snd (send_parts now (map ((!) (og_part_hashes og)) [k..<m]) start stop s) = map ((!) (og_parts og)) [k..<m]"
    "og_status (fst (send_parts now (map ((!) (og_part_hashes og)) [k..<m]) start stop s)) = og_status s"
proof -
  have hits: "filter (\<lambda>i. og_part_hashes s ! i \<in> set (map ((!) (og_part_hashes og)) [k..<m])) [start..<stop] = [k..<m]"
  proof (rule filter_upt_interval)
    fix i assume "start \<le> i" "i < stop"
    then show "og_part_hashes s ! i \<in> set (map ((!) (og_part_hashes og)) [k..<m]) \<longleftrightarrow> k \<le> i \<and> i < m"
      using start s len by (subst guarded_interval [OF g, symmetric]) (auto simp: sender_at_def)
  qed (use start in auto)
  have fresh: "filter (\<lambda>i. \<not> og_part_sent s ! i) [k..<m] = [k..<m]"
    using s start by (auto simp: sender_at_def nth_append intro!: filter_True)
  have hs: "og_part_hashes s = og_part_hashes og" "og_parts s = og_parts og" using s by (simp_all add: sender_at_def)
  have sent: "fold (\<lambda>i sent. sent[i := True]) [k..<m] (og_part_sent s) = replicate m True @ replicate (length cs - m) False"
    using s start by (simp add: sender_at_def mark_sent)
  show "sender_at og cs j m (fst (send_parts now (map ((!) (og_part_hashes og)) [k..<m]) start stop s))"
    using s sent start unfolding send_parts_def Let_def hits fresh by (simp add: sender_at_def)
  show "snd (send_parts now (map ((!) (og_part_hashes og)) [k..<m]) start stop s) = map ((!) (og_parts og)) [k..<m]"
    "og_status (fst (send_parts now (map ((!) (og_part_hashes og)) [k..<m]) start stop s)) = og_status s"
    unfolding send_parts_def Let_def hits fresh by (simp_all add: hs)
qed

text \<open>The last map hash that the receiver knows is found at its place.\<close>

lemma part_index_known:
  assumes g: "guarded (og_part_hashes og)" and s: "sender_at og cs j k s" and len: "length (og_part_hashes og) = length cs"
    and n: "0 < n" "n \<le> stop" "stop \<le> length cs"
    and start: "start = og_receiver_min_consecutive_height s" "start < n" "stop \<le> start + 224"
  shows "part_index_after (og_part_hashes og ! (n - 1)) start stop s = n"
proof -
  have split: "[start..<stop] = [start..<n - 1] @ (n - 1) # [n..<stop]"
  proof -
    have "[start..<stop] = [start..<n - 1] @ [n - 1..<stop]"
      using n start upt_add_eq_append [of start "n - 1" "stop - (n - 1)"] by simp
    also have "[n - 1..<stop] = (n - 1) # [n..<stop]" using n by (simp add: upt_conv_Cons)
    finally show ?thesis .
  qed
  have hs: "og_part_hashes s = og_part_hashes og" using s by (simp add: sender_at_def)
  have before: "\<forall>i \<in> set [start..<n - 1]. og_part_hashes og ! i \<noteq> og_part_hashes og ! (n - 1)"
  proof
    fix i assume "i \<in> set [start..<n - 1]"
    then have "i < n - 1" "n - 1 < length (og_part_hashes og)" "n - 1 - i \<le> COLLISION_GUARD_SIZE"
      using n start len by (auto simp: COLLISION_GUARD_SIZE_eq)
    then show "og_part_hashes og ! i \<noteq> og_part_hashes og ! (n - 1)" using g by (simp add: guarded_def)
  qed
  have "takeWhile (\<lambda>i. og_part_hashes og ! i \<noteq> og_part_hashes og ! (n - 1)) [start..<stop] = [start..<n - 1]"
    unfolding split using before by (subst takeWhile_append2) auto
  then show ?thesis using n start by (simp add: part_index_after_def hs Let_def)
qed

text \<open>The sizes of the MessagePack encodings that the update of the map uses.\<close>

definition rmp_short :: "rmp \<Rightarrow> bool" where
  "rmp_short R \<longleftrightarrow> length (rm_write_array_len R 2) \<le> 5 \<and> (\<forall>n < 2 ^ 64. length (rm_write_uint R n) \<le> 9)
     \<and> (\<forall>d. length (rm_write_bin R d) \<le> length d + 5)"

definition update_text :: "rmp \<Rightarrow> outgoing_resource \<Rightarrow> nat \<Rightarrow> bytes list \<Rightarrow> bytes" where
  "update_text R og segment hs = hash_bytes (og_hash og) @ rm_write_array_len R 2 @ rm_write_uint R segment
     @ rm_write_bin R (concat hs)"

lemma hash_flags: "HASHMAP_IS_NOT_EXHAUSTED \<noteq> HASHMAP_IS_EXHAUSTED"
  by (simp add: HASHMAP_IS_NOT_EXHAUSTED_def HASHMAP_IS_EXHAUSTED_def)

lemma part_request_reads:
  assumes "\<forall>h \<in> set (og_part_hashes og). length h = 4" "hash_ok (og_hash og)" "m \<le> length (og_part_hashes og)"
    "exhausted \<Longrightarrow> 0 < n" "n \<le> length (og_part_hashes og)"
  shows "part_request og exhausted n k m \<noteq> []"
    "hd (part_request og exhausted n k m) = HASHMAP_IS_EXHAUSTED \<longleftrightarrow> exhausted"
    "exact_chunks MAPHASH_LEN (drop ((if exhausted then 1 + MAPHASH_LEN else 1) + 32) (part_request og exhausted n k m))
       = map ((!) (og_part_hashes og)) [k..<m]"
    "\<not> length (part_request og exhausted n k m) < (if exhausted then 1 + MAPHASH_LEN else 1) + 32"
    "exhausted \<Longrightarrow> take MAPHASH_LEN (drop 1 (part_request og exhausted n k m)) = og_part_hashes og ! (n - 1)"
proof -
  have len: "exhausted \<Longrightarrow> length (og_part_hashes og ! (n - 1)) = 4" using assms by auto
  have chunks: "exact_chunks 4 (concat (map ((!) (og_part_hashes og)) [k..<m])) = map ((!) (og_part_hashes og)) [k..<m]"
    using assms(1,3) by (intro exact_chunks_concat) auto
  show "part_request og exhausted n k m \<noteq> []" "hd (part_request og exhausted n k m) = HASHMAP_IS_EXHAUSTED \<longleftrightarrow> exhausted"
    using hash_flags by (auto simp: part_request_def)
  show "exact_chunks MAPHASH_LEN (drop ((if exhausted then 1 + MAPHASH_LEN else 1) + 32) (part_request og exhausted n k m))
       = map ((!) (og_part_hashes og)) [k..<m]"
    using len assms(2) chunks by (simp add: part_request_def resource_constants hash_ok_def hash_sizes)
  show "\<not> length (part_request og exhausted n k m) < (if exhausted then 1 + MAPHASH_LEN else 1) + 32"
    using length_part_request [OF assms, where k = k] by (simp add: resource_constants)
  show "exhausted \<Longrightarrow> take MAPHASH_LEN (drop 1 (part_request og exhausted n k m)) = og_part_hashes og ! (n - 1)"
    using len by (simp add: part_request_def resource_constants)
qed

lemma now_set: "re_now (E\<lparr>re_now := t\<rparr>) = t" "re_crypto (E\<lparr>re_now := t\<rparr>) = re_crypto E"
  "re_iv (E\<lparr>re_now := t\<rparr>) = re_iv E" "re_rmp (E\<lparr>re_now := t\<rparr>) = re_rmp E" "re_bz2 (E\<lparr>re_now := t\<rparr>) = re_bz2 E"
  by simp_all

lemma sender_parts:
  "transfer_ok E a b cs og \<Longrightarrow> m \<le> length cs \<Longrightarrow> map ((!) (og_parts og)) [k..<m] = map (\<lambda>i. part_packet a (cs ! i)) [k..<m]"
  by (auto simp: transfer_ok_def)

text \<open>The bounds of the search of a sender that has sent \<open>j\<close> further slices.\<close>

lemma search_bounds:
  assumes "j * 74 - 76 \<le> k" "k \<le> m" "m \<le> length cs" "m \<le> (j + 1) * 74"
  defines "start \<equiv> j * 74 - 76" and "stop \<equiv> min (j * 74 - 76 + 224) (length cs)"
  shows "start \<le> k" "m \<le> stop" "stop \<le> length cs" "stop \<le> start + 224"
  using assms by (auto simp: start_def stop_def min_def)

lemma og_request_parts:
  assumes T: "transfer_ok E a b cs og" and s: "sender_at og cs j k s"
    and k: "j * 74 - 76 \<le> k" "k \<le> m" "m \<le> length cs" "m \<le> (j + 1) * 74" "n \<le> length cs"
  shows "\<exists>s'. og_request (E\<lparr>re_now := t\<rparr>) d a (part_request og False n k m) s
      = Some (s', map (\<lambda>i. part_packet a (cs ! i)) [k..<m], d) \<and> sender_at og cs j m s'"
proof -
  note L = transfer_lengths [OF T] and H = transfer_hash_lengths [OF T]
  have hash: "hash_ok (og_hash og)" and g: "guarded (og_part_hashes og)" using T by (auto simp: transfer_ok_def)
  note R = part_request_reads [OF H hash, of m False n k]
  let ?s = "s\<lparr>og_rtt := (case (og_adv_sent s, og_rtt s) of (Some sent, None) \<Rightarrow> Some (t - sent) | _ \<Rightarrow> og_rtt s),
     og_status := Transferring, og_retries_left := og_max_retries s\<rparr>"
  let ?start = "j * 74 - 76" and ?stop = "min (j * 74 - 76 + 224) (length cs)"
  have s1: "sender_at og cs j k ?s" using s by (simp add: sender_at_upd)
  have start: "og_receiver_min_consecutive_height s = ?start" "length (og_parts s) = length cs"
    using s L by (simp_all add: sender_at_def HASHMAP_MAX_LEN_eq)
  note P = send_parts_interval [OF g s1 conjunct2 [OF L] search_bounds(1) [OF k(1-4)] k(2) search_bounds(2-4) [OF k(1-4)], of t]
  obtain s2 where s2: "send_parts t (map ((!) (og_part_hashes og)) [k..<m]) ?start ?stop ?s
      = (s2, map (\<lambda>i. part_packet a (cs ! i)) [k..<m])" "sender_at og cs j m s2"
    using P(1,2) sender_parts [OF T k(3), of k] by (metis prod.collapse)
  have hd: "(part_request og False n k m \<noteq> [] \<and> hd (part_request og False n k m) = HASHMAP_IS_EXHAUSTED) = False"
    using R(2) k L by simp
  have "og_request (E\<lparr>re_now := t\<rparr>) d a (part_request og False n k m) s
    = Some (if og_sent_parts s2 = length (og_parts s2) then s2\<lparr>og_status := AwaitingProof, og_retries_left := 3\<rparr> else s2,
        map (\<lambda>i. part_packet a (cs ! i)) [k..<m], d)"
    using R(3,4) k L start s2(1) unfolding og_request_def Let_def hd now_set by (simp add: COLLISION_GUARD_SIZE_eq)
  then show ?thesis using s2(2) by (auto simp: sender_at_upd)
qed

definition next_slice :: "outgoing_resource \<Rightarrow> nat \<Rightarrow> bytes list" where
  "next_slice og n = take (min (n + HASHMAP_MAX_LEN) (length (og_part_hashes og)) - n) (drop n (og_part_hashes og))"

lemma send_hashmap_slice:
  assumes T: "transfer_ok E a b cs og" and R: "rmp_short (re_rmp E)" and s: "sender_at og cs j m s"
    and n: "n = (j + 1) * HASHMAP_MAX_LEN" "n < length cs" "length cs < 2 ^ 64"
  shows "\<exists>s'. send_hashmap (E\<lparr>re_now := t\<rparr>) d a n s = Some (True, s', [link_packet a Data Ctx_ResourceHashUpdate
      (fernet_token (re_crypto E) (derived_cipher (lk_derived_key a)) (re_iv E d)
        (update_text (re_rmp E) og (j + 1) (next_slice og n)))], d + 1)
    \<and> sender_at og cs (j + 1) m s' \<and> length (update_text (re_rmp E) og (j + 1) (next_slice og n)) < 1984"
proof -
  note L = transfer_lengths [OF T] and H = transfer_hash_lengths [OF T]
  have seg: "n div HASHMAP_MAX_LEN = j + 1" "n mod HASHMAP_MAX_LEN = 0" "(j + 1) * HASHMAP_MAX_LEN = n"
    "(j + 1 + 1) * HASHMAP_MAX_LEN = n + HASHMAP_MAX_LEN"
    using n by (simp_all add: HASHMAP_MAX_LEN_eq)
  have hs: "og_part_hashes s = og_part_hashes og" "og_hash s = og_hash og" "length (og_parts s) = length (og_part_hashes og)"
    using s L by (simp_all add: sender_at_def)
  have slice: "length (next_slice og n) = min (n + 74) (length cs) - n" "\<forall>h \<in> set (next_slice og n). length h = 4"
    using L H by (auto simp: next_slice_def HASHMAP_MAX_LEN_eq dest: in_set_takeD in_set_dropD)
  then have len: "length (concat (next_slice og n)) = 4 * (min (n + 74) (length cs) - n)"
    using length_concat_const [of "next_slice og n" 4] by simp
  have "0 < length (concat (next_slice og n))" unfolding len using n(2) by simp
  then have nonempty: "concat (next_slice og n) \<noteq> []" by (simp only: length_greater_0_conv not_False_eq_True)
  have "length (hash_bytes (og_hash og)) = 32" using T by (simp add: transfer_ok_def hash_ok_def hash_sizes)
  moreover have "length (rm_write_array_len (re_rmp E) 2) \<le> 5" "length (rm_write_uint (re_rmp E) (j + 1)) \<le> 9"
    "length (rm_write_bin (re_rmp E) (concat (next_slice og n))) \<le> length (concat (next_slice og n)) + 5"
    using R n by (auto simp: rmp_short_def HASHMAP_MAX_LEN_eq)
  ultimately have short: "length (update_text (re_rmp E) og (j + 1) (next_slice og n)) < 1984"
    using len by (simp add: update_text_def)
  then have pkt: "context_packet (re_crypto E) (re_iv E d) (update_text (re_rmp E) og (j + 1) (next_slice og n)) Ctx_ResourceHashUpdate a
    = Some (Inr (link_packet a Data Ctx_ResourceHashUpdate (fernet_token (re_crypto E) (derived_cipher (lk_derived_key a)) (re_iv E d)
        (update_text (re_rmp E) og (j + 1) (next_slice og n)))))"
    using T by (intro context_packet_token) (auto simp: transfer_ok_def res_env_ok_def)
  have map: "concat (take (min ((n div HASHMAP_MAX_LEN + 1) * HASHMAP_MAX_LEN) (length (og_part_hashes og)) - n div HASHMAP_MAX_LEN * HASHMAP_MAX_LEN)
      (drop (n div HASHMAP_MAX_LEN * HASHMAP_MAX_LEN) (og_part_hashes og))) = concat (next_slice og n)"
    unfolding seg by (simp add: next_slice_def)
  have min: "n - (1 + RES_WINDOW_MAX) = (j + 1) * HASHMAP_MAX_LEN - 76" using n by (simp add: resource_constants)
  have hs1: "og_part_hashes (s\<lparr>og_receiver_min_consecutive_height := x\<rparr>) = og_part_hashes og"
    "length (og_parts (s\<lparr>og_receiver_min_consecutive_height := x\<rparr>)) = length (og_part_hashes og)"
    "og_hash (s\<lparr>og_receiver_min_consecutive_height := x\<rparr>) = og_hash og" for x
    using hs by simp_all
  have "send_hashmap (E\<lparr>re_now := t\<rparr>) d a n s = Some (True,
      s\<lparr>og_receiver_min_consecutive_height := (j + 1) * HASHMAP_MAX_LEN - 76, og_last_activity := t\<rparr>,
      [link_packet a Data Ctx_ResourceHashUpdate (fernet_token (re_crypto E) (derived_cipher (lk_derived_key a)) (re_iv E d)
        (update_text (re_rmp E) og (j + 1) (next_slice og n)))], d + 1)"
    using nonempty pkt unfolding send_hashmap_def Let_def now_set hs1 unfolding map
    unfolding seg(1,2) min update_text_def by simp
  moreover have "sender_at og cs (j + 1) m (s\<lparr>og_receiver_min_consecutive_height := (j + 1) * HASHMAP_MAX_LEN - 76, og_last_activity := t\<rparr>)"
    using s by (simp add: sender_at_def)
  ultimately show ?thesis using short by blast
qed

lemma og_request_exhausted:
  assumes T: "transfer_ok E a b cs og" and R: "rmp_short (re_rmp E)" and s: "sender_at og cs j k s"
    and n: "n = (j + 1) * HASHMAP_MAX_LEN" "n < length cs" "length cs < 2 ^ 64" and k: "j * 74 - 76 \<le> k" "k \<le> n"
  shows "\<exists>s'. og_request (E\<lparr>re_now := t\<rparr>) d a (part_request og True n k n) s
      = Some (s', map (\<lambda>i. part_packet a (cs ! i)) [k..<n] @ [link_packet a Data Ctx_ResourceHashUpdate
          (fernet_token (re_crypto E) (derived_cipher (lk_derived_key a)) (re_iv E d)
            (update_text (re_rmp E) og (j + 1) (next_slice og n)))], d + 1) \<and> sender_at og cs (j + 1) n s'"
proof -
  note L = transfer_lengths [OF T] and H = transfer_hash_lengths [OF T]
  have hash: "hash_ok (og_hash og)" and g: "guarded (og_part_hashes og)" using T by (auto simp: transfer_ok_def)
  have n74: "n \<le> (j + 1) * 74" "0 < n" "n \<le> length cs" using n by (simp_all add: HASHMAP_MAX_LEN_eq)
  note Q = part_request_reads [OF H hash, of n True n k]
  let ?s = "s\<lparr>og_rtt := (case (og_adv_sent s, og_rtt s) of (Some sent, None) \<Rightarrow> Some (t - sent) | _ \<Rightarrow> og_rtt s),
     og_status := Transferring, og_retries_left := og_max_retries s\<rparr>"
  let ?start = "j * 74 - 76" and ?stop = "min (j * 74 - 76 + 224) (length cs)"
  have s1: "sender_at og cs j k ?s" using s by (simp add: sender_at_upd)
  have start: "og_receiver_min_consecutive_height s = ?start" "length (og_parts s) = length cs"
    using s L by (simp_all add: sender_at_def HASHMAP_MAX_LEN_eq)
  note B = search_bounds [OF k n74(3,1)]
  note P = send_parts_interval [OF g s1 conjunct2 [OF L] B(1) k(2) B(2-4), of t]
  obtain s2 where s2: "send_parts t (map ((!) (og_part_hashes og)) [k..<n]) ?start ?stop ?s
      = (s2, map (\<lambda>i. part_packet a (cs ! i)) [k..<n])" "sender_at og cs j n s2"
    using P(1,2) sender_parts [OF T n74(3), of k] by (metis prod.collapse)
  have index: "part_index_after (og_part_hashes og ! (n - 1)) ?start ?stop s2 = n"
    using s2(2) L n74 B n
    by (intro part_index_known [OF g s2(2)]) (auto simp: sender_at_def HASHMAP_MAX_LEN_eq)
  from send_hashmap_slice [OF T R s2(2) n] obtain s3 where s3: "send_hashmap (E\<lparr>re_now := t\<rparr>) d a n s2 = Some (True, s3,
      [link_packet a Data Ctx_ResourceHashUpdate (fernet_token (re_crypto E) (derived_cipher (lk_derived_key a)) (re_iv E d)
        (update_text (re_rmp E) og (j + 1) (next_slice og n)))], d + 1)" "sender_at og cs (j + 1) n s3"
    by blast
  have hd: "(part_request og True n k n \<noteq> [] \<and> hd (part_request og True n k n) = HASHMAP_IS_EXHAUSTED) = True"
    using Q(1,2) L n74 by simp
  have "og_request (E\<lparr>re_now := t\<rparr>) d a (part_request og True n k n) s
    = Some (s3, map (\<lambda>i. part_packet a (cs ! i)) [k..<n] @ [link_packet a Data Ctx_ResourceHashUpdate
        (fernet_token (re_crypto E) (derived_cipher (lk_derived_key a)) (re_iv E d)
          (update_text (re_rmp E) og (j + 1) (next_slice og n)))], d + 1)"
  proof -
    have "og_sent_parts s3 \<noteq> length (og_parts s3)" using s3(2) L n by (simp add: sender_at_def)
    then show ?thesis
      using Q(3-5) L n74 start s2(1) index s3(1)
      unfolding og_request_def Let_def hd now_set by (simp add: COLLISION_GUARD_SIZE_eq)
  qed
  then show ?thesis using s3(2) by blast
qed

section \<open>The exchange\<close>

text \<open>
  The two sides of a link that loses and reorders nothing. A packet for the receiver is a part or an
  update of the map of hashes; the sender answers requests. Every delivery reads the clock anew.
\<close>

definition deliver ::
  "res_env \<Rightarrow> rat \<Rightarrow> nat \<Rightarrow> link \<Rightarrow> packet \<Rightarrow> incoming_resource \<Rightarrow> (bool \<times> incoming_resource \<times> packet list \<times> nat) option" where
  "deliver E t d b p r =
     (if pk_context p = Ctx_Resource then receive_part (E\<lparr>re_now := t\<rparr>) d p b r
      else case link_decrypt (re_crypto E) b (pk_data p) PACKET_MDU of
             Inl _ \<Rightarrow> Some (False, r, [], d)
           | Inr txt \<Rightarrow> map_option (Pair False)
               (request_next (E\<lparr>re_now := t\<rparr>) d b (hashmap_update_packet (E\<lparr>re_now := t\<rparr>) txt r)))"

fun deliver_all ::
  "res_env \<Rightarrow> (nat \<Rightarrow> rat) \<Rightarrow> nat \<Rightarrow> nat \<Rightarrow> link \<Rightarrow> packet list \<Rightarrow> incoming_resource
     \<Rightarrow> (bool \<times> incoming_resource \<times> packet list \<times> nat) option" where
  "deliver_all E clock i d b [] r = Some (False, r, [], d)"
| "deliver_all E clock i d b (p # ps) r = do {
     (done, r, qs, d) \<leftarrow> deliver E (clock i) d b p r;
     (done', r, qs', d) \<leftarrow> deliver_all E clock (i + 1) d b ps r;
     Some (done \<or> done', r, qs @ qs', d) }"

fun exchange ::
  "res_env \<Rightarrow> (nat \<Rightarrow> rat) \<Rightarrow> link \<Rightarrow> link \<Rightarrow> nat \<Rightarrow> nat \<Rightarrow> nat \<Rightarrow> packet \<Rightarrow> outgoing_resource \<Rightarrow> incoming_resource
     \<Rightarrow> (outgoing_resource \<times> incoming_resource) option" where
  "exchange E clock a b 0 i d q og r = None"
| "exchange E clock a b (Suc fuel) i d q og r = (case link_decrypt (re_crypto E) a (pk_data q) PACKET_MDU of
       Inl _ \<Rightarrow> None
     | Inr txt \<Rightarrow> do {
         (og, ps, d) \<leftarrow> og_request (E\<lparr>re_now := clock i\<rparr>) d a txt og;
         (done, r, qs, d) \<leftarrow> deliver_all E clock (i + 1) d b ps r;
         if done then Some (og, r)
         else (case qs of [q] \<Rightarrow> exchange E clock a b fuel (i + 1 + length ps) d q og r | _ \<Rightarrow> None) })"

lemma receive_next_part:
  assumes T: "transfer_ok E a b cs og" and r: "receiver_at og cs k n r" "ic_status r \<noteq> Failed" and k: "k < n" "n \<le> length cs"
  shows "\<exists>r'. receiver_at og cs (Suc k) n r' \<and> waits r' = (Transferring, ic_outstanding_parts r - 1, ic_waiting_for_hmu r)
    \<and> deliver E t d b (part_packet a (cs ! k)) r =
       (if Suc k = length cs then Some (True, r'\<lparr>ic_status := Assembling\<rparr>, [], d)
        else if ic_outstanding_parts r - 1 = 0 then map_option (Pair False) (request_next (E\<lparr>re_now := t\<rparr>) d b (end_round t r'))
        else Some (False, r', [], d))"
proof -
  have hs: "og_part_hashes og = map (\<lambda>c. map_hash (re_sha E) c (og_random_hash og)) cs" and g: "guarded (og_part_hashes og)"
    and "cs ! k \<in> set cs" using T k by (auto simp: transfer_ok_def)
  then have data: "pk_data (part_packet a (cs ! k)) = cs ! k"
    using T by (auto simp: part_packet_def link_packet_def transfer_ok_def)
  let ?r1 = "note_response t b (length (cs ! k)) (r\<lparr>ic_last_activity := t, ic_retries_left := ic_max_retries r\<rparr>)"
  let ?r2 = "?r1\<lparr>ic_status := Transferring\<rparr>"
  have "receiver_at og cs k n ?r2"
    using r(1) by (simp add: receiver_at_upd receiver_at_note)
  note place = place_next_part [OF this hs g k]
  have "waits ?r1 = waits r" by (simp add: waits_upd)
  then have w: "ic_outstanding_parts ?r2 = ic_outstanding_parts r" "ic_waiting_for_hmu ?r2 = ic_waiting_for_hmu r"
    by (simp_all add: waits_def)
  let ?r3 = "place_part (re_sha E) (cs ! k) ?r2"
  have r3: "receiver_at og cs (Suc k) n ?r3" "waits ?r3 = (Transferring, ic_outstanding_parts r - 1, ic_waiting_for_hmu r)"
    using place w by simp_all
  then have f: "ic_received_count ?r3 = Suc k" "ic_total_parts ?r3 = length cs" "ic_assembled ?r3 = None"
    "ic_outstanding_parts ?r3 = ic_outstanding_parts r - 1"
    by (simp_all add: receiver_at_def waits_def)
  have "deliver E t d b (part_packet a (cs ! k)) r =
       (if Suc k = length cs then Some (True, ?r3\<lparr>ic_status := Assembling\<rparr>, [], d)
        else if ic_outstanding_parts r - 1 = 0 then map_option (Pair False) (request_next (E\<lparr>re_now := t\<rparr>) d b (end_round t ?r3))
        else Some (False, ?r3, [], d))"
    using r(2) f unfolding deliver_def receive_part_def Let_def data now_set
    by (simp add: part_packet_def link_packet_def)
  then show ?thesis using r3 by blast
qed

lemma receive_run:
  assumes T: "transfer_ok E a b cs og" and r: "receiver_at og cs k n r" "waits r = (st, m - k, w)" "st \<noteq> Failed"
    and k: "k < m" "m \<le> n" "n \<le> length cs"
  shows "\<exists>r' t. receiver_at og cs m n r' \<and> waits r' = (Transferring, 0, w)
    \<and> (\<forall>rest. deliver_all E clock i d b (map (\<lambda>j. part_packet a (cs ! j)) [k..<m] @ rest) r =
        (if m = length cs
         then map_option (\<lambda>(_, x). (True, x)) (deliver_all E clock (i + (m - k)) d b rest (r'\<lparr>ic_status := Assembling\<rparr>))
         else do {
           (r1, qs, d1) \<leftarrow> request_next (E\<lparr>re_now := t\<rparr>) d b r';
           (done, r2, qs', d2) \<leftarrow> deliver_all E clock (i + (m - k)) d1 b rest r1;
           Some (done, r2, qs @ qs', d2) }))"
  using r k(1)
proof (induction "m - k" arbitrary: k r st i)
  case (Suc c)
  have f: "ic_status r \<noteq> Failed" "ic_outstanding_parts r = m - k" "ic_waiting_for_hmu r = w"
    using Suc.prems by (auto simp: waits_def)
  from receive_next_part [OF T Suc.prems(1) f(1), of "clock i" d] k Suc.prems(4) obtain r' where r':
    "receiver_at og cs (Suc k) n r'" "waits r' = (Transferring, m - k - 1, w)"
    "deliver E (clock i) d b (part_packet a (cs ! k)) r =
       (if Suc k = length cs then Some (True, r'\<lparr>ic_status := Assembling\<rparr>, [], d)
        else if m - k - 1 = 0 then map_option (Pair False) (request_next (E\<lparr>re_now := clock i\<rparr>) d b (end_round (clock i) r'))
        else Some (False, r', [], d))"
    using f by auto
  have upt: "[k..<m] = k # [Suc k..<m]" using Suc.prems(4) by (simp add: upt_conv_Cons)
  show ?case
  proof (cases "m = Suc k")
    case True
    then have one: "[k..<m] = [k]" and idx: "i + (m - k) = i + 1" and out: "m - k - 1 = 0" by simp_all
    show ?thesis
    proof (cases "m = length cs")
      case True
      then have "deliver E (clock i) d b (part_packet a (cs ! k)) r = Some (True, r'\<lparr>ic_status := Assembling\<rparr>, [], d)"
        using r'(3) \<open>m = Suc k\<close> by simp
      then show ?thesis
        using r'(1,2) True \<open>m = Suc k\<close> unfolding one idx
        by (intro exI [of _ r'] exI [of _ 0]) (simp split: option.splits Option.bind_splits)
    next
      case False
      have "waits (end_round (clock i) r') = (Transferring, 0, w)" "receiver_at og cs m n (end_round (clock i) r')"
        using r'(1,2) True by (simp_all add: receiver_at_end)
      moreover have "deliver E (clock i) d b (part_packet a (cs ! k)) r
          = map_option (Pair False) (request_next (E\<lparr>re_now := clock i\<rparr>) d b (end_round (clock i) r'))"
        using r'(3) True False by simp
      ultimately show ?thesis
        using False unfolding one idx
        by (intro exI [of _ "end_round (clock i) r'"] exI [of _ "clock i"])
          (cases "request_next (E\<lparr>re_now := clock i\<rparr>) d b (end_round (clock i) r')"; auto split: option.splits Option.bind_splits)
    qed
  next
    case False
    then have "Suc k < m" "c = m - Suc k" "waits r' = (Transferring, m - Suc k, w)" using Suc.hyps(2) Suc.prems(4) r'(2) by auto
    from Suc.hyps(1) [OF this(2) r'(1) this(3) _ this(1), of "i + 1"] obtain r2 t where ih:
      "receiver_at og cs m n r2" "waits r2 = (Transferring, 0, w)"
      "\<And>rest. deliver_all E clock (i + 1) d b (map (\<lambda>j. part_packet a (cs ! j)) [Suc k..<m] @ rest) r' =
        (if m = length cs
         then map_option (\<lambda>(_, x). (True, x)) (deliver_all E clock (i + 1 + (m - Suc k)) d b rest (r2\<lparr>ic_status := Assembling\<rparr>))
         else do {
           (r1, qs, d1) \<leftarrow> request_next (E\<lparr>re_now := t\<rparr>) d b r2;
           (done, r2, qs', d2) \<leftarrow> deliver_all E clock (i + 1 + (m - Suc k)) d1 b rest r1;
           Some (done, r2, qs @ qs', d2) })"
      by auto
    have step: "deliver E (clock i) d b (part_packet a (cs ! k)) r = Some (False, r', [], d)"
      using r'(3) False \<open>Suc k < m\<close> k by auto
    have idx: "i + 1 + (m - Suc k) = i + (m - k)" using Suc.prems(4) by simp
    have "deliver_all E clock i d b (map (\<lambda>j. part_packet a (cs ! j)) [k..<m] @ rest) r
      = deliver_all E clock (i + 1) d b (map (\<lambda>j. part_packet a (cs ! j)) [Suc k..<m] @ rest) r'" for rest
      unfolding upt by (simp add: step split: Option.bind_splits)
    then show ?thesis using ih(1,2) ih(3) [unfolded idx] by (intro exI [of _ r2] exI [of _ t]) simp
  qed
qed simp

text \<open>
  The state between two rounds: the receiver has asked for the next parts of its window, and for the
  next slice of the map of hashes where the window reaches behind what it knows.
\<close>

definition asked :: "res_env \<Rightarrow> link \<Rightarrow> outgoing_resource \<Rightarrow> bytes list \<Rightarrow> nat \<Rightarrow> nat \<Rightarrow> nat \<Rightarrow> packet \<Rightarrow> incoming_resource \<Rightarrow> bool" where
  "asked E b og cs j k n q r \<longleftrightarrow> receiver_at og cs k n r \<and> k \<le> n \<and> 0 < n \<and> k < length cs
     \<and> n = min ((j + 1) * HASHMAP_MAX_LEN) (length cs) \<and> j * HASHMAP_MAX_LEN - 76 \<le> k
     \<and> (let B = min (length cs) (k + ic_window r)
        in waits r = (Transferring, min n B - k, n < B)
           \<and> (\<exists>iv. length iv = 16 \<and> q = link_packet b Data Ctx_ResourceRequest
               (fernet_token (re_crypto E) (derived_cipher (lk_derived_key b)) iv (part_request og (n < B) n k (min n B)))))"

lemma request_next_asked:
  assumes T: "transfer_ok E a b cs og" and r: "receiver_at og cs k n r" "waits r = (Transferring, out, False)"
    and k: "k \<le> n" "0 < n" "k < length cs" "n = min ((j + 1) * HASHMAP_MAX_LEN) (length cs)" "j * HASHMAP_MAX_LEN - 76 \<le> k"
  shows "\<exists>r' q. request_next (E\<lparr>re_now := t\<rparr>) d b r = Some (r', [q], d + 1) \<and> asked E b og cs j k n q r'"
proof -
  have st: "ic_status r = Transferring" "\<not> ic_waiting_for_hmu r" "n \<le> length cs" using r k by (auto simp: waits_def)
  let ?B = "min (length cs) (k + ic_window r)"
  let ?q = "link_packet b Data Ctx_ResourceRequest (fernet_token (re_crypto E) (derived_cipher (lk_derived_key b)) (re_iv E d)
    (part_request og (n < ?B) n k (min n ?B)))"
  from request_next_in_order [OF T r(1) _ st(2) k(1,2) st(3), of t d] st(1) obtain r' where
    r': "request_next (E\<lparr>re_now := t\<rparr>) d b r = Some (r', [?q], d + 1)" "receiver_at og cs k n r'"
      "waits r' = (Transferring, min n ?B - k, n < ?B)" "ic_window r' = ic_window r"
    by auto
  have "length (re_iv E d) = 16" using T by (simp add: transfer_ok_def res_env_ok_def)
  with r'(2,3) k have "asked E b og cs j k n ?q r'"
    unfolding asked_def Let_def r'(4) by blast
  with r'(1) show ?thesis by blast
qed

lemma hashmap_update_packet_slice:
  assumes T: "transfer_ok E a b cs og" and R: "rmp_ok (re_rmp E)"
    and r: "receiver_at og cs k n r" "waits r = (Transferring, out, True)"
    and n: "n = (j + 1) * HASHMAP_MAX_LEN" "n < length cs" "length cs < 2 ^ 64"
  shows "receiver_at og cs k (min ((j + 1 + 1) * HASHMAP_MAX_LEN) (length cs))
      (hashmap_update_packet (E\<lparr>re_now := t\<rparr>) (update_text (re_rmp E) og (j + 1) (next_slice og n)) r)
    \<and> waits (hashmap_update_packet (E\<lparr>re_now := t\<rparr>) (update_text (re_rmp E) og (j + 1) (next_slice og n)) r) = (Transferring, out, False)"
proof -
  note L = transfer_lengths [OF T] and H = transfer_hash_lengths [OF T]
  have hash: "length (hash_bytes (og_hash og)) = 32" using T by (simp add: transfer_ok_def hash_ok_def hash_sizes)
  let ?n' = "min ((j + 1 + 1) * HASHMAP_MAX_LEN) (length cs)"
  have slice: "next_slice og n = take (?n' - n) (drop n (og_part_hashes og))"
    using n L by (simp add: next_slice_def ac_simps)
  have "length (concat (next_slice og n)) < 2 ^ 32"
  proof -
    have "\<forall>h \<in> set (next_slice og n). length h = 4" using H by (auto simp: next_slice_def dest: in_set_takeD in_set_dropD)
    then have "length (concat (next_slice og n)) = 4 * length (next_slice og n)" by (simp add: length_concat_const)
    also have "length (next_slice og n) \<le> 74" by (simp add: next_slice_def HASHMAP_MAX_LEN_eq)
    finally show ?thesis by simp
  qed
  moreover have "j + 1 < 2 ^ 64" using n by (simp add: HASHMAP_MAX_LEN_eq)
  ultimately have "do {
      (len, cursor) \<leftarrow> rm_read_array_len (re_rmp E) (drop 32 (update_text (re_rmp E) og (j + 1) (next_slice og n)));
      if len \<noteq> 2 then None else do {
        (segment, cursor) \<leftarrow> rm_read_int (re_rmp E) cursor;
        (hashmap, _) \<leftarrow> read_bin (re_rmp E) cursor;
        Some (segment, hashmap) } } = Some (j + 1, concat (next_slice og n))"
    using R read_bin_written [OF R, of "concat (next_slice og n)" "[]"] hash by (simp add: update_text_def rmp_ok_def)
  moreover have "\<not> length (update_text (re_rmp E) og (j + 1) (next_slice og n)) < 32" using hash by (simp add: update_text_def)
  moreover have st: "ic_status r = Transferring" "ic_waiting_for_hmu r" using r by (simp_all add: waits_def)
  ultimately have upd: "hashmap_update_packet (E\<lparr>re_now := t\<rparr>) (update_text (re_rmp E) og (j + 1) (next_slice og n)) r
    = hashmap_update (j + 1) (concat (next_slice og n)) (r\<lparr>ic_last_activity := t, ic_retries_left := ic_max_retries r\<rparr>)"
    unfolding hashmap_update_packet_def Let_def now_set by simp
  let ?r = "r\<lparr>ic_last_activity := t, ic_retries_left := ic_max_retries r\<rparr>"
  have r0: "receiver_at og cs k n ?r" "ic_status ?r \<noteq> Failed" "ic_outstanding_parts ?r = out"
    using r st by (simp_all add: receiver_at_upd waits_def)
  show ?thesis
    using hashmap_update_slice [OF r0(1,2) n(1,2) H conjunct2 [OF L]] unfolding upd unfolding slice r0(3) .
qed

text \<open>The update of the map of hashes arrives when all parts that could be asked for are there.\<close>

lemma deliver_update:
  assumes T: "transfer_ok E a b cs og" and R: "rmp_ok (re_rmp E)" "rmp_short (re_rmp E)"
    and r: "receiver_at og cs n n r" "waits r = (Transferring, 0, True)"
    and n: "n = (j + 1) * HASHMAP_MAX_LEN" "n < length cs" "length cs < 2 ^ 64" and s: "sender_at og cs j m s"
  shows "\<exists>r' q. deliver E t d' b (link_packet a Data Ctx_ResourceHashUpdate
        (fernet_token (re_crypto E) (derived_cipher (lk_derived_key a)) (re_iv E d)
          (update_text (re_rmp E) og (j + 1) (next_slice og n)))) r = Some (False, r', [q], d' + 1)
    \<and> asked E b og cs (j + 1) n (min ((j + 1 + 1) * HASHMAP_MAX_LEN) (length cs)) q r'"
proof -
  let ?txt = "update_text (re_rmp E) og (j + 1) (next_slice og n)"
  let ?p = "link_packet a Data Ctx_ResourceHashUpdate
        (fernet_token (re_crypto E) (derived_cipher (lk_derived_key a)) (re_iv E d) ?txt)"
  have "length ?txt < 1984" using send_hashmap_slice [OF T R(2) s n] by blast
  then have dec: "link_decrypt (re_crypto E) b (pk_data ?p) PACKET_MDU = Inr ?txt"
    using T by (intro link_packet_decrypts) (auto simp: transfer_ok_def res_env_ok_def)
  have ctx: "pk_context ?p \<noteq> Ctx_Resource" by (simp add: link_packet_def)
  note U = hashmap_update_packet_slice [OF T R(1) r n, of t]
  let ?n = "min ((j + 1 + 1) * HASHMAP_MAX_LEN) (length cs)"
  have "n \<le> ?n" "0 < ?n" "(j + 1) * HASHMAP_MAX_LEN - 76 \<le> n" using n by (auto simp: HASHMAP_MAX_LEN_eq)
  from request_next_asked [OF T conjunct1 [OF U] conjunct2 [OF U] this(1,2) n(2) refl this(3), of t d'] obtain r' q where
    "request_next (E\<lparr>re_now := t\<rparr>) d' b (hashmap_update_packet (E\<lparr>re_now := t\<rparr>) ?txt r) = Some (r', [q], d' + 1)"
    "asked E b og cs (j + 1) n ?n q r'"
    by blast
  then show ?thesis using dec ctx by (simp add: deliver_def)
qed

text \<open>All parts of a window arrive: the transfer is complete, or the next window is asked for.\<close>

lemma deliver_parts:
  assumes T: "transfer_ok E a b cs og" and r: "receiver_at og cs k n r" "waits r = (Transferring, m - k, False)"
    and k: "k < m" "m \<le> n" "0 < n" "n = min ((j + 1) * HASHMAP_MAX_LEN) (length cs)" "j * HASHMAP_MAX_LEN - 76 \<le> k"
  shows "(m = length cs \<and> (\<exists>r'. deliver_all E clock i d b (map (\<lambda>i. part_packet a (cs ! i)) [k..<m]) r = Some (True, r', [], d)
        \<and> receiver_at og cs (length cs) n r' \<and> ic_status r' = Assembling))
   \<or> (m < length cs \<and> (\<exists>r' q. deliver_all E clock i d b (map (\<lambda>i. part_packet a (cs ! i)) [k..<m]) r = Some (False, r', [q], d + 1)
        \<and> asked E b og cs j m n q r'))"
proof -
  have nN: "n \<le> length cs" and st: "Transferring \<noteq> Failed" using k(4) by simp_all
  from receive_run [OF T r st k(1,2) nN, of clock i d] obtain r' t where
    r': "receiver_at og cs m n r'" "waits r' = (Transferring, 0, False)"
    and run: "\<forall>rest. deliver_all E clock i d b (map (\<lambda>j. part_packet a (cs ! j)) [k..<m] @ rest) r =
        (if m = length cs
         then map_option (\<lambda>(_, x). (True, x)) (deliver_all E clock (i + (m - k)) d b rest (r'\<lparr>ic_status := Assembling\<rparr>))
         else do {
           (r1, qs, d1) \<leftarrow> request_next (E\<lparr>re_now := t\<rparr>) d b r';
           (done, r2, qs', d2) \<leftarrow> deliver_all E clock (i + (m - k)) d1 b rest r1;
           Some (done, r2, qs @ qs', d2) })"
    by blast
  show ?thesis
  proof (cases "m = length cs")
    case True
    then show ?thesis using spec [OF run, of "[]"] r'(1) by (simp add: receiver_at_upd)
  next
    case False
    then have "m < length cs" "j * HASHMAP_MAX_LEN - 76 \<le> m" using k nN by linarith+
    from request_next_asked [OF T r' k(2,3) this(1) k(4) this(2), of t d] obtain r2 q where
      "request_next (E\<lparr>re_now := t\<rparr>) d b r' = Some (r2, [q], d + 1)" "asked E b og cs j m n q r2"
      by blast
    then show ?thesis using spec [OF run, of "[]"] False \<open>m < length cs\<close> by simp
  qed
qed

lemma deliver_parts_update:
  assumes T: "transfer_ok E a b cs og" and R: "rmp_ok (re_rmp E)" "rmp_short (re_rmp E)"
    and r: "receiver_at og cs k n r" "waits r = (Transferring, n - k, True)" "k \<le> n"
    and n: "n = (j + 1) * HASHMAP_MAX_LEN" "n < length cs" "length cs < 2 ^ 64" and s: "sender_at og cs j m s"
  shows "\<exists>r' q. deliver_all E clock i d b (map (\<lambda>i. part_packet a (cs ! i)) [k..<n]
        @ [link_packet a Data Ctx_ResourceHashUpdate (fernet_token (re_crypto E) (derived_cipher (lk_derived_key a)) (re_iv E d')
            (update_text (re_rmp E) og (j + 1) (next_slice og n)))]) r = Some (False, r', [q], d + 1)
      \<and> asked E b og cs (j + 1) n (min ((j + 1 + 1) * HASHMAP_MAX_LEN) (length cs)) q r'"
proof (cases "k = n")
  case True
  then have "receiver_at og cs n n r" "waits r = (Transferring, 0, True)" using r by auto
  from deliver_update [OF T R this n s, of "clock i" d d'] show ?thesis using True by auto
next
  case False
  then have "k < n" "Transferring \<noteq> Failed" using r(3) by simp_all
  from receive_run [OF T r(1,2) this(2,1) order_refl less_imp_le [OF n(2)], of clock i d] obtain r' t where
    r': "receiver_at og cs n n r'" "waits r' = (Transferring, 0, True)"
    and run: "\<forall>rest. deliver_all E clock i d b (map (\<lambda>j. part_packet a (cs ! j)) [k..<n] @ rest) r =
        (if n = length cs
         then map_option (\<lambda>(_, x). (True, x)) (deliver_all E clock (i + (n - k)) d b rest (r'\<lparr>ic_status := Assembling\<rparr>))
         else do {
           (r1, qs, d1) \<leftarrow> request_next (E\<lparr>re_now := t\<rparr>) d b r';
           (done, r2, qs', d2) \<leftarrow> deliver_all E clock (i + (n - k)) d1 b rest r1;
           Some (done, r2, qs @ qs', d2) })"
    by blast
  have "request_next (E\<lparr>re_now := t\<rparr>) d b r' = Some (r', [], d)" using r'(2) by (simp add: request_next_def waits_def)
  moreover note deliver_update [OF T R r' n s, of "clock (i + (n - k))" d d']
  ultimately show ?thesis using n(2) unfolding spec [OF run] by auto
qed

text \<open>One round: either the last part is there, or the receiver has asked for more and has got further.\<close>

definition further :: "res_env \<Rightarrow> link \<Rightarrow> outgoing_resource \<Rightarrow> bytes list \<Rightarrow> nat \<Rightarrow> packet \<Rightarrow> outgoing_resource \<Rightarrow> incoming_resource \<Rightarrow> bool" where
  "further E b og cs left q s r \<longleftrightarrow> (\<exists>j k n. asked E b og cs j k n q r \<and> sender_at og cs j k s
     \<and> length cs - k + (length cs - n) < left)"

definition arrived :: "outgoing_resource \<Rightarrow> bytes list \<Rightarrow> outgoing_resource \<Rightarrow> incoming_resource \<Rightarrow> bool" where
  "arrived og cs s r \<longleftrightarrow> (\<exists>j n. sender_at og cs j (length cs) s \<and> receiver_at og cs (length cs) n r \<and> ic_status r = Assembling)"

lemma asked_reads:
  assumes T: "transfer_ok E a b cs og" and q: "asked E b og cs j k n q r"
  shows "\<exists>B. link_decrypt (re_crypto E) a (pk_data q) PACKET_MDU = Inr (part_request og (n < B) n k (min n B))
      \<and> waits r = (Transferring, min n B - k, n < B) \<and> k < B \<and> B \<le> length cs \<and> receiver_at og cs k n r \<and> k \<le> n \<and> 0 < n \<and> k < length cs
      \<and> n = min ((j + 1) * HASHMAP_MAX_LEN) (length cs) \<and> j * HASHMAP_MAX_LEN - 76 \<le> k"
proof -
  define B where "B = min (length cs) (k + ic_window r)"
  let ?txt = "part_request og (n < B) n k (min n B)"
  note A = q [unfolded asked_def Let_def, folded B_def]
  then obtain iv where iv: "length iv = 16" "q = link_packet b Data Ctx_ResourceRequest
      (fernet_token (re_crypto E) (derived_cipher (lk_derived_key b)) iv ?txt)" by blast
  have w: "2 \<le> ic_window r" "ic_window r \<le> 75" using A by (simp_all add: receiver_at_def resource_constants)
  then have B: "k < B" "B \<le> k + 75" "B \<le> length cs" using A unfolding B_def by linarith+
  have n: "n \<le> length cs" "0 < n" using A by linarith+
  have "length ?txt \<le> 37 + 4 * (min n B - k)"
    using length_part_request [OF transfer_hash_lengths [OF T], of "min n B" "n < B" n k] T n B(3) transfer_lengths [OF T]
    by (simp add: transfer_ok_def)
  then have "length ?txt < 1984" using B by linarith
  then have "link_decrypt (re_crypto E) a (pk_data q) PACKET_MDU = Inr ?txt"
    unfolding iv(2) using T iv(1) by (intro link_packet_decrypts) (auto simp: transfer_ok_def res_env_ok_def)
  then show ?thesis using A B by blast
qed

lemma exchange_parts:
  assumes T: "transfer_ok E a b cs og" and s: "sender_at og cs j k s"
    and dec: "link_decrypt (re_crypto E) a (pk_data q) PACKET_MDU = Inr (part_request og False n k m)"
    and r: "receiver_at og cs k n r" "waits r = (Transferring, m - k, False)"
    and k: "k < m" "m \<le> n" "0 < n" "n = min ((j + 1) * HASHMAP_MAX_LEN) (length cs)" "j * HASHMAP_MAX_LEN - 76 \<le> k"
  shows "(\<exists>s' r'. exchange E clock a b (Suc fuel) i d q s r = Some (s', r') \<and> arrived og cs s' r')
   \<or> (\<exists>s' r' q' i' d'. exchange E clock a b (Suc fuel) i d q s r = exchange E clock a b fuel i' d' q' s' r'
       \<and> further E b og cs (length cs - k + (length cs - n)) q' s' r')"
proof -
  have m: "m \<le> length cs" "m \<le> (j + 1) * 74" "n \<le> length cs" "j * 74 - 76 \<le> k" "k \<le> m"
    using k by (simp_all add: HASHMAP_MAX_LEN_eq)
  obtain s' where s': "og_request (E\<lparr>re_now := clock i\<rparr>) d a (part_request og False n k m) s
      = Some (s', map (\<lambda>i. part_packet a (cs ! i)) [k..<m], d)" "sender_at og cs j m s'"
    using og_request_parts [OF T s m(4,5,1,2,3), of "clock i" d] by blast
  have less: "length cs - m + (length cs - n) < length cs - k + (length cs - n)" using k(1) m(1) by linarith
  from deliver_parts [OF T r k, of clock "i + 1" d] consider
      r' where "m = length cs" "deliver_all E clock (i + 1) d b (map (\<lambda>i. part_packet a (cs ! i)) [k..<m]) r = Some (True, r', [], d)"
        "receiver_at og cs (length cs) n r'" "ic_status r' = Assembling"
    | r' q' where "deliver_all E clock (i + 1) d b (map (\<lambda>i. part_packet a (cs ! i)) [k..<m]) r = Some (False, r', [q'], d + 1)"
        "asked E b og cs j m n q' r'"
    by blast
  then show ?thesis
  proof cases
    case 1
    from 1(2) have "exchange E clock a b (Suc fuel) i d q s r = Some (s', r')"
      by (simp only: exchange.simps dec sum.case s'(1) bind.bind_lunit prod.case if_True)
    moreover have "arrived og cs s' r'" using 1 s'(2) unfolding arrived_def by blast
    ultimately show ?thesis by blast
  next
    case 2
    then have "exchange E clock a b (Suc fuel) i d q s r
      = exchange E clock a b fuel (i + 1 + length (map (\<lambda>i. part_packet a (cs ! i)) [k..<m])) (d + 1) q' s' r'"
      by (simp only: exchange.simps dec sum.case s'(1) bind.bind_lunit prod.case if_False list.case)
    then show ?thesis using 2(2) s'(2) less unfolding further_def by blast
  qed
qed

lemma exchange_update:
  assumes T: "transfer_ok E a b cs og" and R: "rmp_ok (re_rmp E)" "rmp_short (re_rmp E)" and N: "length cs < 2 ^ 64"
    and s: "sender_at og cs j k s"
    and dec: "link_decrypt (re_crypto E) a (pk_data q) PACKET_MDU = Inr (part_request og True n k n)"
    and r: "receiver_at og cs k n r" "waits r = (Transferring, n - k, True)"
    and k: "k \<le> n" "n < length cs" "n = (j + 1) * HASHMAP_MAX_LEN" "j * HASHMAP_MAX_LEN - 76 \<le> k"
  shows "\<exists>s' r' q' i' d'. exchange E clock a b (Suc fuel) i d q s r = exchange E clock a b fuel i' d' q' s' r'
       \<and> further E b og cs (length cs - k + (length cs - n)) q' s' r'"
proof -
  have k74: "j * 74 - 76 \<le> k" using k(4) by (simp add: HASHMAP_MAX_LEN_eq)
  let ?ps = "map (\<lambda>i. part_packet a (cs ! i)) [k..<n] @ [link_packet a Data Ctx_ResourceHashUpdate
     (fernet_token (re_crypto E) (derived_cipher (lk_derived_key a)) (re_iv E d) (update_text (re_rmp E) og (j + 1) (next_slice og n)))]"
  let ?n = "min ((j + 1 + 1) * HASHMAP_MAX_LEN) (length cs)"
  obtain s' where s': "og_request (E\<lparr>re_now := clock i\<rparr>) d a (part_request og True n k n) s = Some (s', ?ps, d + 1)"
      "sender_at og cs (j + 1) n s'"
    using og_request_exhausted [OF T R(2) s k(3,2) N k74 k(1), of "clock i" d] by blast
  obtain r' q' where r': "deliver_all E clock (i + 1) (d + 1) b ?ps r = Some (False, r', [q'], d + 1 + 1)"
      "asked E b og cs (j + 1) n ?n q' r'"
    using deliver_parts_update [OF T R r k(1,3,2) N s, of clock "i + 1" "d + 1" d] by blast
  have "exchange E clock a b (Suc fuel) i d q s r = exchange E clock a b fuel (i + 1 + length ?ps) (d + 1 + 1) q' s' r'"
    using r'(1) by (simp only: exchange.simps dec sum.case s'(1) bind.bind_lunit prod.case if_False list.case)
  moreover have "length cs - n + (length cs - ?n) < length cs - k + (length cs - n)"
    using k(1-3) by (auto simp: HASHMAP_MAX_LEN_eq min_def)
  ultimately show ?thesis using r'(2) s'(2) unfolding further_def by blast
qed

lemma exchange_round:
  assumes T: "transfer_ok E a b cs og" and R: "rmp_ok (re_rmp E)" "rmp_short (re_rmp E)" and N: "length cs < 2 ^ 64"
    and q: "asked E b og cs j k n q r" and s: "sender_at og cs j k s"
  shows "(\<exists>s' r'. exchange E clock a b (Suc fuel) i d q s r = Some (s', r') \<and> arrived og cs s' r')
   \<or> (\<exists>s' r' q' i' d'. exchange E clock a b (Suc fuel) i d q s r = exchange E clock a b fuel i' d' q' s' r'
       \<and> further E b og cs (length cs - k + (length cs - n)) q' s' r')"
proof -
  obtain B where B: "link_decrypt (re_crypto E) a (pk_data q) PACKET_MDU = Inr (part_request og (n < B) n k (min n B))"
      "waits r = (Transferring, min n B - k, n < B)" "k < B" "B \<le> length cs"
    and r: "receiver_at og cs k n r"
    and k: "k \<le> n" "0 < n" "k < length cs" "n = min ((j + 1) * HASHMAP_MAX_LEN) (length cs)" "j * HASHMAP_MAX_LEN - 76 \<le> k"
    using asked_reads [OF T q] by blast
  show ?thesis
  proof (cases "n < B")
    case False
    then have m: "min n B = B" "(n < B) = False" "B \<le> n" by auto
    show ?thesis using exchange_parts [OF T s B(1) [unfolded m(1,2)] r B(2) [unfolded m(1,2)] B(3) m(3) k(2,4,5)] by blast
  next
    case True
    then have m: "min n B = n" "(n < B) = True" and n: "n < length cs" "n = (j + 1) * HASHMAP_MAX_LEN"
      using B(4) k(4) by auto
    show ?thesis using exchange_update [OF T R N s B(1) [unfolded m] r B(2) [unfolded m] k(1) n k(5)] by blast
  qed
qed

text \<open>Hence the exchange ends, with every part received, however the clock advances between the packets.\<close>

lemma exchange_ends:
  assumes T: "transfer_ok E a b cs og" and R: "rmp_ok (re_rmp E)" "rmp_short (re_rmp E)" and N: "length cs < 2 ^ 64"
  shows "asked E b og cs j k n q r \<Longrightarrow> sender_at og cs j k s \<Longrightarrow> length cs - k + (length cs - n) < fuel
    \<Longrightarrow> \<exists>s' r'. exchange E clock a b fuel i d q s r = Some (s', r') \<and> arrived og cs s' r'"
proof (induction fuel arbitrary: i d j k n q s r)
  case (Suc fuel)
  from exchange_round [OF T R N Suc.prems(1,2), of clock fuel i d] consider
      "\<exists>s' r'. exchange E clock a b (Suc fuel) i d q s r = Some (s', r') \<and> arrived og cs s' r'"
    | s' r' q' i' d' where "exchange E clock a b (Suc fuel) i d q s r = exchange E clock a b fuel i' d' q' s' r'"
        "further E b og cs (length cs - k + (length cs - n)) q' s' r'"
    by blast
  then show ?case
  proof cases
    case 2
    then obtain j' k' n' where step: "asked E b og cs j' k' n' q' r'" "sender_at og cs j' k' s'"
        "length cs - k' + (length cs - n') < length cs - k + (length cs - n)" unfolding further_def by blast
    then have "length cs - k' + (length cs - n') < fuel" using Suc.prems(3) by linarith
    then show ?thesis unfolding 2(1) by (rule Suc.IH [OF step(1,2)])
  qed
qed simp

section \<open>Examples\<close>

definition res_env_example :: res_env where
  "res_env_example = \<lparr>re_crypto = toy_crypto, re_now = 0, re_iv = (\<lambda>_. replicate 16 0), re_rand = (\<lambda>_. Hash (replicate 32 7)),
     re_rmp = rmp_example, re_bz2 = None\<rparr>"

lemma rmp_example_short: "rmp_short rmp_example"
  by (simp add: rmp_short_def rmp_example_def mp_array_len_def mp_uint_def mp_bin_def)

lemma res_env_example_ok: "res_env_ok res_env_example" "rmp_ok (re_rmp res_env_example)" "rmp_short (re_rmp res_env_example)"
  using toy_crypto_ok rmp_example_ok rmp_example_short
  by (simp_all add: res_env_ok_def res_env_example_def hash_ok_def HASH_SIZE_def)

lemma link_example_resources:
  "link_ready link_ready_example = Inr ()" "resource_sdu link_ready_example = 464" "lk_last_resource_window link_ready_example = None"
  "lk_last_resource_eifr link_ready_example = None" "lk_establishment_cost link_ready_example = 0"
  using link_ready_example_paired
  by (simp_all add: links_paired_def link_ready_example_def link_example_def link_new_def link_fresh_def resource_sdu_def
      link_sdu_def packet_consts resource_constants)

lemma one_part_no_collision:
  assumes "res_env_ok E" "0 < resource_sdu l" "length d + 68 \<le> resource_sdu l"
  shows "no_collision [] (draw_hashes E l d k)"
proof -
  let ?n = "length (draw_stream E l d k)"
  have n: "?n = (4 + length d) div 16 * 16 + 64"
    using assms(1) length_draw_random [OF assms(1), of k]
    by (simp add: draw_stream_def length_fernet_token res_env_ok_def RANDOM_HASH_SIZE_def)
  have one: "(n + s - 1) div s = 1" if "0 < n" "n \<le> s" for n s :: nat using that by (intro div_nat_eqI) auto
  from n have "0 < ?n" "?n \<le> resource_sdu l" using assms(3) div_times_less_eq_dividend [of "4 + length d" 16] by linarith+
  then have "(?n + resource_sdu l - 1) div resource_sdu l = 1"
    by (rule one)
  then have "length (draw_hashes E l d k) = 1" by (simp add: draw_hashes_def draw_chunks_def length_part_chunks)
  then show ?thesis by (cases "draw_hashes E l d k") auto
qed

theorem segment_prepared_witness:
  "\<exists>og n' chunks. from_segment_bytes res_env_example 0 [1, 2, 3] (MemorySource [1, 2, 3]) 3 3 1 1 None link_ready_example
      resource_options_default False 0 = Some (Inr og, n') \<and> n' \<le> 0 + 1 \<and> segment_ok res_env_example link_ready_example [1, 2, 3] chunks og"
proof -
  have "fst (maybe_compress (re_bz2 res_env_example) [1, 2, 3] b m) = [1, 2, 3]" for b m
    by (simp add: maybe_compress_def res_env_example_def)
  then show ?thesis
    using segment_prepared [OF res_env_example_ok(1) link_example_resources(1), of 0 0 "[1, 2, 3]" resource_options_default 3]
      one_part_no_collision [OF res_env_example_ok(1), of link_ready_example "[1, 2, 3]" 0]
    by (simp add: res_env_example_ok link_example_resources)
qed

end
