(* ===== verification/Rns_Resource_Delivery.thy ===== *)
theory Rns_Resource_Delivery
  imports Rns_Resource_Transfer
begin

text \<open>
  The delivery of a resource segment: what the sender prepares and advertises is accepted, requested,
  received, assembled and proved by the other side of the link, and the sender accepts the proof.
\<close>

section \<open>The advertisement\<close>

lemma og_flags_read:
  "ra_encrypted (og_advertisement og) = og_encrypted og" "ra_compressed (og_advertisement og) = og_compressed og"
  "ra_has_metadata (og_advertisement og) = og_has_metadata og"
  by (cases "og_encrypted og"; cases "og_compressed og"; cases "og_split og"; cases "og_has_metadata og";
      cases "og_request_id og"; cases "og_is_response og"; simp add: ra_flag_defs og_advertisement_def og_flags_def resource_flags)+

lemma length_adv_pack:
  assumes R: "rmp_short R" "rmp_ok R" and a: "adv_ok a" and h: "length (ra_hashmap a) \<le> 296"
  shows "length (adv_pack R a) < 1984"
proof -
  have u: "length (rm_write_uint R n) \<le> 9" if "n < 2 ^ 64" for n using R(1) that unfolding rmp_short_def by blast
  have b: "length (rm_write_bin R d) \<le> length d + 5" for d using R(1) unfolding rmp_short_def by blast
  have "unat (ra_flags a) < 2 ^ 64" "ra_transfer_size a < 2 ^ 64"
    using unat_u8_less [of "ra_flags a"] a by (simp_all add: adv_ok_def MAX_EFFICIENT_SIZE_def)
  moreover have "ra_data_size a < 2 ^ 64" "ra_parts a < 2 ^ 64" "ra_segment_index a < 2 ^ 64" "ra_total_segments a < 2 ^ 64"
    using a by (simp_all only: adv_ok_def)
  ultimately have us: "length (rm_write_uint R (ra_transfer_size a)) \<le> 9" "length (rm_write_uint R (ra_data_size a)) \<le> 9"
    "length (rm_write_uint R (ra_parts a)) \<le> 9" "length (rm_write_uint R (ra_segment_index a)) \<le> 9"
    "length (rm_write_uint R (ra_total_segments a)) \<le> 9" "length (rm_write_uint R (unat (ra_flags a))) \<le> 9"
    using u by blast+
  have l: "length (hash_bytes (ra_hash a)) = 32" "length (hash_bytes (ra_original_hash a)) = 32" "length (ra_random_hash a) = 4"
    using a by (simp_all add: adv_ok_def hash_ok_def HASH_SIZE_def RANDOM_HASH_SIZE_def)
  have "length (case ra_request_id a of Some i \<Rightarrow> rm_write_bin R (addr_bytes i) | None \<Rightarrow> rm_write_nil R) \<le> 21"
  proof (cases "ra_request_id a")
    case None
    have "rm_write_nil R = [0xc0]" using R(2) unfolding rmp_ok_def by blast
    then show ?thesis using None by simp
  next
    case (Some i)
    then have "addr_ok i" using a unfolding adv_ok_def by blast
    then show ?thesis using Some b [of "addr_bytes i"] by (simp add: addr_ok_def ADDRESS_HASH_SIZE_def)
  qed
  then show ?thesis
    using us b [of "hash_bytes (ra_hash a)"] b [of "hash_bytes (ra_original_hash a)"] b [of "ra_random_hash a"]
      b [of "ra_hashmap a"] l h
    unfolding adv_pack_def adv_key_def by simp
qed

lemma length_first_slice:
  assumes "\<forall>h \<in> set hs. length h = 4"
  shows "length (concat (take HASHMAP_MAX_LEN hs)) \<le> 296"
proof -
  have "\<forall>h \<in> set (take HASHMAP_MAX_LEN hs). length h = 4" using assms by (auto dest: in_set_takeD)
  then show ?thesis using length_concat_const [of "take HASHMAP_MAX_LEN hs" 4] by (simp add: HASHMAP_MAX_LEN_eq)
qed

text \<open>What accepting the advertisement of a prepared segment gives.\<close>

lemma segment_chunks_pos:
  assumes "segment_ok E a data cs og" "res_env_ok E" "0 < resource_sdu a"
  shows "0 < length cs" "64 \<le> og_size og" "og_size og \<le> length data + 68"
proof -
  obtain prepared iv where p: "length iv = 16" "length prepared \<le> length data"
      "concat cs = fernet_token (re_crypto E) (derived_cipher (lk_derived_key a)) iv (og_random_hash og @ prepared)"
    and og: "og_size og = length (concat cs)" "length (og_random_hash og) = RANDOM_HASH_SIZE"
    using assms(1) unfolding segment_ok_def by blast
  have n: "og_size og = (4 + length prepared) div 16 * 16 + 64"
    using p og assms(2) length_fernet_token [of "re_crypto E" iv] by (simp add: res_env_ok_def RANDOM_HASH_SIZE_def)
  then show "64 \<le> og_size og" by simp
  then show "0 < length cs" using og(1) by (cases cs) auto
  show "og_size og \<le> length data + 68"
    using n p(2) div_times_less_eq_dividend [of "4 + length prepared" 16] by linarith
qed

lemma accepted_receiver:
  assumes s: "segment_ok E a data cs og" "res_env_ok E" and sdu: "0 < resource_sdu a" "resource_sdu b = resource_sdu a"
    and w: "\<forall>w. lk_last_resource_window b = Some w \<longrightarrow> 2 \<le> w \<and> w \<le> RES_WINDOW_MAX"
  shows "receiver_at og cs 0 0 (ic_from_advertisement t p (og_advertisement og) b)"
    "waits (ic_from_advertisement t p (og_advertisement og) b) = (Transferring, 0, False)"
proof -
  have "max 1 ((og_size og + resource_sdu b - 1) div resource_sdu b) = length cs"
    using s(1) segment_chunks_pos(1) [OF s sdu(1)] sdu(2) by (auto simp: segment_ok_def)
  moreover have "og_encrypted og" using s(1) by (simp add: segment_ok_def)
  ultimately show "receiver_at og cs 0 0 (ic_from_advertisement t p (og_advertisement og) b)"
    using w by (auto simp: receiver_at_def ic_from_advertisement_def Let_def og_flags_read resource_constants split: option.split)
      (auto simp: og_advertisement_def)
  show "waits (ic_from_advertisement t p (og_advertisement og) b) = (Transferring, 0, False)"
    by (simp add: waits_def ic_from_advertisement_def Let_def)
qed

lemma transfer_ok_segment:
  assumes "segment_ok E a data cs og" "res_env_ok E" "link_ready a = Inr ()" "link_ready b = Inr ()"
    "lk_id a = lk_id b" "lk_derived_key a = lk_derived_key b" "resource_sdu a \<le> PACKET_MDU"
  shows "transfer_ok E a b cs og"
proof -
  have "og_sdu og = resource_sdu a" "\<forall>c \<in> set cs. length c \<le> og_sdu og" using assms(1) unfolding segment_ok_def by blast+
  then have "\<forall>c \<in> set cs. length c \<le> resource_sdu a" by simp
  then have "\<forall>c \<in> set cs. length c \<le> PACKET_MDU" using assms(7) order_trans by blast
  moreover have "hash_ok (og_hash og)" using assms(1,2) by (auto simp: segment_ok_def hash_ok_def res_env_ok_def sha_ok_def HASH_SIZE_def)
  moreover have "og_parts og = map (part_packet a) cs" "guarded (og_part_hashes og)"
    "og_part_hashes og = map (\<lambda>c. map_hash (re_sha E) c (og_random_hash og)) cs"
    using assms(1) unfolding segment_ok_def by blast+
  ultimately show ?thesis using assms(2-6) unfolding transfer_ok_def by blast
qed

section \<open>Assembling and proving\<close>

lemma decompress_chunks_fit:
  "length out + length (concat chunks) \<le> m \<Longrightarrow> decompress_chunks m out chunks = Inr (out @ concat chunks)"
  by (induction chunks arbitrary: out) auto

text \<open>What the application gets of the data of a segment: the metadata in front of a first segment is cut off.\<close>

definition segment_payload :: "outgoing_resource \<Rightarrow> bytes \<Rightarrow> bytes" where
  "segment_payload og data = (if og_has_metadata og \<and> og_segment_index og = 1 then drop (3 + be_decode (take 3 data)) data else data)"

definition metadata_fits :: "outgoing_resource \<Rightarrow> bytes \<Rightarrow> bool" where
  "metadata_fits og data \<longleftrightarrow> (og_has_metadata og \<and> og_segment_index og = 1 \<longrightarrow> 3 + be_decode (take 3 data) \<le> length data)"

lemma assembled:
  assumes s: "segment_ok E a data cs og" "res_env_ok E" and B: "\<forall>B. re_bz2 E = Some B \<longrightarrow> bz2_ok B"
    and key: "lk_derived_key a = lk_derived_key b" and r: "receiver_at og cs (length cs) n r"
    and m: "length data \<le> max_size" "metadata_fits og data"
  shows "\<exists>r'. ic_assemble E b max_size r = (Inr (segment_payload og data), r') \<and> ic_assembled r' = Some data \<and> ic_hash r' = og_hash og"
proof -
  obtain prepared iv where p: "length iv = 16"
      "concat cs = fernet_token (re_crypto E) (derived_cipher (lk_derived_key a)) iv (og_random_hash og @ prepared)"
      "if og_compressed og then \<exists>B. re_bz2 E = Some B \<and> bz_compress B data = Some prepared else prepared = data"
    and og: "length (og_random_hash og) = RANDOM_HASH_SIZE" "og_hash og = Hash (re_sha E (data @ og_random_hash og))"
    using s(1) unfolding segment_ok_def by blast
  have C: "cipher_ok (re_crypto E)" using s(2) by (simp add: res_env_ok_def)
  have "ic_parts r = map Some cs" using r by (simp add: receiver_at_def)
  then have "concat (List.map_filter id (ic_parts r)) = concat cs"
    by (simp add: List.map_filter_def comp_def)
  moreover have "link_decrypt (re_crypto E) b (concat cs) (length (concat cs) + 256) = Inr (og_random_hash og @ prepared)"
    unfolding p(2) using link_decrypt_token [OF C p(1), of "og_random_hash og @ prepared" _ b] key length_fernet_token [OF C p(1)]
    by simp
  ultimately have dec: "ic_decrypted (re_crypto E) b r = Inr (og_random_hash og @ prepared)"
    using r by (simp add: ic_decrypted_def receiver_at_def)
  have plain: "(if ic_compressed r then decompress (re_bz2 E) prepared max_size else Inr prepared) = Inr data"
  proof (cases "og_compressed og")
    case True
    then obtain B' where b: "re_bz2 E = Some B'" "bz_compress B' data = Some prepared" using p(3) by auto
    then obtain chunks where "bz_decode B' prepared = (chunks, False)" "concat chunks = data"
      using B unfolding bz2_ok_def by blast
    then show ?thesis using True b r m(1) decompress_chunks_fit [of "[]" chunks max_size]
      by (simp add: decompress_def receiver_at_def)
  qed (use p(3) r in \<open>simp add: receiver_at_def\<close>)
  have ic: "ic_random_hash r = og_random_hash og" "ic_hash r = og_hash og" "ic_has_metadata r = og_has_metadata og"
    "ic_segment_index r = og_segment_index og" using r by (simp_all add: receiver_at_def)
  show ?thesis using m(2) plain
    by (cases "og_has_metadata og \<and> og_segment_index og = 1")
      (auto simp: ic_assemble_def dec og ic [unfolded og] metadata_fits_def segment_payload_def)
qed

lemma proof_accepted:
  assumes r: "ic_hash r = og_hash og" and s: "segment_ok E a data cs og" "sha_ok (re_sha E)" and b: "link_ready b = Inr ()"
    and og': "og_expected_proof og' = og_expected_proof og"
  shows "\<exists>p. ic_prove (re_sha E) b data r = (r\<lparr>ic_status := Complete\<rparr>, [p])
    \<and> og_validate_proof (pk_data p) og' = (True, og'\<lparr>og_status := Complete\<rparr>)"
proof -
  have "length (hash_bytes (og_hash og)) = 32" "og_expected_proof og = Hash (re_sha E (data @ hash_bytes (og_hash og)))"
    "length (re_sha E (data @ hash_bytes (og_hash og))) = 32"
    using s by (simp_all add: segment_ok_def sha_ok_def)
  then show ?thesis
    using r og' by (simp add: ic_prove_def raw_packet_ready [OF b] og_validate_proof_def link_packet_def PACKET_MDU_def)
qed

section \<open>The whole transfer\<close>

text \<open>
  A transfer between the two sides of a link over a medium that loses nothing: the advertisement, the
  first request, the rounds of the exchange, the assembly and the proof. The reading of the clock at
  each packet is arbitrary; the draws of the random generator are numbered.
\<close>

definition transfer_segment ::
  "res_env \<Rightarrow> (nat \<Rightarrow> rat) \<Rightarrow> link \<Rightarrow> link \<Rightarrow> nat \<Rightarrow> nat \<Rightarrow> nat \<Rightarrow> outgoing_resource
     \<Rightarrow> (bytes result \<times> resource_status \<times> resource_status) option" where
  "transfer_segment E clock a b fuel max_size d og = do {
     (_, og, ps, d) \<leftarrow> og_advertise (E\<lparr>re_now := clock 0\<rparr>) d a og;
     case ps of [p] \<Rightarrow>
       (case link_decrypt (re_crypto E) b (pk_data p) PACKET_MDU of
          Inl _ \<Rightarrow> None
        | Inr txt \<Rightarrow> (case adv_unpack (re_rmp E) txt of
            Inl _ \<Rightarrow> None
          | Inr adv \<Rightarrow> do {
              accepted \<leftarrow> ic_accept (E\<lparr>re_now := clock 1\<rparr>) p (adv_pack (re_rmp E) adv) b;
              case accepted of
                Inl _ \<Rightarrow> None
              | Inr r \<Rightarrow> do {
                  (r, qs, d) \<leftarrow> request_next (E\<lparr>re_now := clock 1\<rparr>) d b (hashmap_update 0 (ra_hashmap adv) r);
                  case qs of
                    [q] \<Rightarrow> do {
                      (og, r) \<leftarrow> exchange E clock a b fuel 2 d q og r;
                      let (result, r) = ic_assemble E b max_size r;
                          (r, ps) = ic_prove (re_sha E) b (the (ic_assembled r)) r
                      in case ps of [p] \<Rightarrow> Some (result, ic_status r, og_status (snd (og_validate_proof (pk_data p) og))) | _ \<Rightarrow> None }
                  | _ \<Rightarrow> None } }))
     | _ \<Rightarrow> None }"

lemma sender_at_start:
  assumes "segment_ok E a data cs og"
  shows "sender_at og cs 0 0 (og\<lparr>og_status := st, og_adv_sent := x, og_last_activity := t, og_rtt := y, og_retries_left := m\<rparr>)"
  using assms by (simp add: sender_at_def segment_ok_def)

lemma first_request:
  assumes T: "transfer_ok E a b cs og" and s: "segment_ok E a data cs og" "res_env_ok E"
    and sdu: "0 < resource_sdu a" "resource_sdu b = resource_sdu a"
    and w: "\<forall>w. lk_last_resource_window b = Some w \<longrightarrow> 2 \<le> w \<and> w \<le> RES_WINDOW_MAX"
  shows "\<exists>r q. request_next (E\<lparr>re_now := t\<rparr>) d b (hashmap_update 0 (ra_hashmap (og_advertisement og))
        (ic_from_advertisement t p (og_advertisement og) b)) = Some (r, [q], d + 1)
      \<and> asked E b og cs 0 0 (min ((0 + 1) * HASHMAP_MAX_LEN) (length cs)) q r"
proof -
  let ?r = "ic_from_advertisement t p (og_advertisement og) b" and ?n = "min ((0 + 1) * HASHMAP_MAX_LEN) (length cs)"
  note r = accepted_receiver [OF s sdu w, of t p]
  have N: "0 < length cs" by (rule segment_chunks_pos(1) [OF s sdu(1)])
  have map: "ra_hashmap (og_advertisement og) = concat (take (?n - 0) (drop 0 (og_part_hashes og)))"
    using transfer_lengths [OF T] by (simp add: og_advertisement_def min_def)
  have "ic_status ?r \<noteq> Failed" "ic_outstanding_parts ?r = 0" using r(2) by (simp_all add: waits_def)
  with hashmap_update_slice [OF r(1) _ _ N transfer_hash_lengths [OF T], of 0] transfer_lengths [OF T]
  have u: "receiver_at og cs 0 ?n (hashmap_update 0 (ra_hashmap (og_advertisement og)) ?r)"
    "waits (hashmap_update 0 (ra_hashmap (og_advertisement og)) ?r) = (Transferring, 0, False)"
    unfolding map by simp_all
  show ?thesis by (rule request_next_asked [OF T u]) (use N in \<open>simp_all add: HASHMAP_MAX_LEN_eq\<close>)
qed

lemma advertised:
  assumes T: "transfer_ok E a b cs og" and R: "rmp_ok (re_rmp E)" "rmp_short (re_rmp E)" and adv: "adv_ok (og_advertisement og)"
  shows "\<exists>p. og_advertise (E\<lparr>re_now := t\<rparr>) d a og = Some (Inr (), og\<lparr>og_status := Advertised, og_adv_sent := Some t,
        og_last_activity := t, og_rtt := None, og_retries_left := MAX_ADV_RETRIES\<rparr>, [p], d + 1)
      \<and> link_decrypt (re_crypto E) b (pk_data p) PACKET_MDU = Inr (adv_pack (re_rmp E) (og_advertisement og))"
proof -
  have E: "cipher_ok (re_crypto E)" "length (re_iv E d) = 16" "link_ready a = Inr ()" "lk_derived_key b = lk_derived_key a"
    using T by (simp_all add: transfer_ok_def res_env_ok_def)
  have "length (ra_hashmap (og_advertisement og)) \<le> 296"
    using length_first_slice [OF transfer_hash_lengths [OF T]] by (simp add: og_advertisement_def)
  then have len: "length (adv_pack (re_rmp E) (og_advertisement og)) < 1984" by (rule length_adv_pack [OF R(2,1) adv])
  show ?thesis
    using context_packet_token [OF E(1-3) len] link_packet_decrypts [OF E(1,2) len E(4)]
    by (simp add: og_advertise_def)
qed

lemma transfer_completes:
  assumes s: "segment_ok E a data cs og" "res_env_ok E" and R: "rmp_ok (re_rmp E)" "rmp_short (re_rmp E)"
    and B: "\<forall>B. re_bz2 E = Some B \<longrightarrow> bz2_ok B"
    and l: "link_ready a = Inr ()" "link_ready b = Inr ()" "lk_id a = lk_id b" "lk_derived_key a = lk_derived_key b"
    and sdu: "0 < resource_sdu a" "resource_sdu b = resource_sdu a" "resource_sdu a \<le> PACKET_MDU"
    and w: "\<forall>w. lk_last_resource_window b = Some w \<longrightarrow> 2 \<le> w \<and> w \<le> RES_WINDOW_MAX"
    and adv: "adv_ok (og_advertisement og)" and m: "length data \<le> max_size" "metadata_fits og data"
  shows "transfer_segment E clock a b (2 * length cs + 1) max_size d og = Some (Inr (segment_payload og data), Complete, Complete)"
proof -
  have T: "transfer_ok E a b cs og" by (rule transfer_ok_segment [OF s l sdu(3)])
  let ?og = "og\<lparr>og_status := Advertised, og_adv_sent := Some (clock 0), og_last_activity := clock 0, og_rtt := None,
    og_retries_left := MAX_ADV_RETRIES\<rparr>" and ?n = "min ((0 + 1) * HASHMAP_MAX_LEN) (length cs)"
  obtain p where p: "og_advertise (E\<lparr>re_now := clock 0\<rparr>) d a og = Some (Inr (), ?og, [p], d + 1)"
      "link_decrypt (re_crypto E) b (pk_data p) PACKET_MDU = Inr (adv_pack (re_rmp E) (og_advertisement og))"
    using advertised [OF T R adv, of "clock 0" d] by blast
  have acc: "ic_accept (E\<lparr>re_now := clock 1\<rparr>) p (adv_pack (re_rmp E) (og_advertisement og)) b
      = Some (Inr (ic_from_advertisement (clock 1) p (og_advertisement og) b))"
    using sdu by (simp add: ic_accept_def adv_unpack_pack [OF R(1) adv])
  obtain r q where r: "request_next (E\<lparr>re_now := clock 1\<rparr>) (d + 1) b (hashmap_update 0 (ra_hashmap (og_advertisement og))
      (ic_from_advertisement (clock 1) p (og_advertisement og) b)) = Some (r, [q], d + 1 + 1)" "asked E b og cs 0 0 ?n q r"
    using first_request [OF T s sdu(1,2) w, of "clock 1" "d + 1" p] by blast
  have N: "length cs < 2 ^ 64" using adv transfer_lengths [OF T] by (simp add: adv_ok_def og_advertisement_def)
  obtain s' r' where x: "exchange E clock a b (2 * length cs + 1) 2 (d + 1 + 1) q ?og r = Some (s', r')" "arrived og cs s' r'"
    using exchange_ends [OF T R N r(2) sender_at_start [OF s(1)], of "2 * length cs + 1" clock 2 "d + 1 + 1"] by fastforce
  then obtain j n where st: "sender_at og cs j (length cs) s'" "receiver_at og cs (length cs) n r'" unfolding arrived_def by blast
  obtain r'' where as: "ic_assemble E b max_size r' = (Inr (segment_payload og data), r'')" "ic_assembled r'' = Some data"
      "ic_hash r'' = og_hash og"
    using assembled [OF s B l(4) st(2) m] by blast
  have "og_expected_proof s' = og_expected_proof og" "sha_ok (re_sha E)"
    using st(1) s(2) by (simp_all add: sender_at_def res_env_ok_def)
  from proof_accepted [OF as(3) s(1) this(2) l(2) this(1)] obtain p' where
    p': "ic_prove (re_sha E) b data r'' = (r''\<lparr>ic_status := Complete\<rparr>, [p'])"
      "og_validate_proof (pk_data p') s' = (True, s'\<lparr>og_status := Complete\<rparr>)" by blast
  show ?thesis
    by (simp add: transfer_segment_def p adv_unpack_pack [OF R(1) adv] acc [simplified] r(1) [simplified] x(1) [simplified] as p')
qed

lemma segment_advertisement_ok:
  assumes "segment_ok E a data cs og" "res_env_ok E" "0 < resource_sdu a" "length data \<le> MAX_EFFICIENT_SIZE"
    "og_total_size og < 2 ^ 64" "0 < og_segment_index og" "og_segment_index og \<le> og_total_segments og" "og_total_segments og < 2 ^ 64"
    "\<forall>i. og_request_id og = Some i \<longrightarrow> addr_ok i" "hash_ok (og_original_hash og)"
  shows "adv_ok (og_advertisement og)"
proof -
  note c = segment_chunks_pos [OF assms(1-3)]
  have n: "length (og_parts og) = length cs" "length (og_part_hashes og) = length cs" "hash_ok (og_hash og)"
      "length (og_random_hash og) = RANDOM_HASH_SIZE" "\<forall>h \<in> set (og_part_hashes og). length h = 4"
      "length cs = (og_size og + resource_sdu a - 1) div resource_sdu a"
    using assms(1,2) by (auto simp: segment_ok_def hash_ok_def res_env_ok_def sha_ok_def HASH_SIZE_def map_hash_def MAPHASH_LEN_def)
  have "length cs \<le> og_size og"
  proof -
    have "og_size og + resource_sdu a - 1 \<le> og_size og * resource_sdu a"
      using c(2) assms(3) by (cases "og_size og"; cases "resource_sdu a") auto
    then show ?thesis using n(6) assms(3) by (metis div_le_mono div_mult_self_is_m)
  qed
  moreover have "length (concat (take HASHMAP_MAX_LEN (og_part_hashes og))) \<le> 296"
    by (rule length_first_slice [OF n(5)])
  ultimately show ?thesis
    using assms(4-) c n by (auto simp: adv_ok_def og_advertisement_def MAX_EFFICIENT_SIZE_def)
qed

text \<open>
  Claim C0. A segment is delivered. Whatever data of at most the size of a segment the sender prepares
  for a link, with metadata in front or not, compressed or not, the preparation ends with a segment
  whenever some draw of the random generator avoids collisions of map hashes; and over a medium that
  loses nothing the transfer of that segment ends after at most two rounds for each part and one more:
  the receiver hands out exactly the payload and both sides report the transfer complete, however the
  clock advances. The two sides share the link key and the part size, which fits a packet.
\<close>

theorem resource_delivered:
  assumes E: "res_env_ok E" "rmp_ok (re_rmp E)" "rmp_short (re_rmp E)" "\<forall>B. re_bz2 E = Some B \<longrightarrow> bz2_ok B"
    and l: "link_ready a = Inr ()" "link_ready b = Inr ()" "lk_id a = lk_id b" "lk_derived_key a = lk_derived_key b"
    and sdu: "0 < resource_sdu a" "resource_sdu b = resource_sdu a" "resource_sdu a \<le> PACKET_MDU"
    and w: "\<forall>w. lk_last_resource_window b = Some w \<longrightarrow> 2 \<le> w \<and> w \<le> RES_WINDOW_MAX"
    and d: "length data \<le> MAX_EFFICIENT_SIZE" "length data \<le> max_size" "total_size < 2 ^ 64"
      "0 < index" "index \<le> segments" "segments < 2 ^ 64"
      "\<forall>i. ro_request_id opts = Some i \<longrightarrow> addr_ok i" "\<forall>h. original = Some h \<longrightarrow> hash_ok h"
      "has_metadata \<and> index = 1 \<longrightarrow> 3 + be_decode (take 3 data) \<le> length data"
    and k: "n \<le> k"
      "no_collision [] (draw_hashes E a (fst (maybe_compress (re_bz2 E) data (should_auto_compress opts input_len) USIZE_MAX)) k)"
  shows "\<exists>og n'. from_segment_bytes E n data source input_len total_size segments index original a opts has_metadata metadata_size
           = Some (Inr og, n')
      \<and> transfer_segment E clock a b (2 * length (og_parts og) + 1) max_size n' og
           = Some (Inr (if has_metadata \<and> index = 1 then drop (3 + be_decode (take 3 data)) data else data), Complete, Complete)"
proof -
  obtain og n' cs where og: "from_segment_bytes E n data source input_len total_size segments index original a opts has_metadata metadata_size
        = Some (Inr og, n')" "segment_ok E a data cs og" "og_has_metadata og = has_metadata" "og_segment_index og = index"
    using from_segment_bytes_prepared [OF E(1) l(1) sdu(1) prod.collapse [symmetric] k] by blast
  note f = from_segment_bytes_fields [OF og(1)]
  have "hash_ok (og_hash og)" using og(2) E(1) by (simp add: segment_ok_def hash_ok_def res_env_ok_def sha_ok_def HASH_SIZE_def)
  then have "hash_ok (og_original_hash og)" using f(4) d(8) by (auto split: option.splits)
  then have "adv_ok (og_advertisement og)"
    using segment_advertisement_ok [OF og(2) E(1) sdu(1) d(1)] d f og(4) by simp
  moreover have "metadata_fits og data" using d(9) og by (simp add: metadata_fits_def)
  moreover have "length (og_parts og) = length cs" using og(2) by (simp add: segment_ok_def)
  ultimately have "transfer_segment E clock a b (2 * length (og_parts og) + 1) max_size n' og
      = Some (Inr (segment_payload og data), Complete, Complete)"
    using transfer_completes [OF og(2) E l sdu w _ d(2)] by simp
  then show ?thesis using og by (auto simp: segment_payload_def)
qed

theorem resource_delivered_witness:
  "\<exists>og n'. from_segment_bytes res_env_example 0 [0, 0, 1, 9, 5, 6] (MemorySource [5, 6]) 2 6 1 1 None link_ready_example
        resource_options_default True 1 = Some (Inr og, n')
    \<and> transfer_segment res_env_example of_nat link_ready_example link_ready_example (2 * length (og_parts og) + 1) 1000 n' og
        = Some (Inr [5, 6], Complete, Complete)"
proof -
  let ?d = "[0, 0, 1, 9, 5, 6] :: bytes"
  have "fst (maybe_compress (re_bz2 res_env_example) ?d b m) = ?d" for b m
    by (simp add: maybe_compress_def res_env_example_def)
  then have "no_collision [] (draw_hashes res_env_example link_ready_example
      (fst (maybe_compress (re_bz2 res_env_example) ?d (should_auto_compress resource_options_default 2) USIZE_MAX)) 0)"
    using one_part_no_collision [OF res_env_example_ok(1), of link_ready_example ?d 0] by (simp add: link_example_resources)
  moreover have "re_bz2 res_env_example = None" by (simp add: res_env_example_def)
  ultimately show ?thesis
    using resource_delivered [OF res_env_example_ok _ link_example_resources(1) link_example_resources(1) refl refl,
        of ?d 1000 6 1 1 resource_options_default None True 0 0 2 "MemorySource [5, 6]" 1 of_nat]
    by (simp add: link_example_resources PACKET_MDU_def MAX_EFFICIENT_SIZE_def resource_options_default_def)
qed

end
