(* ===== verification/Rns_Resource_Faults.thy ===== *)
theory Rns_Resource_Faults
  imports Rns_Resource_Transfer
begin

text \<open>
  Runs in which a transfer cannot end well: the receiver steps over a lost part when later parts arrive
  out of order, and its watchdog panics after slow rounds.
\<close>

section \<open>Events of a receiver\<close>

text \<open>What happens to one incoming resource: a part, an update of the map of hashes, a tick of the watchdog.\<close>

datatype receiver_event = PartArrives rat packet | MapArrives rat bytes | WatchdogTick rat

fun receiver_step ::
  "res_env \<Rightarrow> link \<Rightarrow> receiver_event \<Rightarrow> incoming_resource \<Rightarrow> nat \<Rightarrow> (bool \<times> incoming_resource \<times> packet list \<times> nat) option" where
  "receiver_step E l (PartArrives t p) r n = receive_part (E\<lparr>re_now := t\<rparr>) n p l r"
| "receiver_step E l (MapArrives t txt) r n =
     map_option (Pair False) (request_next (E\<lparr>re_now := t\<rparr>) n l (hashmap_update_packet (E\<lparr>re_now := t\<rparr>) txt r))"
| "receiver_step E l (WatchdogTick t) r n = map_option (\<lambda>(_, x). (False, x)) (ic_check (E\<lparr>re_now := t\<rparr>) n l r)"

fun receiver_run ::
  "res_env \<Rightarrow> link \<Rightarrow> receiver_event list \<Rightarrow> incoming_resource \<Rightarrow> nat \<Rightarrow> (bool \<times> incoming_resource \<times> packet list \<times> nat) option" where
  "receiver_run E l [] r n = Some (False, r, [], n)"
| "receiver_run E l (e # es) r n = do {
     (completed, r, ps, n) \<leftarrow> receiver_step E l e r n;
     (completed', r, ps', n) \<leftarrow> receiver_run E l es r n;
     Some (completed \<or> completed', r, ps @ ps', n) }"

section \<open>Progress of a receiver\<close>

text \<open>The fields that say how far a transfer has come; only storing a part changes them.\<close>

definition progress_of :: "incoming_resource \<Rightarrow> bytes option list \<times> nat \<times> nat \<times> int \<times> nat" where
  "progress_of r = (ic_parts r, ic_received_count r, ic_total_parts r, ic_consecutive_completed_height r, length (ic_hashmap r))"

lemma progress_rounds:
  "progress_of (fast_round rate r) = progress_of r" "progress_of (slow_round rate r) = progress_of r"
  "progress_of (note_response t l m r) = progress_of r" "progress_of (update_eifr l r) = progress_of r"
  by (simp_all add: progress_of_def fast_round_def slow_round_def note_response_def update_eifr_def Let_def)

lemma progress_upd:
  "progress_of (r\<lparr>ic_status := st\<rparr>) = progress_of r" "progress_of (r\<lparr>ic_outstanding_parts := m\<rparr>) = progress_of r"
  "progress_of (r\<lparr>ic_waiting_for_hmu := b\<rparr>) = progress_of r" "progress_of (r\<lparr>ic_retries_left := m\<rparr>) = progress_of r"
  "progress_of (r\<lparr>ic_last_activity := t\<rparr>) = progress_of r"
  "progress_of (r\<lparr>ic_last_activity := t, ic_retries_left := m\<rparr>) = progress_of r"
  "progress_of (r\<lparr>ic_retries_left := m, ic_waiting_for_hmu := b\<rparr>) = progress_of r"
  "progress_of (r\<lparr>ic_last_activity := t, ic_req_sent := t', ic_req_sent_bytes := x, ic_rtt_rxd_bytes_at_part_req := y,
     ic_req_resp := z\<rparr>) = progress_of r"
  "progress_of (r\<lparr>ic_hashmap_height := m, ic_hashmap := (ic_hashmap r)[i := h]\<rparr>) = progress_of r"
  by (simp_all add: progress_of_def)

lemma progress_end_round: "progress_of (end_round t r) = progress_of r"
  by (simp add: end_round_def Let_def progress_rounds) (simp add: progress_of_def)

lemma progress_shrink: "shrink_part_window r = Some r' \<Longrightarrow> progress_of r' = progress_of r"
  by (auto simp: shrink_part_window_def Let_def progress_of_def split: if_splits)

lemma progress_request:
  assumes "request_next E n l r = Some (r', ps, n')"
  shows "progress_of r' = progress_of r" "ic_status r' = ic_status r \<or> ic_status r' = Failed"
proof -
  have send: "progress_of r' = progress_of r \<and> (ic_status r' = ic_status r \<or> ic_status r' = Failed)"
    if "send_part_request E n l d r = Some (r', ps, n')" for d r
    using that by (auto simp: send_part_request_def progress_upd split: bind_split_asm sum.split_asm)
  have "progress_of r' = progress_of r \<and> (ic_status r' = ic_status r \<or> ic_status r' = Failed)"
    using assms
    by (auto simp: request_next_def Let_def progress_upd dest!: send split: if_split_asm prod.split_asm option.split_asm)
  then show "progress_of r' = progress_of r" "ic_status r' = ic_status r \<or> ic_status r' = Failed" by auto
qed

lemma progress_fold_map: "progress_of (fold (set_map_hash segment hashmap) is r) = progress_of r"
  by (induction "is" arbitrary: r) (simp_all add: set_map_hash_def Let_def progress_upd)

lemma status_fold_map: "ic_status (fold (set_map_hash segment hashmap) is r) = ic_status r"
  by (induction "is" arbitrary: r) (simp_all add: set_map_hash_def Let_def)

lemma progress_map_update:
  "progress_of (hashmap_update segment hashmap r) = progress_of r"
  "ic_status (hashmap_update segment hashmap r) \<in> {Transferring, Failed}"
  by (auto simp: hashmap_update_def Let_def progress_upd progress_fold_map status_fold_map)

lemma progress_map_packet:
  "progress_of (hashmap_update_packet E txt r) = progress_of r"
  "ic_status (hashmap_update_packet E txt r) \<in> {ic_status r, Transferring, Failed}"
  using progress_map_update(2)
  by (auto simp: hashmap_update_packet_def Let_def progress_upd progress_map_update(1) split: option.split)

section \<open>A part that was stepped over\<close>

definition stepped_over :: "nat \<Rightarrow> incoming_resource \<Rightarrow> bool" where
  "stepped_over g r \<longleftrightarrow> (case progress_of r of (parts, received, all_parts, height, known) \<Rightarrow>
     length parts = all_parts \<and> known = all_parts \<and> received = length (filter (\<lambda>p. p \<noteq> None) parts)
     \<and> g < all_parts \<and> parts ! g = None \<and> int g < height)"

lemma filter_length_update:
  "i < length ps \<Longrightarrow> ps ! i = None \<Longrightarrow>
     length (filter (\<lambda>p. p \<noteq> None) (ps[i := Some x])) = Suc (length (filter (\<lambda>p. p \<noteq> None) ps))"
  by (induction ps arbitrary: i) (auto split: nat.splits simp: nth_Cons')

lemma stepped_over_store:
  assumes "stepped_over g r" "ic_consecutive_completed_height r \<le> int i" "i < length (ic_hashmap r)"
  shows "stepped_over g (store_part data i r)"
  using assms filter_length_update [of i "ic_parts r" data]
  by (auto simp: stepped_over_def progress_of_def store_part_def Let_def)

lemma find_in_set: "find P xs = Some x \<Longrightarrow> x \<in> set xs"
  by (induction xs) (auto split: if_splits)

lemma stepped_over_place: "stepped_over g r \<Longrightarrow> stepped_over g (place_part sha data r)"
proof -
  assume r: "stepped_over g r"
  let ?start = "nat (max 0 (ic_consecutive_completed_height r))"
  let ?find = "find (\<lambda>i. ic_hashmap r ! i = Some (map_hash sha data (ic_random_hash r)))
    [?start..<min (?start + ic_window r) (length (ic_hashmap r))]"
  show ?thesis
  proof (cases ?find)
    case None
    then show ?thesis using r by (simp add: place_part_def Let_def)
  next
    case (Some i)
    then have "i \<in> set [?start..<min (?start + ic_window r) (length (ic_hashmap r))]"
      by (rule find_in_set)
    then have "ic_consecutive_completed_height r \<le> int i" "i < length (ic_hashmap r)" by auto
    then show ?thesis using stepped_over_store [OF r] Some by (simp add: place_part_def Let_def)
  qed
qed

lemma stepped_over_cong: "progress_of r' = progress_of r \<Longrightarrow> stepped_over g r' = stepped_over g r"
  by (simp add: stepped_over_def)

lemma stepped_over_incomplete:
  assumes "stepped_over g r"
  shows "ic_received_count r \<noteq> ic_total_parts r"
proof -
  have "ic_parts r ! g = None" "g < length (ic_parts r)" using assms by (auto simp: stepped_over_def progress_of_def)
  then have "length (filter (\<lambda>p. p \<noteq> None) (ic_parts r)) < length (ic_parts r)"
    by (intro length_filter_less [of None]) (auto simp: in_set_conv_nth)
  then show ?thesis using assms by (auto simp: stepped_over_def progress_of_def)
qed

lemma status_place: "ic_status (place_part sha data r) = ic_status r"
  by (simp add: place_part_def store_part_def Let_def split: option.split)

lemma status_end_round: "ic_status (end_round t r) = ic_status r"
  using end_keeps_waits [of t r] unfolding waits_def by (rule prod.inject [THEN iffD1, THEN conjunct1])

lemma status_eifr: "ic_status (update_eifr l r) = ic_status r"
  by (simp add: update_eifr_def Let_def)

lemma stepped_over_part:
  assumes r: "stepped_over g r" and step: "receive_part E n p l r = Some (completed, r', ps, n')"
  shows "\<not> completed \<and> stepped_over g r' \<and> ic_status r' \<in> {Transferring, Failed}"
proof (cases "ic_status r = Failed")
  case False
  define x where "x = note_response (re_now E) l (length (pk_data p))
    (r\<lparr>ic_last_activity := re_now E, ic_retries_left := ic_max_retries r\<rparr>)"
  define y where "y = place_part (re_sha E) (pk_data p) (x\<lparr>ic_status := Transferring\<rparr>)"
  have "progress_of x = progress_of r" unfolding x_def by (simp only: progress_rounds progress_upd)
  then have "stepped_over g (x\<lparr>ic_status := Transferring\<rparr>)"
    using r stepped_over_cong [of "x\<lparr>ic_status := Transferring\<rparr>" r g] by (simp only: progress_upd)
  then have y: "stepped_over g y" "ic_status y = Transferring" unfolding y_def by (simp_all add: stepped_over_place status_place)
  have "(if ic_received_count y = ic_total_parts y \<and> ic_assembled y = None
        then Some (True, y\<lparr>ic_status := Assembling\<rparr>, [], n)
        else if ic_outstanding_parts y = 0 then map_option (Pair False) (request_next E n l (end_round (re_now E) y))
        else Some (False, y, [], n)) = Some (completed, r', ps, n')"
    using False unfolding step [symmetric] receive_part_def Let_def x_def [symmetric] y_def [symmetric] by (simp only: if_False)
  then consider "\<not> completed" "request_next E n l (end_round (re_now E) y) = Some (r', ps, n')" | "\<not> completed" "r' = y"
    using stepped_over_incomplete [OF y(1)] by (auto split: if_splits)
  then show ?thesis
  proof cases
    case 1
    then show ?thesis
      using progress_request [OF 1(2)] y stepped_over_cong [of r' y g] by (simp add: progress_end_round status_end_round)
  qed (use y in simp)
qed (use r step in \<open>simp add: receive_part_def\<close>)

lemma stepped_over_step:
  assumes r: "stepped_over g r" "ic_status r \<in> {Transferring, Failed}"
    and step: "receiver_step E l e r n = Some (completed, r', ps, n')"
  shows "\<not> completed \<and> stepped_over g r' \<and> ic_status r' \<in> {Transferring, Failed}"
proof (cases e)
  case (PartArrives t p)
  then have "receive_part (E\<lparr>re_now := t\<rparr>) n p l r = Some (completed, r', ps, n')" using step by simp
  then show ?thesis by (rule stepped_over_part [OF r(1)])
next
  case (MapArrives t msg)
  let ?r = "hashmap_update_packet (E\<lparr>re_now := t\<rparr>) msg r"
  have req: "request_next (E\<lparr>re_now := t\<rparr>) n l ?r = Some (r', ps, n')" "\<not> completed" using step MapArrives by auto
  show ?thesis
    using progress_request [OF req(1)] progress_map_packet [of "E\<lparr>re_now := t\<rparr>" msg r] r req(2)
      stepped_over_cong [of r' r g] by auto
next
  case (WatchdogTick t)
  let ?E = "E\<lparr>re_now := t\<rparr>"
  obtain fails where c: "ic_check ?E n l r = Some (fails, r', ps, n')" "\<not> completed" using step WatchdogTick by auto
  then consider "progress_of r' = progress_of r" "ic_status r' \<in> {ic_status r, Failed}"
    | r1 where "shrink_part_window (update_eifr l r) = Some r1" "ic_status r = Transferring"
        "request_next ?E n l (r1\<lparr>ic_retries_left := ic_retries_left r1 - 1, ic_waiting_for_hmu := False\<rparr>) = Some (r', ps, n')"
    unfolding ic_check_def Let_def
    by (auto simp: progress_upd progress_rounds status_eifr split: if_split_asm bind_split_asm)
  then show ?thesis
  proof cases
    case 1
    then show ?thesis using r c(2) stepped_over_cong [of r' r g] by auto
  next
    case 2
    have "ic_status r1 = ic_status r"
      using 2(1) by (auto simp: shrink_part_window_def update_eifr_def Let_def split: if_splits)
    then show ?thesis
      using progress_request [OF 2(3)] progress_shrink [OF 2(1)] r c(2) stepped_over_cong [of r' r g]
      by (auto simp: progress_upd progress_rounds)
  qed
qed

lemma stepped_over_run:
  "stepped_over g r \<Longrightarrow> ic_status r \<in> {Transferring, Failed} \<Longrightarrow> receiver_run E l es r n = Some (completed, r', ps, n')
    \<Longrightarrow> \<not> completed \<and> stepped_over g r' \<and> ic_status r' \<in> {Transferring, Failed}"
proof (induction es arbitrary: r n completed ps)
  case (Cons e es)
  from Cons.prems(3) obtain c r1 ps1 n1 c' ps' where
    s: "receiver_step E l e r n = Some (c, r1, ps1, n1)" "receiver_run E l es r1 n1 = Some (c', r', ps', n')" "completed = (c \<or> c')"
    by (auto split: bind_split_asm prod.split_asm)
  from stepped_over_step [OF Cons.prems(1,2) s(1)] Cons.IH [OF _ _ s(2)] show ?case using s(3) by blast
qed simp


section \<open>How a part is stepped over\<close>

text \<open>A receiver that knows \<open>n\<close> map hashes and has exactly the parts of \<open>S\<close>.\<close>

definition has_parts :: "outgoing_resource \<Rightarrow> bytes list \<Rightarrow> nat \<Rightarrow> nat set \<Rightarrow> int \<Rightarrow> incoming_resource \<Rightarrow> bool" where
  "has_parts og cs n S h r \<longleftrightarrow> ic_random_hash r = og_random_hash og \<and> ic_total_parts r = length cs \<and> S \<subseteq> {..<length cs}
     \<and> ic_received_count r = card S \<and> ic_consecutive_completed_height r = h
     \<and> ic_parts r = map (\<lambda>i. if i \<in> S then Some (cs ! i) else None) [0..<length cs]
     \<and> ic_hashmap r = map Some (take n (og_part_hashes og)) @ replicate (length cs - n) None
     \<and> ic_window r \<le> RES_WINDOW_MAX"

lemma receiver_has_parts:
  assumes "receiver_at og cs k n r" "k \<le> length cs"
  shows "has_parts og cs n {..<k} (int k - 1) r"
  using assms by (auto simp: has_parts_def receiver_at_def intro!: nth_equalityI simp: nth_append)

lemma has_parts_note: "has_parts og cs n S h r \<Longrightarrow> has_parts og cs n S h (note_response t l m r)"
  by (auto simp: has_parts_def note_response_def fast_round_def Let_def)

lemma has_parts_upd:
  "has_parts og cs n S h (r\<lparr>ic_status := st\<rparr>) = has_parts og cs n S h r"
  "has_parts og cs n S h (r\<lparr>ic_last_activity := t, ic_retries_left := m\<rparr>) = has_parts og cs n S h r"
  by (simp_all add: has_parts_def)

lemma place_known_part:
  assumes r: "has_parts og cs n S h r" and hs: "og_part_hashes og = map (\<lambda>c. map_hash sha c (og_random_hash og)) cs"
    and g: "guarded (og_part_hashes og)" and i: "i < n" "n \<le> length cs" "nat (max 0 h) \<le> i" "i < nat (max 0 h) + ic_window r"
  shows "place_part sha (cs ! i) r = store_part (cs ! i) i r"
proof -
  let ?h = "map_hash sha (cs ! i) (og_random_hash og)" and ?start = "nat (max 0 h)"
  have map: "j < n \<Longrightarrow> ic_hashmap r ! j = Some (og_part_hashes og ! j)" for j
    using r i hs by (simp add: has_parts_def nth_append)
  have "find (\<lambda>j. ic_hashmap r ! j = Some ?h) [?start..<min (?start + ic_window r) (length (ic_hashmap r))] = Some i"
  proof (rule find_first_upt)
    show "i < min (?start + ic_window r) (length (ic_hashmap r))" using r i hs by (auto simp: has_parts_def)
    show "ic_hashmap r ! i = Some ?h" using map [of i] i hs by simp
    fix j assume j: "?start \<le> j" "j < i"
    have "ic_window r \<le> 75" using r by (simp add: has_parts_def resource_constants)
    then have "i - j \<le> COLLISION_GUARD_SIZE" using i(4) j unfolding COLLISION_GUARD_SIZE_eq by linarith
    then have "og_part_hashes og ! j \<noteq> og_part_hashes og ! i"
      using g j i hs by (simp add: guarded_def)
    then show "ic_hashmap r ! j \<noteq> Some ?h" using map [of j] i j hs by auto
  qed (use i in simp)
  then show ?thesis using r by (simp add: place_part_def has_parts_def Let_def)
qed

lemma has_parts_store:
  assumes r: "has_parts og cs n S h r" and i: "i < length cs" "i \<notin> S"
  defines "ps \<equiv> map (\<lambda>j. if j \<in> insert i S then Some (cs ! j) else None) [0..<length cs]"
  shows "has_parts og cs n (insert i S)
      (if stored_run ps (i + 1) = 0 then if int i = h + 1 then int i else h else int (i + stored_run ps (i + 1))) (store_part (cs ! i) i r)"
    "waits (store_part (cs ! i) i r) = (ic_status r, ic_outstanding_parts r - 1, ic_waiting_for_hmu r)"
    "ic_window (store_part (cs ! i) i r) = ic_window r"
proof -
  have none: "ic_parts r ! i = None" using r i by (simp add: has_parts_def)
  have ps: "(ic_parts r)[i := Some (cs ! i)] = ps"
    using r i unfolding ps_def by (auto simp: has_parts_def nth_list_update intro!: nth_equalityI)
  have "finite S" using r finite_subset by (auto simp: has_parts_def)
  then have "card (insert i S) = Suc (card S)" using i by simp
  then show "has_parts og cs n (insert i S)
      (if stored_run ps (i + 1) = 0 then if int i = h + 1 then int i else h else int (i + stored_run ps (i + 1))) (store_part (cs ! i) i r)"
    using r i none ps unfolding store_part_def Let_def by (auto simp: has_parts_def ps_def)
  show "waits (store_part (cs ! i) i r) = (ic_status r, ic_outstanding_parts r - 1, ic_waiting_for_hmu r)"
    "ic_window (store_part (cs ! i) i r) = ic_window r"
    using none by (simp_all add: store_part_def waits_def Let_def)
qed

lemma has_parts_stepped_over:
  assumes "has_parts og cs n S h r" "n \<le> length (og_part_hashes og)" "length (og_part_hashes og) = length cs" "g < length cs" "g \<notin> S" "int g < h"
  shows "stepped_over g r"
proof -
  let ?ps = "map (\<lambda>i. if i \<in> S then Some (cs ! i) else None) [0..<length cs]"
  have "{i. i < length ?ps \<and> ?ps ! i \<noteq> None} = S" using assms(1) by (auto simp: has_parts_def split: if_splits)
  then have "length (filter (\<lambda>p. p \<noteq> None) ?ps) = card S" unfolding length_filter_conv_card by simp
  then show ?thesis using assms by (simp add: stepped_over_def progress_of_def has_parts_def)
qed

text \<open>A part that arrives while others are outstanding asks for nothing.\<close>

lemma receive_outstanding:
  assumes r: "has_parts og cs n S h r" "waits r = (Transferring, m, w)" and hs: "og_part_hashes og = map (\<lambda>c. map_hash (re_sha E) c (og_random_hash og)) cs"
    and g: "guarded (og_part_hashes og)" and i: "i < n" "n \<le> length cs" "nat (max 0 h) \<le> i" "i < nat (max 0 h) + ic_window r" "i \<notin> S"
    and m: "2 \<le> m" "card S + 1 < length cs" and p: "pk_data p = cs ! i"
  shows "\<exists>y. receive_part (E\<lparr>re_now := t\<rparr>) d p l r = Some (False, store_part (cs ! i) i y, [], d)
      \<and> has_parts og cs n S h y \<and> waits y = (Transferring, m, w) \<and> ic_window y = ic_window r"
proof -
  define y where "y = (note_response t l (length (pk_data p)) (r\<lparr>ic_last_activity := t, ic_retries_left := ic_max_retries r\<rparr>))\<lparr>ic_status := Transferring\<rparr>"
  have y: "has_parts og cs n S h y" unfolding y_def has_parts_upd by (intro has_parts_note) (simp add: has_parts_upd r)
  have win: "ic_window y = ic_window r" by (simp add: y_def note_response_def fast_round_def Let_def)
  have w: "waits y = (Transferring, m, w)"
    using r(2) note_keeps_waits [of t l "length (pk_data p)" "r\<lparr>ic_last_activity := t, ic_retries_left := ic_max_retries r\<rparr>"]
    by (simp add: y_def waits_def)
  have place: "place_part (re_sha E) (cs ! i) y = store_part (cs ! i) i y"
    by (rule place_known_part [OF y hs g i(1-3)]) (use i win in simp)
  note s = has_parts_store [OF y order_less_le_trans [OF i(1,2)] i(5)]
  have "ic_received_count (store_part (cs ! i) i y) = card S + 1"
    using s(1) i(5) r(1) finite_subset [of S "{..<length cs}"] by (simp add: has_parts_def)
  moreover have "ic_total_parts (store_part (cs ! i) i y) = length cs" using s(1) by (simp add: has_parts_def)
  moreover have "ic_outstanding_parts (store_part (cs ! i) i y) = m - 1" using s(2) w by (simp add: waits_def)
  moreover have "ic_status r \<noteq> Failed" using r(2) by (simp add: waits_def)
  ultimately show ?thesis
    using m y w win unfolding receive_part_def Let_def now_set p y_def [symmetric, unfolded p] place by auto
qed

lemma stored_run_pos: "i < length ps \<Longrightarrow> ps ! i \<noteq> None \<Longrightarrow> 0 < stored_run ps i"
  by (simp add: stored_run_def Cons_nth_drop_Suc [symmetric])

lemma late_parts_step_over:
  assumes r: "receiver_at og cs k n r" "waits r = (Transferring, m, w)"
    and hs: "og_part_hashes og = map (\<lambda>c. map_hash (re_sha E) c (og_random_hash og)) cs" and g: "guarded (og_part_hashes og)"
    and k: "k + 2 < n" "n \<le> length cs" "4 \<le> ic_window r" and m: "3 \<le> m"
    and p: "pk_data p = cs ! (k + 1)" "pk_data p' = cs ! (k + 2)"
  shows "\<exists>r'. receiver_run E l [PartArrives t p', PartArrives t' p] r d = Some (False, r', [], d)
    \<and> stepped_over k r' \<and> ic_status r' = Transferring"
proof -
  let ?S = "insert (k + 2) {..<k}" and ?h = "int k - 1"
  have R: "has_parts og cs n {..<k} ?h r" by (rule receiver_has_parts [OF r(1)]) (use k in simp)
  have start: "nat (max 0 ?h) \<le> k + 2" "k + 2 < nat (max 0 ?h) + ic_window r" "nat (max 0 ?h) \<le> k + 1"
    "k + 1 < nat (max 0 ?h) + ic_window r" using k by linarith+
  obtain y where y: "receive_part (E\<lparr>re_now := t\<rparr>) d p' l r = Some (False, store_part (cs ! (k + 2)) (k + 2) y, [], d)"
      "has_parts og cs n {..<k} ?h y" "waits y = (Transferring, m, w)" "ic_window y = ic_window r"
    using receive_outstanding [OF R r(2) hs g k(1,2) start(1,2) _ _ _ p(2), of t d l] k m by auto
  let ?r = "store_part (cs ! (k + 2)) (k + 2) y"
  let ?ps = "map (\<lambda>j. if j \<in> ?S then Some (cs ! j) else None) [0..<length cs]"
  have "stored_run ?ps (k + 2 + 1) = 0"
  proof (cases "k + 2 + 1 < length ?ps")
    case True
    then show ?thesis by (rule stored_run_none) (use True in auto)
  qed (simp add: stored_run_end)
  then have s: "has_parts og cs n ?S ?h ?r" "waits ?r = (Transferring, m - 1, w)" "ic_window ?r = ic_window r"
    using has_parts_store [OF y(2), of "k + 2"] y k by (simp_all add: waits_def)
  have m1: "2 \<le> m - 1" using m by simp
  obtain z where z: "receive_part (E\<lparr>re_now := t'\<rparr>) d p l ?r = Some (False, store_part (cs ! (k + 1)) (k + 1) z, [], d)"
      "has_parts og cs n ?S ?h z" "waits z = (Transferring, m - 1, w)"
    using receive_outstanding [OF s(1,2) hs g _ k(2) start(3) _ _ m1 _ p(1), of t' d l] k s(3) start(4) by auto
  let ?T = "insert (k + 1) ?S"
  let ?qs = "map (\<lambda>j. if j \<in> ?T then Some (cs ! j) else None) [0..<length cs]"
  have "0 < stored_run ?qs (k + 1 + 1)" using k by (intro stored_run_pos) auto
  then have "has_parts og cs n ?T (int (k + 1 + stored_run ?qs (k + 1 + 1))) (store_part (cs ! (k + 1)) (k + 1) z)"
    using has_parts_store(1) [OF z(2), of "k + 1"] k by simp
  then have "stepped_over k (store_part (cs ! (k + 1)) (k + 1) z)"
    by (rule has_parts_stepped_over) (use k hs in auto)
  moreover have "ic_status (store_part (cs ! (k + 1)) (k + 1) z) = Transferring"
    using z(3) by (simp add: store_part_def waits_def Let_def)
  ultimately show ?thesis using y(1) z(1) by simp
qed

lemma receiver_run_append:
  "receiver_run E l (es @ es') r n = do {
     (c, r, ps, n) \<leftarrow> receiver_run E l es r n;
     (c', r, ps', n) \<leftarrow> receiver_run E l es' r n;
     Some (c \<or> c', r, ps @ ps', n) }"
  by (induction es arbitrary: r n) (simp_all add: case_prod_unfold ac_simps split: bind_split)

text \<open>
  Claim C0. A lost part that is overtaken is never asked for again. When the part the receiver waits
  for is lost and the two behind it arrive in reverse order, then whatever parts, updates of the map of
  hashes and ticks of the watchdog follow, in whatever order and however often, the lost part never gets
  to its place, not even from a packet that carries it, and the transfer never completes.
\<close>

theorem overtaken_part_lost:
  assumes "receiver_at og cs k n r" "waits r = (Transferring, m, w)"
    and "og_part_hashes og = map (\<lambda>c. map_hash (re_sha E) c (og_random_hash og)) cs" "guarded (og_part_hashes og)"
    and "k + 2 < n" "n \<le> length cs" "4 \<le> ic_window r" "3 \<le> m"
    and "pk_data p = cs ! (k + 1)" "pk_data p' = cs ! (k + 2)"
    and run: "receiver_run E l (PartArrives t p' # PartArrives t' p # es) r d = Some (completed, r', ps, d')"
  shows "\<not> completed \<and> ic_parts r' ! k = None \<and> ic_status r' \<in> {Transferring, Failed}"
proof -
  obtain x where x: "receiver_run E l [PartArrives t p', PartArrives t' p] r d = Some (False, x, [], d)"
      "stepped_over k x" "ic_status x = Transferring"
    using late_parts_step_over [OF assms(1-10), of l t t' d] by blast
  have "receiver_run E l ([PartArrives t p', PartArrives t' p] @ es) r d = Some (completed, r', ps, d')" using run by simp
  then obtain c ps' where "receiver_run E l es x d = Some (c, r', ps', d')" "completed = c"
    unfolding receiver_run_append x(1) by (auto split: bind_split_asm)
  then show ?thesis using stepped_over_run [OF x(2), of E l es d c r' ps' d'] x(3) by (auto simp: stepped_over_def progress_of_def)
qed

section \<open>A slow link\<close>

text \<open>The window and its limits, with the counts of fast and of very slow rounds.\<close>

definition window_state :: "incoming_resource \<Rightarrow> nat \<times> nat \<times> nat \<times> nat \<times> nat \<times> nat" where
  "window_state r = (ic_window r, ic_window_min r, ic_window_max r, ic_window_flexibility r, ic_fast_rate_rounds r, ic_very_slow_rate_rounds r)"

text \<open>At the time \<open>t\<close> the round since the last request was very slow.\<close>

definition very_slow :: "rat \<Rightarrow> incoming_resource \<Rightarrow> bool" where
  "very_slow t r \<longleftrightarrow> 0 < ic_req_sent r \<and> ic_req_sent r < t
     \<and> of_nat (ic_rtt_rxd_bytes r - ic_rtt_rxd_bytes_at_part_req r) / (t - ic_req_sent r) < RATE_VERY_SLOW"

lemma slow_round_window:
  assumes "rate < RATE_VERY_SLOW" "window_state r = (win, lo, hi, flex, 0, k)" "k < 2"
  shows "window_state (slow_round rate r) = (win, lo, if k = 1 then 4 else hi, flex, 0, k + 1)"
  using assms by (simp add: slow_round_def window_state_def Let_def resource_constants)

lemma slow_end_round:
  assumes "very_slow t r" "window_state r = (win, lo, hi, 4, 0, k)" "k < 2" "win < hi"
  shows "window_state (end_round t r) = (win + 1, if win + 1 - lo > 3 then lo + 1 else lo, if k = 1 then 4 else hi, 4, 0, k + 1)"
proof -
  define r1 where "r1 = (let r = r\<lparr>ic_window := ic_window r + 1\<rparr>
    in if ic_window r - ic_window_min r > ic_window_flexibility r - 1 then r\<lparr>ic_window_min := ic_window_min r + 1\<rparr> else r)"
  have r1: "window_state r1 = (win + 1, if win + 1 - lo > 3 then lo + 1 else lo, hi, 4, 0, k)" "ic_req_sent r1 = ic_req_sent r"
    "ic_rtt_rxd_bytes r1 = ic_rtt_rxd_bytes r" "ic_rtt_rxd_bytes_at_part_req r1 = ic_rtt_rxd_bytes_at_part_req r"
    using assms(2) by (simp_all add: r1_def window_state_def Let_def)
  define rate where "rate = of_nat (ic_rtt_rxd_bytes r - ic_rtt_rxd_bytes_at_part_req r) / (t - ic_req_sent r)"
  have rate: "rate < RATE_VERY_SLOW" "\<not> rate > RATE_FAST" "0 < ic_req_sent r" "0 < t - ic_req_sent r"
    using assms(1) by (simp_all add: very_slow_def rate_def RATE_VERY_SLOW_def RATE_FAST_def)
  define r2 where "r2 = r1\<lparr>ic_req_data_rtt_rate := rate, ic_rtt_rxd_bytes_at_part_req := ic_rtt_rxd_bytes r\<rparr>"
  have "end_round t r = slow_round rate (fast_round rate r2)"
    using assms(2,4) rate(3,4) unfolding end_round_def by (simp add: window_state_def Let_def r1_def rate_def r2_def)
  moreover have "fast_round rate r2 = r2" using rate(2) by (simp add: fast_round_def)
  moreover have "window_state r2 = window_state r1" by (simp add: r2_def window_state_def)
  ultimately show ?thesis using slow_round_window [OF rate(1), of r2] r1(1) assms(3) by simp
qed

text \<open>
  Claim C0. On a very slow link the watchdog panics. After the first two rounds of a transfer, when both
  were slower than the threshold for very slow links, the upper limit of the window lies below the
  window, and the first check whose deadline has passed subtracts the larger from the smaller number.
\<close>

theorem slow_link_watchdog_panics:
  assumes "window_state r = (RES_WINDOW, RES_WINDOW_MIN, RES_WINDOW_MAX_SLOW, RES_WINDOW_FLEXIBILITY, 0, 0)"
    and "very_slow t r" "window_state r' = window_state (end_round t r)"
    and "very_slow t' r'" "window_state r'' = window_state (end_round t' r')"
    and "ic_status r'' = Transferring" "0 < ic_retries_left r''" "sleep_time (re_now E) (update_eifr l r'') < 0"
  shows "ic_check E n l r'' = None"
proof -
  have "window_state r = (4, 2, 10, 4, 0, 0)" using assms(1) by (simp add: resource_constants)
  then have "window_state r' = (5, 2, 10, 4, 0, 1)" using slow_end_round [OF assms(2)] assms(3) by simp
  then have "window_state r'' = (6, 3, 4, 4, 0, 2)" using slow_end_round [OF assms(4)] assms(5) by simp
  then have "window_state (update_eifr l r'') = (6, 3, 4, 4, 0, 2)" by (simp add: window_state_def update_eifr_def Let_def)
  then have "shrink_part_window (update_eifr l r'') = None" by (simp add: shrink_part_window_def window_state_def Let_def)
  moreover have "ic_retries_left (update_eifr l r'') = ic_retries_left r''" by (simp add: update_eifr_def Let_def)
  ultimately show ?thesis using assms(6-8) by (simp add: ic_check_def status_eifr)
qed


section \<open>Examples\<close>

definition chunks_example :: "bytes list" where
  "chunks_example = [[1], [2], [3]]"

definition outgoing_example :: outgoing_resource where
  "outgoing_example = \<lparr>og_link_id = lk_id link_ready_example, og_status = Advertised, og_hash = Hash (replicate 32 1),
     og_truncated_hash = AddressHash (replicate 16 1), og_expected_proof = Hash (replicate 32 2),
     og_original_hash = Hash (replicate 32 1), og_random_hash = [1, 2, 3, 4], og_size = 1000, og_total_size = 1000,
     og_compressed = False, og_encrypted = True, og_split = False, og_has_metadata = False, og_metadata_size = 0,
     og_segment_index = 1, og_total_segments = 1, og_request_id = None, og_is_response = False,
     og_auto_compress = False, og_auto_compress_limit = None, og_input_len = 900, og_sdu = 464,
     og_parts = map (part_packet link_ready_example) chunks_example,
     og_part_hashes = map (\<lambda>c. map_hash (cr_sha toy_crypto) c [1, 2, 3, 4]) chunks_example,
     og_part_sent = [False, False, False], og_hashmap = [], og_sent_parts = 0, og_receiver_min_consecutive_height = 0,
     og_rtt = None, og_adv_sent = None, og_last_activity = 0, og_last_part_sent = 0, og_retries_left = 4, og_max_retries = 16,
     og_timeout = 10, og_timeout_factor = 6, og_sender_grace_time = 10, og_source = None\<rparr>"

definition incoming_example :: incoming_resource where
  "incoming_example = (ic_from_advertisement 0 (part_packet link_ready_example []) (og_advertisement outgoing_example) link_ready_example)
     \<lparr>ic_hashmap := map Some (og_part_hashes outgoing_example), ic_hashmap_height := 3, ic_outstanding_parts := 3, ic_req_sent := 1\<rparr>"

lemma incoming_example_at: "receiver_at outgoing_example chunks_example 0 3 incoming_example" "waits incoming_example = (Transferring, 3, False)"
    "window_state incoming_example = (RES_WINDOW, RES_WINDOW_MIN, RES_WINDOW_MAX_SLOW, RES_WINDOW_FLEXIBILITY, 0, 0)"
  by (simp_all add: receiver_at_def waits_def window_state_def incoming_example_def ic_from_advertisement_def link_example_resources Let_def
      og_advertisement_def outgoing_example_def chunks_example_def ra_flag_defs og_flags_def resource_flags resource_constants
      numeral_3_eq_3)

theorem overtaken_part_lost_witness:
  "\<exists>r'. receiver_run res_env_example link_ready_example [PartArrives 2 (part_packet link_ready_example [3]),
        PartArrives 3 (part_packet link_ready_example [2])] incoming_example 0 = Some (False, r', [], 0)
     \<and> ic_parts r' ! 0 = None \<and> ic_status r' \<in> {Transferring, Failed}"
proof -
  let ?p = "part_packet link_ready_example [2]" and ?p' = "part_packet link_ready_example [3]"
  have hs: "og_part_hashes outgoing_example = map (\<lambda>c. map_hash (re_sha res_env_example) c (og_random_hash outgoing_example)) chunks_example"
    by (simp add: outgoing_example_def res_env_example_def)
  have g: "guarded (og_part_hashes outgoing_example)"
    by (auto simp: guarded_def outgoing_example_def chunks_example_def map_hash_def toy_crypto_def resource_constants
        less_Suc_eq numeral_3_eq_3 nth_Cons split: nat.splits)
  have k: "0 + 2 < (3 :: nat)" "3 \<le> length chunks_example" "4 \<le> ic_window incoming_example" "3 \<le> (3 :: nat)"
    using incoming_example_at(3) by (simp_all add: chunks_example_def window_state_def resource_constants)
  have p: "pk_data ?p = chunks_example ! (0 + 1)" "pk_data ?p' = chunks_example ! (0 + 2)"
    by (simp_all add: part_packet_def link_packet_def chunks_example_def PACKET_MDU_def)
  obtain r' where "receiver_run res_env_example link_ready_example [PartArrives 2 ?p', PartArrives 3 ?p] incoming_example 0 = Some (False, r', [], 0)"
    using late_parts_step_over [OF incoming_example_at(1,2) hs g k p] by blast
  with overtaken_part_lost [OF incoming_example_at(1,2) hs g k p this] show ?thesis by blast
qed

theorem slow_link_watchdog_panics_witness:
  "ic_check (res_env_example\<lparr>re_now := 1000000000\<rparr>) 0 link_ready_example (incoming_example\<lparr>ic_window := 6, ic_window_min := 3, ic_window_max := 4, ic_very_slow_rate_rounds := 2\<rparr>) = None"
proof -
  let ?r = incoming_example and ?r1 = "incoming_example\<lparr>ic_window := 5, ic_very_slow_rate_rounds := 1\<rparr>"
  have s: "very_slow 100 ?r" "very_slow 100 ?r1"
    by (simp_all add: very_slow_def incoming_example_def ic_from_advertisement_def Let_def RATE_VERY_SLOW_def)
  have w: "window_state ?r = (4, 2, 10, 4, 0, 0)" using incoming_example_at(3) by (simp add: resource_constants)
  have w1: "window_state ?r1 = (5, 2, 10, 4, 0, 1)" using w by (simp add: window_state_def)
  show ?thesis
  proof (rule slow_link_watchdog_panics [OF incoming_example_at(3) s(1) _ s(2)])
    show "window_state ?r1 = window_state (end_round 100 ?r)" using w1 slow_end_round [OF s(1) w] by simp
    show "window_state (?r\<lparr>ic_window := 6, ic_window_min := 3, ic_window_max := 4, ic_very_slow_rate_rounds := 2\<rparr>) = window_state (end_round 100 ?r1)"
      using slow_end_round [OF s(2) w1] w by (simp add: window_state_def)
  qed (simp_all add: incoming_example_def ic_from_advertisement_def Let_def res_env_example_def sleep_time_def update_eifr_def
      link_example_resources PART_TIMEOUT_FACTOR_def RETRY_GRACE_TIME_def
      resource_constants)
qed

end
