(* ===== verification/Spec2Isabelle.thy ===== *)
theory Spec2Isabelle
  imports Rns_Packet Rns_Hdlc Rns_Kiss Rns_Packet_Cache Rns_Announce_Table Rns_Tunnels Rns_Ifac Rns_Link_Watch
    Rns_Destination Rns_Channel_Runs Rns_Inbound Rns_Node_Run Rns_Resource_Delivery Rns_Resource_Faults
begin

text \<open>
  Verification of Reticulum-rs, a Rust implementation of the Reticulum network stack.
\<close>

end
